(* ===== verification/Tom_Prelude.thy ===== *)
theory Tom_Prelude
  imports
    Complex_Main
    "HOL-Library.AList"
    "HOL-Library.Word"
    "HOL-Library.Char_ord"
    "HOL-Library.List_Lexorder"
begin

section \<open>Shared vocabulary of the ToM protocol development\<close>

text \<open>
  What every component theory uses: names for the machine types of the Rust sources,
  saturating arithmetic on words, hash maps and hash sets of the standard library as
  association lists and duplicate-free lists, big-endian digits (for the hexadecimal
  names of nodes), and interfaces stated as locales: an event-driven machine with an
  invariant, one whose invariant carries a counter, one that refines an abstract machine, and
  a replay filter.

  A \<^emph>\<open>hash map\<close> is an association list whose keys are distinct. The list order stands for
  the iteration order, which Rust leaves unspecified: a lemma about every such list
  covers every iteration order. \<^emph>\<open>Hash sets\<close> that the code iterates over are
  duplicate-free lists for the same reason.
\<close>

subsection \<open>Machine types\<close>

type_synonym u8 = "8 word"
type_synonym u32 = "32 word"
type_synonym u64 = "64 word"
type_synonym bytes = "u8 list"

type_synonym ('k, 'v) hmap = "('k \<times> 'v) list"
type_synonym 'a hset = "'a list"

type_synonym instant = nat \<comment> \<open>a reading of the monotonic clock, in nanoseconds\<close>

abbreviation secs :: "nat \<Rightarrow> nat" where
  "secs n \<equiv> n * 1000000000"

text \<open>What a call reads from outside: the two clocks (once per call) and a random UUID.\<close>

record ctx =
  now_ms :: u64
  now_instant :: instant
  fresh_uuid :: string

named_theorems hm_simps \<open>look-ups after map operations\<close>
named_theorems hm_wfs \<open>map operations keep the keys distinct\<close>

subsection \<open>Saturating arithmetic\<close>

definition saturating_sub :: "'a::len word \<Rightarrow> 'a word \<Rightarrow> 'a word" where
  "saturating_sub a b = (if a < b then 0 else a - b)"

definition saturating_add :: "'a::len word \<Rightarrow> 'a word \<Rightarrow> 'a word" where
  "saturating_add a b = (if a + b < a then - 1 else a + b)"

lemma unat_saturating_sub: "unat (saturating_sub a b) = unat a - unat b"
proof (cases "a < b")
  case True
  then show ?thesis by (simp add: saturating_sub_def word_less_nat_alt)
next
  case False
  then have "b \<le> a" by simp
  then show ?thesis using False
    by (simp add: saturating_sub_def unat_sub)
qed

lemma saturating_add_ge: "a \<le> saturating_add a b"
  by (auto simp: saturating_add_def)

lemma unat_saturating_add_le: "unat (saturating_add a b) \<le> unat a + unat b"
proof (cases "a + b < a")
  case True
  then have "\<not> unat a + unat b < 2 ^ LENGTH('a)"
    using no_olen_add_nat [of a b] by (auto simp: not_le)
  moreover have "unat (saturating_add a b) < 2 ^ LENGTH('a)"
    by (rule unsigned_less)
  ultimately show ?thesis by linarith
next
  case False
  then show ?thesis
    by (simp add: saturating_add_def unat_word_ariths)
qed

subsection \<open>Hash maps\<close>

abbreviation hm_get :: "('k, 'v) hmap \<Rightarrow> 'k \<Rightarrow> 'v option" where
  "hm_get m k \<equiv> map_of m k"

abbreviation hm_insert :: "'k \<Rightarrow> 'v \<Rightarrow> ('k, 'v) hmap \<Rightarrow> ('k, 'v) hmap" where
  "hm_insert k v m \<equiv> AList.update k v m"

abbreviation hm_remove :: "'k \<Rightarrow> ('k, 'v) hmap \<Rightarrow> ('k, 'v) hmap" where
  "hm_remove k m \<equiv> AList.delete k m"

abbreviation hm_contains :: "('k, 'v) hmap \<Rightarrow> 'k \<Rightarrow> bool" where
  "hm_contains m k \<equiv> map_of m k \<noteq> None"

abbreviation hm_wf :: "('k, 'v) hmap \<Rightarrow> bool" where
  "hm_wf m \<equiv> distinct (map fst m)"

abbreviation hm_keys :: "('k, 'v) hmap \<Rightarrow> 'k list" where
  "hm_keys m \<equiv> map fst m"

abbreviation hm_values :: "('k, 'v) hmap \<Rightarrow> 'v list" where
  "hm_values m \<equiv> map snd m"

text \<open>\<open>retain\<close>, \<open>get_mut\<close> and \<open>values_mut\<close> of the standard library.\<close>

definition hm_retain :: "('k \<Rightarrow> 'v \<Rightarrow> bool) \<Rightarrow> ('k, 'v) hmap \<Rightarrow> ('k, 'v) hmap" where
  "hm_retain P m = filter (\<lambda>(k, v). P k v) m"

definition hm_modify :: "'k \<Rightarrow> ('v \<Rightarrow> 'v) \<Rightarrow> ('k, 'v) hmap \<Rightarrow> ('k, 'v) hmap" where
  "hm_modify k f m = map (\<lambda>(k', v). (k', if k' = k then f v else v)) m"

definition hm_map_values :: "('v \<Rightarrow> 'w) \<Rightarrow> ('k, 'v) hmap \<Rightarrow> ('k, 'w) hmap" where
  "hm_map_values f m = map (\<lambda>(k, v). (k, f v)) m"

lemma hm_get_insert [hm_simps]:
  "hm_get (hm_insert k v m) k' = (if k' = k then Some v else hm_get m k')"
  by (simp add: update_conv')

lemma hm_get_remove [hm_simps]:
  "hm_get (hm_remove k m) k' = (if k' = k then None else hm_get m k')"
  by (simp add: delete_conv')

lemma hm_get_modify [hm_simps]:
  "hm_get (hm_modify k f m) k' =
     (if k' = k then map_option f (hm_get m k') else hm_get m k')"
  by (induction m) (auto simp: hm_modify_def)

lemma hm_get_map_values [hm_simps]:
  "hm_get (hm_map_values f m) k = map_option f (hm_get m k)"
  by (induction m) (auto simp: hm_map_values_def)

lemma hm_get_retain [hm_simps]:
  assumes "hm_wf m"
  shows "hm_get (hm_retain P m) k =
    (case hm_get m k of None \<Rightarrow> None | Some v \<Rightarrow> if P k v then Some v else None)"
  using assms
proof (induction m)
  case Nil
  then show ?case by (simp add: hm_retain_def)
next
  case (Cons kv m)
  obtain k' v where kv: "kv = (k', v)" by force
  with Cons.prems have fresh: "k' \<notin> fst ` set m" and wf: "hm_wf m" by auto
  have none: "hm_get m k' = None" using fresh by (simp add: map_of_eq_None_iff)
  show ?case
    using Cons.IH [OF wf] none by (auto simp: kv hm_retain_def split: option.splits)
qed

lemma hm_wf_insert [hm_wfs]: "hm_wf m \<Longrightarrow> hm_wf (hm_insert k v m)"
  by (rule distinct_update)

lemma hm_wf_remove [hm_wfs]: "hm_wf m \<Longrightarrow> hm_wf (hm_remove k m)"
  by (rule distinct_delete)

lemma keys_modify [simp]: "hm_keys (hm_modify k f m) = hm_keys m"
  by (induction m) (auto simp: hm_modify_def)

lemma keys_map_values [simp]: "hm_keys (hm_map_values f m) = hm_keys m"
  by (induction m) (auto simp: hm_map_values_def)

lemma length_modify [simp]: "length (hm_modify k f m) = length m"
  by (simp add: hm_modify_def)

lemma length_map_values [simp]: "length (hm_map_values f m) = length m"
  by (simp add: hm_map_values_def)

lemma hm_wf_retain [hm_wfs]: "hm_wf m \<Longrightarrow> hm_wf (hm_retain P m)"
  by (auto simp: hm_retain_def distinct_map inj_on_def)

lemma length_retain_le: "length (hm_retain P m) \<le> length m"
  by (simp add: hm_retain_def)

lemma length_remove_le: "length (hm_remove k m) \<le> length m"
  by (simp add: AList.delete_eq)

lemma length_insert:
  "length (hm_insert k v m) = (if hm_contains m k then length m else Suc (length m))"
  by (induction m) auto

lemma length_insert_le: "length (hm_insert k v m) \<le> Suc (length m)"
  by (simp add: length_insert)

lemma length_remove:
  "hm_wf m \<Longrightarrow> hm_contains m k \<Longrightarrow> Suc (length (hm_remove k m)) = length m"
proof (induction m)
  case Nil
  then show ?case by simp
next
  case (Cons kv m)
  obtain k' v where kv: "kv = (k', v)" by force
  show ?case
  proof (cases "k' = k")
    case True
    with Cons.prems have "k \<notin> fst ` set m" by (auto simp: kv)
    then have "hm_remove k m = m" by (simp add: delete_idem)
    then show ?thesis by (simp add: kv True)
  next
    case False
    with Cons.prems Cons.IH show ?thesis by (auto simp: kv)
  qed
qed

lemma hm_get_in_set: "hm_get m k = Some v \<Longrightarrow> (k, v) \<in> set m"
  by (rule map_of_SomeD)

lemma wf_fold_remove: "hm_wf m \<Longrightarrow> hm_wf (fold hm_remove ks m)"
  by (induction ks arbitrary: m) (auto simp: hm_wfs)

lemma hm_in_set_get: "hm_wf m \<Longrightarrow> (k, v) \<in> set m \<Longrightarrow> hm_get m k = Some v"
  by (rule map_of_is_SomeI)

lemma hm_contains_keys: "hm_contains m k \<longleftrightarrow> k \<in> set (hm_keys m)"
  by (auto simp: map_of_eq_None_iff)

lemma set_insert_subset: "set (hm_insert k v m) \<subseteq> insert (k, v) (set m)"
  by (induction m) auto

lemma set_remove_subset: "set (hm_remove k m) \<subseteq> set m"
  by (auto simp: AList.delete_eq)

lemma set_retain: "set (hm_retain P m) = {(k, v) \<in> set m. P k v}"
  by (auto simp: hm_retain_def)

subsection \<open>Hash sets that the code iterates over\<close>

definition hs_insert :: "'a \<Rightarrow> 'a hset \<Rightarrow> 'a hset" where
  "hs_insert x s = (if x \<in> set s then s else s @ [x])"

definition hs_remove :: "'a \<Rightarrow> 'a hset \<Rightarrow> 'a hset" where
  "hs_remove x s = filter (\<lambda>y. y \<noteq> x) s"

lemma set_hs_insert [simp]: "set (hs_insert x s) = insert x (set s)"
  by (auto simp: hs_insert_def)

lemma set_hs_remove [simp]: "set (hs_remove x s) = set s - {x}"
  by (auto simp: hs_remove_def)

lemma distinct_hs_insert [simp]: "distinct (hs_insert x s) = distinct s"
  by (auto simp: hs_insert_def)

lemma distinct_hs_remove [simp]: "distinct s \<Longrightarrow> distinct (hs_remove x s)"
  by (simp add: hs_remove_def)

lemma distinct_fold_hs [simp]:
  "distinct s \<Longrightarrow> distinct (fold hs_insert xs s)"
  "distinct s \<Longrightarrow> distinct (fold hs_remove xs s)"
  by (induction xs arbitrary: s) simp_all

lemma length_hs_insert_le: "length (hs_insert x s) \<le> Suc (length s)"
  by (simp add: hs_insert_def)

subsection \<open>Big-endian digits\<close>

fun digits_be :: "nat \<Rightarrow> nat \<Rightarrow> nat \<Rightarrow> nat list" where
  "digits_be b 0 n = []"
| "digits_be b (Suc k) n = (n div b ^ k) # digits_be b k (n mod b ^ k)"

lemma length_digits_be [simp]: "length (digits_be b k n) = k"
  by (induction k arbitrary: n) auto

lemma digits_be_bound:
  "0 < b \<Longrightarrow> n < b ^ k \<Longrightarrow> d \<in> set (digits_be b k n) \<Longrightarrow> d < b"
proof (induction k arbitrary: n)
  case 0
  then show ?case by simp
next
  case (Suc k)
  have "n div b ^ k < b"
    using Suc.prems by (simp add: less_mult_imp_div_less mult.commute)
  moreover have "n mod b ^ k < b ^ k" using Suc.prems by simp
  ultimately show ?case using Suc.prems Suc.IH [of "n mod b ^ k"] by auto
qed

lemma digits_be_less:
  "0 < b \<Longrightarrow> n < m \<Longrightarrow> m < b ^ k \<Longrightarrow> digits_be b k n < digits_be b k m"
proof (induction k arbitrary: n m)
  case 0
  then show ?case by simp
next
  case (Suc k)
  let ?p = "b ^ k"
  show ?case
  proof (cases "n div ?p = m div ?p")
    case True
    have "n mod ?p < m mod ?p"
      using Suc.prems(2) True div_mult_mod_eq [of n ?p] div_mult_mod_eq [of m ?p]
      by (metis add_less_cancel_left)
    moreover have "m mod ?p < ?p" using Suc.prems(1) by simp
    ultimately have "digits_be b k (n mod ?p) < digits_be b k (m mod ?p)"
      using Suc.IH Suc.prems(1) by blast
    with True show ?thesis by simp
  next
    case False
    have "n div ?p \<le> m div ?p" using Suc.prems(2) by (simp add: div_le_mono)
    with False have "n div ?p < m div ?p" by simp
    then show ?thesis by simp
  qed
qed

lemma foldl_digits: "0 < b \<Longrightarrow> n < b ^ k \<Longrightarrow> foldl (\<lambda>a d. a * b + d) a (digits_be b k n) = a * b ^ k + n"
proof (induction k arbitrary: a n)
  case 0
  then show ?case by simp
next
  case (Suc k)
  have "foldl (\<lambda>a d. a * b + d) (a * b + n div b ^ k) (digits_be b k (n mod b ^ k)) = (a * b + n div b ^ k) * b ^ k + n mod b ^ k"
    using Suc.prems by (intro Suc.IH) simp_all
  then show ?case by (simp add: algebra_simps)
qed

lemma map_mono_less_list:
  fixes f :: "'a::linorder \<Rightarrow> 'b::linorder"
  assumes mono: "\<And>x y. x \<in> A \<Longrightarrow> y \<in> A \<Longrightarrow> x < y \<Longrightarrow> f x < f y"
  shows "set xs \<subseteq> A \<Longrightarrow> set ys \<subseteq> A \<Longrightarrow> xs < ys \<Longrightarrow> map f xs < map f ys"
proof (induction xs arbitrary: ys)
  case Nil
  then show ?case by (cases ys) auto
next
  case (Cons x xs)
  then obtain y ys' where ys: "ys = y # ys'" by (cases ys) auto
  with Cons.prems have "x < y \<or> x = y \<and> xs < ys'" by simp
  with Cons ys mono [of x y] show ?case by auto
qed

text \<open>Decimal numbers as \<open>format!\<close> writes them.\<close>

fun nat_to_dec :: "nat \<Rightarrow> string" where
  "nat_to_dec n =
     (if n < 10 then [char_of (48 + n)] else nat_to_dec (n div 10) @ [char_of (48 + n mod 10)])"

definition dec_to_nat :: "string \<Rightarrow> nat" where
  "dec_to_nat s = foldl (\<lambda>n c. 10 * n + (of_char c - 48)) 0 s"

lemma dec_to_nat_to_dec: "dec_to_nat (nat_to_dec n) = n"
proof (induction n rule: nat_to_dec.induct)
  case (1 n)
  have "(48 + n mod 10) mod 256 = 48 + n mod 10" by (rule mod_less) (simp add: add_strict_increasing2)
  with 1 show ?case by (cases "n < 10") (simp_all add: dec_to_nat_def)
qed

declare nat_to_dec.simps [simp del]

lemma nat_to_dec_inject [simp]: "nat_to_dec m = nat_to_dec n \<longleftrightarrow> m = n"
  by (metis dec_to_nat_to_dec)

text \<open>\<open>to_le_bytes\<close> of the integer types: \<open>k\<close> bytes, the lowest first.\<close>

definition to_le_bytes :: "nat \<Rightarrow> 'a::len word \<Rightarrow> bytes" where
  "to_le_bytes k w = map (\<lambda>i. ucast (drop_bit (8 * i) w)) [0..<k]"

subsection \<open>Interface: an event-driven machine with an invariant\<close>

text \<open>
  The components are pure state machines: an event (a call) takes a state to the next.
  A component provides its step function, the events it may be given and an invariant that
  every such step keeps; runs of any length then keep it.
\<close>

locale event_machine =
  fixes step :: "'e \<Rightarrow> 's \<Rightarrow> 's"
    and allowed :: "'e \<Rightarrow> bool"
    and invar :: "'s \<Rightarrow> bool"
  assumes step_invar: "allowed e \<Longrightarrow> invar s \<Longrightarrow> invar (step e s)"
begin

lemma run_invar: "list_all allowed es \<Longrightarrow> invar s \<Longrightarrow> invar (fold step es s)"
  by (induction es arbitrary: s) (auto intro: step_invar)

end

text \<open>
  The same with an invariant that may degrade a little at each step (a counter that grows, a
  cache that fills): it holds with parameter \<open>n\<close> while \<open>n\<close> is below the capacity.
\<close>

locale counted_machine =
  fixes step :: "'e \<Rightarrow> 's \<Rightarrow> 's"
    and allowed :: "'e \<Rightarrow> bool"
    and invar :: "nat \<Rightarrow> 's \<Rightarrow> bool"
    and cap :: nat
  assumes counted_step: "allowed e \<Longrightarrow> n < cap \<Longrightarrow> invar n s \<Longrightarrow> invar (Suc n) (step e s)"
begin

lemma counted_run:
  "list_all allowed es \<Longrightarrow> n + length es \<le> cap \<Longrightarrow> invar n s \<Longrightarrow> invar (n + length es) (fold step es s)"
proof (induction es arbitrary: n s)
  case Nil
  then show ?case by simp
next
  case (Cons e es)
  then have "invar (Suc n) (step e s)" by (auto intro: counted_step)
  then show ?case using Cons.IH [of "Suc n" "step e s"] Cons.prems by simp
qed

end

subsection \<open>Interface: refinement of an abstract machine\<close>

text \<open>
  A machine refines an abstract one, given as a step relation, if every step of the first,
  seen through the abstraction, is a step of the second. Its runs then are runs of the
  abstract machine.
\<close>

inductive run_of :: "('e \<Rightarrow> 'a \<Rightarrow> 'a \<Rightarrow> bool) \<Rightarrow> 'e list \<Rightarrow> 'a \<Rightarrow> 'a \<Rightarrow> bool" for astep where
  run_nil: "run_of astep [] a a"
| run_cons: "astep e a b \<Longrightarrow> run_of astep es b c \<Longrightarrow> run_of astep (e # es) a c"

inductive_cases run_of_NilE: "run_of astep [] a b"
inductive_cases run_of_ConsE: "run_of astep (e # es) a c"

locale refined_machine = event_machine step allowed invar
  for step :: "'e \<Rightarrow> 's \<Rightarrow> 's" and allowed :: "'e \<Rightarrow> bool" and invar :: "'s \<Rightarrow> bool" +
  fixes astep :: "'e \<Rightarrow> 'a \<Rightarrow> 'a \<Rightarrow> bool"
    and abstraction :: "'s \<Rightarrow> 'a"
  assumes step_refines: "allowed e \<Longrightarrow> invar s \<Longrightarrow> astep e (abstraction s) (abstraction (step e s))"
begin

lemma run_refines:
  "list_all allowed es \<Longrightarrow> invar s \<Longrightarrow> run_of astep es (abstraction s) (abstraction (fold step es s))"
proof (induction es arbitrary: s)
  case Nil
  then show ?case by (simp add: run_nil)
next
  case (Cons e es)
  then show ?case by (auto intro: run_cons step_refines step_invar)
qed

end

subsection \<open>Interface: a replay filter\<close>

text \<open>
  Several components keep a bounded collection of keys already seen and let a key pass
  once. \<open>check k s\<close> answers whether \<open>k\<close> passes and returns the new state; \<open>seen\<close> is the
  set of keys remembered and \<open>load\<close> their number. A filter rejects nothing it has not
  been given and always remembers the key it has just let pass; while it holds fewer than
  \<open>cap\<close> keys it forgets none and rejects every key it remembers.
\<close>

locale replay_filter =
  fixes check :: "'k \<Rightarrow> 's \<Rightarrow> bool \<times> 's"
    and seen :: "'s \<Rightarrow> 'k set"
    and load :: "'s \<Rightarrow> nat"
    and cap :: nat
    and ok :: "'s \<Rightarrow> bool"
  assumes check_fresh: "ok s \<Longrightarrow> k \<notin> seen s \<Longrightarrow> fst (check k s)"
    and check_marks: "ok s \<Longrightarrow> k \<in> seen (snd (check k s))"
    and check_only: "ok s \<Longrightarrow> seen (snd (check k s)) \<subseteq> insert k (seen s)"
    and check_rejects: "ok s \<Longrightarrow> load s < cap \<Longrightarrow> k \<in> seen s \<Longrightarrow> \<not> fst (check k s)"
    and check_keeps: "ok s \<Longrightarrow> load s < cap \<Longrightarrow> seen s \<subseteq> seen (snd (check k s))"
    and check_load: "ok s \<Longrightarrow> load (snd (check k s)) \<le> Suc (load s)"
    and check_ok: "ok s \<Longrightarrow> ok (snd (check k s))"
begin

abbreviation run_checks :: "'k list \<Rightarrow> 's \<Rightarrow> 's" where
  "run_checks ks s \<equiv> fold (\<lambda>k s. snd (check k s)) ks s"

lemma run_checks_ok: "ok s \<Longrightarrow> ok (run_checks ks s)"
  by (induction ks arbitrary: s) (auto intro: check_ok)

lemma run_checks_load: "ok s \<Longrightarrow> load (run_checks ks s) \<le> length ks + load s"
proof (induction ks arbitrary: s)
  case Nil
  then show ?case by simp
next
  case (Cons k ks)
  have "load (run_checks ks (snd (check k s))) \<le> length ks + load (snd (check k s))"
    using Cons.prems by (intro Cons.IH check_ok)
  also have "\<dots> \<le> length ks + Suc (load s)"
    using check_load [OF Cons.prems] by simp
  finally show ?case by simp
qed

lemma run_checks_seen: "ok s \<Longrightarrow> seen (run_checks ks s) \<subseteq> set ks \<union> seen s"
proof (induction ks arbitrary: s)
  case Nil
  then show ?case by simp
next
  case (Cons k ks)
  have "seen (run_checks ks (snd (check k s))) \<subseteq> set ks \<union> seen (snd (check k s))"
    using Cons.prems by (intro Cons.IH check_ok)
  also have "\<dots> \<subseteq> set ks \<union> insert k (seen s)"
    using check_only [OF Cons.prems] by blast
  finally show ?case by auto
qed

lemma run_checks_keeps:
  "ok s \<Longrightarrow> length ks + load s \<le> cap \<Longrightarrow> k \<in> seen s \<Longrightarrow> k \<in> seen (run_checks ks s)"
proof (induction ks arbitrary: s)
  case Nil
  then show ?case by simp
next
  case (Cons k' ks)
  have "k \<in> seen (snd (check k' s))"
    using Cons.prems check_keeps [of s k'] by auto
  moreover have "length ks + load (snd (check k' s)) \<le> cap"
    using Cons.prems check_load [of s k'] by simp
  ultimately show ?case
    using Cons.prems(1) by (simp add: Cons.IH check_ok)
qed

text \<open>A key that was never given passes; a key that passed is rejected until the filter fills.\<close>

lemma unseen_passes: "ok s \<Longrightarrow> k \<notin> seen s \<Longrightarrow> k \<notin> set ks \<Longrightarrow> fst (check k (run_checks ks s))"
  using run_checks_seen run_checks_ok check_fresh by blast

lemma no_second_pass:
  assumes "ok s" and "length ks + Suc (load s) < cap"
  shows "\<not> fst (check k (run_checks ks (snd (check k s))))"
proof -
  let ?s = "snd (check k s)"
  have ok: "ok ?s" and load: "load ?s \<le> Suc (load s)" and mark: "k \<in> seen ?s"
    using assms(1) by (auto intro: check_ok check_load check_marks)
  from load assms(2) have room: "length ks + load ?s < cap" by simp
  show ?thesis
  proof (rule check_rejects)
    show "ok (run_checks ks ?s)" using ok by (rule run_checks_ok)
    show "load (run_checks ks ?s) < cap" using run_checks_load [OF ok, of ks] room by simp
    show "k \<in> seen (run_checks ks ?s)" using ok room mark by (simp add: run_checks_keeps)
  qed
qed

end

end
