(* ===== verification/Tom_Types.thy ===== *)
theory Tom_Types
  imports Tom_Prelude
begin

section \<open>Identities, message types, statuses and errors\<close>

text \<open>
  Models \<^verbatim>\<open>tom-protocol/src/types.rs\<close>, \<^verbatim>\<open>tom-protocol/src/error.rs\<close> and the node
  identity of \<^verbatim>\<open>tom-transport/src/lib.rs\<close>. A node is named by a 32-byte public key,
  here one 256-bit word read big-endian; it prints as 64 lower-case hexadecimal digits
  (\<^verbatim>\<open>tom-base/src/key.rs\<close>). The lemmas show that the printed name determines the node and
  that sorting nodes by printed name is sorting them by key, which is what the
  deterministic elections of the group layer rest on.
\<close>

subsection \<open>Node identity\<close>

datatype node_id = NodeId (id_word: "256 word")

definition as_bytes :: "node_id \<Rightarrow> bytes" where
  "as_bytes n = map of_nat (digits_be 256 32 (unat (id_word n)))"

definition hex_digit :: "nat \<Rightarrow> char" where
  "hex_digit d = (if d < 10 then char_of (48 + d) else char_of (87 + d))"

definition node_to_string :: "node_id \<Rightarrow> string" where
  "node_to_string n = map hex_digit (digits_be 16 64 (unat (id_word n)))"

instantiation node_id :: linorder
begin

definition less_eq_node_id :: "node_id \<Rightarrow> node_id \<Rightarrow> bool" where
  "a \<le> b \<longleftrightarrow> id_word a \<le> id_word b"

definition less_node_id :: "node_id \<Rightarrow> node_id \<Rightarrow> bool" where
  "a < b \<longleftrightarrow> id_word a < id_word b"

instance
  by standard
    (auto simp: less_eq_node_id_def less_node_id_def intro: node_id.expand)

end

subsection \<open>Message types and delivery statuses\<close>

datatype message_type =
    Chat | Ack | ReadReceipt | Heartbeat
  | GroupCreate | GroupCreated | GroupInvite | GroupJoin | GroupSync | GroupMessage | GroupLeave
  | GroupMemberJoined | GroupMemberLeft | GroupHubMigration | GroupDeliveryAck
  | GroupHubHeartbeat | GroupSenderKeyDistribution | GroupHubPing | GroupHubPong
  | GroupHubShadowSync | GroupCandidateAssigned | GroupHubUnreachable
  | GroupKickMember | GroupUpdateMemberRole | GroupMemberRoleChanged | GroupInviteMember
  | GroupSyncRequest | GroupSyncResponse
  | BackupStore | BackupDeliver | BackupReplicate | BackupReplicateAck | BackupQuery
  | BackupQueryResponse | BackupConfirmDelivery
  | PeerAnnounce

datatype message_status = Pending | Sent | Relayed | Delivered | Read | Failed

fun status_code :: "message_status \<Rightarrow> nat" where
  "status_code Pending = 0"
| "status_code Sent = 1"
| "status_code Relayed = 2"
| "status_code Delivered = 3"
| "status_code Read = 4"
| "status_code Failed = 5"

instantiation message_status :: linorder
begin

definition less_eq_message_status :: "message_status \<Rightarrow> message_status \<Rightarrow> bool" where
  "a \<le> b \<longleftrightarrow> status_code a \<le> status_code b"

definition less_message_status :: "message_status \<Rightarrow> message_status \<Rightarrow> bool" where
  "a < b \<longleftrightarrow> status_code a < status_code b"

instance
proof
  fix x y :: message_status
  show "x \<le> y \<Longrightarrow> y \<le> x \<Longrightarrow> x = y"
    by (cases x; cases y) (auto simp: less_eq_message_status_def)
qed (auto simp: less_eq_message_status_def less_message_status_def)

end

lemmas status_order = less_eq_message_status_def less_message_status_def

definition MAX_TTL :: u32 where "MAX_TTL = 4"

definition DEFAULT_TTL :: u32 where "DEFAULT_TTL = 4"

subsection \<open>Errors\<close>

text \<open>
  \<open>TomProtocolError\<close>. The transport error it wraps belongs to the QUIC layer, which is
  not modelled; it is carried as its printed text.
\<close>

datatype tom_protocol_error =
    Transport string
  | InvalidEnvelope string
  | Crypto string
  | PeerUnreachable string
  | Serialization string
  | Deserialization string
  | InvalidSignature
  | RelayRejected string

fun error_to_string :: "tom_protocol_error \<Rightarrow> string" where
  "error_to_string (Transport e) = ''transport error: '' @ e"
| "error_to_string (InvalidEnvelope r) = ''invalid envelope: '' @ r"
| "error_to_string (Crypto e) = ''crypto error: '' @ e"
| "error_to_string (PeerUnreachable n) = ''peer unreachable: '' @ n"
| "error_to_string (Serialization e) = ''serialization error: '' @ e"
| "error_to_string (Deserialization e) = ''deserialization error: '' @ e"
| "error_to_string InvalidSignature = ''signature verification failed''"
| "error_to_string (RelayRejected r) = ''relay rejected message: '' @ r"

text \<open>\<open>format!("{}", n)\<close> on an unsigned integer.\<close>

fun show_nat :: "nat \<Rightarrow> string" where
  "show_nat n = (if n < 10 then [char_of (48 + n)] else show_nat (n div 10) @ [char_of (48 + n mod 10)])"

declare show_nat.simps [simp del]

subsection \<open>The printed name of a node\<close>

lemma hex_digit_mono:
  assumes "d < e" and "e < 16"
  shows "hex_digit d < hex_digit e"
  using assms by (auto simp: hex_digit_def less_char_def)

lemma id_word_bound: "unat (id_word n) < 16 ^ 64"
proof -
  have "unat (id_word n) < 2 ^ LENGTH(256)" by (rule unsigned_less)
  then show ?thesis by simp
qed

lemma node_digits_bound: "set (digits_be 16 64 (unat (id_word n))) \<subseteq> {..<16}"
proof
  fix d
  assume "d \<in> set (digits_be 16 64 (unat (id_word n)))"
  then show "d \<in> {..<16}"
    using id_word_bound [of n] digits_be_bound [of 16 "unat (id_word n)" 64 d] by simp
qed

lemma node_to_string_less:
  assumes "a < b"
  shows "node_to_string a < node_to_string b"
proof -
  have "unat (id_word a) < unat (id_word b)"
    using assms by (simp add: less_node_id_def word_less_nat_alt)
  then have "digits_be 16 64 (unat (id_word a)) < digits_be 16 64 (unat (id_word b))"
    using id_word_bound [of b] by (intro digits_be_less) auto
  then show ?thesis unfolding node_to_string_def
    by (rule map_mono_less_list [where A = "{..<16}", rotated -1])
      (auto intro: hex_digit_mono dest: subsetD [OF node_digits_bound])
qed

lemma node_to_string_le_iff [simp]: "node_to_string a \<le> node_to_string b \<longleftrightarrow> a \<le> b"
  using node_to_string_less [of a b] node_to_string_less [of b a]
  by (metis le_less_linear less_le not_less_iff_gr_or_eq)

lemma node_to_string_inject [simp]: "node_to_string a = node_to_string b \<longleftrightarrow> a = b"
  by (metis node_to_string_le_iff antisym order_refl)

lemma length_node_to_string [simp]: "length (node_to_string n) = 64"
  by (simp add: node_to_string_def)

lemma node_to_string_no_colon: "CHR '':'' \<notin> set (node_to_string n)"
proof -
  have "hex_digit d \<noteq> CHR '':''" if "d < 16" for d
  proof -
    have "(of_char (hex_digit d) :: nat) \<noteq> of_char (CHR '':'')"
      using that by (auto simp: hex_digit_def)
    then show ?thesis by auto
  qed
  then show ?thesis
    using node_digits_bound [of n] by (force simp: node_to_string_def)
qed

lemma sort_key_node_to_string: "sort_key node_to_string xs = sort xs"
proof -
  have insort: "insort_key node_to_string x ys = insort x ys" for x ys
    by (induction ys) auto
  show ?thesis by (induction xs) (simp_all add: insort)
qed

lemma length_as_bytes [simp]: "length (as_bytes n) = 32"
  by (simp add: as_bytes_def)

end
