(* ===== verification/Tom_Crypto.thy ===== *)
theory Tom_Crypto
  imports Tom_Types
begin

section \<open>End-to-end encryption\<close>

text \<open>
  Models \<^verbatim>\<open>tom-protocol/src/crypto.rs\<close>. The primitives come from other crates
  (\<^verbatim>\<open>ed25519-dalek\<close>, \<^verbatim>\<open>curve25519-dalek\<close>, \<^verbatim>\<open>x25519-dalek\<close>, \<^verbatim>\<open>sha2\<close>, \<^verbatim>\<open>hkdf\<close>,
  \<^verbatim>\<open>chacha20poly1305\<close>, \<^verbatim>\<open>rmp_serde\<close>); they are the fields of the record \<open>crypto_api\<close> and
  of the codecs, passed to every definition that uses them. What the code relies on is
  stated as predicates on that record (\<open>aead_correct\<close>, \<open>dh_symmetric\<close>,
  \<open>key_conversion\<close>, \<open>ed_correct\<close>, \<open>codec_ok\<close>), each a documented law of its primitive.
  Random values (the ephemeral secret, nonces, sender keys) are arguments.
\<close>

unbundle bit_operations_syntax

subsection \<open>The primitives\<close>

record crypto_api =
  edwards_to_montgomery :: "bytes \<Rightarrow> bytes option"
    \<comment> \<open>decompress an Edwards point and map it to Montgomery form\<close>
  sha512 :: "bytes \<Rightarrow> bytes"
  x25519_public :: "bytes \<Rightarrow> bytes"
  x25519_dh :: "bytes \<Rightarrow> bytes \<Rightarrow> bytes"
  hkdf_sha256 :: "bytes \<Rightarrow> bytes \<Rightarrow> bytes" \<comment> \<open>input key material, info\<close>
  aead_encrypt :: "bytes \<Rightarrow> bytes \<Rightarrow> bytes \<Rightarrow> string + bytes" \<comment> \<open>key, nonce, plaintext\<close>
  aead_decrypt :: "bytes \<Rightarrow> bytes \<Rightarrow> bytes \<Rightarrow> bytes option"
  ed_public :: "bytes \<Rightarrow> bytes" \<comment> \<open>public key of a seed\<close>
  ed_key_ok :: "bytes \<Rightarrow> bool" \<comment> \<open>whether \<open>VerifyingKey::from_bytes\<close> accepts\<close>
  ed_sign :: "bytes \<Rightarrow> bytes \<Rightarrow> bytes" \<comment> \<open>seed, message\<close>
  ed_verify :: "bytes \<Rightarrow> bytes \<Rightarrow> bytes \<Rightarrow> bool" \<comment> \<open>key, message, signature\<close>
  ed_verify_strict :: "bytes \<Rightarrow> bytes \<Rightarrow> bytes \<Rightarrow> bool"

record 'a codec =
  to_vec :: "'a \<Rightarrow> string + bytes"
  from_slice :: "bytes \<Rightarrow> string + 'a"

text \<open>A codec for values whose serialisation the code unwraps with \<open>expect\<close>.\<close>

record 'a pack =
  pack_vec :: "'a \<Rightarrow> bytes"
  unpack_slice :: "bytes \<Rightarrow> string + 'a"

record encrypted_payload =
  enc_ciphertext :: bytes
  enc_nonce :: bytes
  enc_ephemeral_pk :: bytes

subsection \<open>What the primitives promise\<close>

definition codec_ok :: "'a codec \<Rightarrow> bool" where
  "codec_ok c \<longleftrightarrow> (\<forall>x b. to_vec c x = Inr b \<longrightarrow> from_slice c b = Inr x)"

definition pack_ok :: "'a pack \<Rightarrow> bool" where
  "pack_ok c \<longleftrightarrow> (\<forall>x. unpack_slice c (pack_vec c x) = Inr x)"

definition aead_correct :: "crypto_api \<Rightarrow> bool" where
  "aead_correct api \<longleftrightarrow>
     (\<forall>k n m c. aead_encrypt api k n m = Inr c \<longrightarrow> aead_decrypt api k n c = Some m)"

definition dh_symmetric :: "crypto_api \<Rightarrow> bool" where
  "dh_symmetric api \<longleftrightarrow>
     (\<forall>a b. x25519_dh api a (x25519_public api b) = x25519_dh api b (x25519_public api a))"

definition ed_correct :: "crypto_api \<Rightarrow> bool" where
  "ed_correct api \<longleftrightarrow>
     (\<forall>seed m. ed_key_ok api (ed_public api seed) \<and>
        length (ed_sign api seed m) = 64 \<and>
        ed_verify api (ed_public api seed) m (ed_sign api seed m) \<and>
        ed_verify_strict api (ed_public api seed) m (ed_sign api seed m))"

subsection \<open>The operations\<close>

definition str_bytes :: "string \<Rightarrow> bytes" where
  "str_bytes s = map (\<lambda>c. of_nat (of_char c)) s"

definition HKDF_INFO :: bytes where
  "HKDF_INFO = str_bytes ''tom-protocol-e2e-xchacha20poly1305-v1''"

fun encrypted_to_bytes :: "encrypted_payload codec \<Rightarrow> encrypted_payload \<Rightarrow> tom_protocol_error + bytes" where
  "encrypted_to_bytes c p = (case to_vec c p of Inl e \<Rightarrow> Inl (Serialization e) | Inr b \<Rightarrow> Inr b)"

fun encrypted_from_bytes :: "encrypted_payload codec \<Rightarrow> bytes \<Rightarrow> tom_protocol_error + encrypted_payload" where
  "encrypted_from_bytes c b = (case from_slice c b of Inl e \<Rightarrow> Inl (Deserialization e) | Inr p \<Rightarrow> Inr p)"

definition ed25519_to_x25519_public :: "crypto_api \<Rightarrow> bytes \<Rightarrow> tom_protocol_error + bytes" where
  "ed25519_to_x25519_public api pk =
     (case edwards_to_montgomery api pk of
        None \<Rightarrow> Inl (Crypto ''invalid Ed25519 public key: decompression failed'')
      | Some m \<Rightarrow> Inr m)"

text \<open>The first 32 bytes of SHA-512 of the seed, clamped.\<close>

definition ed25519_to_x25519_secret :: "crypto_api \<Rightarrow> bytes \<Rightarrow> bytes" where
  "ed25519_to_x25519_secret api seed =
     (let secret = take 32 (sha512 api seed);
          secret = secret[0 := secret ! 0 AND 248];
          secret = secret[31 := secret ! 31 AND 127];
          secret = secret[31 := secret ! 31 OR 64]
      in secret)"

definition derive_key :: "crypto_api \<Rightarrow> bytes \<Rightarrow> bytes" where
  "derive_key api shared = hkdf_sha256 api shared HKDF_INFO"

definition encrypt :: "crypto_api \<Rightarrow> bytes \<Rightarrow> bytes \<Rightarrow> bytes \<Rightarrow> bytes \<Rightarrow> tom_protocol_error + encrypted_payload" where
  "encrypt api ephemeral_secret nonce plaintext pk =
     (case ed25519_to_x25519_public api pk of
        Inl e \<Rightarrow> Inl e
      | Inr recipient \<Rightarrow>
          let ephemeral_public = x25519_public api ephemeral_secret;
              shared = x25519_dh api ephemeral_secret recipient;
              key = derive_key api shared
          in (case aead_encrypt api key nonce plaintext of
                Inl e \<Rightarrow> Inl (Crypto (''encryption failed: '' @ e))
              | Inr ciphertext \<Rightarrow>
                  Inr \<lparr>enc_ciphertext = ciphertext, enc_nonce = nonce,
                       enc_ephemeral_pk = ephemeral_public\<rparr>))"

definition decrypt :: "crypto_api \<Rightarrow> encrypted_payload \<Rightarrow> bytes \<Rightarrow> tom_protocol_error + bytes" where
  "decrypt api p seed =
     (let secret = ed25519_to_x25519_secret api seed;
          shared = x25519_dh api secret (enc_ephemeral_pk p);
          key = derive_key api shared
      in (case aead_decrypt api key (enc_nonce p) (enc_ciphertext p) of
            None \<Rightarrow> Inl (Crypto ''decryption failed: authentication error'')
          | Some m \<Rightarrow> Inr m))"

text \<open>
  Group messages are encrypted under a symmetric sender key. The code unwraps the
  encryption with \<open>expect\<close>; \<open>None\<close> here is that panic.
\<close>

definition encrypt_group_message :: "crypto_api \<Rightarrow> bytes \<Rightarrow> bytes \<Rightarrow> bytes \<Rightarrow> (bytes \<times> bytes) option" where
  "encrypt_group_message api nonce plaintext key =
     (case aead_encrypt api key nonce plaintext of
        Inl _ \<Rightarrow> None
      | Inr ciphertext \<Rightarrow> Some (ciphertext, nonce))"

definition decrypt_group_message :: "crypto_api \<Rightarrow> bytes \<Rightarrow> bytes \<Rightarrow> bytes \<Rightarrow> tom_protocol_error + bytes" where
  "decrypt_group_message api ciphertext nonce key =
     (case aead_decrypt api key nonce ciphertext of
        None \<Rightarrow> Inl (Crypto ''group message decryption failed'')
      | Some m \<Rightarrow> Inr m)"

text \<open>
  The map from Edwards to Montgomery keys commutes with taking the public key: the
  fact libsodium's conversion functions document, which the code mirrors.
\<close>

definition key_conversion :: "crypto_api \<Rightarrow> bool" where
  "key_conversion api \<longleftrightarrow>
     (\<forall>seed. edwards_to_montgomery api (ed_public api seed) =
        Some (x25519_public api (ed25519_to_x25519_secret api seed)))"

subsection \<open>Lemmas\<close>

text \<open>The clamped secret: low three bits clear, bit 254 set, bit 255 clear.\<close>

lemma x25519_secret_clamped:
  assumes "32 \<le> length (sha512 api seed)"
  shows "length (ed25519_to_x25519_secret api seed) = 32"
    and "ed25519_to_x25519_secret api seed ! 0 AND 7 = 0"
    and "ed25519_to_x25519_secret api seed ! 31 AND 192 = 64"
proof -
  let ?s = "take 32 (sha512 api seed)"
  have eq: "ed25519_to_x25519_secret api seed =
      ?s[0 := ?s ! 0 AND 248, 31 := (?s ! 31 AND 127) OR 64]"
    using assms by (simp add: ed25519_to_x25519_secret_def Let_def)
  show "length (ed25519_to_x25519_secret api seed) = 32"
    using assms by (simp add: eq)
  have "(248 :: u8) AND 7 = 0" by simp
  then show "ed25519_to_x25519_secret api seed ! 0 AND 7 = 0"
    using assms by (simp add: eq and.assoc)
  have "((x AND 127) OR 64) AND 192 = (64 :: u8)" for x
  proof -
    have "((x AND 127) OR 64) AND 192 = (x AND 64) OR (64 :: u8)"
      by (simp add: bit.conj_disj_distrib2 and.assoc)
    also have "\<dots> = 64"
      by (rule bit_word_eqI) (auto simp: bit_simps)
    finally show ?thesis .
  qed
  then show "ed25519_to_x25519_secret api seed ! 31 AND 192 = 64"
    using assms by (simp add: eq)
qed

lemma encrypt_decrypt:
  assumes "aead_correct api" and "dh_symmetric api" and "key_conversion api"
    and "encrypt api eph nonce m (ed_public api seed) = Inr p"
  shows "decrypt api p seed = Inr m"
proof -
  let ?s = "ed25519_to_x25519_secret api seed"
  have pk: "ed25519_to_x25519_public api (ed_public api seed) = Inr (x25519_public api ?s)"
    using assms(3) by (simp add: key_conversion_def ed25519_to_x25519_public_def)
  have dh: "x25519_dh api eph (x25519_public api ?s) = x25519_dh api ?s (x25519_public api eph)"
    using assms(2) by (auto simp: dh_symmetric_def)
  from assms(4) obtain c where c:
      "aead_encrypt api (derive_key api (x25519_dh api eph (x25519_public api ?s))) nonce m = Inr c"
    and p: "p = \<lparr>enc_ciphertext = c, enc_nonce = nonce, enc_ephemeral_pk = x25519_public api eph\<rparr>"
    by (auto simp: encrypt_def pk Let_def split: sum.splits)
  have "aead_decrypt api (derive_key api (x25519_dh api eph (x25519_public api ?s))) nonce c = Some m"
    using assms(1) c by (auto simp: aead_correct_def)
  then show ?thesis by (simp add: decrypt_def p dh)
qed

lemma group_encrypt_decrypt:
  assumes "aead_correct api" and "encrypt_group_message api nonce m key = Some (c, n)"
  shows "decrypt_group_message api c n key = Inr m"
  using assms
  by (auto simp: encrypt_group_message_def decrypt_group_message_def aead_correct_def
      split: sum.splits)

subsection \<open>A concrete instance of the primitives\<close>

text \<open>
  Used by the witnesses: functions that satisfy every law above. They are not secure, of
  course; they show that the laws can hold together.
\<close>

definition demo_secret :: "bytes \<Rightarrow> bytes" where
  "demo_secret seed =
     (let s = take 32 (seed @ replicate 64 0)
      in s[0 := s ! 0 AND 248, 31 := (s ! 31 AND 127) OR 64])"

definition demo_crypto :: crypto_api where
  "demo_crypto =
     \<lparr>edwards_to_montgomery = Some,
      sha512 = (\<lambda>m. take 64 (m @ replicate 64 0)),
      x25519_public = (\<lambda>s. s),
      x25519_dh = (\<lambda>a b. map2 (XOR) a b),
      hkdf_sha256 = (\<lambda>ikm info. ikm),
      aead_encrypt = (\<lambda>k n m. Inr (k @ n @ m)),
      aead_decrypt = (\<lambda>k n c. if take (length k + length n) c = k @ n
                             then Some (drop (length k + length n) c) else None),
      ed_public = demo_secret,
      ed_key_ok = (\<lambda>k. True),
      ed_sign = (\<lambda>seed m. replicate 64 7),
      ed_verify = (\<lambda>k m s. s = replicate 64 7),
      ed_verify_strict = (\<lambda>k m s. s = replicate 64 7)\<rparr>"

lemma demo_aead_correct: "aead_correct demo_crypto"
  by (auto simp: aead_correct_def demo_crypto_def)

lemma map2_xor_commute: "map2 (XOR) (a :: u8 list) b = map2 (XOR) b a"
  by (rule nth_equalityI) (auto simp: xor.commute)

lemma demo_dh_symmetric: "dh_symmetric demo_crypto"
  by (auto simp: dh_symmetric_def demo_crypto_def intro: map2_xor_commute)

lemma demo_ed_correct: "ed_correct demo_crypto"
  by (simp add: ed_correct_def demo_crypto_def)

lemma demo_key_conversion: "key_conversion demo_crypto"
proof -
  have "ed25519_to_x25519_secret demo_crypto seed = demo_secret seed" for seed
  proof -
    have "take 32 (sha512 demo_crypto seed) = take 32 (seed @ replicate 64 0)"
      by (simp add: demo_crypto_def take_take del: take_append)
    then show ?thesis
      by (simp add: ed25519_to_x25519_secret_def demo_secret_def Let_def del: take_append)
  qed
  then show ?thesis by (simp add: key_conversion_def) (simp add: demo_crypto_def)
qed

text \<open>
  Concrete codecs write a value as a list of natural numbers, each as that many ones and a
  zero; a nested list is preceded by its length.
\<close>

fun enc_nats :: "nat list \<Rightarrow> bytes" where
  "enc_nats [] = []"
| "enc_nats (n # ns) = replicate n 1 @ 0 # enc_nats ns"

fun dec_nats :: "nat \<Rightarrow> bytes \<Rightarrow> nat list" where
  "dec_nats k [] = []"
| "dec_nats k (b # bs) = (if b = 0 then k # dec_nats 0 bs else dec_nats (Suc k) bs)"

lemma dec_nats_ones: "dec_nats k (replicate n 1 @ bs) = dec_nats (n + k) bs"
  by (induction n arbitrary: k) auto

lemma dec_enc_nats [simp]: "dec_nats 0 (enc_nats ns) = ns"
  by (induction ns) (auto simp: dec_nats_ones)

definition put_list :: "nat list \<Rightarrow> nat list" where
  "put_list ns = length ns # ns"

definition get_list :: "nat list \<Rightarrow> nat list \<times> nat list" where
  "get_list ns = (take (hd ns) (tl ns), drop (hd ns) (tl ns))"

lemma get_put_list [simp]: "get_list (put_list ns @ rest) = (ns, rest)"
  by (simp add: get_list_def put_list_def)

definition put_string :: "string \<Rightarrow> nat list" where
  "put_string s = put_list (map of_char s)"

definition get_string :: "nat list \<Rightarrow> string \<times> nat list" where
  "get_string ns = (let (s, rest) = get_list ns in (map char_of s, rest))"

lemma get_put_string [simp]: "get_string (put_string s @ rest) = (s, rest)"
  by (simp add: get_string_def put_string_def comp_def)

definition put_bytes :: "bytes \<Rightarrow> nat list" where
  "put_bytes s = put_list (map unat s)"

definition get_bytes :: "nat list \<Rightarrow> bytes \<times> nat list" where
  "get_bytes ns = (let (s, rest) = get_list ns in (map of_nat s, rest))"

lemma get_put_bytes [simp]: "get_bytes (put_bytes s @ rest) = (s, rest)"
  by (simp add: get_bytes_def put_bytes_def comp_def)

definition demo_enc_codec :: "encrypted_payload codec" where
  "demo_enc_codec =
     \<lparr>to_vec = (\<lambda>p. Inr (enc_nats (put_bytes (enc_ciphertext p) @ put_bytes (enc_nonce p) @
                           put_bytes (enc_ephemeral_pk p) @ []))),
      from_slice = (\<lambda>b. let (c, r) = get_bytes (dec_nats 0 b); (n, r) = get_bytes r;
                             (k, r) = get_bytes r
                         in if r = [] then Inr \<lparr>enc_ciphertext = c, enc_nonce = n, enc_ephemeral_pk = k\<rparr>
                            else Inl ''trailing bytes'')\<rparr>"

lemma demo_enc_codec_ok: "codec_ok demo_enc_codec"
  by (simp add: codec_ok_def demo_enc_codec_def del: append_Nil2)

end
