(* ===== verification/Tom_Envelope.thy ===== *)
theory Tom_Envelope
  imports Tom_Crypto
begin

section \<open>Envelopes\<close>

text \<open>
  Models \<^verbatim>\<open>tom-protocol/src/envelope.rs\<close>: the envelope, its signing bytes, signature and
  payload encryption, and the builder. The identifier (a random UUID) and the creation time
  of an envelope are arguments. The lemmas show that signing and verifying agree, that the
  signature covers every field but the hop count and the signature itself, and that an
  encrypted envelope opens to its payload at the recipient.
\<close>

record envelope =
  env_id :: string
  env_from :: node_id
  env_to :: node_id
  env_via :: "node_id list"
  env_msg_type :: message_type
  env_payload :: bytes
  env_timestamp :: u64
  env_signature :: bytes
  env_ttl :: u32
  env_encrypted :: bool

text \<open>\<open>SignableEnvelope\<close>: the fields a signature covers.\<close>

record signable_envelope =
  sig_id :: string
  sig_from :: node_id
  sig_to :: node_id
  sig_via :: "node_id list"
  sig_msg_type :: message_type
  sig_payload :: bytes
  sig_timestamp :: u64
  sig_encrypted :: bool

text \<open>The serialisers of the envelope layer (\<^verbatim>\<open>rmp_serde\<close>).\<close>

record wire_api =
  wire_envelope :: "envelope codec"
  wire_encrypted :: "encrypted_payload codec"
  wire_signable :: "signable_envelope pack"

subsection \<open>Operations\<close>

definition envelope_new_via ::
  "string \<Rightarrow> u64 \<Rightarrow> node_id \<Rightarrow> node_id \<Rightarrow> node_id list \<Rightarrow> message_type \<Rightarrow> bytes \<Rightarrow> envelope" where
  "envelope_new_via uuid now f t via mt pl =
     \<lparr>env_id = uuid, env_from = f, env_to = t, env_via = via, env_msg_type = mt,
      env_payload = pl, env_timestamp = now, env_signature = [], env_ttl = DEFAULT_TTL,
      env_encrypted = False\<rparr>"

definition envelope_new ::
  "string \<Rightarrow> u64 \<Rightarrow> node_id \<Rightarrow> node_id \<Rightarrow> message_type \<Rightarrow> bytes \<Rightarrow> envelope" where
  "envelope_new uuid now f t mt pl =
     \<lparr>env_id = uuid, env_from = f, env_to = t, env_via = [], env_msg_type = mt,
      env_payload = pl, env_timestamp = now, env_signature = [], env_ttl = DEFAULT_TTL,
      env_encrypted = False\<rparr>"

definition envelope_to_bytes :: "wire_api \<Rightarrow> envelope \<Rightarrow> tom_protocol_error + bytes" where
  "envelope_to_bytes w e =
     (case to_vec (wire_envelope w) e of Inl t \<Rightarrow> Inl (Serialization t) | Inr b \<Rightarrow> Inr b)"

definition envelope_from_bytes :: "wire_api \<Rightarrow> bytes \<Rightarrow> tom_protocol_error + envelope" where
  "envelope_from_bytes w b =
     (case from_slice (wire_envelope w) b of Inl t \<Rightarrow> Inl (Deserialization t) | Inr e \<Rightarrow> Inr e)"

definition signable_of :: "envelope \<Rightarrow> signable_envelope" where
  "signable_of e =
     \<lparr>sig_id = env_id e, sig_from = env_from e, sig_to = env_to e, sig_via = env_via e,
      sig_msg_type = env_msg_type e, sig_payload = env_payload e,
      sig_timestamp = env_timestamp e, sig_encrypted = env_encrypted e\<rparr>"

definition signing_bytes :: "wire_api \<Rightarrow> envelope \<Rightarrow> bytes" where
  "signing_bytes w e = pack_vec (wire_signable w) (signable_of e)"

definition decrement_ttl :: "envelope \<Rightarrow> tom_protocol_error + envelope" where
  "decrement_ttl e =
     (if env_ttl e = 0 then Inl (RelayRejected ''TTL exhausted'')
      else Inr (e\<lparr>env_ttl := env_ttl e - 1\<rparr>))"

definition is_signed :: "envelope \<Rightarrow> bool" where
  "is_signed e \<longleftrightarrow> env_signature e \<noteq> []"

definition wire_size :: "wire_api \<Rightarrow> envelope \<Rightarrow> nat" where
  "wire_size w e = (case envelope_to_bytes w e of Inl _ \<Rightarrow> 0 | Inr b \<Rightarrow> length b)"

definition sign :: "crypto_api \<Rightarrow> wire_api \<Rightarrow> bytes \<Rightarrow> envelope \<Rightarrow> envelope" where
  "sign api w seed e = e\<lparr>env_signature := ed_sign api seed (signing_bytes w e)\<rparr>"

definition verify_signature :: "crypto_api \<Rightarrow> wire_api \<Rightarrow> envelope \<Rightarrow> tom_protocol_error + unit" where
  "verify_signature api w e =
     (if length (env_signature e) \<noteq> 64 then Inl InvalidSignature
      else if \<not> ed_key_ok api (as_bytes (env_from e)) then Inl InvalidSignature
      else if ed_verify_strict api (as_bytes (env_from e)) (signing_bytes w e) (env_signature e)
           then Inr () else Inl InvalidSignature)"

definition encrypt_payload ::
  "crypto_api \<Rightarrow> wire_api \<Rightarrow> bytes \<Rightarrow> bytes \<Rightarrow> bytes \<Rightarrow> envelope \<Rightarrow> tom_protocol_error + envelope" where
  "encrypt_payload api w eph nonce pk e =
     (case encrypt api eph nonce (env_payload e) pk of
        Inl err \<Rightarrow> Inl err
      | Inr p \<Rightarrow>
          (case encrypted_to_bytes (wire_encrypted w) p of
             Inl err \<Rightarrow> Inl err
           | Inr b \<Rightarrow> Inr (e\<lparr>env_payload := b, env_encrypted := True\<rparr>)))"

definition decrypt_payload ::
  "crypto_api \<Rightarrow> wire_api \<Rightarrow> bytes \<Rightarrow> envelope \<Rightarrow> tom_protocol_error + envelope" where
  "decrypt_payload api w seed e =
     (if \<not> env_encrypted e then Inl (InvalidEnvelope ''payload is not encrypted'')
      else (case encrypted_from_bytes (wire_encrypted w) (env_payload e) of
              Inl err \<Rightarrow> Inl err
            | Inr p \<Rightarrow>
                (case decrypt api p seed of
                   Inl err \<Rightarrow> Inl err
                 | Inr m \<Rightarrow> Inr (e\<lparr>env_payload := m, env_encrypted := False\<rparr>))))"

subsection \<open>The builder\<close>

record envelope_builder =
  bld_from :: node_id
  bld_to :: node_id
  bld_via :: "node_id list"
  bld_msg_type :: message_type
  bld_payload :: bytes
  bld_ttl :: u32

definition builder_new :: "node_id \<Rightarrow> node_id \<Rightarrow> message_type \<Rightarrow> bytes \<Rightarrow> envelope_builder" where
  "builder_new f t mt pl =
     \<lparr>bld_from = f, bld_to = t, bld_via = [], bld_msg_type = mt, bld_payload = pl,
      bld_ttl = DEFAULT_TTL\<rparr>"

definition builder_via :: "node_id list \<Rightarrow> envelope_builder \<Rightarrow> envelope_builder" where
  "builder_via relays b = b\<lparr>bld_via := relays\<rparr>"

definition builder_ttl :: "u32 \<Rightarrow> envelope_builder \<Rightarrow> envelope_builder" where
  "builder_ttl t b = b\<lparr>bld_ttl := t\<rparr>"

definition build :: "string \<Rightarrow> u64 \<Rightarrow> envelope_builder \<Rightarrow> envelope" where
  "build uuid now b =
     \<lparr>env_id = uuid, env_from = bld_from b, env_to = bld_to b, env_via = bld_via b,
      env_msg_type = bld_msg_type b, env_payload = bld_payload b, env_timestamp = now,
      env_signature = [], env_ttl = bld_ttl b, env_encrypted = False\<rparr>"

definition builder_sign ::
  "crypto_api \<Rightarrow> wire_api \<Rightarrow> string \<Rightarrow> u64 \<Rightarrow> bytes \<Rightarrow> envelope_builder \<Rightarrow> envelope" where
  "builder_sign api w uuid now seed b = sign api w seed (build uuid now b)"

definition encrypt_and_sign ::
  "crypto_api \<Rightarrow> wire_api \<Rightarrow> string \<Rightarrow> u64 \<Rightarrow> bytes \<Rightarrow> bytes \<Rightarrow> bytes \<Rightarrow> bytes \<Rightarrow> envelope_builder
     \<Rightarrow> tom_protocol_error + envelope" where
  "encrypt_and_sign api w uuid now eph nonce seed pk b =
     (case encrypt_payload api w eph nonce pk (build uuid now b) of
        Inl err \<Rightarrow> Inl err
      | Inr e \<Rightarrow> Inr (sign api w seed e))"

subsection \<open>Lemmas\<close>

text \<open>The signature covers neither itself nor the hop count.\<close>

lemma signable_of_update [simp]:
  "signable_of (e\<lparr>env_signature := s\<rparr>) = signable_of e"
  "signable_of (e\<lparr>env_ttl := t\<rparr>) = signable_of e"
  by (simp_all add: signable_of_def)

lemma signing_bytes_update [simp]:
  "signing_bytes w (e\<lparr>env_signature := s\<rparr>) = signing_bytes w e"
  "signing_bytes w (e\<lparr>env_ttl := t\<rparr>) = signing_bytes w e"
  by (simp_all add: signing_bytes_def)

lemma verify_signature_ttl [simp]:
  "verify_signature api w (e\<lparr>env_ttl := t\<rparr>) = verify_signature api w e"
  by (simp add: verify_signature_def)

lemma decrement_ttl_Inr:
  "decrement_ttl e = Inr e' \<longleftrightarrow> env_ttl e \<noteq> 0 \<and> e' = e\<lparr>env_ttl := env_ttl e - 1\<rparr>"
  by (auto simp: decrement_ttl_def)

lemma sign_verifies:
  assumes "ed_correct api" and "as_bytes (env_from e) = ed_public api seed"
  shows "verify_signature api w (sign api w seed e) = Inr ()"
  using assms by (simp add: verify_signature_def sign_def ed_correct_def)

lemma pack_vec_inject: "pack_ok c \<Longrightarrow> pack_vec c x = pack_vec c y \<longleftrightarrow> x = y"
  unfolding pack_ok_def by (metis sum.inject(2))

lemma signing_bytes_inject:
  assumes "pack_ok (wire_signable w)" and "signing_bytes w e = signing_bytes w e'"
  shows "e' = e\<lparr>env_signature := env_signature e', env_ttl := env_ttl e'\<rparr>"
proof -
  have "signable_of e = signable_of e'"
    using assms by (simp add: signing_bytes_def pack_vec_inject)
  then show ?thesis by (simp add: signable_of_def)
qed

lemma encrypt_payload_decrypts:
  assumes "aead_correct api" and "dh_symmetric api" and "key_conversion api"
    and "codec_ok (wire_encrypted w)"
    and "encrypt_payload api w eph nonce (ed_public api seed) e = Inr e'"
  shows "decrypt_payload api w seed e' = Inr (e\<lparr>env_encrypted := False\<rparr>)"
proof -
  from assms(5) obtain p b where
      p: "encrypt api eph nonce (env_payload e) (ed_public api seed) = Inr p"
    and b: "to_vec (wire_encrypted w) p = Inr b"
    and e': "e' = e\<lparr>env_payload := b, env_encrypted := True\<rparr>"
    by (auto simp: encrypt_payload_def split: sum.splits)
  have "from_slice (wire_encrypted w) b = Inr p"
    using assms(4) b by (auto simp: codec_ok_def)
  moreover have "decrypt api p seed = Inr (env_payload e)"
    using assms(1-3) p by (rule encrypt_decrypt)
  ultimately show ?thesis by (simp add: decrypt_payload_def e')
qed

lemma encrypt_payload_fields:
  "encrypt_payload api w eph nonce pk e = Inr e' \<Longrightarrow>
   env_encrypted e' \<and> env_from e' = env_from e"
  by (auto simp: encrypt_payload_def split: sum.splits)

lemma decrypt_payload_sign [simp]:
  "decrypt_payload api w seed (e\<lparr>env_signature := s\<rparr>) =
     (case decrypt_payload api w seed e of Inl err \<Rightarrow> Inl err | Inr e' \<Rightarrow> Inr (e'\<lparr>env_signature := s\<rparr>))"
  by (simp add: decrypt_payload_def split: sum.split)

subsection \<open>A concrete instance of the serialisers\<close>

definition message_types :: "message_type list" where
  "message_types =
     [Chat, Ack, ReadReceipt, Heartbeat,
      GroupCreate, GroupCreated, GroupInvite, GroupJoin, GroupSync, GroupMessage, GroupLeave,
      GroupMemberJoined, GroupMemberLeft, GroupHubMigration, GroupDeliveryAck,
      GroupHubHeartbeat, GroupSenderKeyDistribution, GroupHubPing, GroupHubPong,
      GroupHubShadowSync, GroupCandidateAssigned, GroupHubUnreachable,
      GroupKickMember, GroupUpdateMemberRole, GroupMemberRoleChanged, GroupInviteMember,
      GroupSyncRequest, GroupSyncResponse,
      BackupStore, BackupDeliver, BackupReplicate, BackupReplicateAck, BackupQuery,
      BackupQueryResponse, BackupConfirmDelivery, PeerAnnounce]"

definition type_code :: "message_type \<Rightarrow> nat" where
  "type_code t = length (takeWhile (\<lambda>x. x \<noteq> t) message_types)"

lemma message_types_code [simp]: "message_types ! type_code t = t"
  by (cases t) (simp_all add: type_code_def message_types_def)

definition put_node :: "node_id \<Rightarrow> nat" where
  "put_node n = unat (id_word n)"

definition get_node :: "nat \<Rightarrow> node_id" where
  "get_node n = NodeId (of_nat n)"

lemma get_put_node [simp]: "get_node (put_node n) = n"
  by (simp add: get_node_def put_node_def)

definition demo_signable_pack :: "signable_envelope pack" where
  "demo_signable_pack =
     \<lparr>pack_vec = (\<lambda>s. enc_nats (
          put_node (sig_from s) # put_node (sig_to s) # type_code (sig_msg_type s) #
          unat (sig_timestamp s) # (if sig_encrypted s then 1 else 0) #
          put_string (sig_id s) @ put_list (map put_node (sig_via s)) @ put_bytes (sig_payload s) @ [])),
      unpack_slice = (\<lambda>b. case dec_nats 0 b of
          f # t # mt # ts # enc # r \<Rightarrow>
            (let (i, r) = get_string r; (v, r) = get_list r; (p, r) = get_bytes r
             in Inr \<lparr>sig_id = i, sig_from = get_node f, sig_to = get_node t,
                     sig_via = map get_node v, sig_msg_type = message_types ! mt,
                     sig_payload = p, sig_timestamp = of_nat ts, sig_encrypted = (enc = 1)\<rparr>)
        | _ \<Rightarrow> Inl ''too short'')\<rparr>"

lemma demo_signable_pack_ok: "pack_ok demo_signable_pack"
  by (simp add: pack_ok_def demo_signable_pack_def comp_def del: append_Nil2 enc_nats.simps)

definition demo_wire :: "envelope codec \<Rightarrow> wire_api" where
  "demo_wire c = \<lparr>wire_envelope = c, wire_encrypted = demo_enc_codec, wire_signable = demo_signable_pack\<rparr>"

abbreviation demo_wire0 :: wire_api where
  "demo_wire0 \<equiv> demo_wire \<lparr>to_vec = (\<lambda>_. Inl ''unsupported''), from_slice = (\<lambda>_. Inl ''unsupported'')\<rparr>"

definition demo_builder :: envelope_builder where
  "demo_builder = builder_via [NodeId 5] (builder_new (NodeId 64) (NodeId 64) Chat [1, 2, 3])"

lemma digits_be_small: "n < b \<Longrightarrow> digits_be b (Suc k) n = replicate k 0 @ [n]"
proof (induction k)
  case 0
  then show ?case by simp
next
  case (Suc k)
  have "n < b ^ Suc k" using less_le_trans [OF Suc.prems self_le_power, of "Suc k"] Suc.prems by simp
  then show ?case using Suc by (simp del: power_Suc)
qed

lemma demo_node_64: "as_bytes (NodeId 64) = ed_public demo_crypto []"
proof -
  have "as_bytes (NodeId 64) = replicate 31 0 @ [64]"
    using digits_be_small [of 64 256 31] by (simp add: as_bytes_def)
  also have "\<dots> = ed_public demo_crypto []"
    by (rule nth_equalityI) (auto simp: demo_crypto_def demo_secret_def nth_append nth_list_update)
  finally show ?thesis .
qed

lemma demo_encrypt_and_sign:
  "\<exists>e. encrypt_and_sign demo_crypto (demo_wire c) uuid now eph nonce seed pk b = Inr e"
  by (simp add: encrypt_and_sign_def encrypt_payload_def encrypt_def ed25519_to_x25519_public_def
      demo_crypto_def demo_wire_def demo_enc_codec_def Let_def)

subsection \<open>Properties\<close>

text \<open>
  C15. The signature covers exactly the fields other than the hop count and itself: two
  envelopes have the same signing bytes if and only if they differ at most in hop count and
  signature, so a relay can lower the hop count and change nothing else unnoticed.
\<close>

theorem signing_bytes_cover:
  assumes "pack_ok (wire_signable w)"
  shows "signing_bytes w e = signing_bytes w e' \<longleftrightarrow> (\<exists>s t. e' = e\<lparr>env_signature := s, env_ttl := t\<rparr>)"
proof
  assume "signing_bytes w e = signing_bytes w e'"
  with assms have "e' = e\<lparr>env_signature := env_signature e', env_ttl := env_ttl e'\<rparr>"
    by (rule signing_bytes_inject)
  then show "\<exists>s t. e' = e\<lparr>env_signature := s, env_ttl := t\<rparr>" by blast
next
  assume "\<exists>s t. e' = e\<lparr>env_signature := s, env_ttl := t\<rparr>"
  then show "signing_bytes w e = signing_bytes w e'" by auto
qed

theorem signing_bytes_cover_witness:
  "pack_ok (wire_signable demo_wire0) \<and>
   signing_bytes demo_wire0 (build ''m'' 9 demo_builder) =
     signing_bytes demo_wire0 ((build ''m'' 9 demo_builder)\<lparr>env_ttl := 1\<rparr>) \<and>
   signing_bytes demo_wire0 (build ''m'' 9 demo_builder) \<noteq>
     signing_bytes demo_wire0 ((build ''m'' 9 demo_builder)\<lparr>env_payload := [1, 2]\<rparr>)"
proof -
  have ok: "pack_ok (wire_signable demo_wire0)"
    by (simp add: demo_wire_def demo_signable_pack_ok)
  have "signing_bytes demo_wire0 (build ''m'' 9 demo_builder) \<noteq>
      signing_bytes demo_wire0 ((build ''m'' 9 demo_builder)\<lparr>env_payload := [1, 2]\<rparr>)"
    using signing_bytes_cover [OF ok, of "build ''m'' 9 demo_builder"
        "(build ''m'' 9 demo_builder)\<lparr>env_payload := [1, 2]\<rparr>"]
    by (simp add: demo_builder_def build_def builder_via_def builder_new_def)
  with ok show ?thesis by simp
qed

text \<open>
  C10. End-to-end confidentiality path: an envelope built by \<open>encrypt_and_sign\<close> for a
  recipient carries a valid signature of the sender over the ciphertext, and the recipient's
  \<open>decrypt_payload\<close> turns it back into the original payload with every routing field intact.
\<close>

theorem encrypt_and_sign_opens:
  assumes "ed_correct api" and "aead_correct api" and "dh_symmetric api" and "key_conversion api"
    and "codec_ok (wire_encrypted w)"
    and "as_bytes (bld_from b) = ed_public api seed"
    and "encrypt_and_sign api w uuid now eph nonce seed (ed_public api rseed) b = Inr e"
  shows "verify_signature api w e = Inr () \<and> env_encrypted e \<and>
    decrypt_payload api w rseed e = Inr ((build uuid now b)\<lparr>env_signature := env_signature e\<rparr>)"
proof -
  from assms(7) obtain e1 where
      e1: "encrypt_payload api w eph nonce (ed_public api rseed) (build uuid now b) = Inr e1"
    and e: "e = sign api w seed e1"
    by (auto simp: encrypt_and_sign_def split: sum.splits)
  from encrypt_payload_fields [OF e1] have "env_from e1 = bld_from b" and enc: "env_encrypted e1"
    by (simp_all add: build_def)
  then have "verify_signature api w e = Inr ()"
    using assms(1,6) by (simp add: e sign_verifies)
  moreover have "env_encrypted e" using enc by (simp add: e sign_def)
  moreover have "decrypt_payload api w rseed e1 = Inr (build uuid now b)"
    using encrypt_payload_decrypts [OF assms(2-5) e1] by (simp add: build_def)
  then have "decrypt_payload api w rseed e = Inr ((build uuid now b)\<lparr>env_signature := env_signature e\<rparr>)"
    by (simp add: e sign_def)
  ultimately show ?thesis by simp
qed

theorem encrypt_and_sign_opens_witness:
  "\<exists>e. encrypt_and_sign demo_crypto demo_wire0 ''m'' 9 [3] [4] [] (ed_public demo_crypto [8]) demo_builder = Inr e \<and>
     verify_signature demo_crypto demo_wire0 e = Inr () \<and> env_encrypted e \<and>
     decrypt_payload demo_crypto demo_wire0 [8] e =
       Inr ((build ''m'' 9 demo_builder)\<lparr>env_signature := env_signature e\<rparr>)"
proof -
  obtain e where e: "encrypt_and_sign demo_crypto demo_wire0 ''m'' 9 [3] [4] []
      (ed_public demo_crypto [8]) demo_builder = Inr e"
    using demo_encrypt_and_sign by blast
  have "bld_from demo_builder = NodeId 64"
    by (simp add: demo_builder_def builder_via_def builder_new_def)
  then have "verify_signature demo_crypto demo_wire0 e = Inr () \<and> env_encrypted e \<and>
      decrypt_payload demo_crypto demo_wire0 [8] e =
        Inr ((build ''m'' 9 demo_builder)\<lparr>env_signature := env_signature e\<rparr>)"
    using encrypt_and_sign_opens [OF demo_ed_correct demo_aead_correct demo_dh_symmetric
        demo_key_conversion _ _ e] demo_enc_codec_ok demo_node_64
    by (simp add: demo_wire_def)
  with e show ?thesis by blast
qed

end
