(* ===== verification/Tom_Router.thy ===== *)
theory Tom_Router
  imports Tom_Envelope
begin

section \<open>The routing engine\<close>

text \<open>
  Models \<^verbatim>\<open>tom-protocol/src/router.rs\<close>: the decision what to do with an incoming envelope
  (deliver, forward, reject, drop, or treat it as an acknowledgement), the deduplication and
  anti-replay caches, and the acknowledgements it creates. The nonce cache is an
  \<open>LruCache\<close> of another crate: its operations are fields of \<open>router_api\<close>, together with
  the serialisers of the acknowledgement payloads.

  The lemmas show what each decision does to the envelope and the caches; that a
  deduplication key determines message and sender; and, for a network of routers, that
  forwarding always stops, that a relay chain is travelled in order up to the recipient and
  that the delivery acknowledgement retraces it.
\<close>

subsection \<open>Data\<close>

definition MAX_RELAY_DEPTH :: nat where "MAX_RELAY_DEPTH = 4"
definition DEDUP_TTL :: nat where "DEDUP_TTL = secs 600"
definition ACK_TTL :: nat where "ACK_TTL = secs 300"
definition MAX_CACHE_SIZE :: nat where "MAX_CACHE_SIZE = 10000"
definition MAX_NONCE_CACHE :: nat where "MAX_NONCE_CACHE = 50000"
definition READ_RECEIPT_MAX_AGE_MS :: u64 where
  "READ_RECEIPT_MAX_AGE_MS = 7 * 24 * 60 * 60 * 1000"

datatype ack_type = RelayForwarded | RecipientReceived

record ack_payload =
  ack_original_message_id :: string
  ack_ack_type :: ack_type

record read_receipt_payload =
  rr_original_message_id :: string
  rr_read_at :: u64

datatype routing_action =
    RaDeliver envelope envelope \<comment> \<open>the envelope and the unsigned acknowledgement\<close>
  | RaAck string ack_type node_id
  | RaReadReceipt string u64 node_id
  | RaForward envelope node_id envelope \<comment> \<open>envelope, next hop, relay acknowledgement\<close>
  | RaReject string
  | RaDrop

record 'c router_api =
  api_ack :: "ack_payload pack"
  api_read_receipt :: "read_receipt_payload pack"
  api_encrypted :: "encrypted_payload codec"
  lru_new :: "nat \<Rightarrow> 'c"
  lru_contains :: "bytes \<Rightarrow> 'c \<Rightarrow> bool"
  lru_push :: "bytes \<Rightarrow> 'c \<Rightarrow> 'c"
  lru_len :: "'c \<Rightarrow> nat"

record 'c router =
  rt_local_id :: node_id
  message_cache :: "(string, instant) hmap"
  ack_cache :: "(string, instant) hmap"
  nonce_cache :: 'c

subsection \<open>Operations\<close>

definition router_new :: "'c router_api \<Rightarrow> node_id \<Rightarrow> 'c router" where
  "router_new api local =
     \<lparr>rt_local_id = local, message_cache = [], ack_cache = [],
      nonce_cache = lru_new api MAX_NONCE_CACHE\<rparr>"

fun ack_type_debug :: "ack_type \<Rightarrow> string" where
  "ack_type_debug RelayForwarded = ''RelayForwarded''"
| "ack_type_debug RecipientReceived = ''RecipientReceived''"

definition message_key :: "string \<Rightarrow> node_id \<Rightarrow> string" where
  "message_key i f = i @ '':'' @ node_to_string f"

definition ack_key :: "string \<Rightarrow> node_id \<Rightarrow> ack_type \<Rightarrow> string" where
  "ack_key i f t = i @ '':'' @ node_to_string f @ '':'' @ ack_type_debug t"

definition read_key :: "string \<Rightarrow> node_id \<Rightarrow> string" where
  "read_key i f = i @ '':'' @ node_to_string f @ '':read''"

definition cleanup_caches :: "ctx \<Rightarrow> 'c router \<Rightarrow> 'c router" where
  "cleanup_caches c r =
     r\<lparr>message_cache := hm_retain (\<lambda>_ ts. now_instant c - ts < DEDUP_TTL) (message_cache r),
       ack_cache := hm_retain (\<lambda>_ ts. now_instant c - ts < ACK_TTL) (ack_cache r)\<rparr>"

definition create_delivery_ack :: "'c router_api \<Rightarrow> ctx \<Rightarrow> 'c router \<Rightarrow> envelope \<Rightarrow> envelope" where
  "create_delivery_ack api c r e =
     envelope_new_via (fresh_uuid c) (now_ms c) (rt_local_id r) (env_from e) (rev (env_via e)) Ack
       (pack_vec (api_ack api)
          \<lparr>ack_original_message_id = env_id e, ack_ack_type = RecipientReceived\<rparr>)"

definition create_relay_ack :: "'c router_api \<Rightarrow> ctx \<Rightarrow> 'c router \<Rightarrow> envelope \<Rightarrow> envelope" where
  "create_relay_ack api c r e =
     envelope_new (fresh_uuid c) (now_ms c) (rt_local_id r) (env_from e) Ack
       (pack_vec (api_ack api)
          \<lparr>ack_original_message_id = env_id e, ack_ack_type = RelayForwarded\<rparr>)"

definition handle_deliver :: "'c router_api \<Rightarrow> ctx \<Rightarrow> envelope \<Rightarrow> 'c router \<Rightarrow> routing_action \<times> 'c router" where
  "handle_deliver api c e r =
     (let key = message_key (env_id e) (env_from e);
          nonce = (if env_encrypted e
                   then (case encrypted_from_bytes (api_encrypted api) (env_payload e) of
                           Inl _ \<Rightarrow> None | Inr p \<Rightarrow> Some (enc_nonce p))
                   else None)
      in if hm_contains (message_cache r) key then (RaDrop, r)
         else if (case nonce of None \<Rightarrow> False | Some n \<Rightarrow> lru_contains api n (nonce_cache r))
         then (RaDrop, r)
         else
           (let r = (case nonce of None \<Rightarrow> r
                     | Some n \<Rightarrow> r\<lparr>nonce_cache := lru_push api n (nonce_cache r)\<rparr>);
                r = (if MAX_CACHE_SIZE \<le> length (message_cache r) then cleanup_caches c r else r);
                r = r\<lparr>message_cache := hm_insert key (now_instant c) (message_cache r)\<rparr>
            in (RaDeliver e (create_delivery_ack api c r e), r)))"

definition handle_ack :: "'c router_api \<Rightarrow> ctx \<Rightarrow> envelope \<Rightarrow> 'c router \<Rightarrow> routing_action \<times> 'c router" where
  "handle_ack api c e r =
     (case unpack_slice (api_ack api) (env_payload e) of
        Inl _ \<Rightarrow> (RaReject ''malformed ACK payload'', r)
      | Inr ack \<Rightarrow>
          let key = ack_key (ack_original_message_id ack) (env_from e) (ack_ack_type ack)
          in if hm_contains (ack_cache r) key then (RaDrop, r)
             else
               (let r = (if MAX_CACHE_SIZE \<le> length (ack_cache r) then cleanup_caches c r else r);
                    r = r\<lparr>ack_cache := hm_insert key (now_instant c) (ack_cache r)\<rparr>
                in (RaAck (ack_original_message_id ack) (ack_ack_type ack) (env_from e), r)))"

definition handle_read_receipt :: "'c router_api \<Rightarrow> ctx \<Rightarrow> envelope \<Rightarrow> 'c router \<Rightarrow> routing_action \<times> 'c router" where
  "handle_read_receipt api c e r =
     (case unpack_slice (api_read_receipt api) (env_payload e) of
        Inl _ \<Rightarrow> (RaReject ''malformed read receipt payload'', r)
      | Inr rr \<Rightarrow>
          let key = read_key (rr_original_message_id rr) (env_from e)
          in if hm_contains (ack_cache r) key then (RaDrop, r)
             else
               (let r = (if MAX_CACHE_SIZE \<le> length (ack_cache r) then cleanup_caches c r else r);
                    r = r\<lparr>ack_cache := hm_insert key (now_instant c) (ack_cache r)\<rparr>;
                    read_at = max (min (rr_read_at rr) (now_ms c))
                                (saturating_sub (now_ms c) READ_RECEIPT_MAX_AGE_MS)
                in (RaReadReceipt (rr_original_message_id rr) read_at (env_from e), r)))"

definition handle_local :: "'c router_api \<Rightarrow> ctx \<Rightarrow> envelope \<Rightarrow> 'c router \<Rightarrow> routing_action \<times> 'c router" where
  "handle_local api c e r =
     (case env_msg_type e of
        Ack \<Rightarrow> handle_ack api c e r
      | ReadReceipt \<Rightarrow> handle_read_receipt api c e r
      | _ \<Rightarrow> handle_deliver api c e r)"

definition handle_forward_in_chain ::
  "'c router_api \<Rightarrow> ctx \<Rightarrow> envelope \<Rightarrow> nat \<Rightarrow> 'c router \<Rightarrow> routing_action \<times> 'c router" where
  "handle_forward_in_chain api c e pos r =
     (let next_hop = (if length (env_via e) - 1 \<le> pos then env_to e else env_via e ! (pos + 1))
      in (case decrement_ttl e of
            Inl err \<Rightarrow> (RaReject (error_to_string err), r)
          | Inr e' \<Rightarrow> (RaForward e' next_hop (create_relay_ack api c r e'), r)))"

definition handle_direct_forward ::
  "'c router_api \<Rightarrow> ctx \<Rightarrow> envelope \<Rightarrow> 'c router \<Rightarrow> routing_action \<times> 'c router" where
  "handle_direct_forward api c e r =
     (case decrement_ttl e of
        Inl err \<Rightarrow> (RaReject (error_to_string err), r)
      | Inr e' \<Rightarrow> (RaForward e' (env_to e') (create_relay_ack api c r e'), r))"

fun position :: "'a \<Rightarrow> 'a list \<Rightarrow> nat option" where
  "position x [] = None"
| "position x (y # ys) = (if y = x then Some 0 else map_option Suc (position x ys))"

definition route :: "'c router_api \<Rightarrow> ctx \<Rightarrow> envelope \<Rightarrow> 'c router \<Rightarrow> routing_action \<times> 'c router" where
  "route api c e r =
     (if MAX_RELAY_DEPTH < length (env_via e)
      then (RaReject (''relay chain depth '' @ show_nat (length (env_via e)) @ '' exceeds max '' @
              show_nat MAX_RELAY_DEPTH), r)
      else if env_to e = rt_local_id r then handle_local api c e r
      else (case position (rt_local_id r) (env_via e) of
              Some pos \<Rightarrow> handle_forward_in_chain api c e pos r
            | None \<Rightarrow> handle_direct_forward api c e r))"

definition cache_sizes :: "'c router_api \<Rightarrow> 'c router \<Rightarrow> nat \<times> nat \<times> nat" where
  "cache_sizes api r =
     (length (message_cache r), length (ack_cache r), lru_len api (nonce_cache r))"

text \<open>The caches are hash maps: their keys are distinct. Every call keeps that.\<close>

definition router_wf :: "'c router \<Rightarrow> bool" where
  "router_wf r \<longleftrightarrow> hm_wf (message_cache r) \<and> hm_wf (ack_cache r)"

text \<open>What drives a router: routing an envelope, or the periodic cleanup tick.\<close>

datatype router_event = EvRoute ctx envelope | EvCleanup ctx

fun router_step :: "'c router_api \<Rightarrow> router_event \<Rightarrow> 'c router \<Rightarrow> 'c router" where
  "router_step api (EvRoute c e) r = snd (route api c e r)"
| "router_step api (EvCleanup c) r = cleanup_caches c r"

fun router_event_ctx :: "router_event \<Rightarrow> ctx" where
  "router_event_ctx (EvRoute c e) = c"
| "router_event_ctx (EvCleanup c) = c"

subsection \<open>Forwarding\<close>

lemma handle_local_no_forward: "fst (handle_local api c e r) \<noteq> RaForward e' next_hop ack"
proof -
  have "fst (handle_deliver api c e r) \<noteq> RaForward e' next_hop ack"
    by (simp add: handle_deliver_def Let_def)
  moreover have "fst (handle_ack api c e r) \<noteq> RaForward e' next_hop ack"
    by (simp add: handle_ack_def Let_def split: sum.split)
  moreover have "fst (handle_read_receipt api c e r) \<noteq> RaForward e' next_hop ack"
    by (simp add: handle_read_receipt_def Let_def split: sum.split)
  ultimately show ?thesis
    by (simp add: handle_local_def split: message_type.split)
qed

lemma route_forward:
  assumes "fst (route api c e r) = RaForward e' next_hop ack"
  shows "env_ttl e \<noteq> 0 \<and> e' = e\<lparr>env_ttl := env_ttl e - 1\<rparr> \<and>
    ack = create_relay_ack api c r e' \<and> snd (route api c e r) = r"
proof -
  have "env_to e \<noteq> rt_local_id r" and "length (env_via e) \<le> MAX_RELAY_DEPTH"
    using assms by (auto simp: route_def handle_local_no_forward split: if_splits)
  then show ?thesis using assms
    by (auto simp: route_def handle_forward_in_chain_def handle_direct_forward_def Let_def
        decrement_ttl_def split: if_splits option.splits)
qed

lemma unat_ttl_decrement: "(t :: u32) \<noteq> 0 \<Longrightarrow> Suc (unat (t - 1)) = unat t"
  by (metis Suc_pred' unat_gt_0 unat_minus_one)

text \<open>
  A network in which node \<open>n\<close> runs router \<open>R n\<close>: from node \<open>n\<close> the envelope goes wherever
  the router there forwards it. The hop count makes this terminate for any routers.
\<close>

function travel ::
  "'c router_api \<Rightarrow> (node_id \<Rightarrow> ctx) \<Rightarrow> (node_id \<Rightarrow> 'c router) \<Rightarrow> node_id \<Rightarrow> envelope
     \<Rightarrow> node_id list \<times> routing_action" where
  "travel api C R n e =
     (case fst (route api (C n) e (R n)) of
        RaForward e' next_hop ack \<Rightarrow>
          (let (ns, a) = travel api C R next_hop e' in (n # ns, a))
      | a \<Rightarrow> ([n], a))"
  by pat_completeness auto
termination
  by (relation "measure (\<lambda>(api, C, R, n, e). unat (env_ttl e))")
    (auto dest!: route_forward simp: unat_ttl_decrement [symmetric] less_Suc_eq_le)

declare travel.simps [simp del]

text \<open>Any number of forwards, by any routers: only the hop count changes, by one each time.\<close>

inductive hops :: "'c router_api \<Rightarrow> nat \<Rightarrow> envelope \<Rightarrow> envelope \<Rightarrow> bool"
  for api :: "'c router_api" where
  hops_none: "hops api 0 e e"
| hops_forward: "hops api n e e' \<Longrightarrow> fst (route api c e' r) = RaForward e'' next_hop ack \<Longrightarrow>
    hops api (Suc n) e e''"

lemma hops_ttl:
  "hops api n e e' \<Longrightarrow> unat (env_ttl e') + n = unat (env_ttl e) \<and> e' = e\<lparr>env_ttl := env_ttl e'\<rparr>"
proof (induction rule: hops.induct)
  case (hops_none e)
  show ?case by simp
next
  case (hops_forward n e e' c r e'' next_hop ack)
  from route_forward [OF hops_forward.hyps(2)]
  have "env_ttl e' \<noteq> 0" and e'': "e'' = e'\<lparr>env_ttl := env_ttl e' - 1\<rparr>" by auto
  then have "Suc (unat (env_ttl e'')) = unat (env_ttl e')"
    by (simp add: unat_ttl_decrement)
  with hops_forward.IH e'' show ?case by (metis add_Suc add_Suc_right envelope.surjective
      envelope.update_convs(9) envelope.select_convs(9))
qed

subsection \<open>Deduplication keys\<close>

lemma split_last_inject:
  assumes "xs @ c # us = ys @ c # vs" and "c \<notin> set us" and "c \<notin> set vs"
  shows "xs = ys \<and> us = vs"
proof -
  have eq: "rev us @ c # rev xs = rev vs @ c # rev ys"
    using arg_cong [OF assms(1), of rev] by simp
  have "takeWhile (\<lambda>x. x \<noteq> c) (rev us @ c # rev xs) = rev us"
    and "takeWhile (\<lambda>x. x \<noteq> c) (rev vs @ c # rev ys) = rev vs"
    using assms(2,3) by (auto simp: takeWhile_append takeWhile_eq_all_conv)
  with eq have "rev us = rev vs" by simp
  with eq show ?thesis by simp
qed

lemma message_key_inject: "message_key i f = message_key i' f' \<longleftrightarrow> i = i' \<and> f = f'"
  by (auto simp: message_key_def node_to_string_no_colon dest!: split_last_inject)

text \<open>Acknowledgements and read receipts share a cache; their keys never collide.\<close>

definition receipt_key :: "string \<Rightarrow> node_id \<Rightarrow> string \<Rightarrow> string" where
  "receipt_key i f kind = message_key i f @ CHR '':'' # kind"

lemma receipt_key_inject:
  assumes "CHR '':'' \<notin> set kind" and "CHR '':'' \<notin> set kind'"
  shows "receipt_key i f kind = receipt_key i' f' kind' \<longleftrightarrow> i = i' \<and> f = f' \<and> kind = kind'"
  using assms by (auto simp: receipt_key_def message_key_inject dest!: split_last_inject)

lemma ack_key_alt: "ack_key i f t = receipt_key i f (ack_type_debug t)"
  by (simp add: ack_key_def receipt_key_def message_key_def)

lemma read_key_alt: "read_key i f = receipt_key i f ''read''"
  by (simp add: read_key_def receipt_key_def message_key_def)

lemma ack_type_debug_no_colon: "CHR '':'' \<notin> set (ack_type_debug t)"
  by (cases t) auto

lemma ack_key_inject: "ack_key i f t = ack_key i' f' t' \<longleftrightarrow> i = i' \<and> f = f' \<and> t = t'"
  by (cases t; cases t') (auto simp: ack_key_alt receipt_key_inject)

lemma read_key_inject: "read_key i f = read_key i' f' \<longleftrightarrow> i = i' \<and> f = f'"
  by (auto simp: read_key_alt receipt_key_inject)

lemma ack_key_not_read_key: "ack_key i f t \<noteq> read_key i' f'"
  by (cases t) (auto simp: ack_key_alt read_key_alt receipt_key_inject)

subsection \<open>The caches over a run\<close>

lemma cleanup_caches_wf: "router_wf r \<Longrightarrow> router_wf (cleanup_caches c r)"
  by (simp add: router_wf_def cleanup_caches_def hm_wfs)

lemma handle_deliver_wf: "router_wf r \<Longrightarrow> router_wf (snd (handle_deliver api c e r))"
  by (simp add: handle_deliver_def Let_def router_wf_def cleanup_caches_def hm_wfs
      split: option.split)

lemma handle_ack_wf: "router_wf r \<Longrightarrow> router_wf (snd (handle_ack api c e r))"
  by (simp add: handle_ack_def Let_def router_wf_def cleanup_caches_def hm_wfs split: sum.split)

lemma handle_read_receipt_wf: "router_wf r \<Longrightarrow> router_wf (snd (handle_read_receipt api c e r))"
  by (simp add: handle_read_receipt_def Let_def router_wf_def cleanup_caches_def hm_wfs
      split: sum.split)

lemma forwards_keep_router:
  "snd (handle_forward_in_chain api c e pos r) = r"
  "snd (handle_direct_forward api c e r) = r"
  by (simp_all add: handle_forward_in_chain_def handle_direct_forward_def Let_def split: sum.split)

lemma route_wf: "router_wf r \<Longrightarrow> router_wf (snd (route api c e r))"
  by (simp add: route_def handle_local_def forwards_keep_router handle_deliver_wf handle_ack_wf
      handle_read_receipt_wf split: option.split message_type.split)

lemma route_local_id: "rt_local_id (snd (route api c e r)) = rt_local_id r"
  by (simp add: route_def handle_local_def forwards_keep_router handle_deliver_def handle_ack_def
      handle_read_receipt_def cleanup_caches_def Let_def
      split: option.split message_type.split sum.split)

text \<open>An entry of the message cache survives any call made before its time is up.\<close>

definition remembers :: "string \<Rightarrow> instant \<Rightarrow> 'c router \<Rightarrow> bool" where
  "remembers k ts r \<longleftrightarrow> router_wf r \<and> hm_get (message_cache r) k = Some ts"

lemma cleanup_caches_remembers:
  "now_instant c - ts < DEDUP_TTL \<Longrightarrow> remembers k ts r \<Longrightarrow> remembers k ts (cleanup_caches c r)"
  by (simp add: remembers_def cleanup_caches_wf)
    (simp add: router_wf_def cleanup_caches_def hm_simps)

lemma remembers_nonce [simp]: "remembers k ts (r\<lparr>nonce_cache := n\<rparr>) = remembers k ts r"
  by (simp add: remembers_def router_wf_def)

lemma remembers_ack:
  "remembers k ts r \<Longrightarrow> remembers k ts (r\<lparr>ack_cache := hm_insert k' t (ack_cache r)\<rparr>)"
  by (simp add: remembers_def router_wf_def hm_wfs)

lemma remembers_insert:
  "remembers k ts r \<Longrightarrow> k' \<noteq> k \<Longrightarrow>
   remembers k ts (r\<lparr>message_cache := hm_insert k' t (message_cache r)\<rparr>)"
  by (simp add: remembers_def router_wf_def hm_wfs hm_simps)

lemma handle_deliver_remembers:
  assumes "now_instant c - ts < DEDUP_TTL" and r: "remembers k ts r"
  shows "remembers k ts (snd (handle_deliver api c e r))"
proof (cases "hm_contains (message_cache r) (message_key (env_id e) (env_from e))")
  case True
  then show ?thesis using r by (simp add: handle_deliver_def)
next
  case False
  with r have "message_key (env_id e) (env_from e) \<noteq> k"
    by (auto simp: remembers_def)
  with assms show ?thesis
    by (simp add: handle_deliver_def Let_def remembers_insert cleanup_caches_remembers
        split: option.split)
qed

lemma handle_local_remembers:
  assumes "now_instant c - ts < DEDUP_TTL" and "remembers k ts r"
  shows "remembers k ts (snd (handle_local api c e r))"
proof -
  have "remembers k ts (snd (handle_ack api c e r))"
    using assms by (simp add: handle_ack_def Let_def remembers_ack cleanup_caches_remembers
        split: sum.split)
  moreover have "remembers k ts (snd (handle_read_receipt api c e r))"
    using assms by (simp add: handle_read_receipt_def Let_def remembers_ack
        cleanup_caches_remembers split: sum.split)
  ultimately show ?thesis
    using handle_deliver_remembers [OF assms]
    by (simp add: handle_local_def split: message_type.split)
qed

lemma router_step_remembers:
  assumes "now_instant (router_event_ctx ev) - ts < DEDUP_TTL" and "remembers k ts r"
  shows "remembers k ts (router_step api ev r)"
proof (cases ev)
  case (EvRoute c e)
  then show ?thesis
    using assms handle_local_remembers
    by (auto simp: route_def forwards_keep_router split: option.split)
next
  case (EvCleanup c)
  then show ?thesis using assms by (simp add: cleanup_caches_remembers)
qed

text \<open>
  The router as an event machine: its caches stay maps under any run, and it remembers a
  delivered message under every run that stays within the deduplication time.
\<close>

interpretation router_machine: event_machine "router_step api" "\<lambda>_. True" router_wf
  for api :: "'c router_api"
proof
  fix e :: router_event and r :: "'c router"
  assume "router_wf r"
  then show "router_wf (router_step api e r)"
    by (cases e) (simp_all add: route_wf cleanup_caches_wf)
qed

interpretation router_memory: event_machine "router_step api"
  "\<lambda>ev. now_instant (router_event_ctx ev) - ts < DEDUP_TTL" "remembers k ts"
  for api :: "'c router_api" and k :: string and ts :: instant
  by unfold_locales (rule router_step_remembers)

lemma deliver_remembered:
  assumes "router_wf r" and "fst (route api c e r) = RaDeliver e1 ack"
  shows "remembers (message_key (env_id e) (env_from e)) (now_instant c) (snd (route api c e r))"
proof -
  have "fst (handle_ack api c e r) \<noteq> RaDeliver e1 ack"
    by (simp add: handle_ack_def Let_def split: sum.split)
  moreover have "fst (handle_read_receipt api c e r) \<noteq> RaDeliver e1 ack"
    by (simp add: handle_read_receipt_def Let_def split: sum.split)
  ultimately have route: "route api c e r = handle_deliver api c e r"
    using assms(2)
    by (auto simp: route_def handle_local_def handle_forward_in_chain_def
        handle_direct_forward_def Let_def
        split: if_splits option.splits message_type.splits sum.splits)
  have "router_wf (snd (handle_deliver api c e r))"
    using assms(1) by (rule handle_deliver_wf)
  with assms(2) show ?thesis
    by (auto simp: route remembers_def handle_deliver_def Let_def hm_simps split: if_splits)
qed

lemma remembered_not_delivered:
  assumes "remembers (message_key (env_id e) (env_from e)) ts r"
  shows "fst (route api c e r) \<noteq> RaDeliver e1 ack"
proof -
  have "fst (handle_deliver api c e r) = RaDrop"
    using assms by (simp add: handle_deliver_def remembers_def)
  moreover have "fst (handle_ack api c e r) \<noteq> RaDeliver e1 ack"
    by (simp add: handle_ack_def Let_def split: sum.split)
  moreover have "fst (handle_read_receipt api c e r) \<noteq> RaDeliver e1 ack"
    by (simp add: handle_read_receipt_def Let_def split: sum.split)
  ultimately show ?thesis
    by (simp add: route_def handle_local_def handle_forward_in_chain_def
        handle_direct_forward_def Let_def
        split: option.split message_type.split sum.split)
qed

subsection \<open>Travelling a relay chain\<close>

lemma position_nth: "distinct xs \<Longrightarrow> i < length xs \<Longrightarrow> position (xs ! i) xs = Some i"
proof (induction xs arbitrary: i)
  case Nil
  then show ?case by simp
next
  case (Cons x xs)
  then show ?case by (cases i) (auto simp: nth_eq_iff_index_eq)
qed

lemma travel_forward:
  "fst (route api (C n) e (R n)) = RaForward e' next_hop ack \<Longrightarrow>
   travel api C R n e = (n # fst (travel api C R next_hop e'), snd (travel api C R next_hop e'))"
  by (subst travel.simps) (simp add: case_prod_beta Let_def)

lemma travel_stop:
  "\<forall>e' next_hop ack. fst (route api (C n) e (R n)) \<noteq> RaForward e' next_hop ack \<Longrightarrow>
   travel api C R n e = ([n], fst (route api (C n) e (R n)))"
  by (subst travel.simps) (simp split: routing_action.split)

text \<open>The first hop the sender hands an envelope to.\<close>

definition first_hop :: "envelope \<Rightarrow> node_id" where
  "first_hop e = (case env_via e of [] \<Rightarrow> env_to e | n # _ \<Rightarrow> n)"

lemma route_at_relay:
  assumes "rt_local_id r = env_via e ! i" and "i < length (env_via e)"
    and "distinct (env_via e @ [env_to e])" and "length (env_via e) \<le> MAX_RELAY_DEPTH"
    and "env_ttl e \<noteq> 0"
  shows "fst (route api c e r) =
    RaForward (e\<lparr>env_ttl := env_ttl e - 1\<rparr>) ((env_via e @ [env_to e]) ! Suc i)
      (create_relay_ack api c r (e\<lparr>env_ttl := env_ttl e - 1\<rparr>))"
proof -
  have "env_to e \<noteq> rt_local_id r" using assms(1-3) by auto
  moreover have "position (rt_local_id r) (env_via e) = Some i"
    using assms(1-3) by (simp add: position_nth)
  moreover have "(env_via e @ [env_to e]) ! Suc i =
      (if length (env_via e) - 1 \<le> i then env_to e else env_via e ! (i + 1))"
    using assms(2) by (auto simp: nth_append)
  ultimately show ?thesis
    using assms(4,5) by (simp add: route_def handle_forward_in_chain_def decrement_ttl_def Let_def)
qed

lemma travel_chain:
  assumes ids: "\<And>n. rt_local_id (R n) = n"
    and chain: "distinct (env_via e @ [env_to e])" "length (env_via e) \<le> MAX_RELAY_DEPTH"
  shows "i + k = length (env_via e) \<Longrightarrow> k \<le> unat t \<Longrightarrow>
    travel api C R ((env_via e @ [env_to e]) ! i) (e\<lparr>env_ttl := t\<rparr>) =
      (drop i (env_via e) @ [env_to e],
       fst (route api (C (env_to e)) (e\<lparr>env_ttl := t - of_nat k\<rparr>) (R (env_to e))))"
proof (induction k arbitrary: i t)
  case 0
  have "fst (route api (C (env_to e)) (e\<lparr>env_ttl := t\<rparr>) (R (env_to e))) \<noteq> RaForward e' nh ack"
    for e' nh ack
    using chain by (simp add: route_def ids handle_local_no_forward)
  with 0 show ?case by (simp add: travel_stop nth_append)
next
  case (Suc k)
  let ?n = "env_via e ! i"
  have i: "i < length (env_via e)" using Suc.prems by simp
  have t: "t \<noteq> 0" using Suc.prems by auto
  have "fst (route api (C ?n) (e\<lparr>env_ttl := t\<rparr>) (R ?n)) =
      RaForward (e\<lparr>env_ttl := t - 1\<rparr>) ((env_via e @ [env_to e]) ! Suc i)
        (create_relay_ack api (C ?n) (R ?n) (e\<lparr>env_ttl := t - 1\<rparr>))"
    using route_at_relay [of "R ?n" "e\<lparr>env_ttl := t\<rparr>" i api "C ?n"] ids chain i t by simp
  moreover have "travel api C R ((env_via e @ [env_to e]) ! Suc i) (e\<lparr>env_ttl := t - 1\<rparr>) =
      (drop (Suc i) (env_via e) @ [env_to e],
       fst (route api (C (env_to e)) (e\<lparr>env_ttl := t - 1 - of_nat k\<rparr>) (R (env_to e))))"
  proof (rule Suc.IH)
    show "Suc i + k = length (env_via e)" using Suc.prems by simp
    show "k \<le> unat (t - 1)" using Suc.prems unat_ttl_decrement [OF t] by linarith
  qed
  ultimately have "travel api C R ?n (e\<lparr>env_ttl := t\<rparr>) =
      (?n # drop (Suc i) (env_via e) @ [env_to e],
       fst (route api (C (env_to e)) (e\<lparr>env_ttl := t - 1 - of_nat k\<rparr>) (R (env_to e))))"
    by (simp add: travel_forward)
  moreover have "t - 1 - of_nat k = t - of_nat (Suc k)" by simp
  ultimately show ?case
    using i by (simp add: nth_append Cons_nth_drop_Suc [symmetric])
qed

lemma travel_from_first_hop:
  assumes "\<And>n. rt_local_id (R n) = n" and "distinct (env_via e @ [env_to e])"
    and "length (env_via e) \<le> MAX_RELAY_DEPTH" and "length (env_via e) \<le> unat (env_ttl e)"
  shows "travel api C R (first_hop e) e =
    (env_via e @ [env_to e],
     fst (route api (C (env_to e)) (e\<lparr>env_ttl := env_ttl e - of_nat (length (env_via e))\<rparr>)
       (R (env_to e))))"
proof -
  have "first_hop e = (env_via e @ [env_to e]) ! 0"
    by (simp add: first_hop_def split: list.split)
  then show ?thesis
    using travel_chain [OF assms(1-3), of 0 "length (env_via e)" "env_ttl e" api C] assms(4)
    by simp
qed

text \<open>When the router of the recipient accepts an envelope as new.\<close>

definition accepts :: "'c router_api \<Rightarrow> envelope \<Rightarrow> 'c router \<Rightarrow> bool" where
  "accepts api e r \<longleftrightarrow>
     env_msg_type e \<noteq> Ack \<and> env_msg_type e \<noteq> ReadReceipt \<and>
     \<not> hm_contains (message_cache r) (message_key (env_id e) (env_from e)) \<and>
     (env_encrypted e \<longrightarrow>
        (case encrypted_from_bytes (api_encrypted api) (env_payload e) of
           Inl _ \<Rightarrow> True | Inr p \<Rightarrow> \<not> lru_contains api (enc_nonce p) (nonce_cache r)))"

lemma accepts_ttl [simp]: "accepts api (e\<lparr>env_ttl := t\<rparr>) r = accepts api e r"
  by (simp add: accepts_def)

lemma create_delivery_ack_cong:
  "rt_local_id r = rt_local_id r' \<Longrightarrow> create_delivery_ack api c r e = create_delivery_ack api c r' e"
  by (simp add: create_delivery_ack_def)

lemma accepts_deliver:
  assumes "accepts api e r"
  shows "fst (handle_local api c e r) = RaDeliver e (create_delivery_ack api c r e)"
proof -
  have "fst (handle_deliver api c e r) = RaDeliver e (create_delivery_ack api c r e)"
    using assms
    by (auto simp: accepts_def handle_deliver_def Let_def cleanup_caches_def
        split: option.split sum.splits intro!: create_delivery_ack_cong)
  with assms show ?thesis
    by (simp add: handle_local_def accepts_def split: message_type.split)
qed

lemma route_accepts:
  assumes "accepts api e r" and "env_to e = rt_local_id r" and "length (env_via e) \<le> MAX_RELAY_DEPTH"
  shows "fst (route api c e r) = RaDeliver e (create_delivery_ack api c r e)"
  using assms by (simp add: route_def accepts_deliver)

text \<open>Which keys a call can add to the message cache.\<close>

lemma cleanup_caches_keys:
  "set (hm_keys (message_cache (cleanup_caches c r))) \<subseteq> set (hm_keys (message_cache r))"
  by (auto simp: cleanup_caches_def hm_retain_def)

lemma handle_deliver_keys:
  "set (hm_keys (message_cache (snd (handle_deliver api c e r)))) \<subseteq>
     insert (message_key (env_id e) (env_from e)) (set (hm_keys (message_cache r)))"
  using cleanup_caches_keys [of c r] cleanup_caches_keys [of c "r\<lparr>nonce_cache := n\<rparr>" for n]
  by (simp add: handle_deliver_def Let_def dom_update split: option.split) blast

lemma handle_local_keys:
  "set (hm_keys (message_cache (snd (handle_local api c e r)))) \<subseteq>
     insert (message_key (env_id e) (env_from e)) (set (hm_keys (message_cache r)))"
proof -
  have "set (hm_keys (message_cache (snd (handle_ack api c e r)))) \<subseteq> set (hm_keys (message_cache r))"
    using cleanup_caches_keys [of c r] by (simp add: handle_ack_def Let_def split: sum.split)
  moreover have "set (hm_keys (message_cache (snd (handle_read_receipt api c e r)))) \<subseteq>
      set (hm_keys (message_cache r))"
    using cleanup_caches_keys [of c r]
    by (simp add: handle_read_receipt_def Let_def split: sum.split)
  ultimately show ?thesis
    using handle_deliver_keys [of api c e r]
    by (simp add: handle_local_def subset_insertI2 split: message_type.split)
qed

fun event_keys :: "router_event \<Rightarrow> string set" where
  "event_keys (EvRoute c e) = {message_key (env_id e) (env_from e)}"
| "event_keys (EvCleanup c) = {}"

lemma router_step_keys:
  "set (hm_keys (message_cache (router_step api ev r))) \<subseteq>
     event_keys ev \<union> set (hm_keys (message_cache r))"
proof (cases ev)
  case (EvRoute c e)
  then show ?thesis
    using handle_local_keys [of api c e r]
    by (auto simp: route_def forwards_keep_router split: option.split)
next
  case (EvCleanup c)
  then show ?thesis by (auto simp: cleanup_caches_def hm_retain_def)
qed

lemma router_run_keys:
  "set (hm_keys (message_cache (fold (router_step api) evs r))) \<subseteq>
     (\<Union>ev \<in> set evs. event_keys ev) \<union> set (hm_keys (message_cache r))"
proof (induction evs arbitrary: r)
  case Nil
  then show ?case by simp
next
  case (Cons ev evs)
  show ?case using Cons.IH [of "router_step api ev r"] router_step_keys [of api ev r] by auto
qed

lemma router_run_local_id:
  "rt_local_id (fold (router_step api) evs r) = rt_local_id r"
proof (induction evs arbitrary: r)
  case Nil
  then show ?case by simp
next
  case (Cons ev evs)
  then show ?case by (cases ev) (simp_all add: route_local_id cleanup_caches_def)
qed

lemma router_new_wf: "router_wf (router_new api n)"
  by (simp add: router_new_def router_wf_def)

subsection \<open>A concrete instance of the parameters\<close>

text \<open>
  Used by the witnesses: an acknowledgement codec that writes the kind as one byte followed
  by the identifier, and a nonce cache that is a plain list.
\<close>

definition demo_ack_pack :: "ack_payload pack" where
  "demo_ack_pack =
     \<lparr>pack_vec = (\<lambda>a. (case ack_ack_type a of RelayForwarded \<Rightarrow> 0 | RecipientReceived \<Rightarrow> 1) #
                   str_bytes (ack_original_message_id a)),
      unpack_slice = (\<lambda>b. case b of [] \<Rightarrow> Inl ''empty''
         | k # rest \<Rightarrow> Inr \<lparr>ack_original_message_id = map (\<lambda>x. char_of (unat x)) rest,
                          ack_ack_type = (if k = 0 then RelayForwarded else RecipientReceived)\<rparr>)\<rparr>"

definition demo_rr_pack :: "read_receipt_payload pack" where
  "demo_rr_pack =
     \<lparr>pack_vec = (\<lambda>a. []), unpack_slice = (\<lambda>b. Inr \<lparr>rr_original_message_id = ''m'', rr_read_at = 5\<rparr>)\<rparr>"

definition demo_router_api :: "bytes list router_api" where
  "demo_router_api =
     \<lparr>api_ack = demo_ack_pack, api_read_receipt = demo_rr_pack, api_encrypted = demo_enc_codec,
      lru_new = (\<lambda>n. []), lru_contains = (\<lambda>k c. k \<in> set c), lru_push = (\<lambda>k c. k # c),
      lru_len = length\<rparr>"

lemma str_bytes_inverse: "map (\<lambda>b. char_of (unat b)) (str_bytes s) = s"
proof -
  have "char_of (unat (of_nat (of_char c) :: u8)) = c" for c
    by (simp add: unat_of_nat)
  then show ?thesis by (simp add: str_bytes_def comp_def)
qed

lemma demo_ack_pack_ok: "pack_ok demo_ack_pack"
  by (auto simp: pack_ok_def demo_ack_pack_def str_bytes_inverse split: ack_type.split)

text \<open>Four nodes, each with a fresh router; a signed chat envelope over two relays.\<close>

definition demo_ctx :: ctx where
  "demo_ctx = \<lparr>now_ms = 1000, now_instant = secs 5, fresh_uuid = ''u''\<rparr>"

definition demo_env :: envelope where
  "demo_env = envelope_new_via ''m'' 1000 (NodeId 1) (NodeId 4) [NodeId 2, NodeId 3] Chat [42]"

lemma demo_accepts: "accepts demo_router_api demo_env (router_new demo_router_api (NodeId 4))"
  by (simp add: accepts_def demo_env_def envelope_new_via_def router_new_def)

lemma demo_env_simps:
  "env_id demo_env = ''m''" "env_from demo_env = NodeId 1" "env_to demo_env = NodeId 4"
  "env_via demo_env = [NodeId 2, NodeId 3]" "env_ttl demo_env = 4" "env_msg_type demo_env = Chat"
  by (simp_all add: demo_env_def envelope_new_via_def DEFAULT_TTL_def)

text \<open>Messages that arrive at one instant with fresh keys all stay in the cache.\<close>

definition plain_chat :: "string \<Rightarrow> node_id \<Rightarrow> node_id \<Rightarrow> envelope \<Rightarrow> bool" where
  "plain_chat i f n e \<longleftrightarrow> env_id e = i \<and> env_from e = f \<and> env_to e = n \<and> env_via e = [] \<and>
     env_msg_type e = Chat \<and> \<not> env_encrypted e"

lemma route_plain_chat:
  assumes "plain_chat i f (rt_local_id r) e" and "\<not> hm_contains (message_cache r) (message_key i f)"
    and "\<forall>(k, ts) \<in> set (message_cache r). ts = now_instant c"
  shows "message_cache (snd (route api c e r)) =
    hm_insert (message_key i f) (now_instant c) (message_cache r)"
proof -
  have "filter (\<lambda>(k, ts). now_instant c - ts < DEDUP_TTL) (message_cache r) = message_cache r"
    using assms(3) by (auto simp: filter_id_conv DEDUP_TTL_def)
  with assms(1,2) show ?thesis
    by (simp add: plain_chat_def route_def handle_local_def handle_deliver_def Let_def
        cleanup_caches_def hm_retain_def)
qed

lemma plain_chats_grow:
  "distinct ids \<Longrightarrow> \<forall>(k, ts) \<in> set (message_cache r). ts = now_instant c \<Longrightarrow>
   \<forall>i \<in> set ids. plain_chat i f (rt_local_id r) (E i) \<and>
     \<not> hm_contains (message_cache r) (message_key i f) \<Longrightarrow>
   length (message_cache (fold (\<lambda>i r. snd (route api c (E i) r)) ids r)) =
     length ids + length (message_cache r)"
proof (induction ids arbitrary: r)
  case Nil
  then show ?case by simp
next
  case (Cons i ids)
  let ?r = "snd (route api c (E i) r)"
  have cache: "message_cache ?r = hm_insert (message_key i f) (now_instant c) (message_cache r)"
    using Cons.prems by (intro route_plain_chat) auto
  have "\<forall>(k, ts) \<in> set (message_cache ?r). ts = now_instant c"
    using Cons.prems(2) set_insert_subset [of "message_key i f" "now_instant c" "message_cache r"]
    by (auto simp: cache)
  moreover have "\<forall>j \<in> set ids. plain_chat j f (rt_local_id ?r) (E j) \<and>
      \<not> hm_contains (message_cache ?r) (message_key j f)"
    using Cons.prems(1,3) by (auto simp: cache route_local_id hm_simps message_key_inject)
  ultimately have "length (message_cache (fold (\<lambda>i r. snd (route api c (E i) r)) ids ?r)) =
      length ids + length (message_cache ?r)"
    using Cons.prems(1) by (intro Cons.IH) auto
  then show ?case using Cons.prems(3) by (simp add: cache length_insert)
qed

subsection \<open>Properties\<close>

text \<open>
  C4. A message is delivered at most once within the deduplication time: when routing an
  envelope delivers it, then after any further sequence of calls (other envelopes, cleanup
  ticks) made less than ten minutes later, routing an envelope with the same identifier and
  sender does not deliver it again.
\<close>

theorem deliver_once:
  assumes "router_wf r" and "fst (route api c e r) = RaDeliver e1 ack1"
    and "list_all (\<lambda>ev. now_instant (router_event_ctx ev) - now_instant c < DEDUP_TTL) evs"
    and "env_id e' = env_id e" and "env_from e' = env_from e"
  shows "fst (route api c' e' (fold (router_step api) evs (snd (route api c e r)))) \<noteq>
    RaDeliver e2 ack2"
proof -
  have "remembers (message_key (env_id e) (env_from e)) (now_instant c) (snd (route api c e r))"
    using assms(1,2) by (rule deliver_remembered)
  with assms(3)
  have "remembers (message_key (env_id e) (env_from e)) (now_instant c)
      (fold (router_step api) evs (snd (route api c e r)))"
    by (rule router_memory.run_invar)
  then show ?thesis
    using assms(4,5) by (intro remembered_not_delivered) simp
qed

theorem deliver_once_witness:
  "\<exists>ack. fst (route demo_router_api demo_ctx demo_env (router_new demo_router_api (NodeId 4))) =
      RaDeliver demo_env ack \<and>
    (\<forall>e2 ack2. fst (route demo_router_api demo_ctx (demo_env\<lparr>env_payload := [7]\<rparr>)
      (fold (router_step demo_router_api) [EvCleanup (demo_ctx\<lparr>now_instant := secs 604\<rparr>)]
        (snd (route demo_router_api demo_ctx demo_env (router_new demo_router_api (NodeId 4))))))
      \<noteq> RaDeliver e2 ack2)"
proof -
  let ?r = "router_new demo_router_api (NodeId 4)"
  have del: "fst (route demo_router_api demo_ctx demo_env ?r) =
      RaDeliver demo_env (create_delivery_ack demo_router_api demo_ctx ?r demo_env)"
    by (rule route_accepts [OF demo_accepts])
      (simp_all add: demo_env_simps MAX_RELAY_DEPTH_def router_new_def)
  have "list_all (\<lambda>ev. now_instant (router_event_ctx ev) - now_instant demo_ctx < DEDUP_TTL)
      [EvCleanup (demo_ctx\<lparr>now_instant := secs 604\<rparr>)]"
    by (simp add: demo_ctx_def DEDUP_TTL_def)
  from deliver_once [OF router_new_wf del this, of "demo_env\<lparr>env_payload := [7]\<rparr>"]
  show ?thesis using del by auto
qed

text \<open>
  C14. A message is never mistaken for a duplicate: whatever a router has routed since it was
  created, an unencrypted message to it whose identifier and sender occurred in no earlier
  envelope is delivered, with a delivery acknowledgement.
\<close>

theorem new_message_delivered:
  assumes "\<And>c e'. EvRoute c e' \<in> set evs \<Longrightarrow> (env_id e', env_from e') \<noteq> (env_id e, env_from e)"
    and "env_to e = n" and "length (env_via e) \<le> MAX_RELAY_DEPTH" and "\<not> env_encrypted e"
    and "env_msg_type e \<noteq> Ack" and "env_msg_type e \<noteq> ReadReceipt"
  shows "fst (route api c e (fold (router_step api) evs (router_new api n))) =
    RaDeliver e (create_delivery_ack api c (router_new api n) e)"
proof -
  let ?r = "fold (router_step api) evs (router_new api n)"
  let ?k = "message_key (env_id e) (env_from e)"
  have "?k \<notin> event_keys ev" if "ev \<in> set evs" for ev
  proof (cases ev)
    case (EvRoute c e')
    then show ?thesis using that assms(1) [of c e'] by (auto simp: message_key_inject)
  qed simp
  with router_run_keys [of api evs "router_new api n"]
  have "?k \<notin> set (hm_keys (message_cache ?r))" by (auto simp: router_new_def)
  then have "accepts api e ?r"
    using assms(4-6) by (auto simp: accepts_def map_of_eq_None_iff)
  moreover have "rt_local_id ?r = n" by (simp add: router_run_local_id) (simp add: router_new_def)
  ultimately show ?thesis
    using route_accepts [of api e ?r c] assms(2,3)
    by (simp add: create_delivery_ack_def router_new_def)
qed

theorem new_message_delivered_witness:
  "fst (route demo_router_api demo_ctx demo_env (fold (router_step demo_router_api)
      [EvRoute demo_ctx (demo_env\<lparr>env_from := NodeId 9\<rparr>)] (router_new demo_router_api (NodeId 4)))) =
    RaDeliver demo_env (create_delivery_ack demo_router_api demo_ctx
      (router_new demo_router_api (NodeId 4)) demo_env)"
  by (rule new_message_delivered)
    (auto simp: demo_env_simps MAX_RELAY_DEPTH_def,
     simp add: demo_env_def envelope_new_via_def)

text \<open>
  C5. Relays cannot disturb a signed envelope and cannot keep it alive: after any \<open>n\<close>
  forwards by any routers in any state, the signature check gives the same answer, only the
  hop count has changed, and it has fallen by exactly \<open>n\<close>; in particular \<open>n\<close> is at most the
  initial hop count.
\<close>

theorem forwarding_safe:
  assumes "hops rapi n e e'"
  shows "verify_signature api w e' = verify_signature api w e \<and>
    e' = e\<lparr>env_ttl := env_ttl e'\<rparr> \<and> unat (env_ttl e') + n = unat (env_ttl e)"
  using hops_ttl [OF assms] verify_signature_ttl by metis

theorem forwarding_safe_witness:
  "hops demo_router_api 1 demo_env (demo_env\<lparr>env_ttl := 3\<rparr>) \<and>
   verify_signature demo_crypto demo_wire0 (demo_env\<lparr>env_ttl := 3\<rparr>) =
     verify_signature demo_crypto demo_wire0 demo_env"
proof -
  have "fst (route demo_router_api demo_ctx demo_env (router_new demo_router_api (NodeId 2))) =
      RaForward (demo_env\<lparr>env_ttl := 3\<rparr>) (NodeId 3)
        (create_relay_ack demo_router_api demo_ctx (router_new demo_router_api (NodeId 2))
          (demo_env\<lparr>env_ttl := 3\<rparr>))"
    by (subst route_at_relay [where i = 0])
      (simp_all add: demo_env_simps router_new_def MAX_RELAY_DEPTH_def)
  then have h: "hops demo_router_api 1 demo_env (demo_env\<lparr>env_ttl := 3\<rparr>)"
    using hops_forward [OF hops_none] by simp
  show ?thesis using h forwarding_safe [OF h, of demo_crypto demo_wire0] by blast
qed

text \<open>
  C2. A relay chain works end to end: in a network where every node runs a router under its
  own name, an envelope with distinct relays, at most the maximal depth and enough hops,
  handed to its first hop, visits the relays in order and then the recipient; a recipient
  that has not seen it delivers it and answers with an acknowledgement to the sender over the
  reversed chain.
\<close>

theorem chain_delivers:
  assumes "\<And>n. rt_local_id (R n) = n" and "distinct (env_via e @ [env_to e])"
    and "length (env_via e) \<le> MAX_RELAY_DEPTH" and "length (env_via e) \<le> unat (env_ttl e)"
    and "accepts api e (R (env_to e))"
  shows "\<exists>e' ack. travel api C R (first_hop e) e = (env_via e @ [env_to e], RaDeliver e' ack) \<and>
    env_payload e' = env_payload e \<and> env_from ack = env_to e \<and> env_to ack = env_from e \<and>
    env_via ack = rev (env_via e) \<and> env_msg_type ack = Ack"
proof -
  let ?e = "e\<lparr>env_ttl := env_ttl e - of_nat (length (env_via e))\<rparr>" and ?r = "R (env_to e)"
  have "fst (route api (C (env_to e)) ?e ?r) =
      RaDeliver ?e (create_delivery_ack api (C (env_to e)) ?r ?e)"
    using assms by (intro route_accepts) auto
  then show ?thesis
    using travel_from_first_hop [OF assms(1-4), of api C] assms(1)
    by (simp add: create_delivery_ack_def envelope_new_via_def)
qed

theorem chain_delivers_witness:
  "\<exists>e' ack. travel demo_router_api (\<lambda>_. demo_ctx) (router_new demo_router_api) (NodeId 2) demo_env =
      ([NodeId 2, NodeId 3, NodeId 4], RaDeliver e' ack) \<and>
    env_payload e' = [42] \<and> env_from ack = NodeId 4 \<and> env_to ack = NodeId 1 \<and>
    env_via ack = [NodeId 3, NodeId 2] \<and> env_msg_type ack = Ack"
proof -
  have first: "first_hop demo_env = NodeId 2" by (simp add: first_hop_def demo_env_simps)
  have pl: "env_payload demo_env = [42]" by (simp add: demo_env_def envelope_new_via_def)
  show ?thesis
    using chain_delivers [of "router_new demo_router_api" demo_env demo_router_api "\<lambda>_. demo_ctx"]
      demo_accepts first pl
    by (simp add: router_new_def demo_env_simps MAX_RELAY_DEPTH_def)
qed

text \<open>
  C3. The delivery acknowledgement finds its way home: for an envelope over a chain of
  distinct relays none of which is the sender, the acknowledgement the recipient's router
  creates visits the relays in reverse order and then the sender, whose router reports the
  original message as received by the recipient.
\<close>

theorem ack_retraces_chain:
  assumes "pack_ok (api_ack api)" and "\<And>n. rt_local_id (R n) = n"
    and "distinct (env_via e @ [env_from e])" and "length (env_via e) \<le> MAX_RELAY_DEPTH"
    and "\<not> hm_contains (ack_cache (R (env_from e)))
           (ack_key (env_id e) (env_to e) RecipientReceived)"
  shows "travel api C R (first_hop (create_delivery_ack api c (R (env_to e)) e))
      (create_delivery_ack api c (R (env_to e)) e) =
    (rev (env_via e) @ [env_from e], RaAck (env_id e) RecipientReceived (env_to e))"
proof -
  let ?a = "create_delivery_ack api c (R (env_to e)) e"
  have a: "env_via ?a = rev (env_via e)" "env_to ?a = env_from e" "env_ttl ?a = 4"
      "env_from ?a = env_to e" "env_msg_type ?a = Ack"
      "unpack_slice (api_ack api) (env_payload ?a) =
         Inr \<lparr>ack_original_message_id = env_id e, ack_ack_type = RecipientReceived\<rparr>"
    using assms(1,2)
    by (simp_all add: create_delivery_ack_def envelope_new_via_def DEFAULT_TTL_def pack_ok_def)
  have "travel api C R (first_hop ?a) ?a = (env_via ?a @ [env_to ?a],
     fst (route api (C (env_to ?a)) (?a\<lparr>env_ttl := env_ttl ?a - of_nat (length (env_via ?a))\<rparr>)
       (R (env_to ?a))))"
    using assms(2-4) by (intro travel_from_first_hop) (auto simp: a MAX_RELAY_DEPTH_def)
  then show ?thesis
    using assms(2,4,5) by (simp add: a route_def handle_local_def handle_ack_def Let_def)
qed

theorem ack_retraces_chain_witness:
  "travel demo_router_api (\<lambda>_. demo_ctx) (router_new demo_router_api) (NodeId 3)
      (create_delivery_ack demo_router_api demo_ctx (router_new demo_router_api (NodeId 4)) demo_env) =
    ([NodeId 3, NodeId 2, NodeId 1], RaAck ''m'' RecipientReceived (NodeId 4))"
proof -
  have ok: "pack_ok (api_ack demo_router_api)" by (simp add: demo_router_api_def demo_ack_pack_ok)
  have first: "first_hop (create_delivery_ack demo_router_api demo_ctx
      (router_new demo_router_api (NodeId 4)) demo_env) = NodeId 3"
    by (simp add: first_hop_def create_delivery_ack_def envelope_new_via_def demo_env_simps)
  show ?thesis
    using ack_retraces_chain [OF ok, of "router_new demo_router_api" demo_env "\<lambda>_. demo_ctx" demo_ctx]
      first
    by (simp add: router_new_def demo_env_simps MAX_RELAY_DEPTH_def)
qed

text \<open>
  The size limit of the deduplication cache is not a limit: cleaning up only removes
  entries older than ten minutes, so \<open>m\<close> messages with different identifiers arriving within
  ten minutes leave \<open>m\<close> entries, however large \<open>m\<close> is.
\<close>

theorem dedup_cache_unbounded:
  assumes "distinct ids" and "\<And>i. i \<in> set ids \<Longrightarrow> plain_chat i f n (E i)"
  shows "length (message_cache (fold (\<lambda>i r. snd (route api c (E i) r)) ids (router_new api n))) =
    length ids"
  using plain_chats_grow [OF assms(1), of "router_new api n" c f E api] assms(2)
  by (simp add: router_new_def)

theorem dedup_cache_unbounded_witness:
  "length (message_cache (fold (\<lambda>i r. snd (route demo_router_api demo_ctx
      (demo_env\<lparr>env_id := i, env_via := []\<rparr>) r))
      (map (\<lambda>k. replicate k CHR ''x'') [0..<10001]) (router_new demo_router_api (NodeId 4)))) = 10001"
proof -
  have "distinct (map (\<lambda>k. replicate k CHR ''x'') [0..<10001])"
    by (auto simp: distinct_map inj_on_def)
  from dedup_cache_unbounded [OF this, of "NodeId 1" "NodeId 4"
      "\<lambda>i. demo_env\<lparr>env_id := i, env_via := []\<rparr>" demo_router_api demo_ctx]
  show ?thesis
    by (simp add: plain_chat_def demo_env_simps) (simp add: demo_env_def envelope_new_via_def)
qed

end
