(* ===== verification/Tom_Tracker.thy ===== *)
theory Tom_Tracker
  imports Tom_Types
begin

section \<open>Message lifecycle tracking\<close>

text \<open>
  Models \<^verbatim>\<open>tom-protocol/src/tracker.rs\<close>: the table of outgoing messages with their status,
  acknowledgement deadline and remaining retries, and its persistence. The lemmas show that a
  status only ever moves forward along Pending, Sent, Relayed, Delivered, Read, that Failed is
  entered only before delivery and never left, that the table stays bounded, and what
  survives a restart.
\<close>

subsection \<open>Data\<close>

definition MAX_TRACKED :: nat where "MAX_TRACKED = 10000"
definition MAX_AGE :: nat where "MAX_AGE = secs (24 * 60 * 60)"
definition DEFAULT_ACK_DEADLINE :: nat where "DEFAULT_ACK_DEADLINE = secs 30"
definition DEFAULT_MAX_RETRIES :: u8 where "DEFAULT_MAX_RETRIES = 2"

record status_change =
  sc_message_id :: string
  sc_previous :: message_status
  sc_current :: message_status

record tracked_message =
  tm_status :: message_status
  tm_to :: node_id
  tm_created :: instant
  tm_deadline :: "instant option"
  tm_retries_remaining :: u8

record message_tracker =
  tr_messages :: "(string, tracked_message) hmap"

record tracked_message_record =
  tmr_to :: node_id
  tmr_status :: message_status
  tmr_created_ms :: u64
  tmr_retries_remaining :: u8

subsection \<open>Operations\<close>

definition tracker_new :: message_tracker where
  "tracker_new = \<lparr>tr_messages = []\<rparr>"

definition evict_expired :: "ctx \<Rightarrow> message_tracker \<Rightarrow> message_tracker" where
  "evict_expired c t =
     t\<lparr>tr_messages := hm_retain (\<lambda>_ m. now_instant c - tm_created m < MAX_AGE) (tr_messages t)\<rparr>"

definition track :: "ctx \<Rightarrow> string \<Rightarrow> node_id \<Rightarrow> message_tracker \<Rightarrow> status_change option \<times> message_tracker" where
  "track c mid to t =
     (let t = (if MAX_TRACKED \<le> length (tr_messages t) then evict_expired c t else t)
      in if MAX_TRACKED \<le> length (tr_messages t) then (None, t)
         else
           (Some \<lparr>sc_message_id = mid, sc_previous = Pending, sc_current = Pending\<rparr>,
            t\<lparr>tr_messages := hm_insert mid
                 \<lparr>tm_status = Pending, tm_to = to, tm_created = now_instant c,
                  tm_deadline = Some (now_instant c + DEFAULT_ACK_DEADLINE),
                  tm_retries_remaining = DEFAULT_MAX_RETRIES\<rparr> (tr_messages t)\<rparr>))"

definition advance :: "string \<Rightarrow> message_status \<Rightarrow> message_tracker \<Rightarrow> status_change option \<times> message_tracker" where
  "advance mid new_status t =
     (case hm_get (tr_messages t) mid of
        None \<Rightarrow> (None, t)
      | Some m \<Rightarrow>
          if tm_status m = Failed then (None, t)
          else if new_status \<le> tm_status m then (None, t)
          else
            (Some \<lparr>sc_message_id = mid, sc_previous = tm_status m, sc_current = new_status\<rparr>,
             t\<lparr>tr_messages := hm_modify mid (\<lambda>m. m\<lparr>tm_status := new_status\<rparr>) (tr_messages t)\<rparr>))"

definition mark_sent :: "string \<Rightarrow> message_tracker \<Rightarrow> status_change option \<times> message_tracker" where
  "mark_sent mid t = advance mid Sent t"

definition mark_relayed :: "string \<Rightarrow> message_tracker \<Rightarrow> status_change option \<times> message_tracker" where
  "mark_relayed mid t = advance mid Relayed t"

definition mark_delivered :: "string \<Rightarrow> message_tracker \<Rightarrow> status_change option \<times> message_tracker" where
  "mark_delivered mid t =
     (let (result, t) = advance mid Delivered t
      in if result \<noteq> None
         then (result, t\<lparr>tr_messages := hm_modify mid (\<lambda>m. m\<lparr>tm_deadline := None\<rparr>) (tr_messages t)\<rparr>)
         else (result, t))"

definition mark_read :: "string \<Rightarrow> message_tracker \<Rightarrow> status_change option \<times> message_tracker" where
  "mark_read mid t = advance mid Read t"

definition mark_failed :: "string \<Rightarrow> message_tracker \<Rightarrow> status_change option \<times> message_tracker" where
  "mark_failed mid t =
     (case hm_get (tr_messages t) mid of
        None \<Rightarrow> (None, t)
      | Some m \<Rightarrow>
          if Delivered \<le> tm_status m then (None, t)
          else
            (Some \<lparr>sc_message_id = mid, sc_previous = tm_status m, sc_current = Failed\<rparr>,
             t\<lparr>tr_messages := hm_modify mid (\<lambda>m. m\<lparr>tm_status := Failed, tm_deadline := None\<rparr>)
                  (tr_messages t)\<rparr>))"

definition reset_deadline :: "ctx \<Rightarrow> string \<Rightarrow> message_tracker \<Rightarrow> message_tracker" where
  "reset_deadline c mid t =
     t\<lparr>tr_messages := hm_modify mid
         (\<lambda>m. m\<lparr>tm_deadline := Some (now_instant c + DEFAULT_ACK_DEADLINE),
               tm_retries_remaining := saturating_sub (tm_retries_remaining m) 1\<rparr>) (tr_messages t)\<rparr>"

definition deadline_expired :: "ctx \<Rightarrow> tracked_message \<Rightarrow> bool" where
  "deadline_expired c m \<longleftrightarrow>
     tm_status m < Delivered \<and> tm_status m \<noteq> Failed \<and>
     (case tm_deadline m of None \<Rightarrow> False | Some d \<Rightarrow> d \<le> now_instant c)"

definition expired_deadlines :: "ctx \<Rightarrow> message_tracker \<Rightarrow> (string \<times> node_id \<times> u8) list" where
  "expired_deadlines c t =
     map (\<lambda>(mid, m). (mid, tm_to m, tm_retries_remaining m))
       (filter (\<lambda>(_, m). deadline_expired c m) (tr_messages t))"

definition tr_status :: "string \<Rightarrow> message_tracker \<Rightarrow> message_status option" where
  "tr_status mid t = map_option tm_status (hm_get (tr_messages t) mid)"

definition tr_len :: "message_tracker \<Rightarrow> nat" where
  "tr_len t = length (tr_messages t)"

definition tr_remove :: "string \<Rightarrow> message_tracker \<Rightarrow> bool \<times> message_tracker" where
  "tr_remove mid t =
     (hm_contains (tr_messages t) mid, t\<lparr>tr_messages := hm_remove mid (tr_messages t)\<rparr>)"

definition tr_snapshot :: "ctx \<Rightarrow> message_tracker \<Rightarrow> (string, tracked_message_record) hmap" where
  "tr_snapshot c t =
     map (\<lambda>(mid, m).
         (mid, \<lparr>tmr_to = tm_to m, tmr_status = tm_status m,
                tmr_created_ms = saturating_sub (now_ms c)
                  (of_nat ((now_instant c - tm_created m) div 1000000)),
                tmr_retries_remaining = tm_retries_remaining m\<rparr>))
       (filter (\<lambda>(_, m). tm_status m < Delivered \<and> tm_status m \<noteq> Failed) (tr_messages t))"

definition restored_message :: "ctx \<Rightarrow> tracked_message_record \<Rightarrow> tracked_message" where
  "restored_message c r =
     \<lparr>tm_status = tmr_status r, tm_to = tmr_to r, tm_created = now_instant c,
      tm_deadline = Some (now_instant c + DEFAULT_ACK_DEADLINE),
      tm_retries_remaining = tmr_retries_remaining r\<rparr>"

definition tr_restore :: "ctx \<Rightarrow> (string, tracked_message_record) hmap \<Rightarrow> message_tracker \<Rightarrow> message_tracker" where
  "tr_restore c records t =
     fold (\<lambda>(mid, r) t. t\<lparr>tr_messages := hm_insert mid (restored_message c r) (tr_messages t)\<rparr>) records t"

subsection \<open>The tracker as an event machine\<close>

datatype tracker_event =
    TeTrack ctx string node_id
  | TeSent string
  | TeRelayed string
  | TeDelivered string
  | TeRead string
  | TeFailed string
  | TeResetDeadline ctx string
  | TeRemove string
  | TeEvict ctx
  | TeRestore ctx "(string, tracked_message_record) hmap"

fun tracker_step :: "tracker_event \<Rightarrow> message_tracker \<Rightarrow> message_tracker" where
  "tracker_step (TeTrack c mid to) t = snd (track c mid to t)"
| "tracker_step (TeSent mid) t = snd (mark_sent mid t)"
| "tracker_step (TeRelayed mid) t = snd (mark_relayed mid t)"
| "tracker_step (TeDelivered mid) t = snd (mark_delivered mid t)"
| "tracker_step (TeRead mid) t = snd (mark_read mid t)"
| "tracker_step (TeFailed mid) t = snd (mark_failed mid t)"
| "tracker_step (TeResetDeadline c mid) t = reset_deadline c mid t"
| "tracker_step (TeRemove mid) t = snd (tr_remove mid t)"
| "tracker_step (TeEvict c) t = evict_expired c t"
| "tracker_step (TeRestore c rs) t = tr_restore c rs t"

subsection \<open>Lemmas\<close>

definition tracker_wf :: "message_tracker \<Rightarrow> bool" where
  "tracker_wf t \<longleftrightarrow> hm_wf (tr_messages t)"

text \<open>The order in which a status may change.\<close>

definition lifecycle :: "message_status \<Rightarrow> message_status \<Rightarrow> bool" where
  "lifecycle a b \<longleftrightarrow> a = b \<or> a < b \<and> b \<noteq> Failed \<or> a < Delivered \<and> b = Failed"

lemma lifecycle_trans: "lifecycle a b \<Longrightarrow> lifecycle b c \<Longrightarrow> lifecycle a c"
  by (cases a; cases b; cases c) (auto simp: lifecycle_def status_order)

text \<open>
  The message \<open>mid\<close>, tracked since \<open>t0\<close>, has a status reachable from \<open>st\<close>. Every event keeps
  this, apart from those that remove the message or track it anew.
\<close>

definition follows :: "string \<Rightarrow> instant \<Rightarrow> message_status \<Rightarrow> message_tracker \<Rightarrow> bool" where
  "follows mid t0 st t \<longleftrightarrow> tracker_wf t \<and>
     (\<exists>m. hm_get (tr_messages t) mid = Some m \<and> tm_created m = t0 \<and> lifecycle st (tm_status m))"

fun keeps_message :: "string \<Rightarrow> instant \<Rightarrow> tracker_event \<Rightarrow> bool" where
  "keeps_message mid t0 (TeTrack c mid' to) \<longleftrightarrow> mid' \<noteq> mid \<and> now_instant c - t0 < MAX_AGE"
| "keeps_message mid t0 (TeRemove mid') \<longleftrightarrow> mid' \<noteq> mid"
| "keeps_message mid t0 (TeEvict c) \<longleftrightarrow> now_instant c - t0 < MAX_AGE"
| "keeps_message mid t0 (TeRestore c rs) \<longleftrightarrow> mid \<notin> set (hm_keys rs)"
| "keeps_message mid t0 _ \<longleftrightarrow> True"

lemma follows_modify:
  assumes "follows mid t0 st t"
    and "\<And>m. hm_get (tr_messages t) k = Some m \<Longrightarrow>
      tm_created (f m) = tm_created m \<and> lifecycle (tm_status m) (tm_status (f m))"
  shows "follows mid t0 st (t\<lparr>tr_messages := hm_modify k f (tr_messages t)\<rparr>)"
proof -
  from assms(1) obtain m where m: "hm_get (tr_messages t) mid = Some m" "tm_created m = t0"
      "lifecycle st (tm_status m)" and wf: "tracker_wf t"
    by (auto simp: follows_def)
  let ?m = "if mid = k then f m else m"
  have "tm_created ?m = t0" and "lifecycle st (tm_status ?m)"
    using m assms(2) lifecycle_trans by auto
  moreover have "hm_get (hm_modify k f (tr_messages t)) mid = Some ?m"
    using m by (auto simp: hm_simps)
  ultimately show ?thesis using wf by (simp add: follows_def tracker_wf_def)
qed

lemma advance_follows: "follows mid t0 st t \<Longrightarrow> new \<noteq> Failed \<Longrightarrow> follows mid t0 st (snd (advance k new t))"
  by (auto simp: advance_def lifecycle_def not_le split: option.split intro!: follows_modify)

lemma mark_delivered_follows:
  "follows mid t0 st t \<Longrightarrow> follows mid t0 st (snd (mark_delivered k t))"
  using advance_follows [of mid t0 st t Delivered k]
  by (auto simp: mark_delivered_def case_prod_beta Let_def lifecycle_def intro: follows_modify)

lemma mark_failed_follows:
  "follows mid t0 st t \<Longrightarrow> follows mid t0 st (snd (mark_failed k t))"
  by (auto simp: mark_failed_def lifecycle_def not_le split: option.split intro!: follows_modify)

lemma evict_follows:
  "follows mid t0 st t \<Longrightarrow> now_instant c - t0 < MAX_AGE \<Longrightarrow> follows mid t0 st (evict_expired c t)"
  by (auto simp: follows_def tracker_wf_def evict_expired_def hm_simps hm_wfs)

lemma insert_follows:
  "follows mid t0 st t \<Longrightarrow> k \<noteq> mid \<Longrightarrow>
   follows mid t0 st (t\<lparr>tr_messages := hm_insert k m (tr_messages t)\<rparr>)"
  by (auto simp: follows_def tracker_wf_def hm_simps hm_wfs)

lemma restore_follows:
  "follows mid t0 st t \<Longrightarrow> mid \<notin> set (hm_keys rs) \<Longrightarrow> follows mid t0 st (tr_restore c rs t)"
proof (induction rs arbitrary: t)
  case Nil
  then show ?case by (simp add: tr_restore_def)
next
  case (Cons kr rs)
  obtain k r where kr: "kr = (k, r)" by force
  let ?t = "t\<lparr>tr_messages := hm_insert k (restored_message c r) (tr_messages t)\<rparr>"
  have "follows mid t0 st ?t" using Cons.prems by (intro insert_follows) (auto simp: kr)
  then have "follows mid t0 st (tr_restore c rs ?t)" using Cons by auto
  then show ?case by (simp add: tr_restore_def kr)
qed

lemma remove_follows:
  "follows mid t0 st t \<Longrightarrow> k \<noteq> mid \<Longrightarrow> follows mid t0 st (snd (tr_remove k t))"
  by (auto simp: follows_def tracker_wf_def tr_remove_def hm_simps hm_wfs)

lemma reset_deadline_follows: "follows mid t0 st t \<Longrightarrow> follows mid t0 st (reset_deadline c k t)"
  by (auto simp: reset_deadline_def lifecycle_def intro: follows_modify)

lemma tracker_step_follows:
  "keeps_message mid t0 ev \<Longrightarrow> follows mid t0 st t \<Longrightarrow> follows mid t0 st (tracker_step ev t)"
  by (cases ev)
    (auto simp: track_def Let_def mark_sent_def mark_relayed_def mark_read_def
      intro: insert_follows evict_follows advance_follows mark_delivered_follows
        mark_failed_follows restore_follows remove_follows reset_deadline_follows)

interpretation tracker_follows: event_machine tracker_step "keeps_message mid t0" "follows mid t0 st"
  for mid :: string and t0 :: instant and st :: message_status
  by unfold_locales (rule tracker_step_follows)

text \<open>The table is a map of bounded size; only restoring a snapshot may exceed the bound.\<close>

definition tracker_bounded :: "message_tracker \<Rightarrow> bool" where
  "tracker_bounded t \<longleftrightarrow> tracker_wf t \<and> length (tr_messages t) \<le> MAX_TRACKED"

fun not_restore :: "tracker_event \<Rightarrow> bool" where
  "not_restore (TeRestore c rs) \<longleftrightarrow> False"
| "not_restore _ \<longleftrightarrow> True"

lemma advance_bounded: "tracker_bounded t \<Longrightarrow> tracker_bounded (snd (advance k new t))"
  by (auto simp: advance_def tracker_bounded_def tracker_wf_def split: option.split)

lemma mark_bounded:
  assumes "tracker_bounded t"
  shows "tracker_bounded (snd (mark_delivered k t))" and "tracker_bounded (snd (mark_failed k t))"
  using advance_bounded [OF assms, of k Delivered] assms
  by (auto simp: mark_delivered_def mark_failed_def tracker_bounded_def tracker_wf_def
      case_prod_beta Let_def split: option.split)

lemma evict_bounded: "tracker_bounded t \<Longrightarrow> tracker_bounded (evict_expired c t)"
  by (auto simp: evict_expired_def tracker_bounded_def tracker_wf_def hm_wfs
      intro: order_trans [OF length_retain_le])

lemma track_bounded: "tracker_bounded t \<Longrightarrow> tracker_bounded (snd (track c mid to t))"
  using evict_bounded [of t c]
  by (auto simp: track_def Let_def tracker_bounded_def tracker_wf_def hm_wfs length_insert)

lemma remove_bounded: "tracker_bounded t \<Longrightarrow> tracker_bounded (snd (tr_remove k t))"
  using length_remove_le [of k "tr_messages t"]
  by (simp add: tr_remove_def tracker_bounded_def tracker_wf_def hm_wfs)

lemma reset_deadline_bounded: "tracker_bounded t \<Longrightarrow> tracker_bounded (reset_deadline c k t)"
  by (simp add: reset_deadline_def tracker_bounded_def tracker_wf_def)

interpretation tracker_size: event_machine tracker_step not_restore tracker_bounded
proof
  fix ev t
  assume "not_restore ev" and "tracker_bounded t"
  then show "tracker_bounded (tracker_step ev t)"
    by (cases ev)
      (simp_all add: mark_sent_def mark_relayed_def mark_read_def advance_bounded mark_bounded
        track_bounded evict_bounded reset_deadline_bounded remove_bounded)
qed

text \<open>What a restart keeps.\<close>

lemma restore_get:
  "hm_wf rs \<Longrightarrow> hm_get (tr_messages (tr_restore c rs t)) k =
     (case hm_get rs k of None \<Rightarrow> hm_get (tr_messages t) k | Some r \<Rightarrow> Some (restored_message c r))"
proof (induction rs arbitrary: t)
  case Nil
  then show ?case by (simp add: tr_restore_def)
next
  case (Cons kr rs)
  obtain k' r where kr: "kr = (k', r)" by force
  let ?t = "t\<lparr>tr_messages := hm_insert k' (restored_message c r) (tr_messages t)\<rparr>"
  have "hm_get rs k' = None" using Cons.prems by (auto simp: kr map_of_eq_None_iff)
  then show ?case
    using Cons.IH [of ?t] Cons.prems
    by (auto simp: kr tr_restore_def hm_simps split: option.split)
qed

lemma snapshot_get:
  "hm_wf (tr_messages t) \<Longrightarrow> hm_get (tr_snapshot c t) k =
     (case hm_get (tr_messages t) k of None \<Rightarrow> None
      | Some m \<Rightarrow> if tm_status m < Delivered then
          Some \<lparr>tmr_to = tm_to m, tmr_status = tm_status m,
                tmr_created_ms = saturating_sub (now_ms c)
                  (of_nat ((now_instant c - tm_created m) div 1000000)),
                tmr_retries_remaining = tm_retries_remaining m\<rparr> else None)"
proof -
  assume wf: "hm_wf (tr_messages t)"
  let ?f = "\<lambda>m. \<lparr>tmr_to = tm_to m, tmr_status = tm_status m,
                tmr_created_ms = saturating_sub (now_ms c)
                  (of_nat ((now_instant c - tm_created m) div 1000000)),
                tmr_retries_remaining = tm_retries_remaining m\<rparr>"
  have "tr_snapshot c t =
      hm_map_values ?f (hm_retain (\<lambda>_ m. tm_status m < Delivered) (tr_messages t))"
    by (auto simp: tr_snapshot_def hm_map_values_def hm_retain_def status_order
        intro!: arg_cong [where f = "map _"] filter_cong)
  with wf show ?thesis by (auto simp: hm_simps split: option.split)
qed

lemma snapshot_wf: "hm_wf (tr_messages t) \<Longrightarrow> hm_wf (tr_snapshot c t)"
  by (auto simp: tr_snapshot_def distinct_map inj_on_def comp_def case_prod_beta)

subsection \<open>Properties\<close>

text \<open>
  C13. A tracked message never moves backwards: under any sequence of calls (acknowledgements,
  read receipts, failures, retries, evictions, restores, other messages) that neither removes
  it nor tracks it anew, its status only advances along Pending, Sent, Relayed, Delivered,
  Read; it can become Failed only before it is delivered, and a failed message stays failed.
\<close>

theorem status_never_regresses:
  assumes "tracker_wf t" and "hm_get (tr_messages t) mid = Some m"
    and "list_all (keeps_message mid (tm_created m)) evs"
  shows "\<exists>st. tr_status mid (fold tracker_step evs t) = Some st \<and> lifecycle (tm_status m) st"
proof -
  have "follows mid (tm_created m) (tm_status m) t"
    using assms(1,2) by (auto simp: follows_def lifecycle_def)
  with assms(3) have "follows mid (tm_created m) (tm_status m) (fold tracker_step evs t)"
    by (rule tracker_follows.run_invar)
  then show ?thesis by (auto simp: follows_def tr_status_def)
qed

definition demo_tctx :: ctx where
  "demo_tctx = \<lparr>now_ms = 5000, now_instant = secs 5, fresh_uuid = ''u''\<rparr>"

theorem status_never_regresses_witness:
  "tr_status ''m'' (snd (track demo_tctx ''m'' (NodeId 4) tracker_new)) = Some Pending \<and>
   (\<exists>st. tr_status ''m'' (fold tracker_step
      [TeDelivered ''m'', TeRelayed ''m'', TeFailed ''m'', TeEvict demo_tctx]
      (snd (track demo_tctx ''m'' (NodeId 4) tracker_new))) = Some st \<and> lifecycle Pending st)"
  using status_never_regresses [of "snd (track demo_tctx ''m'' (NodeId 4) tracker_new)" "''m''" _
      "[TeDelivered ''m'', TeRelayed ''m'', TeFailed ''m'', TeEvict demo_tctx]"]
  by (simp add: track_def tracker_new_def MAX_TRACKED_def tracker_wf_def demo_tctx_def
      MAX_AGE_def tr_status_def)

text \<open>
  The tracking table is bounded: from an empty tracker, whatever is called short of
  restoring a snapshot, it never holds more than ten thousand messages and never two entries
  for one identifier.
\<close>

theorem tracker_stays_bounded:
  assumes "list_all not_restore evs"
  shows "tr_len (fold tracker_step evs tracker_new) \<le> MAX_TRACKED \<and>
    distinct (hm_keys (tr_messages (fold tracker_step evs tracker_new)))"
proof -
  have "tracker_bounded tracker_new" by (simp add: tracker_bounded_def tracker_wf_def tracker_new_def)
  with assms have "tracker_bounded (fold tracker_step evs tracker_new)"
    by (rule tracker_size.run_invar)
  then show ?thesis by (simp add: tracker_bounded_def tracker_wf_def tr_len_def)
qed

theorem tracker_stays_bounded_witness:
  "list_all not_restore [TeTrack demo_tctx ''m'' (NodeId 4), TeSent ''m''] \<and>
   tr_len (fold tracker_step [TeTrack demo_tctx ''m'' (NodeId 4), TeSent ''m''] tracker_new) \<le> MAX_TRACKED"
  using tracker_stays_bounded [of "[TeTrack demo_tctx ''m'' (NodeId 4), TeSent ''m'']"] by simp

text \<open>
  C17. A restart keeps exactly the messages still under way: restoring a snapshot into an empty
  tracker gives each message that was not yet delivered its recipient, status and remaining
  retries back, with a new deadline of thirty seconds, and none of the delivered, read or
  failed ones.
\<close>

theorem tracker_snapshot_restore:
  assumes "tracker_wf t"
  shows "hm_get (tr_messages (tr_restore c' (tr_snapshot c t) tracker_new)) mid =
    (case hm_get (tr_messages t) mid of
       None \<Rightarrow> None
     | Some m \<Rightarrow> if tm_status m < Delivered
         then Some (m\<lparr>tm_created := now_instant c',
                      tm_deadline := Some (now_instant c' + DEFAULT_ACK_DEADLINE)\<rparr>)
         else None)"
  using assms snapshot_wf [of t c] snapshot_get [of t c mid]
  by (simp add: restore_get tracker_wf_def tracker_new_def restored_message_def split: option.split)

theorem tracker_snapshot_restore_witness:
  "hm_get (tr_messages (tr_restore demo_tctx (tr_snapshot demo_tctx
      (snd (track demo_tctx ''m'' (NodeId 4) tracker_new))) tracker_new)) ''m'' =
    hm_get (tr_messages (snd (track demo_tctx ''m'' (NodeId 4) tracker_new))) ''m''"
  using tracker_snapshot_restore [of "snd (track demo_tctx ''m'' (NodeId 4) tracker_new)"
      demo_tctx demo_tctx "''m''"]
  by (simp add: track_def tracker_new_def MAX_TRACKED_def tracker_wf_def demo_tctx_def status_order)

end
