(* ===== verification/Tom_Topology.thy ===== *)
theory Tom_Topology
  imports Tom_Types
begin

section \<open>Network topology and relay selection\<close>

text \<open>
  Models \<^verbatim>\<open>tom-protocol/src/relay.rs\<close>: the table of known peers and the choice of a relay.
  The lemmas show that the table stays a bounded map in which every entry carries its own
  key, and that the selector returns the most recently seen online relay among those allowed,
  or nothing when there is none.
\<close>

subsection \<open>Data\<close>

definition MAX_PEERS :: nat where "MAX_PEERS = 10000"

datatype peer_role = Peer | Relay

datatype peer_status = Online | Offline | Stale

record peer_info =
  pi_node_id :: node_id
  pi_role :: peer_role
  pi_status :: peer_status
  pi_last_seen :: u64

record topology =
  tp_peers :: "(node_id, peer_info) hmap"

datatype selection_reason = MostRecent | OnlyOption | Alternate | NoRelayAvailable

record relay_selection =
  rs_relay_id :: "node_id option"
  rs_reason :: selection_reason

subsection \<open>Operations\<close>

definition topology_new :: topology where
  "topology_new = \<lparr>tp_peers = []\<rparr>"

definition upsert :: "peer_info \<Rightarrow> topology \<Rightarrow> bool \<times> topology" where
  "upsert info t =
     (if MAX_PEERS \<le> length (tp_peers t) \<and> \<not> hm_contains (tp_peers t) (pi_node_id info)
      then (False, t)
      else (True, t\<lparr>tp_peers := hm_insert (pi_node_id info) info (tp_peers t)\<rparr>))"

definition tp_remove :: "node_id \<Rightarrow> topology \<Rightarrow> topology" where
  "tp_remove n t = t\<lparr>tp_peers := hm_remove n (tp_peers t)\<rparr>"

definition tp_get :: "node_id \<Rightarrow> topology \<Rightarrow> peer_info option" where
  "tp_get n t = hm_get (tp_peers t) n"

text \<open>\<open>get_mut\<close>: the caller updates the entry in place.\<close>

definition tp_modify :: "node_id \<Rightarrow> (peer_info \<Rightarrow> peer_info) \<Rightarrow> topology \<Rightarrow> topology" where
  "tp_modify n f t = t\<lparr>tp_peers := hm_modify n f (tp_peers t)\<rparr>"

definition tp_len :: "topology \<Rightarrow> nat" where
  "tp_len t = length (tp_peers t)"

definition is_online_relay :: "peer_info \<Rightarrow> bool" where
  "is_online_relay p \<longleftrightarrow> pi_role p = Relay \<and> pi_status p = Online"

text \<open>A stable sort by descending time of last activity.\<close>

definition online_relays :: "topology \<Rightarrow> peer_info list" where
  "online_relays t =
     sort_key (\<lambda>p. - uint (pi_last_seen p)) (filter is_online_relay (hm_values (tp_peers t)))"

definition select_best_excluding :: "node_id \<Rightarrow> node_id \<Rightarrow> topology \<Rightarrow> node_id list \<Rightarrow> relay_selection" where
  "select_best_excluding self target t exclude =
     (let candidates = filter (\<lambda>p. pi_node_id p \<noteq> self \<and> pi_node_id p \<noteq> target \<and>
                                 pi_node_id p \<notin> set exclude) (online_relays t)
      in case candidates of
           [] \<Rightarrow> \<lparr>rs_relay_id = None, rs_reason = NoRelayAvailable\<rparr>
         | [p] \<Rightarrow> \<lparr>rs_relay_id = Some (pi_node_id p), rs_reason = OnlyOption\<rparr>
         | p # _ \<Rightarrow> \<lparr>rs_relay_id = Some (pi_node_id p), rs_reason = MostRecent\<rparr>)"

definition select_best :: "node_id \<Rightarrow> node_id \<Rightarrow> topology \<Rightarrow> relay_selection" where
  "select_best self target t = select_best_excluding self target t []"

definition select_alternate :: "node_id \<Rightarrow> node_id \<Rightarrow> topology \<Rightarrow> node_id list \<Rightarrow> relay_selection" where
  "select_alternate self target t failed =
     (let selection = select_best_excluding self target t failed
      in if rs_relay_id selection \<noteq> None
         then \<lparr>rs_relay_id = rs_relay_id selection, rs_reason = Alternate\<rparr>
         else selection)"

definition select_path :: "node_id \<Rightarrow> node_id \<Rightarrow> topology \<Rightarrow> node_id list" where
  "select_path self target t =
     (case rs_relay_id (select_best self target t) of Some relay \<Rightarrow> [relay] | None \<Rightarrow> [])"

subsection \<open>The table\<close>

definition topology_wf :: "topology \<Rightarrow> bool" where
  "topology_wf t \<longleftrightarrow> hm_wf (tp_peers t) \<and> (\<forall>(n, p) \<in> set (tp_peers t). pi_node_id p = n) \<and>
     length (tp_peers t) \<le> MAX_PEERS"

datatype topology_event =
    TpUpsert peer_info
  | TpRemove node_id
  | TpRole node_id peer_role
  | TpStatus node_id peer_status

text \<open>The two in-place updates the callers make: a new role and a new status.\<close>

fun topology_step :: "topology_event \<Rightarrow> topology \<Rightarrow> topology" where
  "topology_step (TpUpsert p) t = snd (upsert p t)"
| "topology_step (TpRemove n) t = tp_remove n t"
| "topology_step (TpRole n r) t = tp_modify n (\<lambda>p. p\<lparr>pi_role := r\<rparr>) t"
| "topology_step (TpStatus n s) t = tp_modify n (\<lambda>p. p\<lparr>pi_status := s\<rparr>) t"

lemma upsert_wf: "topology_wf t \<Longrightarrow> topology_wf (snd (upsert p t))"
  using set_insert_subset [of "pi_node_id p" p "tp_peers t"]
  by (fastforce simp: upsert_def topology_wf_def hm_wfs length_insert)

lemma tp_remove_wf: "topology_wf t \<Longrightarrow> topology_wf (tp_remove n t)"
  using set_remove_subset [of n "tp_peers t"] length_remove_le [of n "tp_peers t"]
  by (fastforce simp: tp_remove_def topology_wf_def hm_wfs)

lemma tp_modify_wf:
  assumes "topology_wf t" and "\<And>p. pi_node_id (f p) = pi_node_id p"
  shows "topology_wf (tp_modify n f t)"
  using assms by (auto simp: tp_modify_def topology_wf_def) (auto simp: hm_modify_def)

interpretation topology_machine: event_machine topology_step "\<lambda>_. True" topology_wf
proof
  fix ev t
  assume "topology_wf t"
  then show "topology_wf (topology_step ev t)"
    by (cases ev) (auto intro: upsert_wf tp_remove_wf tp_modify_wf)
qed

lemma topology_new_wf: "topology_wf topology_new"
  by (simp add: topology_wf_def topology_new_def)

lemma tp_get_online_relays:
  assumes "topology_wf t"
  shows "p \<in> set (online_relays t) \<longleftrightarrow> tp_get (pi_node_id p) t = Some p \<and> is_online_relay p"
  using assms by (force simp: online_relays_def tp_get_def topology_wf_def)

subsection \<open>The choice of a relay\<close>

text \<open>What makes a peer a candidate relay.\<close>

definition relay_candidate :: "node_id \<Rightarrow> node_id \<Rightarrow> node_id list \<Rightarrow> topology \<Rightarrow> peer_info \<Rightarrow> bool" where
  "relay_candidate self target exclude t p \<longleftrightarrow>
     tp_get (pi_node_id p) t = Some p \<and> is_online_relay p \<and> pi_node_id p \<noteq> self \<and>
     pi_node_id p \<noteq> target \<and> pi_node_id p \<notin> set exclude"

lemma sort_key_filter_hd_least:
  assumes "filter P (sort_key f xs) = y # ys" and "x \<in> set xs" and "P x"
  shows "f y \<le> f x"
proof -
  have "sorted (map f (filter P (sort_key f xs)))" by (simp add: sorted_filter)
  moreover have "x \<in> set (filter P (sort_key f xs))" using assms(2,3) by simp
  ultimately show ?thesis using assms(1) by auto
qed

lemma select_best_excluding_cases:
  "select_best_excluding self target t exclude =
     (let candidates = filter (\<lambda>p. pi_node_id p \<noteq> self \<and> pi_node_id p \<noteq> target \<and>
                                 pi_node_id p \<notin> set exclude) (online_relays t)
      in \<lparr>rs_relay_id = (if candidates = [] then None else Some (pi_node_id (hd candidates))),
          rs_reason = (if candidates = [] then NoRelayAvailable
                       else if length candidates = 1 then OnlyOption else MostRecent)\<rparr>)"
  by (simp add: select_best_excluding_def Let_def split: list.split)

subsection \<open>Properties\<close>

text \<open>
  C16. The relay selector is right: the relay it returns is a known online relay other than the
  sender, the target and the excluded nodes, no candidate was seen more recently, and it
  returns none exactly when there is no candidate.
\<close>

theorem select_best_correct:
  assumes "topology_wf t"
  shows "(rs_relay_id (select_best_excluding self target t exclude) = None \<longleftrightarrow>
      (\<nexists>p. relay_candidate self target exclude t p)) \<and>
    (\<forall>n. rs_relay_id (select_best_excluding self target t exclude) = Some n \<longrightarrow>
      (\<exists>p. relay_candidate self target exclude t p \<and> pi_node_id p = n \<and>
        (\<forall>q. relay_candidate self target exclude t q \<longrightarrow> pi_last_seen q \<le> pi_last_seen p)))"
proof -
  let ?P = "\<lambda>p. pi_node_id p \<noteq> self \<and> pi_node_id p \<noteq> target \<and> pi_node_id p \<notin> set exclude"
  let ?cs = "filter ?P (online_relays t)"
  have cand: "p \<in> set ?cs \<longleftrightarrow> relay_candidate self target exclude t p" for p
    using tp_get_online_relays [OF assms, of p] by (auto simp: relay_candidate_def)
  have none: "?cs = [] \<longleftrightarrow> (\<nexists>p. relay_candidate self target exclude t p)"
    using cand by (metis (no_types, lifting) empty_iff list.set(1) set_empty2 subsetI subset_antisym)
  have best: "pi_last_seen q \<le> pi_last_seen (hd ?cs)"
    if "relay_candidate self target exclude t q" for q
  proof -
    from that cand have "q \<in> set ?cs" by simp
    then obtain y ys where cs: "?cs = y # ys" by (cases ?cs) auto
    have "q \<in> set (filter is_online_relay (hm_values (tp_peers t)))" and "?P q"
      using \<open>q \<in> set ?cs\<close> by (auto simp: online_relays_def)
    with sort_key_filter_hd_least [OF cs [unfolded online_relays_def]]
    have "- uint (pi_last_seen y) \<le> - uint (pi_last_seen q)" by blast
    then show ?thesis by (simp add: cs word_le_def)
  qed
  have hd: "relay_candidate self target exclude t (hd ?cs)" if "?cs \<noteq> []"
    using cand hd_in_set [OF that] by blast
  show ?thesis
    using none best hd
    by (auto simp: select_best_excluding_cases Let_def simp del: filter_empty_conv)
qed

definition demo_topology :: topology where
  "demo_topology = \<lparr>tp_peers =
     [(NodeId 2, \<lparr>pi_node_id = NodeId 2, pi_role = Relay, pi_status = Online, pi_last_seen = 10\<rparr>),
      (NodeId 3, \<lparr>pi_node_id = NodeId 3, pi_role = Relay, pi_status = Online, pi_last_seen = 20\<rparr>),
      (NodeId 7, \<lparr>pi_node_id = NodeId 7, pi_role = Peer, pi_status = Online, pi_last_seen = 30\<rparr>)]\<rparr>"

lemma demo_topology_wf: "topology_wf demo_topology"
  by (simp add: topology_wf_def demo_topology_def MAX_PEERS_def)

lemma demo_select: "rs_relay_id (select_best_excluding (NodeId 1) (NodeId 4) demo_topology []) = Some (NodeId 3)"
  by (simp add: select_best_excluding_def online_relays_def demo_topology_def is_online_relay_def)

theorem select_best_correct_witness:
  "topology_wf demo_topology \<and>
   (\<exists>p. relay_candidate (NodeId 1) (NodeId 4) [] demo_topology p \<and> pi_node_id p = NodeId 3)"
  using demo_topology_wf demo_select
    select_best_correct [OF demo_topology_wf, of "NodeId 1" "NodeId 4" "[]"] by blast

text \<open>
  The peer table is a bounded map under any sequence of updates: at most ten thousand
  peers, one entry per node, each stored under its own identity.
\<close>

theorem topology_stays_wf:
  shows "topology_wf (fold topology_step evs topology_new)"
  by (rule topology_machine.run_invar) (simp_all add: topology_new_wf list_all_iff)

end
