(* ===== verification/Tom_GroupTypes.thy ===== *)
theory Tom_GroupTypes
  imports Tom_Crypto
begin

section \<open>Groups: data structures\<close>

text \<open>
  Models \<^verbatim>\<open>tom-protocol/src/group/types.rs\<close>: groups, members, payloads, signed and encrypted
  group messages, actions and events. The serialiser of the message content is an argument of
  type \<open>pack\<close>. The lemmas show that signing and verifying a group message agree and that an
  encrypted message opens under the sender key it was made with.
\<close>

subsection \<open>Constants\<close>

definition MAX_GROUP_MEMBERS :: nat where "MAX_GROUP_MEMBERS = 50"
definition INVITE_TTL_MS :: u64 where "INVITE_TTL_MS = 24 * 60 * 60 * 1000"
definition MAX_SYNC_MESSAGES :: nat where "MAX_SYNC_MESSAGES = 100"
definition GROUP_RATE_LIMIT_PER_SECOND :: u32 where "GROUP_RATE_LIMIT_PER_SECOND = 5"
definition SHADOW_PING_FAILURE_THRESHOLD :: u32 where "SHADOW_PING_FAILURE_THRESHOLD = 2"
definition CANDIDATE_ORPHAN_TIMEOUT_MS :: u64 where "CANDIDATE_ORPHAN_TIMEOUT_MS = 30000"
definition SENDER_KEY_ROTATE_MAX_AGE_MS :: u64 where
  "SENDER_KEY_ROTATE_MAX_AGE_MS = 24 * 60 * 60 * 1000"
definition SENDER_KEY_ROTATE_MAX_MESSAGES :: u64 where "SENDER_KEY_ROTATE_MAX_MESSAGES = 10000"
definition SENDER_KEY_EPOCH_GRACE_MS :: u64 where "SENDER_KEY_EPOCH_GRACE_MS = 5 * 60 * 1000"
definition SENDER_KEY_PURGE_MAX_AGE_MS :: u64 where
  "SENDER_KEY_PURGE_MAX_AGE_MS = 7 * 24 * 60 * 60 * 1000"
definition SENDER_KEY_ROTATE_RATE_LIMIT_MS :: u64 where
  "SENDER_KEY_ROTATE_RATE_LIMIT_MS = 60 * 60 * 1000"

subsection \<open>Groups and members\<close>

datatype group_id = GroupId (gid_string: string)

definition group_id_new :: "ctx \<Rightarrow> group_id" where
  "group_id_new c = GroupId (''grp-'' @ fresh_uuid c)"

datatype group_member_role = Admin | Member

record group_member =
  gm_node_id :: node_id
  gm_username :: string
  gm_joined_at :: u64
  gm_role :: group_member_role

record group_info =
  gi_group_id :: group_id
  gi_name :: string
  gi_hub_relay_id :: node_id
  gi_backup_hub_id :: "node_id option"
  gi_members :: "group_member list"
  gi_created_by :: node_id
  gi_created_at :: u64
  gi_last_activity_at :: u64
  gi_max_members :: nat
  gi_shadow_id :: "node_id option"
  gi_candidate_id :: "node_id option"
  gi_invite_only :: bool

definition is_member :: "group_info \<Rightarrow> node_id \<Rightarrow> bool" where
  "is_member g n \<longleftrightarrow> list_ex (\<lambda>m. gm_node_id m = n) (gi_members g)"

definition is_admin :: "group_info \<Rightarrow> node_id \<Rightarrow> bool" where
  "is_admin g n \<longleftrightarrow> list_ex (\<lambda>m. gm_node_id m = n \<and> gm_role m = Admin) (gi_members g)"

definition get_member :: "group_info \<Rightarrow> node_id \<Rightarrow> group_member option" where
  "get_member g n = find (\<lambda>m. gm_node_id m = n) (gi_members g)"

definition member_count :: "group_info \<Rightarrow> nat" where
  "member_count g = length (gi_members g)"

definition is_full :: "group_info \<Rightarrow> bool" where
  "is_full g \<longleftrightarrow> gi_max_members g \<le> length (gi_members g)"

text \<open>Set the role of the first member with that identity, in place.\<close>

definition set_role :: "node_id \<Rightarrow> group_member_role \<Rightarrow> group_member list \<Rightarrow> group_member list" where
  "set_role n r ms =
     (case List.extract (\<lambda>m. gm_node_id m = n) ms of
        None \<Rightarrow> ms
      | Some (before, m, after) \<Rightarrow> before @ m\<lparr>gm_role := r\<rparr> # after)"

record group_invite =
  inv_group_id :: group_id
  inv_group_name :: string
  inv_inviter_id :: node_id
  inv_inviter_username :: string
  inv_hub_relay_id :: node_id
  inv_invited_at :: u64
  inv_expires_at :: u64

definition invite_is_expired :: "group_invite \<Rightarrow> u64 \<Rightarrow> bool" where
  "invite_is_expired i now \<longleftrightarrow> inv_expires_at i \<le> now"

subsection \<open>Messages\<close>

record group_message =
  msg_group_id :: group_id
  msg_message_id :: string
  msg_sender_id :: node_id
  msg_sender_username :: string
  msg_text :: string
  msg_ciphertext :: bytes
  msg_nonce :: bytes
  msg_key_epoch :: u32
  msg_encrypted :: bool
  msg_sent_at :: u64
  msg_sender_signature :: bytes
  msg_seq :: u64

record group_message_content =
  gmc_username :: string
  gmc_text :: string

definition group_message_new :: "ctx \<Rightarrow> group_id \<Rightarrow> node_id \<Rightarrow> string \<Rightarrow> string \<Rightarrow> group_message" where
  "group_message_new c gid sender username txt =
     \<lparr>msg_group_id = gid, msg_message_id = fresh_uuid c, msg_sender_id = sender,
      msg_sender_username = username, msg_text = txt, msg_ciphertext = [],
      msg_nonce = replicate 24 0, msg_key_epoch = 0, msg_encrypted = False,
      msg_sent_at = now_ms c, msg_sender_signature = [], msg_seq = 0\<rparr>"

text \<open>\<open>None\<close> is the panic of the unwrapped encryption.\<close>

definition group_message_new_encrypted ::
  "crypto_api \<Rightarrow> group_message_content pack \<Rightarrow> ctx \<Rightarrow> bytes \<Rightarrow> group_id \<Rightarrow> node_id \<Rightarrow> string \<Rightarrow> string
     \<Rightarrow> bytes \<Rightarrow> u32 \<Rightarrow> group_message option" where
  "group_message_new_encrypted api cp c nonce gid sender username txt sender_key key_epoch =
     (case encrypt_group_message api nonce
             (pack_vec cp \<lparr>gmc_username = username, gmc_text = txt\<rparr>) sender_key of
        None \<Rightarrow> None
      | Some (ciphertext, nonce) \<Rightarrow>
          Some \<lparr>msg_group_id = gid, msg_message_id = fresh_uuid c, msg_sender_id = sender,
            msg_sender_username = [], msg_text = [], msg_ciphertext = ciphertext,
            msg_nonce = nonce, msg_key_epoch = key_epoch, msg_encrypted = True,
            msg_sent_at = now_ms c, msg_sender_signature = [], msg_seq = 0\<rparr>)"

definition group_message_decrypt ::
  "crypto_api \<Rightarrow> group_message_content pack \<Rightarrow> group_message \<Rightarrow> bytes
     \<Rightarrow> tom_protocol_error + group_message_content" where
  "group_message_decrypt api cp m sender_key =
     (if \<not> msg_encrypted m
      then Inr \<lparr>gmc_username = msg_sender_username m, gmc_text = msg_text m\<rparr>
      else (case decrypt_group_message api (msg_ciphertext m) (msg_nonce m) sender_key of
              Inl e \<Rightarrow> Inl e
            | Inr b \<Rightarrow>
                (case unpack_slice cp b of
                   Inl e \<Rightarrow> Inl (Deserialization (''group message content: '' @ e))
                 | Inr content \<Rightarrow> Inr content)))"

definition msg_signing_bytes :: "group_message \<Rightarrow> bytes" where
  "msg_signing_bytes m =
     str_bytes (gid_string (msg_group_id m)) @ str_bytes (msg_message_id m) @
     as_bytes (msg_sender_id m) @
     (if msg_encrypted m
      then msg_ciphertext m @ msg_nonce m @ to_le_bytes 4 (msg_key_epoch m)
      else str_bytes (msg_text m)) @
     to_le_bytes 8 (msg_sent_at m)"

definition msg_sign :: "crypto_api \<Rightarrow> bytes \<Rightarrow> group_message \<Rightarrow> group_message" where
  "msg_sign api seed m = m\<lparr>msg_sender_signature := ed_sign api seed (msg_signing_bytes m)\<rparr>"

definition msg_verify_signature :: "crypto_api \<Rightarrow> group_message \<Rightarrow> bool" where
  "msg_verify_signature api m \<longleftrightarrow>
     length (msg_sender_signature m) = 64 \<and> ed_key_ok api (as_bytes (msg_sender_id m)) \<and>
     ed_verify api (as_bytes (msg_sender_id m)) (msg_signing_bytes m) (msg_sender_signature m)"

definition msg_is_signed :: "group_message \<Rightarrow> bool" where
  "msg_is_signed m \<longleftrightarrow> length (msg_sender_signature m) = 64"

datatype leave_reason = Voluntary | Kicked | Timeout

record sender_key_entry =
  ske_owner_id :: node_id
  ske_key :: bytes
  ske_epoch :: u32
  ske_created_at :: u64

record encrypted_sender_key =
  esk_recipient_id :: node_id
  esk_encrypted_key :: encrypted_payload

subsection \<open>Payloads, events and actions\<close>

datatype group_payload =
    GpCreate string string "node_id list" bool \<comment> \<open>name, creator's name, members, invite only\<close>
  | GpCreated group_info
  | GpInvite group_id string node_id string \<comment> \<open>group name, inviter, inviter's name\<close>
  | GpJoin group_id string
  | GpSync group_info "group_message list"
  | GpMessage group_message
  | GpLeave group_id
  | GpMemberJoined group_id group_member
  | GpMemberLeft group_id node_id string leave_reason
  | GpDeliveryAck group_id string
  | GpHubMigration group_id node_id node_id \<comment> \<open>new hub, old hub\<close>
  | GpHubHeartbeat group_id nat
  | GpSenderKeyDistribution group_id node_id u32 "encrypted_sender_key list"
  | GpHubPing group_id
  | GpHubPong group_id
  | GpHubShadowSync group_id "group_member list" "node_id option" u64
  | GpCandidateAssigned group_id
  | GpHubUnreachable group_id
  | GpKickMember group_id node_id
  | GpUpdateMemberRole group_id node_id group_member_role
  | GpMemberRoleChanged group_id node_id group_member_role
  | GpInviteMember group_id node_id
  | GpSyncRequest group_id u64
  | GpSyncResponse group_id "group_message list" u64

datatype group_event =
    GeGroupCreated group_info
  | GeInviteReceived group_invite
  | GeJoined group_id string
  | GeMemberJoined group_id group_member
  | GeMemberLeft group_id node_id string leave_reason
  | GeMessageReceived group_message
  | GeHubMigrated group_id node_id
  | GeMemberRoleChanged group_id node_id group_member_role
  | GeSecurityViolation group_id node_id string

datatype group_action =
    GaSend node_id group_payload
  | GaBroadcast "node_id list" group_payload
  | GaEvent group_event
  | GaNone

subsection \<open>Lemmas\<close>

named_theorems member_simps \<open>membership as set membership\<close>

lemma is_member_iff [member_simps]: "is_member g n \<longleftrightarrow> n \<in> gm_node_id ` set (gi_members g)"
  by (auto simp: is_member_def list_ex_iff)

lemma is_admin_iff [member_simps]:
  "is_admin g n \<longleftrightarrow> (\<exists>m \<in> set (gi_members g). gm_node_id m = n \<and> gm_role m = Admin)"
  by (simp add: is_admin_def list_ex_iff)

lemma is_admin_is_member: "is_admin g n \<Longrightarrow> is_member g n"
  by (auto simp: member_simps)

lemma msg_signing_bytes_seq [simp]:
  "msg_signing_bytes (m\<lparr>msg_seq := s\<rparr>) = msg_signing_bytes m"
  "msg_signing_bytes (m\<lparr>msg_sender_signature := sg\<rparr>) = msg_signing_bytes m"
  by (simp_all add: msg_signing_bytes_def)

lemma msg_sign_verifies:
  assumes "ed_correct api" and "as_bytes (msg_sender_id m) = ed_public api seed"
  shows "msg_verify_signature api (msg_sign api seed m)"
  using assms by (simp add: msg_verify_signature_def msg_sign_def ed_correct_def)

lemma msg_verify_signature_seq [simp]:
  "msg_verify_signature api (m\<lparr>msg_seq := s\<rparr>) = msg_verify_signature api m"
  by (simp add: msg_verify_signature_def)

lemma group_message_roundtrip:
  assumes "aead_correct api" and "pack_ok cp"
    and "group_message_new_encrypted api cp c nonce gid sender username txt key ep = Some m"
  shows "group_message_decrypt api cp m key = Inr \<lparr>gmc_username = username, gmc_text = txt\<rparr>"
proof -
  from assms(3) obtain ct n where
      enc: "encrypt_group_message api nonce (pack_vec cp \<lparr>gmc_username = username, gmc_text = txt\<rparr>) key
        = Some (ct, n)"
    and m: "msg_encrypted m" "msg_ciphertext m = ct" "msg_nonce m = n"
    by (auto simp: group_message_new_encrypted_def split: option.splits)
  from group_encrypt_decrypt [OF assms(1) enc] assms(2) m show ?thesis
    by (simp add: group_message_decrypt_def pack_ok_def)
qed

end
