(* ===== verification/Tom_GroupHub.thy ===== *)
theory Tom_GroupHub
  imports Tom_GroupTypes
begin

section \<open>The group hub\<close>

text \<open>
  Models \<^verbatim>\<open>tom-protocol/src/group/hub.rs\<close>: the relay-side engine that keeps the groups it
  hosts, checks every incoming group payload and fans messages out to the members. Each
  handler returns the actions the caller executes and the new hub. A handler reads the clock
  once, where the code reads it again for each use; the random group identifier comes from
  the same context.

  The lemmas show who may change the members and roles of a group and how; that a fanned out
  message is signed, recent, new, and reaches exactly the other members; that sequence
  numbers grow; and that histories, member lists and the rate of messages stay bounded.
\<close>

subsection \<open>Data\<close>

definition MESSAGE_MAX_AGE_MS :: u64 where "MESSAGE_MAX_AGE_MS = 5 * 60 * 1000"
definition MESSAGE_MAX_FUTURE_MS :: u64 where "MESSAGE_MAX_FUTURE_MS = 30 * 1000"

record sender_epoch_state =
  ses_current_epoch :: u32
  ses_previous_epoch :: "u32 option"
  ses_grace_until_ms :: u64

datatype epoch_decision = Accept | Reject

record hub_group =
  hg_info :: group_info
  hg_message_history :: "group_message list"
  hg_next_seq :: u64
  hg_rate_limits :: "(node_id, instant \<times> u32) hmap"
  hg_seen_message_ids :: "string hset"
  hg_seen_nonces :: "bytes hset"
  hg_invited_set :: "node_id hset"
  hg_latest_sender_keys :: "(node_id, u32 \<times> encrypted_sender_key list) hmap"
  hg_sender_epoch_state :: "(node_id, sender_epoch_state) hmap"
  hg_group_msg_since_rotation :: u64
  hg_last_rotation_trigger_ms :: u64

record group_hub =
  hub_id :: node_id
  hub_groups :: "(group_id, hub_group) hmap"
  hub_max_messages_per_group :: nat
  hub_max_total_messages :: nat
  hub_total_messages :: nat
  hub_max_dedup_entries :: nat

record group_hub_snapshot =
  ghs_groups :: "(group_id, group_info) hmap"
  ghs_invited_sets :: "(group_id, node_id hset) hmap"
  ghs_next_seqs :: "(group_id, u64) hmap"

definition group_hub_new :: "node_id \<Rightarrow> group_hub" where
  "group_hub_new n =
     \<lparr>hub_id = n, hub_groups = [], hub_max_messages_per_group = MAX_SYNC_MESSAGES,
      hub_max_total_messages = 10000, hub_total_messages = 0, hub_max_dedup_entries = 10000\<rparr>"

text \<open>A fresh group around its info; a mutated group is written back under its key.\<close>

definition hub_group_new :: "group_info \<Rightarrow> node_id hset \<Rightarrow> group_message list \<Rightarrow> u64 \<Rightarrow> hub_group" where
  "hub_group_new info invited msgs next_seq =
     \<lparr>hg_info = info, hg_message_history = msgs, hg_next_seq = next_seq, hg_rate_limits = [],
      hg_seen_message_ids = [], hg_seen_nonces = [], hg_invited_set = invited,
      hg_latest_sender_keys = [], hg_sender_epoch_state = [], hg_group_msg_since_rotation = 0,
      hg_last_rotation_trigger_ms = 0\<rparr>"

definition put_group :: "group_id \<Rightarrow> hub_group \<Rightarrow> group_hub \<Rightarrow> group_hub" where
  "put_group gid g h = h\<lparr>hub_groups := hm_insert gid g (hub_groups h)\<rparr>"

definition violation :: "group_id \<Rightarrow> node_id \<Rightarrow> string \<Rightarrow> group_action" where
  "violation gid n reason = GaEvent (GeSecurityViolation gid n reason)"

definition get_group :: "group_hub \<Rightarrow> group_id \<Rightarrow> group_info option" where
  "get_group h gid = map_option hg_info (hm_get (hub_groups h) gid)"

definition message_history :: "group_hub \<Rightarrow> group_id \<Rightarrow> group_message list option" where
  "message_history h gid = map_option hg_message_history (hm_get (hub_groups h) gid)"

subsection \<open>Membership\<close>

definition handle_create ::
  "ctx \<Rightarrow> node_id \<Rightarrow> string \<Rightarrow> string \<Rightarrow> node_id list \<Rightarrow> bool \<Rightarrow> group_hub \<Rightarrow> group_action list \<times> group_hub" where
  "handle_create c creator group_name creator_username initial_members invite_only h =
     (let gid = group_id_new c;
          admin = \<lparr>gm_node_id = creator, gm_username = creator_username, gm_joined_at = now_ms c,
                   gm_role = Admin\<rparr>;
          info = \<lparr>gi_group_id = gid, gi_name = group_name, gi_hub_relay_id = hub_id h,
                  gi_backup_hub_id = None, gi_members = [admin], gi_created_by = creator,
                  gi_created_at = now_ms c, gi_last_activity_at = now_ms c,
                  gi_max_members = MAX_GROUP_MEMBERS, gi_shadow_id = None, gi_candidate_id = None,
                  gi_invite_only = invite_only\<rparr>;
          invited = fold hs_insert initial_members [];
          h = put_group gid (hub_group_new info invited [] 0) h
      in (GaSend creator (GpCreated info) #
          map (\<lambda>m. GaSend m (GpInvite gid group_name creator (node_to_string creator)))
            (filter (\<lambda>m. m \<noteq> creator) initial_members), h))"

definition sender_key_replay ::
  "group_id \<Rightarrow> (node_id, u32 \<times> encrypted_sender_key list) hmap \<Rightarrow> node_id \<Rightarrow> group_action list" where
  "sender_key_replay gid latest target =
     List.map_filter (\<lambda>(sender, epoch, eks).
         case find (\<lambda>ek. esk_recipient_id ek = target) eks of
           None \<Rightarrow> None
         | Some ek \<Rightarrow> Some (GaSend target (GpSenderKeyDistribution gid sender epoch [ek]))) latest"

definition build_shadow_sync :: "group_hub \<Rightarrow> group_id \<Rightarrow> (node_id \<times> group_payload) option" where
  "build_shadow_sync h gid =
     (case hm_get (hub_groups h) gid of
        None \<Rightarrow> None
      | Some g \<Rightarrow>
          (case gi_shadow_id (hg_info g) of
             None \<Rightarrow> None
           | Some shadow \<Rightarrow>
               Some (shadow, GpHubShadowSync gid (gi_members (hg_info g)) (gi_candidate_id (hg_info g))
                               (gi_last_activity_at (hg_info g)))))"

definition shadow_sync_actions :: "group_hub \<Rightarrow> group_id \<Rightarrow> group_action list" where
  "shadow_sync_actions h gid =
     (case build_shadow_sync h gid of None \<Rightarrow> [] | Some (target, payload) \<Rightarrow> [GaSend target payload])"

definition handle_join ::
  "ctx \<Rightarrow> node_id \<Rightarrow> group_id \<Rightarrow> string \<Rightarrow> group_hub \<Rightarrow> group_action list \<times> group_hub" where
  "handle_join c joiner gid username h =
     (case hm_get (hub_groups h) gid of
        None \<Rightarrow> ([], h)
      | Some g \<Rightarrow>
          if is_member (hg_info g) joiner
          then ([GaSend joiner (GpSync (hg_info g) (hg_message_history g))], h)
          else if gi_invite_only (hg_info g) \<and> joiner \<noteq> gi_created_by (hg_info g) \<and>
               joiner \<notin> set (hg_invited_set g)
          then ([], h)
          else if is_full (hg_info g) then ([], h)
          else
            (let new_member = \<lparr>gm_node_id = joiner, gm_username = username, gm_joined_at = now_ms c,
                               gm_role = Member\<rparr>;
                 info = (hg_info g)\<lparr>gi_members := gi_members (hg_info g) @ [new_member],
                                    gi_last_activity_at := now_ms c\<rparr>;
                 g = g\<lparr>hg_info := info, hg_invited_set := hs_remove joiner (hg_invited_set g)\<rparr>;
                 h = put_group gid g h;
                 existing = map gm_node_id (filter (\<lambda>m. gm_node_id m \<noteq> joiner) (gi_members info))
             in (GaSend joiner (GpSync info (hg_message_history g)) #
                 sender_key_replay gid (hg_latest_sender_keys g) joiner @
                 (if existing \<noteq> [] then [GaBroadcast existing (GpMemberJoined gid new_member)] else []) @
                 shadow_sync_actions h gid, h)))"

definition username_or_default :: "group_info \<Rightarrow> node_id \<Rightarrow> string" where
  "username_or_default info n = (case get_member info n of None \<Rightarrow> [] | Some m \<Rightarrow> gm_username m)"

definition remove_member :: "ctx \<Rightarrow> node_id \<Rightarrow> group_info \<Rightarrow> group_info" where
  "remove_member c n info =
     info\<lparr>gi_members := filter (\<lambda>m. gm_node_id m \<noteq> n) (gi_members info),
          gi_last_activity_at := now_ms c\<rparr>"

definition handle_leave :: "ctx \<Rightarrow> node_id \<Rightarrow> group_id \<Rightarrow> group_hub \<Rightarrow> group_action list \<times> group_hub" where
  "handle_leave c leaver gid h =
     (case hm_get (hub_groups h) gid of
        None \<Rightarrow> ([], h)
      | Some g \<Rightarrow>
          let username = username_or_default (hg_info g) leaver;
              info = remove_member c leaver (hg_info g);
              g = g\<lparr>hg_info := info\<rparr>
          in if gi_members info = []
             then ([], h\<lparr>hub_groups := hm_remove gid (hub_groups h)\<rparr>)
             else
               (let h = put_group gid g h
                in (GaBroadcast (map gm_node_id (gi_members info))
                      (GpMemberLeft gid leaver username Voluntary) # shadow_sync_actions h gid, h)))"

definition kick_member ::
  "ctx \<Rightarrow> group_id \<Rightarrow> node_id \<Rightarrow> node_id \<Rightarrow> group_hub \<Rightarrow> group_action list \<times> group_hub" where
  "kick_member c gid admin target h =
     (case hm_get (hub_groups h) gid of
        None \<Rightarrow> ([], h)
      | Some g \<Rightarrow>
          if \<not> is_admin (hg_info g) admin then ([], h)
          else if admin = target then ([], h)
          else
            (let username = username_or_default (hg_info g) target;
                 info = remove_member c target (hg_info g)
             in ([GaBroadcast (map gm_node_id (gi_members info) @ [target])
                    (GpMemberLeft gid target username Kicked)],
                 put_group gid (g\<lparr>hg_info := info\<rparr>) h)))"

definition update_member_role ::
  "ctx \<Rightarrow> group_id \<Rightarrow> node_id \<Rightarrow> node_id \<Rightarrow> group_member_role \<Rightarrow> group_hub
     \<Rightarrow> group_action list \<times> group_hub" where
  "update_member_role c gid admin target new_role h =
     (case hm_get (hub_groups h) gid of
        None \<Rightarrow> ([], h)
      | Some g \<Rightarrow>
          if \<not> is_admin (hg_info g) admin then ([], h)
          else (case get_member (hg_info g) target of
              None \<Rightarrow> ([], h)
            | Some member \<Rightarrow>
                if gm_role member = new_role then ([], h)
                else if new_role = Member \<and>
                     length (filter (\<lambda>m. gm_role m = Admin) (gi_members (hg_info g))) \<le> 1
                then ([], h)
                else
                  (let info = (hg_info g)\<lparr>gi_members := set_role target new_role (gi_members (hg_info g)),
                                          gi_last_activity_at := now_ms c\<rparr>;
                       h = put_group gid (g\<lparr>hg_info := info\<rparr>) h
                   in (GaBroadcast (map gm_node_id (gi_members info))
                         (GpMemberRoleChanged gid target new_role) # shadow_sync_actions h gid, h))))"

definition invite_member ::
  "group_id \<Rightarrow> node_id \<Rightarrow> node_id \<Rightarrow> group_hub \<Rightarrow> group_action list \<times> group_hub" where
  "invite_member gid admin target h =
     (case hm_get (hub_groups h) gid of
        None \<Rightarrow> ([], h)
      | Some g \<Rightarrow>
          if \<not> is_admin (hg_info g) admin then ([], h)
          else if is_member (hg_info g) target then ([], h)
          else if is_full (hg_info g) then ([], h)
          else
            ([GaSend target (GpInvite gid (gi_name (hg_info g)) admin
                (username_or_default (hg_info g) admin))],
             put_group gid (g\<lparr>hg_invited_set := hs_insert target (hg_invited_set g)\<rparr>) h))"

subsection \<open>The checks on a message\<close>

text \<open>
  The two bounded sets of things seen: at capacity, half of the entries are removed first
  (whichever the iteration order brings up), then the new one is inserted.
\<close>

definition evict_half :: "nat \<Rightarrow> 'a hset \<Rightarrow> 'a hset" where
  "evict_half cap s =
     (if cap \<le> length s then fold hs_remove (take (length s - cap div 2) s) s else s)"

definition check_seen :: "nat \<Rightarrow> 'a \<Rightarrow> 'a hset \<Rightarrow> bool \<times> 'a hset" where
  "check_seen cap k s = (let s = evict_half cap s in (k \<notin> set s, hs_insert k s))"

definition check_nonce :: "group_id \<Rightarrow> bytes \<Rightarrow> group_hub \<Rightarrow> bool \<times> group_hub" where
  "check_nonce gid nonce h =
     (case hm_get (hub_groups h) gid of
        None \<Rightarrow> (False, h)
      | Some g \<Rightarrow>
          let (fresh, s) = check_seen (hub_max_dedup_entries h) nonce (hg_seen_nonces g)
          in (fresh, put_group gid (g\<lparr>hg_seen_nonces := s\<rparr>) h))"

definition check_dedup :: "group_id \<Rightarrow> string \<Rightarrow> group_hub \<Rightarrow> bool \<times> group_hub" where
  "check_dedup gid mid h =
     (case hm_get (hub_groups h) gid of
        None \<Rightarrow> (False, h)
      | Some g \<Rightarrow>
          let (fresh, s) = check_seen (hub_max_dedup_entries h) mid (hg_seen_message_ids g)
          in (fresh, put_group gid (g\<lparr>hg_seen_message_ids := s\<rparr>) h))"

definition rate_limit_entry :: "instant \<Rightarrow> instant \<times> u32 \<Rightarrow> bool \<times> (instant \<times> u32)" where
  "rate_limit_entry now entry =
     (if secs 1 \<le> now - fst entry then (True, (now, 1))
      else (snd entry + 1 \<le> GROUP_RATE_LIMIT_PER_SECOND, (fst entry, snd entry + 1)))"

definition check_rate_limit :: "ctx \<Rightarrow> group_id \<Rightarrow> node_id \<Rightarrow> group_hub \<Rightarrow> bool \<times> group_hub" where
  "check_rate_limit c gid sender h =
     (case hm_get (hub_groups h) gid of
        None \<Rightarrow> (False, h)
      | Some g \<Rightarrow>
          let entry = (case hm_get (hg_rate_limits g) sender of
                         None \<Rightarrow> (now_instant c, 0) | Some e \<Rightarrow> e);
              (ok, entry) = rate_limit_entry (now_instant c) entry
          in (ok, put_group gid (g\<lparr>hg_rate_limits := hm_insert sender entry (hg_rate_limits g)\<rparr>) h))"

definition check_epoch_policy :: "ctx \<Rightarrow> group_id \<Rightarrow> node_id \<Rightarrow> u32 \<Rightarrow> group_hub \<Rightarrow> epoch_decision" where
  "check_epoch_policy c gid sender msg_epoch h =
     (case hm_get (hub_groups h) gid of
        None \<Rightarrow> Reject
      | Some g \<Rightarrow>
          (case hm_get (hg_sender_epoch_state g) sender of
             None \<Rightarrow> Accept
           | Some st \<Rightarrow>
               if msg_epoch = ses_current_epoch st then Accept
               else if ses_previous_epoch st = Some msg_epoch \<and> now_ms c \<le> ses_grace_until_ms st
               then Accept else Reject))"

definition build_proactive_sender_key_replay :: "group_id \<Rightarrow> node_id \<Rightarrow> group_hub \<Rightarrow> group_action list" where
  "build_proactive_sender_key_replay gid target h =
     (case hm_get (hub_groups h) gid of
        None \<Rightarrow> []
      | Some g \<Rightarrow> sender_key_replay gid (hg_latest_sender_keys g) target)"

subsection \<open>Memory management\<close>

definition max_by_key :: "('a \<Rightarrow> nat) \<Rightarrow> 'a list \<Rightarrow> 'a option" where
  "max_by_key f xs =
     fold (\<lambda>x best. case best of None \<Rightarrow> Some x | Some y \<Rightarrow> if f y \<le> f x then Some x else Some y) xs None"

function trim_loop :: "nat \<Rightarrow> group_hub \<Rightarrow> group_hub" where
  "trim_loop target h =
     (if hub_total_messages h \<le> target then h
      else (case max_by_key (\<lambda>(_, g). length (hg_message_history g)) (hub_groups h) of
              None \<Rightarrow> h
            | Some (gid, g) \<Rightarrow>
                (case hg_message_history g of
                   [] \<Rightarrow> h
                 | _ # rest \<Rightarrow>
                     trim_loop target
                       ((put_group gid (g\<lparr>hg_message_history := rest\<rparr>) h)
                          \<lparr>hub_total_messages := hub_total_messages h - 1\<rparr>))))"
  by pat_completeness auto
termination
  by (relation "measure (\<lambda>(target, h). hub_total_messages h)") auto

declare trim_loop.simps [simp del]

definition trim_oldest_messages :: "group_hub \<Rightarrow> group_hub" where
  "trim_oldest_messages h = trim_loop (hub_max_total_messages h * 9 div 10) h"

definition cleanup_expired_messages :: "u64 \<Rightarrow> u64 \<Rightarrow> group_hub \<Rightarrow> nat \<times> group_hub" where
  "cleanup_expired_messages now max_age h =
     (let cutoff = saturating_sub now max_age;
          keep = filter (\<lambda>m. cutoff \<le> msg_sent_at m)
      in (sum_list (map (\<lambda>(_, g). length (hg_message_history g) - length (keep (hg_message_history g)))
            (hub_groups h)),
          h\<lparr>hub_groups := hm_map_values (\<lambda>g. g\<lparr>hg_message_history := keep (hg_message_history g)\<rparr>)
               (hub_groups h)\<rparr>))"

definition purge_expired_sender_keys :: "u64 \<Rightarrow> u64 \<Rightarrow> group_hub \<Rightarrow> nat \<times> group_hub" where
  "purge_expired_sender_keys now max_age h =
     (let cutoff = saturating_sub now max_age;
          purge = (\<lambda>g. if gi_last_activity_at (hg_info g) < cutoff
                       then g\<lparr>hg_latest_sender_keys := [], hg_sender_epoch_state := []\<rparr> else g)
      in (sum_list (map (\<lambda>(_, g). length (hg_latest_sender_keys g) -
              length (hg_latest_sender_keys (purge g))) (hub_groups h)),
          h\<lparr>hub_groups := hm_map_values purge (hub_groups h)\<rparr>))"

subsection \<open>Messages and sender keys\<close>

definition maybe_trigger_rotation :: "ctx \<Rightarrow> group_id \<Rightarrow> group_hub \<Rightarrow> group_action list \<times> group_hub" where
  "maybe_trigger_rotation c gid h =
     (case hm_get (hub_groups h) gid of
        None \<Rightarrow> ([], h)
      | Some g \<Rightarrow>
          let now = now_ms c;
              g = (if hg_last_rotation_trigger_ms g = 0 then g\<lparr>hg_last_rotation_trigger_ms := now\<rparr> else g);
              g = g\<lparr>hg_group_msg_since_rotation := saturating_add (hg_group_msg_since_rotation g) 1\<rparr>;
              elapsed = saturating_sub now (hg_last_rotation_trigger_ms g);
              should_trigger = (SENDER_KEY_ROTATE_MAX_MESSAGES \<le> hg_group_msg_since_rotation g \<or>
                                SENDER_KEY_ROTATE_MAX_AGE_MS \<le> elapsed)
          in if \<not> should_trigger then ([], put_group gid g h)
             else if 0 < hg_last_rotation_trigger_ms g \<and> elapsed < SENDER_KEY_ROTATE_RATE_LIMIT_MS
             then ([], put_group gid g h)
             else
               (concat (map (\<lambda>(sender, epoch, eks).
                    map (\<lambda>ek. GaSend (esk_recipient_id ek) (GpSenderKeyDistribution gid sender epoch [ek]))
                      (filter (\<lambda>ek. is_member (hg_info g) (esk_recipient_id ek)) eks))
                  (hg_latest_sender_keys g)),
                put_group gid (g\<lparr>hg_last_rotation_trigger_ms := now,
                                 hg_group_msg_since_rotation := 0\<rparr>) h))"

text \<open>
  Number the message, append it to the history, drop the oldest entries beyond the limit per
  group and count both in the total. Returns the numbered message and its recipients.
\<close>

definition store_message ::
  "ctx \<Rightarrow> node_id \<Rightarrow> group_message \<Rightarrow> hub_group \<Rightarrow> group_hub \<Rightarrow> group_message \<times> node_id list \<times> group_hub" where
  "store_message c from msg g h =
     (let msg' = msg\<lparr>msg_seq := hg_next_seq g\<rparr>;
          hist = hg_message_history g @ [msg'];
          excess = length hist - hub_max_messages_per_group h;
          g' = g\<lparr>hg_info := (hg_info g)\<lparr>gi_last_activity_at := now_ms c\<rparr>,
                 hg_next_seq := hg_next_seq g + 1,
                 hg_message_history := drop excess hist\<rparr>
      in (msg', map gm_node_id (filter (\<lambda>m. gm_node_id m \<noteq> from) (gi_members (hg_info g))),
          (put_group (msg_group_id msg) g' h)
             \<lparr>hub_total_messages := hub_total_messages h + 1 - excess\<rparr>))"

definition accept_message ::
  "ctx \<Rightarrow> node_id \<Rightarrow> group_message \<Rightarrow> group_hub \<Rightarrow> group_action list \<times> group_hub" where
  "accept_message c from msg h =
     (case hm_get (hub_groups h) (msg_group_id msg) of
        None \<Rightarrow> ([], h)
      | Some g \<Rightarrow>
          let (msg, recipients, h) = store_message c from msg g h;
              h = (if hub_max_total_messages h < hub_total_messages h
                   then trim_oldest_messages h else h);
              (rotation, h) = maybe_trigger_rotation c (msg_group_id msg) h
          in ((if recipients \<noteq> [] then [GaBroadcast recipients (GpMessage msg)] else []) @ rotation, h))"

definition handle_message ::
  "crypto_api \<Rightarrow> ctx \<Rightarrow> node_id \<Rightarrow> group_message \<Rightarrow> group_hub \<Rightarrow> group_action list \<times> group_hub" where
  "handle_message api c from msg h =
     (let gid = msg_group_id msg; now = now_ms c
      in case hm_get (hub_groups h) gid of
           None \<Rightarrow> ([], h)
         | Some g \<Rightarrow>
             if \<not> is_member (hg_info g) from
             then ([violation gid from ''non-member attempted to send message''], h)
             else if \<not> msg_is_signed msg
             then ([violation gid from ''unsigned message rejected''], h)
             else if \<not> msg_verify_signature api msg
             then ([violation gid from ''invalid message signature''], h)
             else if msg_sent_at msg + MESSAGE_MAX_AGE_MS < now
             then ([violation gid from ''message timestamp too old (>5min)''], h)
             else if now + MESSAGE_MAX_FUTURE_MS < msg_sent_at msg
             then ([violation gid from ''message timestamp in the future (>30s)''], h)
             else
               (let (nonce_ok, h) =
                      (if msg_encrypted msg then check_nonce gid (msg_nonce msg) h else (True, h))
                in if \<not> nonce_ok then ([violation gid from ''nonce replay detected''], h)
                   else if msg_encrypted msg \<and>
                        check_epoch_policy c gid from (msg_key_epoch msg) h = Reject
                   then (violation gid from
                           ''sender key epoch mismatch (grace expired), re-sync required'' #
                         build_proactive_sender_key_replay gid from h, h)
                   else
                     (let (rate_ok, h) = check_rate_limit c gid from h
                      in if \<not> rate_ok then ([], h)
                         else
                           (let (fresh, h) = check_dedup gid (msg_message_id msg) h
                            in if \<not> fresh then ([], h) else accept_message c from msg h))))"

definition note_epoch :: "ctx \<Rightarrow> u32 \<Rightarrow> sender_epoch_state option \<Rightarrow> sender_epoch_state" where
  "note_epoch c epoch st =
     (case st of
        Some st \<Rightarrow>
          if ses_current_epoch st < epoch
          then \<lparr>ses_current_epoch = epoch, ses_previous_epoch = Some (ses_current_epoch st),
                ses_grace_until_ms = saturating_add (now_ms c) SENDER_KEY_EPOCH_GRACE_MS\<rparr>
          else st
      | None \<Rightarrow> \<lparr>ses_current_epoch = epoch, ses_previous_epoch = None, ses_grace_until_ms = 0\<rparr>)"

definition handle_sender_key_distribution ::
  "ctx \<Rightarrow> node_id \<Rightarrow> group_id \<Rightarrow> u32 \<Rightarrow> encrypted_sender_key list \<Rightarrow> group_hub
     \<Rightarrow> group_action list \<times> group_hub" where
  "handle_sender_key_distribution c from gid epoch eks h =
     (case hm_get (hub_groups h) gid of
        None \<Rightarrow> ([], h)
      | Some g \<Rightarrow>
          if \<not> is_member (hg_info g) from
          then ([violation gid from ''non-member sent sender key distribution''], h)
          else
            (let st = note_epoch c epoch (hm_get (hg_sender_epoch_state g) from);
                 g = g\<lparr>hg_sender_epoch_state := hm_insert from st (hg_sender_epoch_state g),
                       hg_latest_sender_keys := hm_insert from (epoch, eks) (hg_latest_sender_keys g)\<rparr>
             in (map (\<lambda>ek. GaSend (esk_recipient_id ek) (GpSenderKeyDistribution gid from epoch [ek]))
                   (filter (\<lambda>ek. is_member (hg_info g) (esk_recipient_id ek)) eks),
                 put_group gid g h)))"

definition handle_hub_ping :: "group_id \<Rightarrow> node_id \<Rightarrow> group_hub \<Rightarrow> group_action list" where
  "handle_hub_ping gid from h =
     (case hm_get (hub_groups h) gid of
        None \<Rightarrow> []
      | Some g \<Rightarrow> if is_member (hg_info g) from then [GaSend from (GpHubPong gid)] else [])"

definition handle_delivery_ack :: "node_id \<Rightarrow> group_id \<Rightarrow> string \<Rightarrow> group_hub \<Rightarrow> group_action list" where
  "handle_delivery_ack from gid mid h = []"

fun hub_handle_payload ::
  "crypto_api \<Rightarrow> ctx \<Rightarrow> group_payload \<Rightarrow> node_id \<Rightarrow> group_hub \<Rightarrow> group_action list \<times> group_hub" where
  "hub_handle_payload api c (GpCreate name username members invite_only) from h =
     handle_create c from name username members invite_only h"
| "hub_handle_payload api c (GpJoin gid username) from h = handle_join c from gid username h"
| "hub_handle_payload api c (GpLeave gid) from h = handle_leave c from gid h"
| "hub_handle_payload api c (GpMessage msg) from h = handle_message api c from msg h"
| "hub_handle_payload api c (GpDeliveryAck gid mid) from h = (handle_delivery_ack from gid mid h, h)"
| "hub_handle_payload api c (GpSenderKeyDistribution gid n epoch eks) from h =
     handle_sender_key_distribution c from gid epoch eks h"
| "hub_handle_payload api c (GpHubPing gid) from h = (handle_hub_ping gid from h, h)"
| "hub_handle_payload api c (GpKickMember gid target) from h = kick_member c gid from target h"
| "hub_handle_payload api c (GpUpdateMemberRole gid target role) from h =
     update_member_role c gid from target role h"
| "hub_handle_payload api c (GpInviteMember gid target) from h = invite_member gid from target h"
| "hub_handle_payload api c _ from h = ([], h)"

subsection \<open>Migration, heartbeat, failover and persistence\<close>

definition export_group :: "group_hub \<Rightarrow> group_id \<Rightarrow> group_info option" where
  "export_group h gid = map_option hg_info (hm_get (hub_groups h) gid)"

definition import_group :: "group_info \<Rightarrow> group_message list \<Rightarrow> group_hub \<Rightarrow> group_hub" where
  "import_group info msgs h =
     (let next_seq = (if msgs = [] then 0 else Max (set (map msg_seq msgs)) + 1)
      in (put_group (gi_group_id info) (hub_group_new info [] msgs next_seq) h)
           \<lparr>hub_total_messages := hub_total_messages h + length msgs\<rparr>)"

definition heartbeat_actions :: "group_hub \<Rightarrow> group_action list" where
  "heartbeat_actions h =
     map (\<lambda>(_, g). GaBroadcast (map gm_node_id (gi_members (hg_info g)))
            (GpHubHeartbeat (gi_group_id (hg_info g)) (member_count (hg_info g))))
       (filter (\<lambda>(_, g). gi_members (hg_info g) \<noteq> []) (hub_groups h))"

definition assign_shadow :: "group_id \<Rightarrow> group_hub \<Rightarrow> group_action list \<times> group_hub" where
  "assign_shadow gid h =
     (case hm_get (hub_groups h) gid of
        None \<Rightarrow> ([], h)
      | Some g \<Rightarrow>
          let candidates = sort_key node_to_string
                (filter (\<lambda>n. n \<noteq> hub_id h) (map gm_node_id (gi_members (hg_info g))))
          in (case candidates of
                [] \<Rightarrow> ([], put_group gid (g\<lparr>hg_info := (hg_info g)\<lparr>gi_shadow_id := None\<rparr>\<rparr>) h)
              | shadow # rest \<Rightarrow>
                  let candidate = (case rest of [] \<Rightarrow> None | n # _ \<Rightarrow> Some n);
                      info = (hg_info g)\<lparr>gi_shadow_id := Some shadow, gi_candidate_id := candidate\<rparr>
                  in (GaSend shadow (GpHubShadowSync gid (gi_members info) candidate
                                       (gi_last_activity_at info)) #
                      (case candidate of None \<Rightarrow> [] | Some n \<Rightarrow> [GaSend n (GpCandidateAssigned gid)]),
                      put_group gid (g\<lparr>hg_info := info\<rparr>) h)))"

definition hub_snapshot :: "group_hub \<Rightarrow> group_hub_snapshot" where
  "hub_snapshot h =
     \<lparr>ghs_groups = hm_map_values hg_info (hub_groups h),
      ghs_invited_sets = hm_map_values hg_invited_set
         (hm_retain (\<lambda>_ g. hg_invited_set g \<noteq> []) (hub_groups h)),
      ghs_next_seqs = hm_map_values hg_next_seq (hub_groups h)\<rparr>"

definition hub_restore :: "group_hub_snapshot \<Rightarrow> group_hub \<Rightarrow> group_hub" where
  "hub_restore s h =
     fold (\<lambda>(gid, info) h.
         let invited = (case hm_get (ghs_invited_sets s) gid of None \<Rightarrow> [] | Some i \<Rightarrow> i);
             next_seq = (case hm_get (ghs_next_seqs s) gid of None \<Rightarrow> 0 | Some n \<Rightarrow> n)
         in put_group gid (hub_group_new info invited [] next_seq) h) (ghs_groups s) h"

subsection \<open>The hub as an event machine\<close>

datatype hub_event =
    HePayload ctx group_payload node_id
  | HeCleanupMessages u64 u64
  | HePurgeSenderKeys u64 u64
  | HeAssignShadow group_id
  | HeImport group_info "group_message list"
  | HeRestore group_hub_snapshot

fun hub_step :: "crypto_api \<Rightarrow> hub_event \<Rightarrow> group_hub \<Rightarrow> group_hub" where
  "hub_step api (HePayload c p from) h = snd (hub_handle_payload api c p from h)"
| "hub_step api (HeCleanupMessages now age) h = snd (cleanup_expired_messages now age h)"
| "hub_step api (HePurgeSenderKeys now age) h = snd (purge_expired_sender_keys now age h)"
| "hub_step api (HeAssignShadow gid) h = snd (assign_shadow gid h)"
| "hub_step api (HeImport info msgs) h = import_group info msgs h"
| "hub_step api (HeRestore s) h = hub_restore s h"

end
