(* ===== verification/Tom_HubSafety.thy ===== *)
theory Tom_HubSafety
  imports Tom_GroupHub
begin

section \<open>The group hub: who may do what, and what stays bounded\<close>

text \<open>
  The properties of the hub of \<open>Tom_GroupHub\<close>. First, the handler of messages is brought into
  a form that only speaks of the one group concerned. Then the member list, the roles and the
  invitations of a group are followed through every handler: most leave them alone, and the
  others change them as the access rules say. Last, what stays bounded.
\<close>

subsection \<open>Lookups after an update\<close>

lemma put_group_simps [simp]:
  "hub_id (put_group gid g h) = hub_id h"
  "hub_max_messages_per_group (put_group gid g h) = hub_max_messages_per_group h"
  "hub_max_total_messages (put_group gid g h) = hub_max_total_messages h"
  "hub_total_messages (put_group gid g h) = hub_total_messages h"
  "hub_max_dedup_entries (put_group gid g h) = hub_max_dedup_entries h"
  "hm_get (hub_groups (put_group gid g h)) k = (if k = gid then Some g else hm_get (hub_groups h) k)"
  "put_group gid g' (put_group gid g h) = put_group gid g' h"
  by (simp_all add: put_group_def hm_simps)

lemma put_group_wf: "hm_wf (hub_groups h) \<Longrightarrow> hm_wf (hub_groups (put_group gid g h))"
  by (simp add: put_group_def hm_wfs)

lemma put_group_same: "hm_get (hub_groups h) gid = Some g \<Longrightarrow> put_group gid g h = h"
  by (simp add: put_group_def update_triv)

subsection \<open>The two bounded sets are replay filters\<close>

lemma fold_hs_remove: "fold hs_remove xs s = filter (\<lambda>y. y \<notin> set xs) s"
  by (induction xs arbitrary: s) (auto simp: hs_remove_def conj_commute intro: filter_cong)

lemma set_evict_half: "set (evict_half cap s) \<subseteq> set s"
  by (auto simp: evict_half_def fold_hs_remove)

lemma distinct_evict_half: "distinct s \<Longrightarrow> distinct (evict_half cap s)"
  by (simp add: evict_half_def fold_hs_remove)

lemma length_evict_half: "length (evict_half cap s) \<le> length s"
  by (simp add: evict_half_def fold_hs_remove)

interpretation seen_filter: replay_filter "check_seen cap" set length cap distinct
  for cap :: nat
proof unfold_locales
  fix s :: "'a list" and k :: 'a
  show "k \<notin> set s \<Longrightarrow> fst (check_seen cap k s)"
    using set_evict_half [of cap s] by (auto simp: check_seen_def Let_def)
  show "k \<in> set (snd (check_seen cap k s))"
    by (simp add: check_seen_def Let_def)
  show "set (snd (check_seen cap k s)) \<subseteq> insert k (set s)"
    using set_evict_half [of cap s] by (auto simp: check_seen_def Let_def)
  show "length s < cap \<Longrightarrow> k \<in> set s \<Longrightarrow> \<not> fst (check_seen cap k s)"
    by (simp add: check_seen_def evict_half_def Let_def)
  show "length s < cap \<Longrightarrow> set s \<subseteq> set (snd (check_seen cap k s))"
    by (auto simp: check_seen_def evict_half_def Let_def)
  show "length (snd (check_seen cap k s)) \<le> Suc (length s)"
    using length_evict_half [of cap s] length_hs_insert_le [of k "evict_half cap s"]
    by (simp add: check_seen_def Let_def)
  show "distinct s \<Longrightarrow> distinct (snd (check_seen cap k s))"
    by (simp add: check_seen_def Let_def distinct_evict_half)
qed

subsection \<open>The message handler on one group\<close>

definition admissible :: "crypto_api \<Rightarrow> ctx \<Rightarrow> node_id \<Rightarrow> group_message \<Rightarrow> hub_group \<Rightarrow> bool" where
  "admissible api c from msg g \<longleftrightarrow>
     is_member (hg_info g) from \<and> msg_is_signed msg \<and> msg_verify_signature api msg \<and>
     \<not> msg_sent_at msg + MESSAGE_MAX_AGE_MS < now_ms c \<and>
     \<not> now_ms c + MESSAGE_MAX_FUTURE_MS < msg_sent_at msg"

definition nonce_ok :: "nat \<Rightarrow> group_message \<Rightarrow> hub_group \<Rightarrow> bool" where
  "nonce_ok cap msg g \<longleftrightarrow> (msg_encrypted msg \<longrightarrow> fst (check_seen cap (msg_nonce msg) (hg_seen_nonces g)))"

definition after_nonce :: "nat \<Rightarrow> group_message \<Rightarrow> hub_group \<Rightarrow> hub_group" where
  "after_nonce cap msg g =
     (if msg_encrypted msg
      then g\<lparr>hg_seen_nonces := snd (check_seen cap (msg_nonce msg) (hg_seen_nonces g))\<rparr> else g)"

definition epoch_ok :: "ctx \<Rightarrow> node_id \<Rightarrow> group_message \<Rightarrow> hub_group \<Rightarrow> bool" where
  "epoch_ok c from msg g \<longleftrightarrow>
     (msg_encrypted msg \<longrightarrow>
        (case hm_get (hg_sender_epoch_state g) from of
           None \<Rightarrow> True
         | Some st \<Rightarrow> msg_key_epoch msg = ses_current_epoch st \<or>
             ses_previous_epoch st = Some (msg_key_epoch msg) \<and> now_ms c \<le> ses_grace_until_ms st))"

definition rate_result :: "ctx \<Rightarrow> node_id \<Rightarrow> hub_group \<Rightarrow> bool \<times> (instant \<times> u32)" where
  "rate_result c from g =
     rate_limit_entry (now_instant c)
       (case hm_get (hg_rate_limits g) from of None \<Rightarrow> (now_instant c, 0) | Some e \<Rightarrow> e)"

definition after_rate :: "ctx \<Rightarrow> node_id \<Rightarrow> hub_group \<Rightarrow> hub_group" where
  "after_rate c from g =
     g\<lparr>hg_rate_limits := hm_insert from (snd (rate_result c from g)) (hg_rate_limits g)\<rparr>"

definition dedup_ok :: "nat \<Rightarrow> group_message \<Rightarrow> hub_group \<Rightarrow> bool" where
  "dedup_ok cap msg g \<longleftrightarrow> fst (check_seen cap (msg_message_id msg) (hg_seen_message_ids g))"

definition after_dedup :: "nat \<Rightarrow> group_message \<Rightarrow> hub_group \<Rightarrow> hub_group" where
  "after_dedup cap msg g =
     g\<lparr>hg_seen_message_ids := snd (check_seen cap (msg_message_id msg) (hg_seen_message_ids g))\<rparr>"

lemma check_nonce_get:
  "hm_get (hub_groups h) gid = Some g \<Longrightarrow>
   check_nonce gid n h =
     (fst (check_seen (hub_max_dedup_entries h) n (hg_seen_nonces g)),
      put_group gid (g\<lparr>hg_seen_nonces := snd (check_seen (hub_max_dedup_entries h) n (hg_seen_nonces g))\<rparr>) h)"
  by (simp add: check_nonce_def case_prod_beta Let_def)

lemma check_dedup_get:
  "hm_get (hub_groups h) gid = Some g \<Longrightarrow>
   check_dedup gid (msg_message_id msg) h =
     (dedup_ok (hub_max_dedup_entries h) msg g,
      put_group gid (after_dedup (hub_max_dedup_entries h) msg g) h)"
  by (simp add: check_dedup_def dedup_ok_def after_dedup_def case_prod_beta Let_def)

lemma check_rate_limit_get:
  "hm_get (hub_groups h) gid = Some g \<Longrightarrow>
   check_rate_limit c gid from h = (fst (rate_result c from g), put_group gid (after_rate c from g) h)"
  by (simp add: check_rate_limit_def rate_result_def after_rate_def case_prod_beta Let_def)

lemma check_epoch_policy_get:
  "hm_get (hub_groups h) gid = Some g \<Longrightarrow> msg_encrypted msg \<Longrightarrow>
   check_epoch_policy c gid from (msg_key_epoch msg) h = Reject \<longleftrightarrow> \<not> epoch_ok c from msg g"
  by (auto simp: check_epoch_policy_def epoch_ok_def split: option.split)

lemma epoch_ok_nonce [simp]: "epoch_ok c from msg (after_nonce cap msg g) = epoch_ok c from msg g"
  by (simp add: epoch_ok_def after_nonce_def)

lemma epoch_ok_plain: "\<not> msg_encrypted msg \<Longrightarrow> epoch_ok c from msg g"
  by (simp add: epoch_ok_def)

lemma nonce_stage:
  "hm_get (hub_groups h) (msg_group_id msg) = Some g \<Longrightarrow>
   (if msg_encrypted msg then check_nonce (msg_group_id msg) (msg_nonce msg) h else (True, h)) =
     (nonce_ok (hub_max_dedup_entries h) msg g,
      put_group (msg_group_id msg) (after_nonce (hub_max_dedup_entries h) msg g) h)"
  by (simp add: check_nonce_get nonce_ok_def after_nonce_def put_group_same)

lemma handle_message_eq:
  fixes c :: ctx and src :: node_id
  assumes g: "hm_get (hub_groups h) (msg_group_id msg) = Some g"
  defines "cap \<equiv> hub_max_dedup_entries h" and "gid \<equiv> msg_group_id msg"
  defines "g1 \<equiv> after_nonce cap msg g"
  defines "g2 \<equiv> after_rate c src g1"
  defines "g3 \<equiv> after_dedup cap msg g2"
  shows "admissible api c src msg g \<Longrightarrow> handle_message api c src msg h =
     (if \<not> nonce_ok cap msg g then ([violation gid src ''nonce replay detected''], put_group gid g1 h)
      else if \<not> epoch_ok c src msg g
      then (violation gid src ''sender key epoch mismatch (grace expired), re-sync required'' #
            sender_key_replay gid (hg_latest_sender_keys g1) src, put_group gid g1 h)
      else if \<not> fst (rate_result c src g1) then ([], put_group gid g2 h)
      else if \<not> dedup_ok cap msg g2 then ([], put_group gid g3 h)
      else accept_message c src msg (put_group gid g3 h))"
    and "\<not> admissible api c src msg g \<Longrightarrow>
      \<exists>reason. handle_message api c src msg h = ([violation gid src reason], h)"
proof -
  have e: "(msg_encrypted msg \<and> check_epoch_policy c gid src (msg_key_epoch msg) (put_group gid g1 h) = Reject)
      \<longleftrightarrow> \<not> epoch_ok c src msg g"
    using check_epoch_policy_get [of "put_group gid g1 h" gid g1 msg c src]
    by (cases "msg_encrypted msg") (auto simp: g1_def epoch_ok_plain)
  have r: "check_rate_limit c gid src (put_group gid g1 h) =
      (fst (rate_result c src g1), put_group gid g2 h)"
    by (simp add: check_rate_limit_get g2_def)
  have d: "check_dedup gid (msg_message_id msg) (put_group gid g2 h) =
      (dedup_ok cap msg g2, put_group gid g3 h)"
    by (simp add: check_dedup_get g3_def cap_def)
  have b: "build_proactive_sender_key_replay gid src (put_group gid g1 h) =
      sender_key_replay gid (hg_latest_sender_keys g1) src"
    by (simp add: build_proactive_sender_key_replay_def)
  have n: "(if msg_encrypted msg then check_nonce gid (msg_nonce msg) h else (True, h)) =
      (nonce_ok cap msg g, put_group gid g1 h)"
    unfolding gid_def cap_def g1_def by (rule nonce_stage [OF g])
  show "admissible api c src msg g \<Longrightarrow> handle_message api c src msg h =
     (if \<not> nonce_ok cap msg g then ([violation gid src ''nonce replay detected''], put_group gid g1 h)
      else if \<not> epoch_ok c src msg g
      then (violation gid src ''sender key epoch mismatch (grace expired), re-sync required'' #
            sender_key_replay gid (hg_latest_sender_keys g1) src, put_group gid g1 h)
      else if \<not> fst (rate_result c src g1) then ([], put_group gid g2 h)
      else if \<not> dedup_ok cap msg g2 then ([], put_group gid g3 h)
      else accept_message c src msg (put_group gid g3 h))"
    unfolding handle_message_def Let_def gid_def [symmetric] n prod.case e r d b
    using g by (simp add: admissible_def gid_def)
  show "\<not> admissible api c src msg g \<Longrightarrow>
      \<exists>reason. handle_message api c src msg h = ([violation gid src reason], h)"
    using g by (auto simp: admissible_def handle_message_def Let_def gid_def)
qed

subsection \<open>Trimming\<close>

lemma max_by_key_fold:
  fixes f :: "'a \<Rightarrow> nat"
  shows
  "fold (\<lambda>x best. case best of None \<Rightarrow> Some x | Some y \<Rightarrow> if f y \<le> f x then Some x else Some y) xs (Some y) =
     Some z \<Longrightarrow> z \<in> insert y (set xs) \<and> (\<forall>x \<in> insert y (set xs). f x \<le> f z)"
proof (induction xs arbitrary: y)
  case Nil
  then show ?case by simp
next
  case (Cons x xs)
  have "z \<in> insert (if f y \<le> f x then x else y) (set xs) \<and>
      (\<forall>w \<in> insert (if f y \<le> f x then x else y) (set xs). f w \<le> f z)"
    using Cons.prems by (intro Cons.IH) (simp split: if_splits)
  then show ?case by (auto split: if_splits)
qed

lemma fold_max_Some:
  "\<exists>z. fold (\<lambda>x best. case best of None \<Rightarrow> Some x | Some y \<Rightarrow> if f y \<le> f x then Some x else Some y) xs (Some y)
     = Some z"
  by (induction xs arbitrary: y) auto

lemma max_by_key_Some: "max_by_key f xs = Some z \<Longrightarrow> z \<in> set xs \<and> (\<forall>x \<in> set xs. f x \<le> f z)"
  by (cases xs) (auto simp: max_by_key_def dest!: max_by_key_fold)

lemma max_by_key_None: "max_by_key f xs = None \<longleftrightarrow> xs = []"
  using fold_max_Some [of f] by (cases xs) (auto simp: max_by_key_def)

definition same_config :: "group_hub \<Rightarrow> group_hub \<Rightarrow> bool" where
  "same_config h h' \<longleftrightarrow> hub_id h' = hub_id h \<and>
     hub_max_messages_per_group h' = hub_max_messages_per_group h \<and>
     hub_max_total_messages h' = hub_max_total_messages h \<and>
     hub_max_dedup_entries h' = hub_max_dedup_entries h"

text \<open>Trimming drops the oldest messages of some groups and changes nothing else.\<close>

definition trimmed :: "group_hub \<Rightarrow> group_hub \<Rightarrow> bool" where
  "trimmed h h' \<longleftrightarrow>
     hm_wf (hub_groups h') \<and>
     (\<forall>k. rel_option (\<lambda>g g'. \<exists>n. g' = g\<lparr>hg_message_history := drop n (hg_message_history g)\<rparr>)
            (hm_get (hub_groups h) k) (hm_get (hub_groups h') k)) \<and>
     same_config h h'"

lemma trimmed_refl: "hm_wf (hub_groups h) \<Longrightarrow> trimmed h h"
  by (auto simp: trimmed_def same_config_def intro!: option.rel_refl exI [of _ 0])

lemma trimmed_trans:
  assumes "trimmed h1 h2" and "trimmed h2 h3"
  shows "trimmed h1 h3"
proof -
  let ?R = "\<lambda>g g'. \<exists>n. g' = g\<lparr>hg_message_history := drop n (hg_message_history g)\<rparr>"
  have tr: "?R g1 g2 \<Longrightarrow> ?R g2 g3 \<Longrightarrow> ?R g1 g3" for g1 g2 g3 by (auto simp: drop_drop)
  have "rel_option ?R (hm_get (hub_groups h1) k) (hm_get (hub_groups h3) k)" for k
  proof -
    have "rel_option ?R (hm_get (hub_groups h1) k) (hm_get (hub_groups h2) k)"
      and "rel_option ?R (hm_get (hub_groups h2) k) (hm_get (hub_groups h3) k)"
      using assms by (auto simp: trimmed_def)
    then show ?thesis using tr
      by (cases "hm_get (hub_groups h1) k"; cases "hm_get (hub_groups h2) k";
          cases "hm_get (hub_groups h3) k") (simp_all, blast)
  qed
  then show ?thesis using assms by (auto simp: trimmed_def same_config_def)
qed

lemma trim_loop_trimmed: "hm_wf (hub_groups h) \<Longrightarrow> trimmed h (trim_loop target h)"
proof (induction target h rule: trim_loop.induct)
  case (1 target h)
  show ?case
  proof (cases "hub_total_messages h \<le> target")
    case True
    then show ?thesis using 1 by (simp add: trim_loop.simps trimmed_refl)
  next
    case False
    let ?m = "max_by_key (\<lambda>(_, g). length (hg_message_history g)) (hub_groups h)"
    show ?thesis
    proof (cases "\<exists>gid g x rest. ?m = Some (gid, g) \<and> hg_message_history g = x # rest")
      case True
      then obtain gid g x rest where m: "?m = Some (gid, g)" and hist: "hg_message_history g = x # rest"
        by blast
      let ?h = "(put_group gid (g\<lparr>hg_message_history := rest\<rparr>) h)
          \<lparr>hub_total_messages := hub_total_messages h - 1\<rparr>"
      have loop: "trim_loop target h = trim_loop target ?h"
        using False m hist by (simp add: trim_loop.simps)
      have wf: "hm_wf (hub_groups ?h)" using 1(2) by (simp add: put_group_def hm_wfs)
      have "(gid, g) \<in> set (hub_groups h)" using max_by_key_Some [OF m] by simp
      with 1(2) have get: "hm_get (hub_groups h) gid = Some g" by (rule hm_in_set_get)
      have "rel_option (\<lambda>g g'. \<exists>n. g' = g\<lparr>hg_message_history := drop n (hg_message_history g)\<rparr>)
          (hm_get (hub_groups h) k) (hm_get (hub_groups ?h) k)" for k
      proof (cases "k = gid")
        case True
        then show ?thesis using get hist by (auto intro!: exI [of _ "Suc 0"])
      next
        case False
        then show ?thesis by (auto intro!: option.rel_refl exI [of _ 0])
      qed
      with wf have "trimmed h ?h" by (simp add: trimmed_def same_config_def)
      moreover have "trimmed ?h (trim_loop target ?h)"
        using 1(1) [OF False m refl hist wf] .
      ultimately show ?thesis unfolding loop by (rule trimmed_trans)
    next
      case notrim: False
      then have "trim_loop target h = h"
        using False by (subst trim_loop.simps) (auto split: option.split list.split)
      then show ?thesis using 1(2) by (simp add: trimmed_refl)
    qed
  qed
qed

lemma trim_if_trimmed:
  "hm_wf (hub_groups h) \<Longrightarrow>
   trimmed h (if hub_max_total_messages h < hub_total_messages h then trim_oldest_messages h else h)"
  by (simp add: trim_oldest_messages_def trim_loop_trimmed trimmed_refl)

subsection \<open>What accepting a message does\<close>

text \<open>The part of a group that the handling of messages never touches.\<close>

definition frozen :: "hub_group \<Rightarrow> hub_group" where
  "frozen g =
     g\<lparr>hg_info := (hg_info g)\<lparr>gi_last_activity_at := 0\<rparr>, hg_message_history := [], hg_next_seq := 0,
       hg_rate_limits := [], hg_seen_message_ids := [], hg_seen_nonces := [],
       hg_group_msg_since_rotation := 0, hg_last_rotation_trigger_ms := 0\<rparr>"

definition frozen_at :: "group_hub \<Rightarrow> group_id \<Rightarrow> hub_group option" where
  "frozen_at h k = map_option frozen (hm_get (hub_groups h) k)"

definition seen_at :: "group_hub \<Rightarrow> group_id \<Rightarrow> (string hset \<times> bytes hset) option" where
  "seen_at h k = map_option (\<lambda>g. (hg_seen_message_ids g, hg_seen_nonces g)) (hm_get (hub_groups h) k)"

definition numbered_at :: "group_hub \<Rightarrow> group_id \<Rightarrow> (group_message list \<times> u64) option" where
  "numbered_at h k = map_option (\<lambda>g. (hg_message_history g, hg_next_seq g)) (hm_get (hub_groups h) k)"

lemma trimmed_at:
  assumes "trimmed h h'"
  shows "frozen_at h' k = frozen_at h k" and "seen_at h' k = seen_at h k"
    and "rel_option (\<lambda>(hist, s) (hist', s'). s' = s \<and> (\<exists>n. hist' = drop n hist)) (numbered_at h k) (numbered_at h' k)"
proof -
  have r: "rel_option (\<lambda>g g'. \<exists>n. g' = g\<lparr>hg_message_history := drop n (hg_message_history g)\<rparr>)
      (hm_get (hub_groups h) k) (hm_get (hub_groups h') k)"
    using assms by (simp add: trimmed_def)
  show "frozen_at h' k = frozen_at h k" and "seen_at h' k = seen_at h k"
    and "rel_option (\<lambda>(hist, s) (hist', s'). s' = s \<and> (\<exists>n. hist' = drop n hist)) (numbered_at h k) (numbered_at h' k)"
    using r by (cases "hm_get (hub_groups h) k"; cases "hm_get (hub_groups h') k";
        auto simp: frozen_at_def seen_at_def numbered_at_def frozen_def)+
qed

lemma rotation_at:
  "frozen_at (snd (maybe_trigger_rotation c gid h)) k = frozen_at h k"
  "seen_at (snd (maybe_trigger_rotation c gid h)) k = seen_at h k"
  "numbered_at (snd (maybe_trigger_rotation c gid h)) k = numbered_at h k"
  by (auto simp: maybe_trigger_rotation_def Let_def frozen_at_def seen_at_def numbered_at_def
      frozen_def split: option.split)

lemma rotation_config:
  "hub_total_messages (snd (maybe_trigger_rotation c gid h)) = hub_total_messages h"
  "same_config h (snd (maybe_trigger_rotation c gid h))"
  by (auto simp: maybe_trigger_rotation_def Let_def same_config_def split: option.split)

lemma rotation_wf:
  "hm_wf (hub_groups h) \<Longrightarrow> hm_wf (hub_groups (snd (maybe_trigger_rotation c gid h)))"
  by (auto simp: maybe_trigger_rotation_def Let_def put_group_wf split: option.split)

lemma rotation_sends:
  "a \<in> set (fst (maybe_trigger_rotation c gid h)) \<Longrightarrow>
   \<exists>n s e eks. a = GaSend n (GpSenderKeyDistribution gid s e eks)"
  by (auto simp: maybe_trigger_rotation_def Let_def split: option.splits if_splits)

text \<open>The three stages of accepting a message, for a group that exists.\<close>

definition stored_hub :: "ctx \<Rightarrow> node_id \<Rightarrow> group_message \<Rightarrow> hub_group \<Rightarrow> group_hub \<Rightarrow> group_hub" where
  "stored_hub c from msg g h = snd (snd (store_message c from msg g h))"

definition trimmed_hub :: "ctx \<Rightarrow> node_id \<Rightarrow> group_message \<Rightarrow> hub_group \<Rightarrow> group_hub \<Rightarrow> group_hub" where
  "trimmed_hub c from msg g h =
     (let h1 = stored_hub c from msg g h
      in if hub_max_total_messages h1 < hub_total_messages h1 then trim_oldest_messages h1 else h1)"

definition other_members :: "node_id \<Rightarrow> group_info \<Rightarrow> node_id list" where
  "other_members n info = map gm_node_id (filter (\<lambda>m. gm_node_id m \<noteq> n) (gi_members info))"

lemma accept_message_get:
  assumes "hm_get (hub_groups h) (msg_group_id msg) = Some g"
  shows "accept_message c from msg h =
    ((if other_members from (hg_info g) \<noteq> []
      then [GaBroadcast (other_members from (hg_info g)) (GpMessage (msg\<lparr>msg_seq := hg_next_seq g\<rparr>))] else []) @
     fst (maybe_trigger_rotation c (msg_group_id msg) (trimmed_hub c from msg g h)),
     snd (maybe_trigger_rotation c (msg_group_id msg) (trimmed_hub c from msg g h)))"
  using assms
  by (simp add: accept_message_def store_message_def Let_def case_prod_beta trimmed_hub_def
      stored_hub_def other_members_def)

lemma stored_hub_at:
  assumes "hm_get (hub_groups h) (msg_group_id msg) = Some g"
  shows "frozen_at (stored_hub c from msg g h) k = frozen_at h k"
    and "seen_at (stored_hub c from msg g h) k = seen_at h k"
    and "numbered_at (stored_hub c from msg g h) k =
      (if k = msg_group_id msg
       then Some (drop (Suc (length (hg_message_history g)) - hub_max_messages_per_group h)
                   (hg_message_history g @ [msg\<lparr>msg_seq := hg_next_seq g\<rparr>]), hg_next_seq g + 1)
       else numbered_at h k)"
    and "same_config h (stored_hub c from msg g h)"
    and "hm_wf (hub_groups h) \<Longrightarrow> hm_wf (hub_groups (stored_hub c from msg g h))"
  using assms
  by (simp_all add: stored_hub_def store_message_def Let_def frozen_at_def seen_at_def
      numbered_at_def frozen_def same_config_def put_group_def hm_simps hm_wfs)

lemma trimmed_hub_trimmed:
  assumes "hm_get (hub_groups h) (msg_group_id msg) = Some g" and "hm_wf (hub_groups h)"
  shows "trimmed (stored_hub c from msg g h) (trimmed_hub c from msg g h)"
  using trim_if_trimmed [OF stored_hub_at(5) [OF assms], of c "from"]
  by (simp add: trimmed_hub_def Let_def)

lemma accept_at:
  fixes c :: ctx and src :: node_id
  assumes g: "hm_get (hub_groups h) (msg_group_id msg) = Some g" and wf: "hm_wf (hub_groups h)"
  defines "h' \<equiv> snd (accept_message c src msg h)"
  shows "frozen_at h' k = frozen_at h k" and "seen_at h' k = seen_at h k" and "hm_wf (hub_groups h')"
    and "same_config h h'"
    and "rel_option (\<lambda>(hist, s) (hist', s'). s' = s \<and> (\<exists>n. hist' = drop n hist))
      (numbered_at (stored_hub c src msg g h) k) (numbered_at h' k)"
proof -
  have h': "h' = snd (maybe_trigger_rotation c (msg_group_id msg) (trimmed_hub c src msg g h))"
    by (simp add: h'_def accept_message_get [OF g])
  note t = trimmed_hub_trimmed [OF g wf, of c src]
  show "frozen_at h' k = frozen_at h k" and "seen_at h' k = seen_at h k"
    by (simp_all add: h' rotation_at trimmed_at [OF t] stored_hub_at [OF g])
  show "hm_wf (hub_groups h')"
    unfolding h' by (rule rotation_wf) (use t in \<open>simp add: trimmed_def\<close>)
  show "same_config h h'"
    using rotation_config(2) [of "trimmed_hub c src msg g h" c "msg_group_id msg"]
      stored_hub_at(4) [OF g, of c src] t
    by (simp add: h' trimmed_def same_config_def)
  show "rel_option (\<lambda>(hist, s) (hist', s'). s' = s \<and> (\<exists>n. hist' = drop n hist))
      (numbered_at (stored_hub c src msg g h) k) (numbered_at h' k)"
    using trimmed_at(3) [OF t, of k] by (simp add: h' rotation_at)
qed

lemma stages_frozen [simp]:
  "frozen (after_nonce cap msg g) = frozen g"
  "frozen (after_rate c src g) = frozen g"
  "frozen (after_dedup cap msg g) = frozen g"
  by (simp_all add: frozen_def after_nonce_def after_rate_def after_dedup_def)

lemma frozen_at_put:
  "hm_get (hub_groups h) gid = Some g \<Longrightarrow> frozen g' = frozen g \<Longrightarrow>
   frozen_at (put_group gid g' h) k = frozen_at h k"
  by (simp add: frozen_at_def)

lemma handle_message_frozen:
  assumes "hm_wf (hub_groups h)"
  shows "frozen_at (snd (handle_message api c src msg h)) k = frozen_at h k"
    and "hm_wf (hub_groups (snd (handle_message api c src msg h)))"
    and "same_config h (snd (handle_message api c src msg h))"
proof -
  let ?h = "snd (handle_message api c src msg h)" and ?cap = "hub_max_dedup_entries h"
  have "frozen_at ?h k = frozen_at h k \<and> hm_wf (hub_groups ?h) \<and> same_config h ?h"
  proof (cases "hm_get (hub_groups h) (msg_group_id msg)")
    case None
    then show ?thesis using assms by (simp add: handle_message_def Let_def same_config_def)
  next
    case (Some g)
    let ?g3 = "after_dedup ?cap msg (after_rate c src (after_nonce ?cap msg g))"
    let ?h3 = "put_group (msg_group_id msg) ?g3 h"
    have put: "frozen_at (put_group (msg_group_id msg) g' h) k = frozen_at h k"
      "hm_wf (hub_groups (put_group (msg_group_id msg) g' h))"
      "same_config h (put_group (msg_group_id msg) g' h)"
      if "frozen g' = frozen g" for g'
      using that Some assms by (simp_all add: frozen_at_put put_group_wf same_config_def)
    have acc: "frozen_at (snd (accept_message c src msg ?h3)) k = frozen_at h k"
      "hm_wf (hub_groups (snd (accept_message c src msg ?h3)))"
      "same_config h (snd (accept_message c src msg ?h3))"
      using accept_at(1,3,4) [of ?h3 msg ?g3 c src] put [of ?g3]
      by (simp_all add: same_config_def)
    show ?thesis
    proof (cases "admissible api c src msg g")
      case True
      then show ?thesis by (simp add: handle_message_eq(1) [OF Some] put acc)
    next
      case False
      then show ?thesis
        using handle_message_eq(2) [OF Some False] assms by (auto simp: same_config_def)
    qed
  qed
  then show "frozen_at ?h k = frozen_at h k" and "hm_wf (hub_groups ?h)" and "same_config h ?h"
    by simp_all
qed

text \<open>A message is fanned out only along the path on which every check succeeded.\<close>

lemma handle_message_fanout:
  assumes "GaBroadcast tos (GpMessage m) \<in> set (fst (handle_message api c src msg h))"
  obtains g where "hm_get (hub_groups h) (msg_group_id msg) = Some g"
    and "admissible api c src msg g" and "nonce_ok (hub_max_dedup_entries h) msg g"
    and "epoch_ok c src msg g"
    and "fst (rate_result c src (after_nonce (hub_max_dedup_entries h) msg g))"
    and "dedup_ok (hub_max_dedup_entries h) msg g"
    and "m = msg\<lparr>msg_seq := hg_next_seq g\<rparr>" and "tos = other_members src (hg_info g)"
    and "handle_message api c src msg h = accept_message c src msg
      (put_group (msg_group_id msg) (after_dedup (hub_max_dedup_entries h) msg
         (after_rate c src (after_nonce (hub_max_dedup_entries h) msg g))) h)"
proof -
  let ?cap = "hub_max_dedup_entries h"
  obtain g where g: "hm_get (hub_groups h) (msg_group_id msg) = Some g"
    using assms by (cases "hm_get (hub_groups h) (msg_group_id msg)") (auto simp: handle_message_def Let_def)
  have adm: "admissible api c src msg g"
    using handle_message_eq(2) [OF g] assms by (fastforce simp: violation_def)
  have keep: "hg_next_seq (after_dedup ?cap msg (after_rate c src (after_nonce ?cap msg g))) = hg_next_seq g"
    "hg_info (after_dedup ?cap msg (after_rate c src (after_nonce ?cap msg g))) = hg_info g"
    by (simp_all add: after_dedup_def after_rate_def after_nonce_def)
  have ids: "dedup_ok ?cap msg (after_rate c src (after_nonce ?cap msg g)) = dedup_ok ?cap msg g"
    by (simp add: dedup_ok_def after_rate_def after_nonce_def)
  have replay: "GaBroadcast tos (GpMessage m) \<notin> set (sender_key_replay gid l n)" for gid l n
    by (auto simp: sender_key_replay_def List.map_filter_def split: option.splits)
  note eq = handle_message_eq(1) [OF g adm]
  have ok: "nonce_ok ?cap msg g" "epoch_ok c src msg g"
    "fst (rate_result c src (after_nonce ?cap msg g))" "dedup_ok ?cap msg g"
    using assms by (auto simp: eq violation_def replay ids split: if_splits)
  let ?h3 = "put_group (msg_group_id msg)
      (after_dedup ?cap msg (after_rate c src (after_nonce ?cap msg g))) h"
  have acc: "handle_message api c src msg h = accept_message c src msg ?h3"
    using ok by (simp add: eq ids)
  have "m = msg\<lparr>msg_seq := hg_next_seq g\<rparr> \<and> tos = other_members src (hg_info g)"
    using assms rotation_sends by (auto simp: acc accept_message_get keep split: if_splits)
  then show thesis using that [OF g adm ok(1-4) _ _ acc] by blast
qed

lemma handle_message_accepts:
  assumes "hm_get (hub_groups h) (msg_group_id msg) = Some g" and "admissible api c src msg g"
    and "nonce_ok (hub_max_dedup_entries h) msg g" and "epoch_ok c src msg g"
    and "fst (rate_result c src (after_nonce (hub_max_dedup_entries h) msg g))"
    and "dedup_ok (hub_max_dedup_entries h) msg g"
    and "other_members src (hg_info g) \<noteq> []"
  shows "GaBroadcast (other_members src (hg_info g)) (GpMessage (msg\<lparr>msg_seq := hg_next_seq g\<rparr>))
    \<in> set (fst (handle_message api c src msg h))"
proof -
  let ?cap = "hub_max_dedup_entries h"
  have "dedup_ok ?cap msg (after_rate c src (after_nonce ?cap msg g)) = dedup_ok ?cap msg g"
    and "hg_next_seq (after_dedup ?cap msg (after_rate c src (after_nonce ?cap msg g))) = hg_next_seq g"
    and "hg_info (after_dedup ?cap msg (after_rate c src (after_nonce ?cap msg g))) = hg_info g"
    by (simp_all add: dedup_ok_def after_rate_def after_nonce_def after_dedup_def)
  with assms show ?thesis
    by (simp add: handle_message_eq(1) [OF assms(1,2)] accept_message_get)
qed

subsection \<open>Members and admins\<close>

definition hub_members :: "group_hub \<Rightarrow> group_id \<Rightarrow> node_id set" where
  "hub_members h gid =
     (case hm_get (hub_groups h) gid of
        None \<Rightarrow> {} | Some g \<Rightarrow> gm_node_id ` set (gi_members (hg_info g)))"

definition hub_admins :: "group_hub \<Rightarrow> group_id \<Rightarrow> node_id set" where
  "hub_admins h gid =
     (case hm_get (hub_groups h) gid of
        None \<Rightarrow> {}
      | Some g \<Rightarrow> gm_node_id ` {m \<in> set (gi_members (hg_info g)). gm_role m = Admin})"

text \<open>When the hub lets a node join: it is invited where that matters, and there is room.\<close>

definition may_join :: "group_hub \<Rightarrow> group_id \<Rightarrow> node_id \<Rightarrow> bool" where
  "may_join h gid n \<longleftrightarrow>
     (\<exists>g. hm_get (hub_groups h) gid = Some g \<and>
        (gi_invite_only (hg_info g) \<longrightarrow> n = gi_created_by (hg_info g) \<or> n \<in> set (hg_invited_set g)) \<and>
        length (gi_members (hg_info g)) < gi_max_members (hg_info g))"

definition group_wf :: "group_id \<Rightarrow> hub_group \<Rightarrow> bool" where
  "group_wf gid g \<longleftrightarrow>
     gi_group_id (hg_info g) = gid \<and> gi_members (hg_info g) \<noteq> [] \<and>
     distinct (map gm_node_id (gi_members (hg_info g))) \<and>
     length (gi_members (hg_info g)) \<le> gi_max_members (hg_info g)"

definition hub_wf :: "group_hub \<Rightarrow> bool" where
  "hub_wf h \<longleftrightarrow> hm_wf (hub_groups h) \<and>
     (\<forall>gid g. hm_get (hub_groups h) gid = Some g \<longrightarrow> group_wf gid g)"

lemma members_frozen:
  "hub_members h gid = (case frozen_at h gid of
     None \<Rightarrow> {} | Some g \<Rightarrow> gm_node_id ` set (gi_members (hg_info g)))"
  by (simp add: hub_members_def frozen_at_def frozen_def split: option.split)

lemma admins_frozen:
  "hub_admins h gid = (case frozen_at h gid of
     None \<Rightarrow> {} | Some g \<Rightarrow> gm_node_id ` {m \<in> set (gi_members (hg_info g)). gm_role m = Admin})"
  by (simp add: hub_admins_def frozen_at_def frozen_def split: option.split)

lemma group_wf_frozen: "group_wf gid (frozen g) = group_wf gid g"
  by (simp add: group_wf_def frozen_def)

lemma hub_wf_frozen:
  assumes "hub_wf h" and "hm_wf (hub_groups h')" and "\<And>k. frozen_at h' k = frozen_at h k"
  shows "hub_wf h'"
  unfolding hub_wf_def
proof (intro conjI allI impI)
  fix gid g
  assume "hm_get (hub_groups h') gid = Some g"
  with assms(3) [of gid] obtain g' where "hm_get (hub_groups h) gid = Some g'" "frozen g' = frozen g"
    by (cases "hm_get (hub_groups h) gid") (auto simp: frozen_at_def)
  with assms(1) have "group_wf gid (frozen g)" by (metis hub_wf_def group_wf_frozen)
  then show "group_wf gid g" by (simp add: group_wf_frozen)
qed (rule assms(2))

lemma hub_wf_put: "hub_wf h \<Longrightarrow> group_wf gid g \<Longrightarrow> hub_wf (put_group gid g h)"
  by (simp add: hub_wf_def put_group_wf)

lemma members_put [simp]:
  "hub_members (put_group gid g h) k =
     (if k = gid then gm_node_id ` set (gi_members (hg_info g)) else hub_members h k)"
  "hub_admins (put_group gid g h) k =
     (if k = gid then gm_node_id ` {m \<in> set (gi_members (hg_info g)). gm_role m = Admin}
      else hub_admins h k)"
  by (simp_all add: hub_members_def hub_admins_def)

lemma members_get:
  "hm_get (hub_groups h) gid = Some g \<Longrightarrow> is_member (hg_info g) n \<longleftrightarrow> n \<in> hub_members h gid"
  "hm_get (hub_groups h) gid = Some g \<Longrightarrow> is_admin (hg_info g) n \<longleftrightarrow> n \<in> hub_admins h gid"
  by (auto simp: hub_members_def hub_admins_def member_simps)

lemma members_None:
  "hm_get (hub_groups h) gid = None \<Longrightarrow> hub_members h gid = {}"
  "hm_get (hub_groups h) gid = None \<Longrightarrow> hub_admins h gid = {}"
  by (simp_all add: hub_members_def hub_admins_def)

text \<open>Each handler's effect on members and admins.\<close>

lemma create_members:
  "hub_members (snd (handle_create c n name un ms io h)) k =
     (if k = group_id_new c then {n} else hub_members h k)"
  "hub_admins (snd (handle_create c n name un ms io h)) k =
     (if k = group_id_new c then {n} else hub_admins h k)"
  by (auto simp: handle_create_def Let_def hub_group_new_def)

lemma join_members:
  "hub_members (snd (handle_join c n gid un h)) k =
     (if k = gid \<and> may_join h gid n then insert n (hub_members h k) else hub_members h k)"
  "hub_admins (snd (handle_join c n gid un h)) k = hub_admins h k"
proof -
  show "hub_members (snd (handle_join c n gid un h)) k =
     (if k = gid \<and> may_join h gid n then insert n (hub_members h k) else hub_members h k)"
  proof (cases "hm_get (hub_groups h) gid")
    case None
    then show ?thesis by (simp add: handle_join_def may_join_def)
  next
    case (Some g)
    then show ?thesis
      by (auto simp: handle_join_def Let_def may_join_def is_full_def members_get insert_absorb)
        (auto simp: hub_members_def)
  qed
  show "hub_admins (snd (handle_join c n gid un h)) k = hub_admins h k"
    by (auto simp: handle_join_def Let_def hub_admins_def split: option.splits)
qed

lemma remove_members:
  "gm_node_id ` set (gi_members (remove_member c n info)) = gm_node_id ` set (gi_members info) - {n}"
  "gm_node_id ` {m \<in> set (gi_members (remove_member c n info)). gm_role m = Admin} =
     gm_node_id ` {m \<in> set (gi_members info). gm_role m = Admin} - {n}"
  by (auto simp: remove_member_def)

lemma leave_members:
  "hub_members (snd (handle_leave c n gid h)) k =
     (if k = gid then hub_members h k - {n} else hub_members h k)"
  "hub_admins (snd (handle_leave c n gid h)) k =
     (if k = gid then hub_admins h k - {n} else hub_admins h k)"
proof -
  have "hub_members (snd (handle_leave c n gid h)) k =
       (if k = gid then hub_members h k - {n} else hub_members h k) \<and>
     hub_admins (snd (handle_leave c n gid h)) k =
       (if k = gid then hub_admins h k - {n} else hub_admins h k)"
  proof (cases "hm_get (hub_groups h) gid")
    case None
    then show ?thesis by (simp add: handle_leave_def members_None)
  next
    case (Some g)
    show ?thesis
    proof (cases "gi_members (remove_member c n (hg_info g)) = []")
      case True
      then have "hub_members h gid - {n} = {}" "hub_admins h gid - {n} = {}"
        using Some remove_members [of c n "hg_info g"] by (auto simp: hub_members_def hub_admins_def)
      then show ?thesis using Some True
        by (auto simp: handle_leave_def Let_def hub_members_def hub_admins_def hm_simps)
    next
      case False
      then show ?thesis using Some
        by (auto simp: handle_leave_def Let_def remove_members) (auto simp: hub_members_def hub_admins_def)
    qed
  qed
  then show "hub_members (snd (handle_leave c n gid h)) k =
      (if k = gid then hub_members h k - {n} else hub_members h k)"
    and "hub_admins (snd (handle_leave c n gid h)) k =
      (if k = gid then hub_admins h k - {n} else hub_admins h k)" by simp_all
qed

lemma kick_members:
  "hub_members (snd (kick_member c gid a n h)) k =
     (if k = gid \<and> a \<in> hub_admins h gid \<and> a \<noteq> n then hub_members h k - {n} else hub_members h k)"
  "hub_admins (snd (kick_member c gid a n h)) k =
     (if k = gid \<and> a \<in> hub_admins h gid \<and> a \<noteq> n then hub_admins h k - {n} else hub_admins h k)"
  by (cases "hm_get (hub_groups h) gid";
      auto simp: kick_member_def Let_def members_None members_get remove_members;
      auto simp: hub_members_def hub_admins_def)+

lemma set_role_map:
  assumes "distinct (map gm_node_id ms)"
  shows "set_role n r ms = map (\<lambda>m. if gm_node_id m = n then m\<lparr>gm_role := r\<rparr> else m) ms"
proof (cases "List.extract (\<lambda>m. gm_node_id m = n) ms")
  case None
  then have "\<forall>m \<in> set ms. gm_node_id m \<noteq> n" by (simp add: extract_None_iff)
  then have "map (\<lambda>m. if gm_node_id m = n then m\<lparr>gm_role := r\<rparr> else m) ms = ms"
    by (auto intro!: map_idI)
  with None show ?thesis by (simp add: set_role_def)
next
  case (Some p)
  obtain xs m ys where p: "p = (xs, m, ys)" by (cases p)
  with Some have ms: "ms = xs @ m # ys" and m: "gm_node_id m = n" by (auto simp: extract_Some_iff)
  have "n \<notin> gm_node_id ` set xs" "n \<notin> gm_node_id ` set ys" using assms m by (auto simp: ms)
  then have "map (\<lambda>m. if gm_node_id m = n then m\<lparr>gm_role := r\<rparr> else m) xs = xs"
    and "map (\<lambda>m. if gm_node_id m = n then m\<lparr>gm_role := r\<rparr> else m) ys = ys"
    by (auto intro!: map_idI)
  then show ?thesis using Some m by (simp add: set_role_def p ms)
qed

lemma set_role_ids: "distinct (map gm_node_id ms) \<Longrightarrow> map gm_node_id (set_role n r ms) = map gm_node_id ms"
  by (simp add: set_role_map)

lemma set_role_admins:
  assumes "distinct (map gm_node_id ms)" and "n \<in> gm_node_id ` set ms"
  shows "gm_node_id ` {m \<in> set (set_role n r ms). gm_role m = Admin} =
    (if r = Admin then insert n (gm_node_id ` {m \<in> set ms. gm_role m = Admin})
     else gm_node_id ` {m \<in> set ms. gm_role m = Admin} - {n})"
proof -
  let ?f = "\<lambda>m. if gm_node_id m = n then m\<lparr>gm_role := r\<rparr> else m"
  have f: "{m \<in> set (map ?f ms). gm_role m = Admin} = ?f ` {m \<in> set ms. gm_role (?f m) = Admin}"
    by (simp only: set_map Compr_image_eq)
  have "gm_node_id ` {m \<in> set (map ?f ms). gm_role m = Admin} =
      gm_node_id ` {m \<in> set ms. gm_role (?f m) = Admin}"
    unfolding f image_image by (rule image_cong) simp_all
  also have "\<dots> = (if r = Admin then insert n (gm_node_id ` {m \<in> set ms. gm_role m = Admin})
     else gm_node_id ` {m \<in> set ms. gm_role m = Admin} - {n})"
    using assms(2) by (auto split: if_splits)
  finally show ?thesis using assms(1) by (simp add: set_role_map)
qed

text \<open>When the hub executes a change of role.\<close>

definition may_set_role :: "group_hub \<Rightarrow> group_id \<Rightarrow> node_id \<Rightarrow> node_id \<Rightarrow> group_member_role \<Rightarrow> bool" where
  "may_set_role h gid a n r \<longleftrightarrow>
     a \<in> hub_admins h gid \<and> n \<in> hub_members h gid \<and> (r = Member \<longrightarrow> 2 \<le> card (hub_admins h gid))"

lemma admin_count:
  assumes "distinct (map gm_node_id ms)"
  shows "length (filter (\<lambda>m. gm_role m = Admin) ms) = card (gm_node_id ` {m \<in> set ms. gm_role m = Admin})"
proof -
  have "card (set (map gm_node_id (filter (\<lambda>m. gm_role m = Admin) ms))) =
      length (map gm_node_id (filter (\<lambda>m. gm_role m = Admin) ms))"
    using assms by (intro distinct_card) (simp add: distinct_map_filter)
  then show ?thesis by simp
qed

lemma get_member_iff:
  "get_member info n = None \<longleftrightarrow> n \<notin> gm_node_id ` set (gi_members info)"
  by (auto simp: get_member_def find_None_iff)

lemma get_member_Some:
  "get_member info n = Some m \<Longrightarrow> m \<in> set (gi_members info) \<and> gm_node_id m = n"
  by (auto simp: get_member_def find_Some_iff)

lemma role_noop:
  assumes "distinct (map gm_node_id ms)" and "m \<in> set ms"
  shows "gm_node_id m \<in> gm_node_id ` {m \<in> set ms. gm_role m = Admin} \<longleftrightarrow> gm_role m = Admin"
  using assms by (auto simp: distinct_map inj_on_def)

lemma role_members:
  assumes "hub_wf h"
  shows "hub_members (snd (update_member_role c gid a n r h)) k = hub_members h k"
    and "hub_admins (snd (update_member_role c gid a n r h)) k =
      (if k = gid \<and> may_set_role h gid a n r
       then (if r = Admin then insert n (hub_admins h k) else hub_admins h k - {n})
       else hub_admins h k)"
proof -
  let ?h = "snd (update_member_role c gid a n r h)"
  have "hub_members ?h k = hub_members h k \<and> hub_admins ?h k =
      (if k = gid \<and> may_set_role h gid a n r
       then (if r = Admin then insert n (hub_admins h k) else hub_admins h k - {n})
       else hub_admins h k)"
  proof (cases "hm_get (hub_groups h) gid")
    case None
    then show ?thesis by (simp add: update_member_role_def may_set_role_def members_None)
  next
    case (Some g)
    then have dist: "distinct (map gm_node_id (gi_members (hg_info g)))"
      using assms by (auto simp: hub_wf_def group_wf_def)
    have M: "hub_members h gid = gm_node_id ` set (gi_members (hg_info g))"
      and A: "hub_admins h gid = gm_node_id ` {m \<in> set (gi_members (hg_info g)). gm_role m = Admin}"
      using Some by (simp_all add: hub_members_def hub_admins_def)
    show ?thesis
    proof (cases "get_member (hg_info g) n")
      case None
      then have "n \<notin> hub_members h gid" using M by (simp add: get_member_iff)
      with None show ?thesis using Some by (simp add: update_member_role_def may_set_role_def)
    next
      case (Some m)
      note m = get_member_Some [OF Some]
      have mem: "n \<in> hub_members h gid" using m M by auto
      have role: "n \<in> hub_admins h gid \<longleftrightarrow> gm_role m = Admin"
        using role_noop [OF dist, of m] m A by simp
      have cnt: "length (filter (\<lambda>m. gm_role m = Admin) (gi_members (hg_info g))) = card (hub_admins h gid)"
        using admin_count [OF dist] A by simp
      have ids: "gm_node_id ` set (set_role n r' (gi_members (hg_info g))) = hub_members h gid" for r'
        using set_role_ids [OF dist, of n r'] M by (metis set_map)
      have adm: "gm_node_id ` {m \<in> set (set_role n r' (gi_members (hg_info g))). gm_role m = Admin} =
          (if r' = Admin then insert n (hub_admins h gid) else hub_admins h gid - {n})" for r'
        using set_role_admins [OF dist, of n r'] mem M A by simp
      show ?thesis
        using \<open>hm_get (hub_groups h) gid = Some g\<close> Some mem role
        by (cases r) (auto simp: update_member_role_def Let_def may_set_role_def members_get cnt ids adm)
    qed
  qed
  then show "hub_members ?h k = hub_members h k"
    and "hub_admins ?h k =
      (if k = gid \<and> may_set_role h gid a n r
       then (if r = Admin then insert n (hub_admins h k) else hub_admins h k - {n})
       else hub_admins h k)" by simp_all
qed

lemma other_handlers_members:
  "hub_members (snd (invite_member gid a n h)) k = hub_members h k"
  "hub_admins (snd (invite_member gid a n h)) k = hub_admins h k"
  "hub_members (snd (handle_sender_key_distribution c src gid ep eks h)) k = hub_members h k"
  "hub_admins (snd (handle_sender_key_distribution c src gid ep eks h)) k = hub_admins h k"
  by (auto simp: invite_member_def handle_sender_key_distribution_def Let_def hub_members_def
      hub_admins_def split: option.splits)

lemma message_members:
  assumes "hub_wf h"
  shows "hub_members (snd (handle_message api c src msg h)) k = hub_members h k"
    and "hub_admins (snd (handle_message api c src msg h)) k = hub_admins h k"
  using assms handle_message_frozen(1) [of h api c src msg k]
  by (simp_all add: hub_wf_def members_frozen admins_frozen)

lemmas handler_members = create_members join_members leave_members kick_members role_members
  other_handlers_members message_members

subsection \<open>The hub stays well-formed\<close>

lemma hub_wf_get: "hub_wf h \<Longrightarrow> hm_get (hub_groups h) gid = Some g \<Longrightarrow> group_wf gid g"
  by (simp add: hub_wf_def)

lemma group_wf_info:
  "group_wf gid g \<Longrightarrow> gi_group_id info = gi_group_id (hg_info g) \<Longrightarrow>
   gi_max_members info = gi_max_members (hg_info g) \<Longrightarrow> gi_members info \<noteq> [] \<Longrightarrow>
   distinct (map gm_node_id (gi_members info)) \<Longrightarrow>
   length (gi_members info) \<le> gi_max_members (hg_info g) \<Longrightarrow> group_wf gid (g'\<lparr>hg_info := info\<rparr>)"
  by (simp add: group_wf_def)

lemma create_wf: "hub_wf h \<Longrightarrow> hub_wf (snd (handle_create c n name un ms io h))"
  by (auto simp: handle_create_def Let_def hub_group_new_def group_wf_def MAX_GROUP_MEMBERS_def
      intro!: hub_wf_put)

lemma join_wf:
  assumes "hub_wf h"
  shows "hub_wf (snd (handle_join c n gid un h))"
proof (cases "hm_get (hub_groups h) gid")
  case None
  then show ?thesis using assms by (simp add: handle_join_def)
next
  case (Some g)
  from hub_wf_get [OF assms this] have "group_wf gid g" .
  with Some assms show ?thesis
    by (auto simp: handle_join_def Let_def is_full_def member_simps group_wf_def intro!: hub_wf_put)
qed

lemma remove_member_wf:
  "group_wf gid g \<Longrightarrow> gi_members (remove_member c n (hg_info g)) \<noteq> [] \<Longrightarrow>
   group_wf gid (g\<lparr>hg_info := remove_member c n (hg_info g)\<rparr>)"
  by (auto simp: group_wf_def remove_member_def distinct_map_filter
      intro: order_trans [OF length_filter_le])

lemma leave_wf:
  assumes "hub_wf h"
  shows "hub_wf (snd (handle_leave c n gid h))"
proof (cases "hm_get (hub_groups h) gid")
  case None
  then show ?thesis using assms by (simp add: handle_leave_def)
next
  case (Some g)
  have "hub_wf (h\<lparr>hub_groups := hm_remove gid (hub_groups h)\<rparr>)"
    using assms by (auto simp: hub_wf_def hm_simps hm_wfs split: if_splits)
  then show ?thesis
    using Some assms hub_wf_get [OF assms Some]
    by (auto simp: handle_leave_def Let_def intro!: hub_wf_put remove_member_wf)
qed

lemma kick_wf:
  assumes "hub_wf h"
  shows "hub_wf (snd (kick_member c gid a n h))"
proof (cases "hm_get (hub_groups h) gid")
  case None
  then show ?thesis using assms by (simp add: kick_member_def)
next
  case (Some g)
  have "gi_members (remove_member c n (hg_info g)) \<noteq> []" if "is_admin (hg_info g) a" "a \<noteq> n"
    using that by (auto simp: remove_member_def member_simps filter_empty_conv)
  then show ?thesis
    using Some assms hub_wf_get [OF assms Some]
    by (auto simp: kick_member_def Let_def intro!: hub_wf_put remove_member_wf)
qed

lemma role_wf:
  assumes "hub_wf h"
  shows "hub_wf (snd (update_member_role c gid a n r h))"
proof (cases "hm_get (hub_groups h) gid")
  case None
  then show ?thesis using assms by (simp add: update_member_role_def)
next
  case (Some g)
  from hub_wf_get [OF assms this] have wf: "group_wf gid g" .
  then have ids: "map gm_node_id (set_role n r (gi_members (hg_info g))) = map gm_node_id (gi_members (hg_info g))"
    by (simp add: group_wf_def set_role_ids)
  from arg_cong [OF ids, of length]
  have len: "length (set_role n r (gi_members (hg_info g))) = length (gi_members (hg_info g))" by simp
  with ids wf have "group_wf gid (g\<lparr>hg_info := (hg_info g)\<lparr>gi_members := set_role n r (gi_members (hg_info g)),
      gi_last_activity_at := now_ms c\<rparr>\<rparr>)"
    by (auto simp: group_wf_def)
  then show ?thesis
    using Some assms by (auto simp: update_member_role_def Let_def hub_wf_put split: option.split)
qed

lemma same_info_wf:
  assumes "hub_wf h"
  shows "hub_wf (snd (invite_member gid a n h))"
    and "hub_wf (snd (handle_sender_key_distribution c src gid ep eks h))"
    and "hub_wf (snd (assign_shadow gid h))"
proof -
  have g: "group_wf gid (g\<lparr>hg_invited_set := i\<rparr>)"
    "group_wf gid (g\<lparr>hg_sender_epoch_state := e, hg_latest_sender_keys := k\<rparr>)"
    "group_wf gid (g\<lparr>hg_info := (hg_info g)\<lparr>gi_shadow_id := s\<rparr>\<rparr>)"
    "group_wf gid (g\<lparr>hg_info := (hg_info g)\<lparr>gi_shadow_id := s, gi_candidate_id := ca\<rparr>\<rparr>)"
    if "hm_get (hub_groups h) gid = Some g" for g i e k s ca
    using hub_wf_get [OF assms that] by (simp_all add: group_wf_def)
  show "hub_wf (snd (invite_member gid a n h))"
    and "hub_wf (snd (handle_sender_key_distribution c src gid ep eks h))"
    and "hub_wf (snd (assign_shadow gid h))"
    using assms g
    by (auto simp: invite_member_def handle_sender_key_distribution_def assign_shadow_def Let_def
        hub_wf_put split: option.split list.split)
qed

lemma message_wf: "hub_wf h \<Longrightarrow> hub_wf (snd (handle_message api c src msg h))"
  using hub_wf_frozen handle_message_frozen by (metis hub_wf_def)

lemma map_groups_wf:
  assumes "hub_wf h" and "\<And>g. hg_info (f g) = hg_info g"
  shows "hub_wf (h\<lparr>hub_groups := hm_map_values f (hub_groups h)\<rparr>)"
  using assms by (auto simp: hub_wf_def hm_simps group_wf_def)

lemma payload_wf: "hub_wf h \<Longrightarrow> hub_wf (snd (hub_handle_payload api c p src h))"
  by (cases p)
    (auto simp: create_wf join_wf leave_wf message_wf same_info_wf kick_wf role_wf)

definition info_wf :: "group_info \<Rightarrow> bool" where
  "info_wf info \<longleftrightarrow> gi_members info \<noteq> [] \<and> distinct (map gm_node_id (gi_members info)) \<and>
     length (gi_members info) \<le> gi_max_members info"

lemma hub_group_new_wf:
  "info_wf info \<Longrightarrow> gi_group_id info = gid \<Longrightarrow> group_wf gid (hub_group_new info i msgs s)"
  by (simp add: group_wf_def info_wf_def hub_group_new_def)

fun hub_event_ok :: "hub_event \<Rightarrow> bool" where
  "hub_event_ok (HeImport info msgs) \<longleftrightarrow> info_wf info"
| "hub_event_ok (HeRestore s) \<longleftrightarrow> (\<forall>(gid, info) \<in> set (ghs_groups s). info_wf info \<and> gi_group_id info = gid)"
| "hub_event_ok _ \<longleftrightarrow> True"

lemma restore_fold_wf:
  "hub_wf h \<Longrightarrow> \<forall>(gid, info) \<in> set gs. info_wf info \<and> gi_group_id info = gid \<Longrightarrow>
   hub_wf (fold (\<lambda>(gid, info) h. put_group gid (hub_group_new info (iv gid) [] (sq gid)) h) gs h)"
  by (induction gs arbitrary: h) (auto intro!: hub_wf_put hub_group_new_wf)

interpretation hub_machine: event_machine "hub_step api" hub_event_ok hub_wf
  for api :: crypto_api
proof
  fix ev h
  assume ev: "hub_event_ok ev" and h: "hub_wf h"
  show "hub_wf (hub_step api ev h)"
  proof (cases ev)
    case (HeImport info msgs)
    have "hub_wf (put_group (gi_group_id info) (hub_group_new info [] msgs s) h)" for s
      using ev h HeImport by (auto intro!: hub_wf_put hub_group_new_wf)
    then show ?thesis by (simp add: HeImport import_group_def Let_def hub_wf_def)
  next
    case (HeRestore s)
    then show ?thesis using ev h by (auto simp: hub_restore_def Let_def intro!: restore_fold_wf)
  qed (use h in \<open>auto simp: payload_wf same_info_wf cleanup_expired_messages_def
        purge_expired_sender_keys_def Let_def intro!: map_groups_wf\<close>)
qed

lemma hub_new_wf: "hub_wf (group_hub_new n)"
  by (simp add: hub_wf_def group_hub_new_def)

subsection \<open>A concrete hub\<close>

text \<open>Used by the witnesses: node 1 has created a group and nodes 2 and 3 have joined.\<close>

definition hub_ctx :: ctx where
  "hub_ctx = \<lparr>now_ms = 1000000, now_instant = secs 50, fresh_uuid = ''u''\<rparr>"

abbreviation demo_gid :: group_id where
  "demo_gid \<equiv> GroupId ''grp-u''"

definition demo_member :: "node_id \<Rightarrow> group_member_role \<Rightarrow> group_member" where
  "demo_member n r = \<lparr>gm_node_id = n, gm_username = ''x'', gm_joined_at = 1000000, gm_role = r\<rparr>"

definition demo_info :: group_info where
  "demo_info =
     \<lparr>gi_group_id = demo_gid, gi_name = ''team'', gi_hub_relay_id = NodeId 9,
      gi_backup_hub_id = None,
      gi_members = [demo_member (NodeId 1) Admin, demo_member (NodeId 2) Member, demo_member (NodeId 3) Member],
      gi_created_by = NodeId 1, gi_created_at = 1000000, gi_last_activity_at = 1000000,
      gi_max_members = 50, gi_shadow_id = None, gi_candidate_id = None, gi_invite_only = True\<rparr>"

definition demo_hub :: group_hub where
  "demo_hub = put_group demo_gid (hub_group_new demo_info [NodeId 4] [] 0) (group_hub_new (NodeId 9))"

lemma demo_hub_get: "hm_get (hub_groups demo_hub) demo_gid = Some (hub_group_new demo_info [NodeId 4] [] 0)"
  by (simp add: demo_hub_def)

lemma demo_hub_wf: "hub_wf demo_hub"
  unfolding demo_hub_def
  by (rule hub_wf_put [OF hub_new_wf])
    (simp add: group_wf_def hub_group_new_def demo_info_def demo_member_def)

lemma demo_hub_members:
  "hub_members demo_hub demo_gid = {NodeId 1, NodeId 2, NodeId 3}"
  "hub_admins demo_hub demo_gid = {NodeId 1}"
proof -
  show "hub_members demo_hub demo_gid = {NodeId 1, NodeId 2, NodeId 3}"
    by (simp add: hub_members_def demo_hub_get hub_group_new_def demo_info_def demo_member_def)
  have "{m \<in> set (gi_members demo_info). gm_role m = Admin} = {demo_member (NodeId 1) Admin}"
    by (auto simp: demo_info_def demo_member_def)
  then show "hub_admins demo_hub demo_gid = {NodeId 1}"
    by (simp add: hub_admins_def demo_hub_get hub_group_new_def demo_member_def)
qed

lemma demo_fresh: "hm_get (hub_groups demo_hub) (group_id_new (hub_ctx\<lparr>fresh_uuid := ''v''\<rparr>)) = None"
  by (simp add: demo_hub_def group_hub_new_def group_id_new_def)

subsection \<open>Properties\<close>

text \<open>
  C20. Nobody gets into or out of a group except as the rules allow: whatever payload the hub
  handles, a node becomes a member only by its own join request, while there is room and,
  in an invite-only group, after an invitation (or as the creator), or by creating the group;
  and a node ceases to be a member only by its own leave request or because another member
  that is an admin kicked it.
\<close>

theorem membership_authorised:
  assumes "hub_wf h" and "hm_get (hub_groups h) (group_id_new c) = None"
  shows "(n \<in> hub_members (snd (hub_handle_payload api c p src h)) gid - hub_members h gid \<longrightarrow>
      n = src \<and> ((\<exists>un. p = GpJoin gid un) \<and> may_join h gid n \<or>
        (\<exists>name un ms io. p = GpCreate name un ms io) \<and> gid = group_id_new c)) \<and>
    (n \<in> hub_members h gid - hub_members (snd (hub_handle_payload api c p src h)) gid \<longrightarrow>
      p = GpLeave gid \<and> n = src \<or> p = GpKickMember gid n \<and> src \<in> hub_admins h gid \<and> src \<noteq> n)"
  using assms by (cases p) (auto simp: handler_members members_None split: if_splits)

theorem membership_authorised_witness:
  "NodeId 2 \<in> hub_members demo_hub demo_gid \<and>
   NodeId 2 \<notin> hub_members (snd (hub_handle_payload demo_crypto (hub_ctx\<lparr>fresh_uuid := ''v''\<rparr>)
     (GpKickMember demo_gid (NodeId 2)) (NodeId 1) demo_hub)) demo_gid \<and> NodeId 1 \<in> hub_admins demo_hub demo_gid"
  using membership_authorised [OF demo_hub_wf demo_fresh, of "NodeId 2" demo_crypto
      "GpKickMember demo_gid (NodeId 2)" "NodeId 1" demo_gid]
  by (simp add: kick_members demo_hub_members)

text \<open>
  C21. Admin rights change only by the hand of an admin: whatever payload the hub handles, a
  node becomes an admin of an existing group only when an admin promotes it, and ceases to be
  one only when it leaves, another admin kicks it, or an admin demotes it; and unless the
  payload is a leave request, a group that has an admin still has one afterwards.
\<close>

theorem admin_authorised:
  assumes "hub_wf h" and "hm_get (hub_groups h) gid = Some g"
    and "hm_get (hub_groups h) (group_id_new c) = None"
  shows "(n \<in> hub_admins (snd (hub_handle_payload api c p src h)) gid - hub_admins h gid \<longrightarrow>
      p = GpUpdateMemberRole gid n Admin \<and> src \<in> hub_admins h gid) \<and>
    (n \<in> hub_admins h gid - hub_admins (snd (hub_handle_payload api c p src h)) gid \<longrightarrow>
      p = GpLeave gid \<and> n = src \<or> p = GpKickMember gid n \<and> src \<in> hub_admins h gid \<and> src \<noteq> n \<or>
      p = GpUpdateMemberRole gid n Member \<and> src \<in> hub_admins h gid) \<and>
    ((\<forall>k. p \<noteq> GpLeave k) \<and> hub_admins h gid \<noteq> {} \<longrightarrow>
      hub_admins (snd (hub_handle_payload api c p src h)) gid \<noteq> {})"
proof -
  have new: "gid \<noteq> group_id_new c" using assms(2,3) by auto
  have two: "A - {x} \<noteq> {}" if "2 \<le> card A" for A :: "node_id set" and x
  proof
    assume "A - {x} = {}"
    then have "card A \<le> card {x}" by (intro card_mono) auto
    with that show False by simp
  qed
  show ?thesis
  proof (cases p)
    case (GpUpdateMemberRole k t r)
    then show ?thesis using assms(1) two [of "hub_admins h gid" t]
      by (cases r) (auto simp: role_members may_set_role_def split: if_splits)
  qed (use assms(1) new in \<open>auto simp: handler_members split: if_splits\<close>)
qed

theorem admin_authorised_witness:
  "NodeId 2 \<in> hub_admins (snd (hub_handle_payload demo_crypto (hub_ctx\<lparr>fresh_uuid := ''v''\<rparr>)
      (GpUpdateMemberRole demo_gid (NodeId 2) Admin) (NodeId 1) demo_hub)) demo_gid \<and>
   NodeId 2 \<notin> hub_admins demo_hub demo_gid \<and> NodeId 1 \<in> hub_admins demo_hub demo_gid"
  using admin_authorised [OF demo_hub_wf demo_hub_get demo_fresh, of "NodeId 2" demo_crypto
      "GpUpdateMemberRole demo_gid (NodeId 2) Admin" "NodeId 1"]
  by (simp add: role_members [OF demo_hub_wf] may_set_role_def demo_hub_members)

text \<open>
  C22. Group sizes are bounded for good: from a new hub, under any sequence of payloads,
  cleanups, shadow assignments and well-formed imports or restores, every group is non-empty,
  has no member twice, and never exceeds its maximum.
\<close>

theorem groups_stay_wf:
  assumes "list_all hub_event_ok evs"
    and "hm_get (hub_groups (fold (hub_step api) evs (group_hub_new n))) gid = Some g"
  shows "distinct (map gm_node_id (gi_members (hg_info g))) \<and> gi_members (hg_info g) \<noteq> [] \<and>
    length (gi_members (hg_info g)) \<le> gi_max_members (hg_info g)"
  using hub_wf_get [OF hub_machine.run_invar [OF assms(1) hub_new_wf [of n]] assms(2)]
  by (simp add: group_wf_def)

theorem groups_stay_wf_witness:
  "\<exists>g. hm_get (hub_groups (fold (hub_step demo_crypto)
      [HePayload hub_ctx (GpCreate ''team'' ''x'' [NodeId 2] True) (NodeId 1),
       HePayload hub_ctx (GpJoin demo_gid ''y'') (NodeId 2)] (group_hub_new (NodeId 9)))) demo_gid = Some g \<and>
     map gm_node_id (gi_members (hg_info g)) = [NodeId 1, NodeId 2] \<and>
     length (gi_members (hg_info g)) \<le> gi_max_members (hg_info g)"
proof -
  let ?evs = "[HePayload hub_ctx (GpCreate ''team'' ''x'' [NodeId 2] True) (NodeId 1),
       HePayload hub_ctx (GpJoin demo_gid ''y'') (NodeId 2)]"
  obtain g where g: "hm_get (hub_groups (fold (hub_step demo_crypto) ?evs (group_hub_new (NodeId 9)))) demo_gid = Some g"
    and ids: "map gm_node_id (gi_members (hg_info g)) = [NodeId 1, NodeId 2]"
    by (simp add: handle_create_def handle_join_def Let_def hub_group_new_def group_id_new_def
        hub_ctx_def is_member_def is_full_def hs_insert_def MAX_GROUP_MEMBERS_def)
  with groups_stay_wf [of ?evs demo_crypto "NodeId 9" demo_gid g] show ?thesis by auto
qed

end
