(* ===== verification/Tom_HubBounds.thy ===== *)
theory Tom_HubBounds
  imports Tom_HubSafety
begin

section \<open>The group hub: messages, numbers and memory\<close>

text \<open>
  More properties of the hub of \<open>Tom_GroupHub\<close>: which messages are fanned out and to whom,
  that a message is not fanned out twice, that the numbers in a group's history grow, that the
  memory for histories is bounded, what a restart keeps, and the sending rate of a member.
\<close>

subsection \<open>Histories, numbers and seen sets under the other handlers\<close>

lemma create_at:
  "numbered_at (snd (handle_create c n name un ms io h)) k =
     (if k = group_id_new c then Some ([], 0) else numbered_at h k)"
  "seen_at (snd (handle_create c n name un ms io h)) k =
     (if k = group_id_new c then Some ([], []) else seen_at h k)"
  by (simp_all add: handle_create_def Let_def numbered_at_def seen_at_def hub_group_new_def)

lemma leave_at:
  "numbered_at (snd (handle_leave c n gid h)) k \<in> {None, numbered_at h k}"
  "seen_at (snd (handle_leave c n gid h)) k \<in> {None, seen_at h k}"
  by (auto simp: handle_leave_def Let_def numbered_at_def seen_at_def hm_simps split: option.split)

lemma others_at:
  "numbered_at (snd (handle_join c n gid un h)) k = numbered_at h k"
  "seen_at (snd (handle_join c n gid un h)) k = seen_at h k"
  "numbered_at (snd (kick_member c gid a n h)) k = numbered_at h k"
  "seen_at (snd (kick_member c gid a n h)) k = seen_at h k"
  "numbered_at (snd (update_member_role c gid a n r h)) k = numbered_at h k"
  "seen_at (snd (update_member_role c gid a n r h)) k = seen_at h k"
  "numbered_at (snd (invite_member gid a n h)) k = numbered_at h k"
  "seen_at (snd (invite_member gid a n h)) k = seen_at h k"
  "numbered_at (snd (handle_sender_key_distribution c src gid ep eks h)) k = numbered_at h k"
  "seen_at (snd (handle_sender_key_distribution c src gid ep eks h)) k = seen_at h k"
  "numbered_at (snd (assign_shadow gid h)) k = numbered_at h k"
  "seen_at (snd (assign_shadow gid h)) k = seen_at h k"
  by (auto simp: handle_join_def kick_member_def update_member_role_def invite_member_def
      handle_sender_key_distribution_def assign_shadow_def Let_def numbered_at_def seen_at_def
      split: option.split list.split)

lemma tidy_at:
  "numbered_at (snd (purge_expired_sender_keys now age h)) k = numbered_at h k"
  "seen_at (snd (purge_expired_sender_keys now age h)) k = seen_at h k"
  "numbered_at (snd (cleanup_expired_messages now age h)) k =
     map_option (\<lambda>(hist, s). (filter (\<lambda>m. saturating_sub now age \<le> msg_sent_at m) hist, s)) (numbered_at h k)"
  "seen_at (snd (cleanup_expired_messages now age h)) k = seen_at h k"
  by (auto simp: purge_expired_sender_keys_def cleanup_expired_messages_def Let_def numbered_at_def
      seen_at_def hm_simps option.map_comp comp_def intro!: option.map_cong)

text \<open>Imports and restores bring numbers from outside; the other events are internal.\<close>

fun internal_event :: "hub_event \<Rightarrow> bool" where
  "internal_event (HeImport info msgs) \<longleftrightarrow> False"
| "internal_event (HeRestore s) \<longleftrightarrow> False"
| "internal_event _ \<longleftrightarrow> True"

lemma internal_keys:
  assumes "internal_event ev" and "hm_wf (hub_groups h)"
  shows "hm_wf (hub_groups (hub_step api ev h))"
proof (cases ev)
  case (HePayload c p src)
  then show ?thesis
    using assms handle_message_frozen(2) [OF assms(2)]
    by (cases p)
      (auto simp: handle_create_def handle_join_def handle_leave_def kick_member_def
        update_member_role_def invite_member_def handle_sender_key_distribution_def Let_def
        put_group_wf hm_wfs split: option.split)
qed (use assms in \<open>auto simp: cleanup_expired_messages_def purge_expired_sender_keys_def
      assign_shadow_def Let_def put_group_wf split: option.split list.split\<close>)

subsection \<open>The numbers in a history grow\<close>

definition numbers_ok :: "nat \<Rightarrow> group_message list \<times> u64 \<Rightarrow> bool" where
  "numbers_ok n = (\<lambda>(hist, s). sorted_wrt (<) (map msg_seq hist) \<and> (\<forall>m \<in> set hist. msg_seq m < s) \<and> unat s \<le> n)"

definition hub_numbers_ok :: "nat \<Rightarrow> group_hub \<Rightarrow> bool" where
  "hub_numbers_ok n h \<longleftrightarrow> hm_wf (hub_groups h) \<and> (\<forall>k x. numbered_at h k = Some x \<longrightarrow> numbers_ok n x)"

lemma numbers_ok_mono: "numbers_ok n x \<Longrightarrow> n \<le> m \<Longrightarrow> numbers_ok m x"
  by (auto simp: numbers_ok_def)

lemma numbers_ok_drop: "numbers_ok n (hist, s) \<Longrightarrow> numbers_ok n (drop k hist, s)"
  by (auto simp: numbers_ok_def sorted_wrt_drop drop_map [symmetric] dest: in_set_dropD)

lemma numbers_ok_filter: "numbers_ok n (hist, s) \<Longrightarrow> numbers_ok n (filter P hist, s)"
  by (auto simp: numbers_ok_def sorted_wrt_map intro: sorted_wrt_filter)

lemma numbers_ok_append:
  assumes "numbers_ok n (hist, s)" and "n < 2 ^ 64 - 1" and "msg_seq m = s"
  shows "numbers_ok (Suc n) (hist @ [m], s + 1)"
proof -
  have "unat s \<le> n" using assms(1) by (simp add: numbers_ok_def)
  with assms(2) have s: "unat (s + 1) = Suc (unat s)" by (simp add: unat_word_ariths)
  then have less: "s < s + 1" by (simp add: word_less_nat_alt)
  moreover have "\<And>x. x < s \<Longrightarrow> x < s + 1" using less by (rule less_trans [rotated])
  ultimately show ?thesis
    using assms(1,3) s by (auto simp: numbers_ok_def sorted_wrt_append)
qed

lemma stages_at:
  "hm_get (hub_groups h) gid = Some g \<Longrightarrow>
   numbered_at (put_group gid (after_nonce cap msg g) h) k = numbered_at h k"
  "hm_get (hub_groups h) gid = Some g \<Longrightarrow>
   numbered_at (put_group gid (after_rate c src (after_nonce cap msg g)) h) k = numbered_at h k"
  "hm_get (hub_groups h) gid = Some g \<Longrightarrow>
   numbered_at (put_group gid (after_dedup cap msg (after_rate c src (after_nonce cap msg g))) h) k = numbered_at h k"
  by (simp_all add: numbered_at_def after_nonce_def after_rate_def after_dedup_def)

lemma handle_message_cases:
  obtains (quiet) "numbered_at (snd (handle_message api c src msg h)) = numbered_at h"
  | (accepted) g g3 where "hm_get (hub_groups h) (msg_group_id msg) = Some g"
    and "g3 = after_dedup (hub_max_dedup_entries h) msg
      (after_rate c src (after_nonce (hub_max_dedup_entries h) msg g))"
    and "handle_message api c src msg h = accept_message c src msg (put_group (msg_group_id msg) g3 h)"
proof (cases "hm_get (hub_groups h) (msg_group_id msg)")
  case None
  then show ?thesis by (intro quiet) (simp add: handle_message_def Let_def)
next
  case (Some g)
  note at = stages_at [OF Some]
  show ?thesis
  proof (cases "admissible api c src msg g")
    case True
    note eq = handle_message_eq(1) [OF Some True]
    let ?cap = "hub_max_dedup_entries h"
    let ?ok = "nonce_ok ?cap msg g \<and> epoch_ok c src msg g \<and>
        fst (rate_result c src (after_nonce ?cap msg g)) \<and>
        dedup_ok ?cap msg (after_rate c src (after_nonce ?cap msg g))"
    show ?thesis
    proof (cases ?ok)
      case True
      then show ?thesis by (intro accepted [OF Some refl]) (simp add: eq)
    next
      case False
      then show ?thesis by (intro quiet) (auto simp: eq at fun_eq_iff)
    qed
  next
    case False
    then show ?thesis using handle_message_eq(2) [OF Some False] by (intro quiet) auto
  qed
qed

lemma message_numbers:
  assumes "hub_numbers_ok n h" and "n < 2 ^ 64 - 1"
  shows "hub_numbers_ok (Suc n) (snd (handle_message api c src msg h))"
proof -
  have wf: "hm_wf (hub_groups h)" and ok: "\<And>k x. numbered_at h k = Some x \<Longrightarrow> numbers_ok n x"
    using assms(1) by (auto simp: hub_numbers_ok_def)
  have "numbers_ok (Suc n) x" if x: "numbered_at (snd (handle_message api c src msg h)) k = Some x" for k x
  proof (cases rule: handle_message_cases [of api c src msg h])
    case quiet
    then show ?thesis using ok [of k x] x numbers_ok_mono by (metis le_SucI order_refl)
  next
    case (accepted g g3)
    let ?h = "put_group (msg_group_id msg) g3 h"
    have g3: "hm_get (hub_groups ?h) (msg_group_id msg) = Some g3" by simp
    have num: "numbered_at ?h = numbered_at h"
      using stages_at(3) [OF accepted(1)] accepted(2) by auto
    then have "numbered_at h (msg_group_id msg) = Some (hg_message_history g3, hg_next_seq g3)"
      by (metis g3 numbered_at_def option.map(2))
    then have "numbers_ok (Suc n) (hg_message_history g3 @ [msg\<lparr>msg_seq := hg_next_seq g3\<rparr>], hg_next_seq g3 + 1)"
      using ok assms(2) by (intro numbers_ok_append) auto
    then have st: "numbers_ok (Suc n) y" if "numbered_at (stored_hub c src msg g3 ?h) k = Some y" for y
      using that ok [of k y] numbers_ok_mono [of n y "Suc n"]
      by (auto simp: stored_hub_at(3) [OF g3] num split: if_splits simp del: drop_append
          intro!: numbers_ok_drop)
    have "rel_option (\<lambda>(hist, s) (hist', s'). s' = s \<and> (\<exists>n. hist' = drop n hist))
      (numbered_at (stored_hub c src msg g3 ?h) k) (Some x)"
      using accept_at(5) [OF g3 put_group_wf [OF wf], of c src k] x accepted(3) by simp
    then obtain hist s m where y: "numbered_at (stored_hub c src msg g3 ?h) k = Some (hist, s)"
      and x': "x = (drop m hist, s)"
      by (cases "numbered_at (stored_hub c src msg g3 ?h) k"; cases x) auto
    from st [OF y] show ?thesis by (simp add: x' numbers_ok_drop)
  qed
  then show ?thesis using handle_message_frozen(2) [OF wf] by (simp add: hub_numbers_ok_def)
qed

lemma quiet_numbered:
  assumes "\<And>msg. p \<noteq> GpMessage msg"
  shows "numbered_at (snd (hub_handle_payload api c p src h)) k \<in> {None, numbered_at h k, Some ([], 0)}"
proof (cases p)
  case (GpLeave k')
  then show ?thesis using leave_at(1) [of c src k' h k] by auto
qed (use assms in \<open>simp_all add: create_at others_at\<close>)

lemma payload_numbers:
  assumes "hub_numbers_ok n h" and "n < 2 ^ 64 - 1"
  shows "hub_numbers_ok (Suc n) (snd (hub_handle_payload api c p src h))"
proof (cases "\<exists>msg. p = GpMessage msg")
  case True
  then show ?thesis using message_numbers [OF assms] by auto
next
  case False
  let ?h = "snd (hub_handle_payload api c p src h)"
  have "numbers_ok (Suc n) x" if "numbered_at ?h k = Some x" for k x
  proof -
    from quiet_numbered [of p api c src h k] False that
    have "numbered_at h k = Some x \<or> x = ([], 0)" by auto
    moreover have "numbers_ok (Suc n) ([], 0)" by (simp add: numbers_ok_def)
    ultimately show ?thesis
      using assms(1) numbers_ok_mono [of n x "Suc n"] by (cases x) (auto simp: hub_numbers_ok_def)
  qed
  moreover have "hm_wf (hub_groups ?h)"
    using internal_keys [of "HePayload c p src" h api] assms(1) by (simp add: hub_numbers_ok_def)
  ultimately show ?thesis by (simp add: hub_numbers_ok_def)
qed

interpretation hub_numbering: counted_machine "hub_step api" internal_event hub_numbers_ok "2 ^ 64 - 1"
  for api :: crypto_api
proof
  fix ev n h
  assume ev: "internal_event ev" and n: "n < 2 ^ 64 - 1" and h: "hub_numbers_ok n h"
  have keys: "hm_wf (hub_groups (hub_step api ev h))"
    using internal_keys [OF ev] h by (simp add: hub_numbers_ok_def)
  have up: "\<And>k x. numbered_at h k = Some x \<Longrightarrow> numbers_ok (Suc n) x"
    using h numbers_ok_mono by (fastforce simp: hub_numbers_ok_def)
  show "hub_numbers_ok (Suc n) (hub_step api ev h)"
  proof (cases ev)
    case (HePayload c p src)
    then show ?thesis using payload_numbers [OF h n] by simp
  next
    case (HeCleanupMessages now age)
    then show ?thesis using keys up
      by (auto simp: hub_numbers_ok_def tidy_at intro: numbers_ok_filter)
  qed (use ev keys up in \<open>auto simp: hub_numbers_ok_def tidy_at others_at\<close>)
qed

lemma internal_config:
  assumes "internal_event ev" and "hm_wf (hub_groups h)"
  shows "same_config h (hub_step api ev h)"
proof (cases ev)
  case (HePayload c p src)
  then show ?thesis
    using handle_message_frozen(3) [OF assms(2)]
    by (cases p)
      (auto simp: handle_create_def handle_join_def handle_leave_def kick_member_def
        update_member_role_def invite_member_def handle_sender_key_distribution_def Let_def
        same_config_def split: option.split)
qed (use assms in \<open>auto simp: cleanup_expired_messages_def purge_expired_sender_keys_def
      assign_shadow_def Let_def same_config_def split: option.split list.split\<close>)

subsection \<open>No message is fanned out twice\<close>

lemma seen_at_put:
  "seen_at (put_group gid g h) k =
     (if k = gid then Some (hg_seen_message_ids g, hg_seen_nonces g) else seen_at h k)"
  by (simp add: seen_at_def)

lemma stages_ids [simp]:
  "hg_seen_message_ids (after_nonce cap msg g) = hg_seen_message_ids g"
  "hg_seen_message_ids (after_rate c src g) = hg_seen_message_ids g"
  "hg_seen_message_ids (after_dedup cap msg g) =
     snd (check_seen cap (msg_message_id msg) (hg_seen_message_ids g))"
  by (simp_all add: after_nonce_def after_rate_def after_dedup_def)

lemma message_seen:
  assumes "hm_wf (hub_groups h)"
  shows "rel_option (\<lambda>(ids, ns) (ids', ns').
      ids' = ids \<or> ids' = snd (check_seen (hub_max_dedup_entries h) (msg_message_id msg) ids))
    (seen_at h k) (seen_at (snd (handle_message api c src msg h)) k)"
proof (cases "hm_get (hub_groups h) (msg_group_id msg)")
  case None
  then show ?thesis by (auto simp: handle_message_def Let_def intro!: option.rel_refl)
next
  case (Some g)
  let ?cap = "hub_max_dedup_entries h"
  let ?g3 = "after_dedup ?cap msg (after_rate c src (after_nonce ?cap msg g))"
  let ?h3 = "put_group (msg_group_id msg) ?g3 h"
  have acc: "seen_at (snd (accept_message c src msg ?h3)) k = seen_at ?h3 k" for k
    using accept_at(2) [of ?h3 msg ?g3 c src k] put_group_wf [OF assms] by simp
  have old: "seen_at h (msg_group_id msg) = Some (hg_seen_message_ids g, hg_seen_nonces g)"
    using Some by (simp add: seen_at_def)
  have same: "rel_option (\<lambda>(ids, ns) (ids', ns').
      ids' = ids \<or> ids' = snd (check_seen ?cap (msg_message_id msg) ids)) x x" for x
    by (cases x) auto
  show ?thesis
  proof (cases "admissible api c src msg g")
    case True
    then show ?thesis
      by (cases "k = msg_group_id msg")
        (simp_all add: handle_message_eq(1) [OF Some] acc seen_at_put old same)
  next
    case False
    then show ?thesis using handle_message_eq(2) [OF Some False] same by auto
  qed
qed

definition knows :: "group_id \<Rightarrow> string \<Rightarrow> nat \<Rightarrow> nat \<Rightarrow> group_hub \<Rightarrow> bool" where
  "knows gid mid cap n h \<longleftrightarrow>
     hm_wf (hub_groups h) \<and> hub_max_dedup_entries h = cap \<and>
     (\<forall>ids ns. seen_at h gid = Some (ids, ns) \<longrightarrow> mid \<in> set ids \<and> distinct ids \<and> length ids \<le> n)"

fun keeps_group :: "group_id \<Rightarrow> hub_event \<Rightarrow> bool" where
  "keeps_group gid (HePayload c (GpCreate name un ms io) src) \<longleftrightarrow> group_id_new c \<noteq> gid"
| "keeps_group gid ev \<longleftrightarrow> internal_event ev"

lemma keeps_group_internal: "keeps_group gid ev \<Longrightarrow> internal_event ev"
  by (cases "(gid, ev)" rule: keeps_group.cases) auto

lemma quiet_seen:
  assumes "keeps_group gid (HePayload c p src)" and "\<And>msg. p \<noteq> GpMessage msg"
  shows "seen_at (snd (hub_handle_payload api c p src h)) gid \<in> {None, seen_at h gid}"
proof (cases p)
  case (GpLeave k)
  then show ?thesis using leave_at(2) [of c src k h gid] by simp
qed (use assms in \<open>simp_all add: create_at others_at\<close>)

lemma payload_knows:
  assumes "knows gid mid cap n h" and "n < cap" and "keeps_group gid (HePayload c p src)"
  shows "knows gid mid cap (Suc n) (snd (hub_handle_payload api c p src h))"
proof -
  let ?h = "snd (hub_handle_payload api c p src h)"
  have wf: "hm_wf (hub_groups h)" and cap: "hub_max_dedup_entries h = cap"
    and seen: "\<And>ids ns. seen_at h gid = Some (ids, ns) \<Longrightarrow> mid \<in> set ids \<and> distinct ids \<and> length ids \<le> n"
    using assms(1) by (auto simp: knows_def)
  have ev: "internal_event (HePayload c p src)" using assms(3) by (rule keeps_group_internal)
  have "hm_wf (hub_groups ?h)" and "hub_max_dedup_entries ?h = cap"
    using internal_keys [OF ev wf, of api] internal_config [OF ev wf, of api] cap
    by (simp_all add: same_config_def)
  moreover have "mid \<in> set ids \<and> distinct ids \<and> length ids \<le> Suc n" if "seen_at ?h gid = Some (ids, ns)" for ids ns
  proof (cases "\<exists>msg. p = GpMessage msg")
    case True
    then obtain msg where "p = GpMessage msg" by blast
    with message_seen [OF wf, of msg gid api c src] that cap
    obtain ids0 ns0 where old: "seen_at h gid = Some (ids0, ns0)"
      and new: "ids = ids0 \<or> ids = snd (check_seen cap (msg_message_id msg) ids0)"
      by (cases "seen_at h gid") auto
    from seen [OF old] assms(2) have "mid \<in> set ids0" "distinct ids0" "length ids0 \<le> n" "length ids0 < cap"
      by auto
    with new show ?thesis
      using seen_filter.check_keeps [of ids0 cap "msg_message_id msg"]
        seen_filter.check_load [of ids0 cap "msg_message_id msg"]
        seen_filter.check_ok [of ids0 cap "msg_message_id msg"] by auto
  next
    case False
    with assms(3) have "seen_at ?h gid \<in> {None, seen_at h gid}" by (intro quiet_seen) auto
    with that have "seen_at h gid = Some (ids, ns)" by auto
    from seen [OF this] show ?thesis by simp
  qed
  ultimately show ?thesis by (simp add: knows_def)
qed

lemma tidy_knows:
  assumes "internal_event ev" and "\<And>c p src. ev \<noteq> HePayload c p src" and "knows gid mid cap n h"
  shows "knows gid mid cap (Suc n) (hub_step api ev h)"
proof -
  have wf: "hm_wf (hub_groups h)" using assms(3) by (simp add: knows_def)
  have "seen_at (hub_step api ev h) gid = seen_at h gid"
  proof (cases ev)
    case (HePayload c p src)
    with assms(2) show ?thesis by blast
  qed (use assms(1) in \<open>simp_all add: tidy_at others_at\<close>)
  then show ?thesis
    using internal_keys [OF assms(1) wf, of api] internal_config [OF assms(1) wf, of api] assms(3)
    by (simp add: same_config_def knows_def le_SucI)
qed

interpretation hub_memory: counted_machine "hub_step api" "keeps_group gid" "knows gid mid cap" cap
  for api :: crypto_api and gid :: group_id and mid :: string and cap :: nat
proof
  fix ev n h
  assume ev: "keeps_group gid ev" and n: "n < cap" and h: "knows gid mid cap n h"
  show "knows gid mid cap (Suc n) (hub_step api ev h)"
  proof (cases "\<exists>c p src. ev = HePayload c p src")
    case True
    then show ?thesis using payload_knows [OF h n] ev by auto
  next
    case False
    then show ?thesis using keeps_group_internal [OF ev] h by (intro tidy_knows) auto
  qed
qed

lemma fanout_knows:
  assumes "hm_wf (hub_groups h)" and "seen_at h (msg_group_id msg) = Some (ids, ns)" and "distinct ids"
    and "GaBroadcast tos (GpMessage m) \<in> set (fst (handle_message api c src msg h))"
  shows "knows (msg_group_id msg) (msg_message_id msg) (hub_max_dedup_entries h) (Suc (length ids))
    (snd (handle_message api c src msg h))"
proof -
  let ?cap = "hub_max_dedup_entries h" and ?gid = "msg_group_id msg"
  obtain g where g: "hm_get (hub_groups h) ?gid = Some g"
    and acc: "handle_message api c src msg h = accept_message c src msg (put_group ?gid
      (after_dedup ?cap msg (after_rate c src (after_nonce ?cap msg g))) h)"
    using assms(4) by (rule handle_message_fanout)
  let ?g3 = "after_dedup ?cap msg (after_rate c src (after_nonce ?cap msg g))"
  have ids: "hg_seen_message_ids g = ids" using assms(2) g by (simp add: seen_at_def)
  have "seen_at (snd (handle_message api c src msg h)) ?gid =
      Some (snd (check_seen ?cap (msg_message_id msg) ids), hg_seen_nonces ?g3)"
    using accept_at(2) [of "put_group ?gid ?g3 h" msg ?g3 c src ?gid] put_group_wf [OF assms(1)]
    by (simp add: acc seen_at_put ids)
  then show ?thesis
    using handle_message_frozen(2,3) [OF assms(1), of api c src msg] assms(3)
      seen_filter.check_marks [of ids "msg_message_id msg" ?cap]
      seen_filter.check_load [of ids ?cap "msg_message_id msg"]
      seen_filter.check_ok [of ids ?cap "msg_message_id msg"]
    by (simp add: knows_def same_config_def)
qed

subsection \<open>The memory for histories is bounded\<close>

definition stored_in :: "(group_id, hub_group) hmap \<Rightarrow> nat" where
  "stored_in gs = sum_list (map (\<lambda>(_, g). length (hg_message_history g)) gs)"

lemma stored_in_insert:
  "stored_in (hm_insert gid g gs) +
     (case hm_get gs gid of None \<Rightarrow> 0 | Some g0 \<Rightarrow> length (hg_message_history g0)) =
   stored_in gs + length (hg_message_history g)"
  by (induction gs) (auto simp: stored_in_def)

lemma stored_in_remove: "stored_in (hm_remove gid gs) \<le> stored_in gs"
  by (induction gs) (auto simp: stored_in_def)

lemma stored_in_map:
  "(\<And>g. length (hg_message_history (f g)) \<le> length (hg_message_history g)) \<Longrightarrow>
   stored_in (hm_map_values f gs) \<le> stored_in gs"
  by (induction gs) (auto simp: stored_in_def hm_map_values_def add_mono)

lemma stored_in_0: "stored_in gs = 0 \<longleftrightarrow> (\<forall>(k, g) \<in> set gs. hg_message_history g = [])"
  by (auto simp: stored_in_def)

text \<open>
  The counter of stored messages is never below their true number, and whenever it exceeds
  the maximum there are none left.
\<close>

definition memory_ok :: "group_hub \<Rightarrow> bool" where
  "memory_ok h \<longleftrightarrow> hm_wf (hub_groups h) \<and> stored_in (hub_groups h) \<le> hub_total_messages h \<and>
     (hub_total_messages h \<le> hub_max_total_messages h \<or> stored_in (hub_groups h) = 0)"

lemma trim_loop_total:
  assumes "hm_wf (hub_groups h)" and "stored_in (hub_groups h) \<le> hub_total_messages h"
  shows "stored_in (hub_groups (trim_loop target h)) \<le> hub_total_messages (trim_loop target h) \<and>
    (hub_total_messages (trim_loop target h) \<le> target \<or> stored_in (hub_groups (trim_loop target h)) = 0)"
  using assms
proof (induction target h rule: trim_loop.induct)
  case (1 target h)
  show ?case
  proof (cases "hub_total_messages h \<le> target")
    case True
    then show ?thesis using 1 by (simp add: trim_loop.simps)
  next
    case False
    let ?m = "max_by_key (\<lambda>(_, g). length (hg_message_history g)) (hub_groups h)"
    show ?thesis
    proof (cases "\<exists>gid g x rest. ?m = Some (gid, g) \<and> hg_message_history g = x # rest")
      case True
      then obtain gid g x rest where m: "?m = Some (gid, g)" and hist: "hg_message_history g = x # rest"
        by blast
      let ?h = "(put_group gid (g\<lparr>hg_message_history := rest\<rparr>) h)
          \<lparr>hub_total_messages := hub_total_messages h - 1\<rparr>"
      have loop: "trim_loop target h = trim_loop target ?h"
        using False m hist by (simp add: trim_loop.simps)
      have "(gid, g) \<in> set (hub_groups h)" using max_by_key_Some [OF m] by simp
      with 1(2) have get: "hm_get (hub_groups h) gid = Some g" by (rule hm_in_set_get)
      have wf: "hm_wf (hub_groups ?h)" using 1(2) by (simp add: put_group_def hm_wfs)
      have "stored_in (hub_groups ?h) \<le> hub_total_messages ?h"
        using stored_in_insert [of gid "g\<lparr>hg_message_history := rest\<rparr>" "hub_groups h"] get hist 1(3)
        by (simp add: put_group_def)
      from 1(1) [OF False m refl hist wf this] show ?thesis unfolding loop .
    next
      case notrim: False
      then have stop: "trim_loop target h = h"
        using False by (subst trim_loop.simps) (auto split: option.split list.split)
      have "stored_in (hub_groups h) = 0"
      proof (cases ?m)
        case None
        then show ?thesis by (simp add: max_by_key_None stored_in_def)
      next
        case (Some p)
        then have "\<forall>x \<in> set (hub_groups h). (\<lambda>(_, g). length (hg_message_history g)) x \<le> 0"
          using max_by_key_Some [OF Some] notrim by (cases p; cases "hg_message_history (snd p)") auto
        then show ?thesis by (auto simp: stored_in_0)
      qed
      then show ?thesis using 1(3) by (simp add: stop)
    qed
  qed
qed

lemma rotation_stored: "stored_in (hub_groups (snd (maybe_trigger_rotation c gid h))) = stored_in (hub_groups h)"
proof (cases "hm_get (hub_groups h) gid")
  case None
  then show ?thesis by (simp add: maybe_trigger_rotation_def)
next
  case (Some g)
  have "stored_in (hub_groups (put_group gid g' h)) = stored_in (hub_groups h)"
    if "hg_message_history g' = hg_message_history g" for g'
    using stored_in_insert [of gid g' "hub_groups h"] that Some by (simp add: put_group_def)
  then show ?thesis using Some by (auto simp: maybe_trigger_rotation_def Let_def)
qed

lemma stored_hub_memory:
  assumes "hm_get (hub_groups h) (msg_group_id msg) = Some g"
    and "stored_in (hub_groups h) \<le> hub_total_messages h"
  shows "stored_in (hub_groups (stored_hub c src msg g h)) \<le> hub_total_messages (stored_hub c src msg g h)"
proof -
  let ?H = "length (hg_message_history g)"
  let ?ex = "Suc ?H - hub_max_messages_per_group h"
  have "stored_in (hub_groups (stored_hub c src msg g h)) + ?H = stored_in (hub_groups h) + (Suc ?H - ?ex)"
    using stored_in_insert [of "msg_group_id msg" _ "hub_groups h"] assms(1)
    by (simp add: stored_hub_def store_message_def Let_def put_group_def)
  moreover have "hub_total_messages (stored_hub c src msg g h) = hub_total_messages h + 1 - ?ex"
    by (simp add: stored_hub_def store_message_def Let_def)
  ultimately show ?thesis using assms(2) by linarith
qed

lemma accept_memory:
  assumes g: "hm_get (hub_groups h) (msg_group_id msg) = Some g" and wf: "hm_wf (hub_groups h)"
    and mem: "stored_in (hub_groups h) \<le> hub_total_messages h"
  shows "memory_ok (snd (accept_message c src msg h))"
proof -
  let ?s = "stored_hub c src msg g h" and ?t = "trimmed_hub c src msg g h"
  have s: "stored_in (hub_groups ?s) \<le> hub_total_messages ?s"
    using g mem by (rule stored_hub_memory)
  have wfs: "hm_wf (hub_groups ?s)" using stored_hub_at(5) [OF g wf] .
  note tr = trimmed_hub_trimmed [OF g wf, of c src]
  have "stored_in (hub_groups ?t) \<le> hub_total_messages ?t \<and>
      (hub_total_messages ?t \<le> hub_max_total_messages ?s \<or> stored_in (hub_groups ?t) = 0)"
    using s trim_loop_total [OF wfs s, of "hub_max_total_messages ?s * 9 div 10"]
    by (auto simp: trimmed_hub_def Let_def trim_oldest_messages_def)
  moreover have "hub_max_total_messages ?t = hub_max_total_messages ?s" and "hm_wf (hub_groups ?t)"
    using tr by (simp_all add: trimmed_def same_config_def)
  ultimately show ?thesis
    using rotation_config(1) [of c "msg_group_id msg" ?t] rotation_config(2) [of ?t c "msg_group_id msg"]
    by (simp add: accept_message_get [OF g] memory_ok_def rotation_stored rotation_wf same_config_def)
qed

lemma put_memory:
  assumes "memory_ok h" and "hm_get (hub_groups h) gid = Some g"
    and "hg_message_history g' = hg_message_history g"
  shows "memory_ok (put_group gid g' h)"
  using assms stored_in_insert [of gid g' "hub_groups h"]
  by (simp add: memory_ok_def put_group_def hm_wfs)

lemma stages_history [simp]:
  "hg_message_history (after_nonce cap msg g) = hg_message_history g"
  "hg_message_history (after_rate c src g) = hg_message_history g"
  "hg_message_history (after_dedup cap msg g) = hg_message_history g"
  by (simp_all add: after_nonce_def after_rate_def after_dedup_def)

lemma message_memory:
  assumes "memory_ok h"
  shows "memory_ok (snd (handle_message api c src msg h))"
proof (cases "hm_get (hub_groups h) (msg_group_id msg)")
  case None
  then show ?thesis using assms by (simp add: handle_message_def Let_def)
next
  case (Some g)
  let ?cap = "hub_max_dedup_entries h"
  let ?g3 = "after_dedup ?cap msg (after_rate c src (after_nonce ?cap msg g))"
  note put = put_memory [OF assms Some]
  have "memory_ok (put_group (msg_group_id msg) ?g3 h)" by (rule put) simp
  then have acc: "memory_ok (snd (accept_message c src msg (put_group (msg_group_id msg) ?g3 h)))"
    by (intro accept_memory [where g = ?g3]) (simp_all add: memory_ok_def)
  show ?thesis
  proof (cases "admissible api c src msg g")
    case True
    then show ?thesis by (simp add: handle_message_eq(1) [OF Some] put acc)
  next
    case False
    then show ?thesis using handle_message_eq(2) [OF Some False] assms by auto
  qed
qed

lemma memory_ok_less:
  assumes "memory_ok h" and "hm_wf (hub_groups h')" and "stored_in (hub_groups h') \<le> stored_in (hub_groups h)"
    and "hub_total_messages h' = hub_total_messages h"
    and "hub_max_total_messages h' = hub_max_total_messages h"
  shows "memory_ok h'"
  using assms by (auto simp: memory_ok_def)

text \<open>All events but messages leave the counter alone and store nothing new.\<close>

lemma put_stored:
  assumes "hm_get (hub_groups h) gid = Some g" and "hg_message_history g' = hg_message_history g"
  shows "stored_in (hub_groups (put_group gid g' h)) = stored_in (hub_groups h)"
  using assms stored_in_insert [of gid g' "hub_groups h"] by (simp add: put_group_def)

lemma create_stored: "stored_in (hub_groups (snd (handle_create c n name un ms io h))) \<le> stored_in (hub_groups h)"
proof -
  have "stored_in (hm_insert gid (hub_group_new info i [] 0) gs) \<le> stored_in gs" for gid info i gs
    using stored_in_insert [of gid "hub_group_new info i [] 0" gs] by (simp add: hub_group_new_def)
  then show ?thesis by (simp add: handle_create_def Let_def put_group_def)
qed

lemma leave_stored: "stored_in (hub_groups (snd (handle_leave c n gid h))) \<le> stored_in (hub_groups h)"
  by (cases "hm_get (hub_groups h) gid")
    (simp_all add: handle_leave_def Let_def put_stored stored_in_remove)

lemma others_stored:
  "stored_in (hub_groups (snd (handle_join c n gid un h))) = stored_in (hub_groups h)"
  "stored_in (hub_groups (snd (kick_member c gid a n h))) = stored_in (hub_groups h)"
  "stored_in (hub_groups (snd (update_member_role c gid a n r h))) = stored_in (hub_groups h)"
  "stored_in (hub_groups (snd (invite_member gid a n h))) = stored_in (hub_groups h)"
  "stored_in (hub_groups (snd (handle_sender_key_distribution c src gid ep eks h))) = stored_in (hub_groups h)"
  "stored_in (hub_groups (snd (assign_shadow gid h))) = stored_in (hub_groups h)"
  using put_stored [of h gid]
  by (auto simp: handle_join_def kick_member_def update_member_role_def invite_member_def
      handle_sender_key_distribution_def assign_shadow_def Let_def split: option.split list.split)

lemma quiet_total:
  assumes "internal_event ev" and "\<And>c msg src. ev \<noteq> HePayload c (GpMessage msg) src"
  shows "hub_total_messages (hub_step api ev h) = hub_total_messages h"
proof (cases ev)
  case (HePayload c p src)
  then show ?thesis using assms(2)
    by (cases p)
      (auto simp: handle_create_def handle_join_def handle_leave_def kick_member_def
        update_member_role_def invite_member_def handle_sender_key_distribution_def Let_def
        split: option.split)
qed (use assms(1) in \<open>auto simp: cleanup_expired_messages_def purge_expired_sender_keys_def
      assign_shadow_def Let_def split: option.split list.split\<close>)

lemma quiet_stored:
  assumes "internal_event ev" and "\<And>c msg src. ev \<noteq> HePayload c (GpMessage msg) src"
  shows "stored_in (hub_groups (hub_step api ev h)) \<le> stored_in (hub_groups h)"
proof (cases ev)
  case (HePayload c p src)
  then show ?thesis using assms(2) create_stored leave_stored
    by (cases p) (auto simp: others_stored)
qed (use assms(1) in \<open>auto simp: cleanup_expired_messages_def purge_expired_sender_keys_def Let_def
      others_stored intro!: stored_in_map\<close>)

interpretation hub_storage: event_machine "hub_step api" internal_event memory_ok
  for api :: crypto_api
proof
  fix ev h
  assume ev: "internal_event ev" and h: "memory_ok h"
  have wf: "hm_wf (hub_groups h)" using h by (simp add: memory_ok_def)
  show "memory_ok (hub_step api ev h)"
  proof (cases "\<exists>c msg src. ev = HePayload c (GpMessage msg) src")
    case True
    then show ?thesis using message_memory [OF h] by auto
  next
    case False
    then show ?thesis
      using internal_keys [OF ev wf, of api] internal_config [OF ev wf, of api]
        quiet_total [OF ev, of api h] quiet_stored [OF ev, of api h]
      by (intro memory_ok_less [OF h]) (auto simp: same_config_def)
  qed
qed

lemma hub_new_memory: "memory_ok (group_hub_new n)"
  by (simp add: memory_ok_def group_hub_new_def stored_in_def)

subsection \<open>A counter that has drifted\<close>

text \<open>
  Removing expired messages and leaving groups does not lower the counter. Once it stands at
  the maximum with nothing stored, every message is trimmed away as soon as it is stored.
\<close>

definition drifted :: "group_hub \<Rightarrow> bool" where
  "drifted h \<longleftrightarrow> hm_wf (hub_groups h) \<and> stored_in (hub_groups h) = 0 \<and>
     0 < hub_max_total_messages h \<and> 0 < hub_max_messages_per_group h \<and>
     hub_max_total_messages h \<le> hub_total_messages h"

lemma trim_loop_difference:
  assumes "hm_wf (hub_groups h)" and "stored_in (hub_groups h) \<le> hub_total_messages h"
  shows "hub_total_messages (trim_loop target h) + stored_in (hub_groups h) =
    hub_total_messages h + stored_in (hub_groups (trim_loop target h))"
  using assms
proof (induction target h rule: trim_loop.induct)
  case (1 target h)
  show ?case
  proof (cases "hub_total_messages h \<le> target")
    case True
    then show ?thesis by (simp add: trim_loop.simps)
  next
    case False
    let ?m = "max_by_key (\<lambda>(_, g). length (hg_message_history g)) (hub_groups h)"
    show ?thesis
    proof (cases "\<exists>gid g x rest. ?m = Some (gid, g) \<and> hg_message_history g = x # rest")
      case True
      then obtain gid g x rest where m: "?m = Some (gid, g)" and hist: "hg_message_history g = x # rest"
        by blast
      let ?h = "(put_group gid (g\<lparr>hg_message_history := rest\<rparr>) h)
          \<lparr>hub_total_messages := hub_total_messages h - 1\<rparr>"
      have loop: "trim_loop target h = trim_loop target ?h"
        using False m hist by (simp add: trim_loop.simps)
      have "(gid, g) \<in> set (hub_groups h)" using max_by_key_Some [OF m] by simp
      with 1(2) have get: "hm_get (hub_groups h) gid = Some g" by (rule hm_in_set_get)
      have wf: "hm_wf (hub_groups ?h)" using 1(2) by (simp add: put_group_def hm_wfs)
      have st: "Suc (stored_in (hub_groups ?h)) = stored_in (hub_groups h)"
        using stored_in_insert [of gid "g\<lparr>hg_message_history := rest\<rparr>" "hub_groups h"] get hist
        by (simp add: put_group_def)
      then have "stored_in (hub_groups ?h) \<le> hub_total_messages ?h" using 1(3) by simp
      from 1(1) [OF False m refl hist wf this] show ?thesis
        unfolding loop using st 1(3) False by simp
    next
      case notrim: False
      then have "trim_loop target h = h"
        using False by (subst trim_loop.simps) (auto split: option.split list.split)
      then show ?thesis by simp
    qed
  qed
qed

lemma accept_drifted:
  assumes "drifted h" and g: "hm_get (hub_groups h) (msg_group_id msg) = Some g"
  shows "drifted (snd (accept_message c src msg h))"
proof -
  let ?s = "stored_hub c src msg g h" and ?t = "trimmed_hub c src msg g h"
  let ?M = "hub_max_total_messages h"
  have wf: "hm_wf (hub_groups h)" and st: "stored_in (hub_groups h) = 0" and M: "0 < ?M"
    and pg: "0 < hub_max_messages_per_group h" and tot: "?M \<le> hub_total_messages h"
    using assms(1) by (auto simp: drifted_def)
  have empty: "hg_message_history g = []" using st hm_get_in_set [OF g] by (auto simp: stored_in_0)
  have s: "stored_in (hub_groups ?s) = 1" "hub_total_messages ?s = Suc (hub_total_messages h)"
    using stored_in_insert [of "msg_group_id msg" _ "hub_groups h"] g st empty pg
    by (simp_all add: stored_hub_def store_message_def Let_def put_group_def)
  have cfg: "hub_max_total_messages ?s = ?M" and wfs: "hm_wf (hub_groups ?s)"
    using stored_hub_at(4) [OF g, of c src] stored_hub_at(5) [OF g wf, of c src]
    by (simp_all add: same_config_def)
  have le: "stored_in (hub_groups ?s) \<le> hub_total_messages ?s" using s by simp
  have t: "?t = trim_loop (?M * 9 div 10) ?s"
    using s tot cfg by (simp add: trimmed_hub_def Let_def trim_oldest_messages_def)
  have diff: "hub_total_messages ?t + 1 = Suc (hub_total_messages h) + stored_in (hub_groups ?t)"
    using trim_loop_difference [OF wfs le, of "?M * 9 div 10"] s by (simp add: t)
  have "\<not> hub_total_messages ?t \<le> ?M * 9 div 10" using diff tot M by linarith
  then have "stored_in (hub_groups ?t) = 0"
    using trim_loop_total [OF wfs le, of "?M * 9 div 10"] by (simp add: t)
  moreover have "hub_total_messages h \<le> hub_total_messages ?t" using diff by linarith
  moreover have "same_config h (snd (accept_message c src msg h))" "hm_wf (hub_groups (snd (accept_message c src msg h)))"
    using accept_at(3,4) [OF g wf, of c src] by simp_all
  ultimately show ?thesis
    using M pg tot rotation_config(1) [of c "msg_group_id msg" ?t]
    by (simp add: drifted_def same_config_def accept_message_get [OF g] rotation_stored)
qed

lemma put_drifted:
  assumes "drifted h" and "hm_get (hub_groups h) gid = Some g"
    and "hg_message_history g' = hg_message_history g"
  shows "drifted (put_group gid g' h)"
  using assms put_stored [OF assms(2,3)] put_group_wf [of h gid g'] by (simp add: drifted_def)

lemma message_drifted:
  assumes "drifted h"
  shows "drifted (snd (handle_message api c src msg h))"
proof (cases "hm_get (hub_groups h) (msg_group_id msg)")
  case None
  then show ?thesis using assms by (simp add: handle_message_def Let_def)
next
  case (Some g)
  let ?cap = "hub_max_dedup_entries h"
  let ?g3 = "after_dedup ?cap msg (after_rate c src (after_nonce ?cap msg g))"
  note put = put_drifted [OF assms Some]
  have "drifted (put_group (msg_group_id msg) ?g3 h)" by (rule put) simp
  then have acc: "drifted (snd (accept_message c src msg (put_group (msg_group_id msg) ?g3 h)))"
    by (rule accept_drifted) simp
  show ?thesis
  proof (cases "admissible api c src msg g")
    case True
    then show ?thesis by (simp add: handle_message_eq(1) [OF Some] put acc)
  next
    case False
    then show ?thesis using handle_message_eq(2) [OF Some False] assms by auto
  qed
qed

interpretation hub_drift: event_machine "hub_step api" internal_event drifted
  for api :: crypto_api
proof
  fix ev h
  assume ev: "internal_event ev" and h: "drifted h"
  have wf: "hm_wf (hub_groups h)" using h by (simp add: drifted_def)
  show "drifted (hub_step api ev h)"
  proof (cases "\<exists>c msg src. ev = HePayload c (GpMessage msg) src")
    case True
    then show ?thesis using message_drifted [OF h] by auto
  next
    case False
    then show ?thesis
      using internal_keys [OF ev wf, of api] internal_config [OF ev wf, of api] h
        quiet_total [OF ev, of api h] quiet_stored [OF ev, of api h]
      by (auto simp: drifted_def same_config_def)
  qed
qed

subsection \<open>The sending rate\<close>

text \<open>How many of a sender's messages, arriving at the given readings, pass the rate check.\<close>

primrec passed :: "group_id \<Rightarrow> node_id \<Rightarrow> ctx list \<Rightarrow> group_hub \<Rightarrow> nat" where
  "passed gid n [] h = 0"
| "passed gid n (c # cs) h =
     (if fst (check_rate_limit c gid n h) then 1 else 0) + passed gid n cs (snd (check_rate_limit c gid n h))"

lemma passed_window:
  "hm_get (hub_groups h) gid = Some g \<Longrightarrow> hm_get (hg_rate_limits g) n = Some (t0, k) \<Longrightarrow>
   \<forall>c \<in> set cs. now_instant c - t0 < secs 1 \<Longrightarrow> unat k + length cs < 2 ^ 32 \<Longrightarrow>
   passed gid n cs h = min (length cs) (5 - unat k)"
proof (induction cs arbitrary: h g k)
  case Nil
  then show ?case by simp
next
  case (Cons c cs)
  have uk: "unat (k + 1) = Suc (unat k)" using Cons.prems(4) by (simp add: unat_word_ariths)
  have ok: "k + 1 \<le> GROUP_RATE_LIMIT_PER_SECOND \<longleftrightarrow> unat k < 5"
    using uk by (simp add: word_le_nat_alt GROUP_RATE_LIMIT_PER_SECOND_def less_eq_Suc_le)
  have r: "rate_result c n g = (unat k < 5, (t0, k + 1))"
    using Cons.prems(2,3) ok by (simp add: rate_result_def rate_limit_entry_def)
  let ?g = "after_rate c n g"
  have "passed gid n cs (put_group gid ?g h) = min (length cs) (5 - unat (k + 1))"
    using Cons.prems uk by (intro Cons.IH [of _ ?g]) (simp_all add: after_rate_def r hm_simps)
  then show ?case
    using Cons.prems(1) uk by (auto simp: check_rate_limit_get r)
qed

subsection \<open>Restart\<close>

lemma restore_fold_get:
  "hm_wf gs \<Longrightarrow>
   hm_get (hub_groups (fold (\<lambda>(gid, info) h. put_group gid (hub_group_new info (iv gid) [] (sq gid)) h) gs h)) k =
     (case hm_get gs k of
        None \<Rightarrow> hm_get (hub_groups h) k
      | Some info \<Rightarrow> Some (hub_group_new info (iv k) [] (sq k)))"
proof (induction gs arbitrary: h)
  case Nil
  then show ?case by simp
next
  case (Cons kv gs)
  obtain k' info where kv: "kv = (k', info)" by force
  have "hm_get gs k' = None" using Cons.prems by (auto simp: kv map_of_eq_None_iff)
  then show ?case using Cons by (auto simp: kv split: option.split)
qed

subsection \<open>Properties\<close>

text \<open>
  C18. Only genuine messages of members are fanned out, to exactly the other members: if the
  hub broadcasts a message it was given by \<open>src\<close>, then \<open>src\<close> is a member of the group, the
  message is what was sent with only the hub's number added and carries a valid signature of
  its claimed sender, it is at most five minutes old and thirty seconds ahead of the hub's
  clock, and the recipients are the members other than \<open>src\<close>, each once.
\<close>

theorem fanout_sound:
  assumes "hub_wf h" and "unat (now_ms c) + 330000 < 2 ^ 64"
    and "GaBroadcast tos (GpMessage m) \<in> set (fst (hub_handle_payload api c (GpMessage msg) src h))"
  shows "src \<in> hub_members h (msg_group_id msg) \<and> m = msg\<lparr>msg_seq := msg_seq m\<rparr> \<and>
    msg_verify_signature api m \<and> unat (now_ms c) \<le> unat (msg_sent_at m) + 300000 \<and>
    unat (msg_sent_at m) \<le> unat (now_ms c) + 30000 \<and>
    set tos = hub_members h (msg_group_id msg) - {src} \<and> distinct tos"
proof -
  from assms(3) have "GaBroadcast tos (GpMessage m) \<in> set (fst (handle_message api c src msg h))" by simp
  then obtain g where g: "hm_get (hub_groups h) (msg_group_id msg) = Some g"
    and adm: "admissible api c src msg g" and m: "m = msg\<lparr>msg_seq := hg_next_seq g\<rparr>"
    and tos: "tos = other_members src (hg_info g)"
    by (rule handle_message_fanout)
  have fut: "unat (msg_sent_at msg) \<le> unat (now_ms c) + 30000"
    using adm assms(2) by (simp add: admissible_def MESSAGE_MAX_FUTURE_MS_def word_less_nat_alt unat_word_ariths)
  moreover have "unat (now_ms c) \<le> unat (msg_sent_at msg) + 300000"
    using adm assms(2) fut
    by (simp add: admissible_def MESSAGE_MAX_AGE_MS_def word_less_nat_alt unat_word_ariths)
  moreover have "group_wf (msg_group_id msg) g" using assms(1) g by (rule hub_wf_get)
  ultimately show ?thesis
    using adm m tos g
    by (auto simp: admissible_def members_get [OF g] other_members_def hub_members_def group_wf_def
        distinct_map_filter)
qed

definition demo_msg :: group_message where
  "demo_msg =
     \<lparr>msg_group_id = demo_gid, msg_message_id = ''m1'', msg_sender_id = NodeId 2,
      msg_sender_username = ''bob'', msg_text = ''hi'', msg_ciphertext = [], msg_nonce = replicate 24 0,
      msg_key_epoch = 0, msg_encrypted = False, msg_sent_at = 999000,
      msg_sender_signature = replicate 64 7, msg_seq = 0\<rparr>"

lemma demo_admissible: "admissible demo_crypto hub_ctx (NodeId 2) demo_msg (hub_group_new demo_info i ms s)"
  by (simp add: admissible_def hub_group_new_def demo_info_def demo_member_def demo_msg_def is_member_def
      msg_is_signed_def msg_verify_signature_def demo_crypto_def hub_ctx_def MESSAGE_MAX_AGE_MS_def
      MESSAGE_MAX_FUTURE_MS_def)

lemma demo_other_members: "other_members (NodeId 2) demo_info = [NodeId 1, NodeId 3]"
  by (simp add: other_members_def demo_info_def demo_member_def)

lemma demo_broadcast:
  "GaBroadcast [NodeId 1, NodeId 3] (GpMessage demo_msg) \<in>
     set (fst (handle_message demo_crypto hub_ctx (NodeId 2) demo_msg demo_hub))"
proof -
  let ?g = "hub_group_new demo_info [NodeId 4] [] 0"
  have gid: "msg_group_id demo_msg = demo_gid" by (simp add: demo_msg_def)
  have "nonce_ok (hub_max_dedup_entries demo_hub) demo_msg ?g" "epoch_ok hub_ctx (NodeId 2) demo_msg ?g"
    "fst (rate_result hub_ctx (NodeId 2) (after_nonce (hub_max_dedup_entries demo_hub) demo_msg ?g))"
    "dedup_ok (hub_max_dedup_entries demo_hub) demo_msg ?g"
    by (simp_all add: nonce_ok_def epoch_ok_def rate_result_def after_nonce_def demo_msg_def
        hub_group_new_def rate_limit_entry_def GROUP_RATE_LIMIT_PER_SECOND_def dedup_ok_def check_seen_def
        evict_half_def demo_hub_def group_hub_new_def)
  from handle_message_accepts [OF demo_hub_get [folded gid] demo_admissible this]
  show ?thesis by (simp add: hub_group_new_def demo_other_members demo_msg_def)
qed

theorem fanout_sound_witness:
  "GaBroadcast [NodeId 1, NodeId 3] (GpMessage demo_msg) \<in>
     set (fst (hub_handle_payload demo_crypto hub_ctx (GpMessage demo_msg) (NodeId 2) demo_hub)) \<and>
   NodeId 2 \<in> hub_members demo_hub demo_gid \<and> msg_verify_signature demo_crypto demo_msg"
  using fanout_sound [OF demo_hub_wf, of hub_ctx "[NodeId 1, NodeId 3]" demo_msg demo_crypto demo_msg "NodeId 2"]
    demo_broadcast
  by (simp add: hub_ctx_def) (simp add: demo_msg_def)

text \<open>
  C23. The hub numbers messages in order: from a new hub, after fewer than \<open>2 ^ 64\<close> events
  other than imports and restores, the history of every group carries strictly increasing
  numbers, all below the group's next number.
\<close>

theorem numbers_grow:
  assumes "list_all internal_event evs" and "length evs < 2 ^ 64"
    and "hm_get (hub_groups (fold (hub_step api) evs (group_hub_new n))) gid = Some g"
  shows "sorted_wrt (<) (map msg_seq (hg_message_history g)) \<and>
    (\<forall>m \<in> set (hg_message_history g). msg_seq m < hg_next_seq g)"
proof -
  have "hub_numbers_ok 0 (group_hub_new n)" by (simp add: hub_numbers_ok_def numbered_at_def group_hub_new_def)
  then have "hub_numbers_ok (0 + length evs) (fold (hub_step api) evs (group_hub_new n))"
    using assms(1,2) by (intro hub_numbering.counted_run) auto
  moreover have "numbered_at (fold (hub_step api) evs (group_hub_new n)) gid =
      Some (hg_message_history g, hg_next_seq g)" using assms(3) by (simp add: numbered_at_def)
  ultimately show ?thesis by (fastforce simp: hub_numbers_ok_def numbers_ok_def)
qed

abbreviation demo_create :: hub_event where
  "demo_create \<equiv> HePayload hub_ctx (GpCreate ''team'' ''x'' [NodeId 2] True) (NodeId 2)"

lemma demo_created:
  "hub_step api demo_create (group_hub_new (NodeId 9)) =
     put_group demo_gid (hub_group_new (demo_info\<lparr>gi_members := [demo_member (NodeId 2) Admin],
       gi_created_by := NodeId 2\<rparr>) [NodeId 2] [] 0) (group_hub_new (NodeId 9))"
  by (simp add: handle_create_def Let_def group_id_new_def hub_ctx_def hs_insert_def demo_info_def
      demo_member_def group_hub_new_def MAX_GROUP_MEMBERS_def)

lemma demo_run_numbers:
  "numbered_at (fold (hub_step demo_crypto)
      [demo_create, HePayload hub_ctx (GpMessage demo_msg) (NodeId 2)] (group_hub_new (NodeId 9))) demo_gid =
    Some ([demo_msg], 1)"
proof -
  define H where "H = hub_step demo_crypto demo_create (group_hub_new (NodeId 9))"
  note H = H_def [unfolded demo_created]
  let ?g = "hub_group_new (demo_info\<lparr>gi_members := [demo_member (NodeId 2) Admin],
       gi_created_by := NodeId 2\<rparr>) [NodeId 2] [] 0"
  let ?cap = "hub_max_dedup_entries H"
  let ?g3 = "after_dedup ?cap demo_msg (after_rate hub_ctx (NodeId 2) (after_nonce ?cap demo_msg ?g))"
  let ?h3 = "put_group demo_gid ?g3 H"
  have gid: "msg_group_id demo_msg = demo_gid" and seq0: "demo_msg\<lparr>msg_seq := 0\<rparr> = demo_msg"
    by (simp_all add: demo_msg_def)
  have get: "hm_get (hub_groups H) (msg_group_id demo_msg) = Some ?g" by (simp add: H gid)
  have adm: "admissible demo_crypto hub_ctx (NodeId 2) demo_msg ?g"
    by (simp add: admissible_def hub_group_new_def demo_member_def demo_msg_def is_member_def
        msg_is_signed_def msg_verify_signature_def demo_crypto_def hub_ctx_def MESSAGE_MAX_AGE_MS_def
        MESSAGE_MAX_FUTURE_MS_def)
  have cap: "?cap = 10000" by (simp add: H group_hub_new_def)
  have ok: "nonce_ok ?cap demo_msg ?g" "epoch_ok hub_ctx (NodeId 2) demo_msg ?g"
    "fst (rate_result hub_ctx (NodeId 2) (after_nonce ?cap demo_msg ?g))"
    "dedup_ok ?cap demo_msg (after_rate hub_ctx (NodeId 2) (after_nonce ?cap demo_msg ?g))"
    by (simp_all add: cap nonce_ok_def epoch_ok_def rate_result_def after_nonce_def
        after_rate_def demo_msg_def hub_group_new_def rate_limit_entry_def
        GROUP_RATE_LIMIT_PER_SECOND_def dedup_ok_def check_seen_def evict_half_def)
  have acc: "handle_message demo_crypto hub_ctx (NodeId 2) demo_msg H =
      accept_message hub_ctx (NodeId 2) demo_msg ?h3"
    using ok by (simp only: handle_message_eq(1) [OF get adm] gid) simp
  have get3: "hm_get (hub_groups ?h3) (msg_group_id demo_msg) = Some ?g3" by (simp add: gid)
  have g3: "hg_message_history ?g3 = []" "hg_next_seq ?g3 = 0"
    by (simp_all add: hub_group_new_def) (simp add: after_dedup_def after_rate_def after_nonce_def)
  have few: "hub_total_messages ?h3 = 0" "hub_max_total_messages ?h3 = 10000" "hub_max_messages_per_group ?h3 = 100"
    by (simp_all add: H group_hub_new_def MAX_SYNC_MESSAGES_def)
  have st: "numbered_at (stored_hub hub_ctx (NodeId 2) demo_msg ?g3 ?h3) demo_gid = Some ([demo_msg], 1)"
    using few g3 seq0 by (simp add: stored_hub_at(3) [OF get3] gid)
  have "trimmed_hub hub_ctx (NodeId 2) demo_msg ?g3 ?h3 = stored_hub hub_ctx (NodeId 2) demo_msg ?g3 ?h3"
    using few g3 by (simp add: trimmed_hub_def stored_hub_def store_message_def Let_def)
  then have "numbered_at (snd (accept_message hub_ctx (NodeId 2) demo_msg ?h3)) demo_gid = Some ([demo_msg], 1)"
    using st by (simp add: accept_message_get [OF get3] rotation_at)
  then show ?thesis using acc H_def by simp
qed

theorem numbers_grow_witness:
  "\<exists>g. hm_get (hub_groups (fold (hub_step demo_crypto)
      [demo_create, HePayload hub_ctx (GpMessage demo_msg) (NodeId 2)] (group_hub_new (NodeId 9)))) demo_gid = Some g \<and>
     hg_message_history g = [demo_msg] \<and> (\<forall>m \<in> set (hg_message_history g). msg_seq m < hg_next_seq g)"
proof -
  from demo_run_numbers obtain g where
    "hm_get (hub_groups (fold (hub_step demo_crypto)
      [demo_create, HePayload hub_ctx (GpMessage demo_msg) (NodeId 2)] (group_hub_new (NodeId 9)))) demo_gid = Some g"
    and "hg_message_history g = [demo_msg]"
    by (auto simp: numbered_at_def)
  with numbers_grow [of "[demo_create, HePayload hub_ctx (GpMessage demo_msg) (NodeId 2)]"
      demo_crypto "NodeId 9" demo_gid g] show ?thesis by auto
qed

text \<open>
  C19. A message is fanned out at most once: after the hub has broadcast a message, and after
  any further events that neither import, restore nor re-create its group and are fewer than
  the room left in the group's set of seen identifiers, no message with the same identifier
  is broadcast in that group.
\<close>

theorem no_second_fanout:
  assumes "hub_wf h" and "seen_at h (msg_group_id msg) = Some (ids, ns)" and "distinct ids"
    and "GaBroadcast tos (GpMessage m) \<in> set (fst (handle_message api c src msg h))"
    and "list_all (keeps_group (msg_group_id msg)) evs"
    and "length ids + length evs + 1 < hub_max_dedup_entries h"
    and "msg_group_id msg' = msg_group_id msg" and "msg_message_id msg' = msg_message_id msg"
  shows "GaBroadcast tos' (GpMessage m') \<notin> set (fst (handle_message api c' src' msg'
    (fold (hub_step api) evs (snd (handle_message api c src msg h)))))"
proof
  let ?h = "fold (hub_step api) evs (snd (handle_message api c src msg h))"
  let ?cap = "hub_max_dedup_entries h"
  assume "GaBroadcast tos' (GpMessage m') \<in> set (fst (handle_message api c' src' msg' ?h))"
  then obtain g where g: "hm_get (hub_groups ?h) (msg_group_id msg') = Some g"
    and ok: "dedup_ok (hub_max_dedup_entries ?h) msg' g"
    by (rule handle_message_fanout)
  have wf: "hm_wf (hub_groups h)" using assms(1) by (simp add: hub_wf_def)
  have "knows (msg_group_id msg) (msg_message_id msg) ?cap (Suc (length ids)) (snd (handle_message api c src msg h))"
    using wf assms(2-4) by (rule fanout_knows)
  then have k: "knows (msg_group_id msg) (msg_message_id msg) ?cap (Suc (length ids) + length evs) ?h"
    using assms(5,6) by (intro hub_memory.counted_run) auto
  have "seen_at ?h (msg_group_id msg) = Some (hg_seen_message_ids g, hg_seen_nonces g)"
    using g assms(7) by (simp add: seen_at_def)
  with k have "msg_message_id msg \<in> set (hg_seen_message_ids g)" "distinct (hg_seen_message_ids g)"
    "length (hg_seen_message_ids g) < ?cap" "hub_max_dedup_entries ?h = ?cap"
    using assms(6) by (auto simp: knows_def)
  with ok show False
    using seen_filter.check_rejects [of "hg_seen_message_ids g" ?cap "msg_message_id msg"] assms(8)
    by (simp add: dedup_ok_def)
qed

theorem no_second_fanout_witness:
  "GaBroadcast [NodeId 1, NodeId 3] (GpMessage demo_msg) \<in>
     set (fst (handle_message demo_crypto hub_ctx (NodeId 2) demo_msg demo_hub)) \<and>
   (\<forall>tos m. GaBroadcast tos (GpMessage m) \<notin> set (fst (handle_message demo_crypto hub_ctx (NodeId 3) demo_msg
      (fold (hub_step demo_crypto) [HePayload hub_ctx (GpLeave demo_gid) (NodeId 1)]
        (snd (handle_message demo_crypto hub_ctx (NodeId 2) demo_msg demo_hub))))))"
proof -
  have gid: "msg_group_id demo_msg = demo_gid" by (simp add: demo_msg_def)
  have "seen_at demo_hub (msg_group_id demo_msg) = Some ([], [])"
    by (simp add: gid seen_at_def demo_hub_get hub_group_new_def)
  from no_second_fanout [OF demo_hub_wf this _ demo_broadcast,
      of "[HePayload hub_ctx (GpLeave demo_gid) (NodeId 1)]" demo_msg]
  show ?thesis using demo_broadcast by (simp add: gid demo_hub_def group_hub_new_def)
qed

text \<open>
  C24. The memory for message histories is bounded: from a new hub, under any events other than
  imports and restores, the histories of all groups together never hold more than the
  configured total of ten thousand messages.
\<close>

theorem memory_bounded:
  assumes "list_all internal_event evs"
  shows "stored_in (hub_groups (fold (hub_step api) evs (group_hub_new n))) \<le> 10000"
proof -
  have "hub_max_total_messages h = 10000 \<and> memory_ok h \<Longrightarrow> list_all internal_event es \<Longrightarrow>
      hub_max_total_messages (fold (hub_step api) es h) = 10000" for es h
  proof (induction es arbitrary: h)
    case Nil
    then show ?case by simp
  next
    case (Cons e es)
    have "hm_wf (hub_groups h)" using Cons.prems(1) by (simp add: memory_ok_def)
    with Cons.prems have "hub_max_total_messages (hub_step api e h) = 10000" "memory_ok (hub_step api e h)"
      using internal_config [of e h api] hub_storage.step_invar [of e h api] by (auto simp: same_config_def)
    with Cons show ?case by simp
  qed
  then have "hub_max_total_messages (fold (hub_step api) evs (group_hub_new n)) = 10000"
    using assms hub_new_memory [of n] by (simp add: group_hub_new_def)
  then show ?thesis
    using hub_storage.run_invar [OF assms hub_new_memory [of n], of api] by (auto simp: memory_ok_def)
qed

theorem memory_bounded_witness:
  "list_all internal_event [demo_create, HePayload hub_ctx (GpMessage demo_msg) (NodeId 2)] \<and>
   stored_in (hub_groups (fold (hub_step demo_crypto)
      [demo_create, HePayload hub_ctx (GpMessage demo_msg) (NodeId 2)] (group_hub_new (NodeId 9)))) \<le> 10000"
  using memory_bounded [of "[demo_create, HePayload hub_ctx (GpMessage demo_msg) (NodeId 2)]"] by simp

text \<open>
  C26. A restart of the hub keeps groups, invitations and numbering: restoring a snapshot into a
  new hub gives every group its info, its invitations and its next number back (so numbers
  are not reused), with empty history and empty replay protection, and no other group.
\<close>

theorem hub_restart:
  assumes "hm_wf (hub_groups h)"
  shows "hm_get (hub_groups (hub_restore (hub_snapshot h) (group_hub_new n))) gid =
    map_option (\<lambda>g. hub_group_new (hg_info g) (hg_invited_set g) [] (hg_next_seq g)) (hm_get (hub_groups h) gid)"
proof -
  have "hm_wf (ghs_groups (hub_snapshot h))" using assms by (simp add: hub_snapshot_def)
  then have "hm_get (hub_groups (hub_restore (hub_snapshot h) (group_hub_new n))) gid =
    (case hm_get (ghs_groups (hub_snapshot h)) gid of
        None \<Rightarrow> hm_get (hub_groups (group_hub_new n)) gid
      | Some info \<Rightarrow> Some (hub_group_new info
          (case hm_get (ghs_invited_sets (hub_snapshot h)) gid of None \<Rightarrow> [] | Some i \<Rightarrow> i) []
          (case hm_get (ghs_next_seqs (hub_snapshot h)) gid of None \<Rightarrow> 0 | Some s \<Rightarrow> s)))"
    unfolding hub_restore_def Let_def by (rule restore_fold_get)
  then show ?thesis
    using assms by (auto simp: hub_snapshot_def hm_simps hm_wfs group_hub_new_def split: option.split)
qed

theorem hub_restart_witness:
  "hm_get (hub_groups (hub_restore (hub_snapshot demo_hub) (group_hub_new (NodeId 9)))) demo_gid =
     Some (hub_group_new demo_info [NodeId 4] [] 0)"
  using hub_restart [of demo_hub "NodeId 9" demo_gid] demo_hub_wf
  by (simp add: hub_wf_def demo_hub_get) (simp add: hub_group_new_def)

text \<open>
  C25. The rate limit is exact: of a sender's messages that reach the rate check of a group
  within one second of the first one, exactly the first five pass, however many there are
  (below \<open>2 ^ 32\<close>).
\<close>

theorem rate_limit_exact:
  assumes "hm_get (hub_groups h) gid = Some g" and "hm_get (hg_rate_limits g) n = None"
    and "\<forall>c' \<in> set cs. now_instant c' - now_instant c < secs 1" and "length cs < 2 ^ 32 - 1"
  shows "passed gid n (c # cs) h = min 5 (length (c # cs))"
proof -
  have r: "rate_result c n g = (True, (now_instant c, 1))"
    using assms(2) by (simp add: rate_result_def rate_limit_entry_def GROUP_RATE_LIMIT_PER_SECOND_def)
  have "passed gid n cs (put_group gid (after_rate c n g) h) = min (length cs) (5 - unat (1 :: u32))"
    using assms(3,4) by (intro passed_window) (auto simp: after_rate_def r hm_simps)
  then show ?thesis using assms(1) by (simp add: check_rate_limit_get r)
qed

theorem rate_limit_exact_witness:
  "passed demo_gid (NodeId 2) (replicate 20 hub_ctx) demo_hub = 5"
  using rate_limit_exact [OF demo_hub_get, of "NodeId 2" "replicate 19 hub_ctx" hub_ctx]
  by (simp add: hub_group_new_def replicate_Suc [symmetric] del: replicate_Suc passed.simps)

text \<open>
  A drifted message counter silences the history for good: once the counter of stored
  messages stands at the maximum while nothing is stored (removing expired messages and
  groups does not lower it), after any further events the hub stores no message at all, so
  new members and catching-up members get nothing.
\<close>

theorem drifted_hub_stores_nothing:
  assumes "drifted h" and "list_all internal_event evs"
    and "hm_get (hub_groups (fold (hub_step api) evs h)) gid = Some g"
  shows "hg_message_history g = []"
proof -
  have "drifted (fold (hub_step api) evs h)" using assms(2,1) by (rule hub_drift.run_invar)
  then show ?thesis using hm_get_in_set [OF assms(3)] by (auto simp: drifted_def stored_in_0)
qed

theorem drifted_hub_stores_nothing_witness:
  "drifted (demo_hub\<lparr>hub_total_messages := 10000\<rparr>) \<and>
   (\<exists>g. hm_get (hub_groups (fold (hub_step demo_crypto) [HePayload hub_ctx (GpMessage demo_msg) (NodeId 2)]
       (demo_hub\<lparr>hub_total_messages := 10000\<rparr>))) demo_gid = Some g \<and> hg_message_history g = [])"
proof -
  let ?h = "demo_hub\<lparr>hub_total_messages := 10000\<rparr>"
  have d: "drifted ?h"
    by (simp add: drifted_def demo_hub_def put_group_def group_hub_new_def stored_in_def hub_group_new_def
        MAX_SYNC_MESSAGES_def)
  have "frozen_at (snd (handle_message demo_crypto hub_ctx (NodeId 2) demo_msg ?h)) demo_gid = frozen_at ?h demo_gid"
    using d by (intro handle_message_frozen) (simp add: drifted_def)
  then obtain g where "hm_get (hub_groups (snd (handle_message demo_crypto hub_ctx (NodeId 2) demo_msg ?h))) demo_gid = Some g"
    by (auto simp: frozen_at_def demo_hub_get)
  with d drifted_hub_stores_nothing [OF d, of "[HePayload hub_ctx (GpMessage demo_msg) (NodeId 2)]"
      demo_crypto demo_gid g] show ?thesis by simp
qed

text \<open>
  C27. A rate-limited encrypted message cannot be sent again: the hub records the nonce before
  it checks the rate, so when an encrypted message is dropped for its rate, sending the very
  same message later is refused as a replay.
\<close>

theorem rate_limited_message_is_burnt:
  assumes "hm_get (hub_groups h) (msg_group_id msg) = Some g" and "msg_encrypted msg"
    and "admissible api c src msg g" and "nonce_ok (hub_max_dedup_entries h) msg g" and "epoch_ok c src msg g"
    and "\<not> fst (rate_result c src (after_nonce (hub_max_dedup_entries h) msg g))"
    and "distinct (hg_seen_nonces g)" and "Suc (length (hg_seen_nonces g)) < hub_max_dedup_entries h"
    and "admissible api c' src msg g"
  shows "fst (handle_message api c src msg h) = [] \<and>
    fst (handle_message api c' src msg (snd (handle_message api c src msg h))) =
      [violation (msg_group_id msg) src ''nonce replay detected'']"
proof -
  let ?cap = "hub_max_dedup_entries h" and ?gid = "msg_group_id msg"
  let ?g2 = "after_rate c src (after_nonce ?cap msg g)"
  have first: "handle_message api c src msg h = ([], put_group ?gid ?g2 h)"
    using assms(3-6) by (simp add: handle_message_eq(1) [OF assms(1)])
  have get: "hm_get (hub_groups (put_group ?gid ?g2 h)) (msg_group_id msg) = Some ?g2" by simp
  have adm: "admissible api c' src msg ?g2"
    using assms(9) by (simp add: admissible_def after_rate_def after_nonce_def)
  let ?s = "snd (check_seen ?cap (msg_nonce msg) (hg_seen_nonces g))"
  have "hg_seen_nonces ?g2 = ?s" using assms(2) by (simp add: after_rate_def after_nonce_def)
  moreover have "\<not> fst (check_seen ?cap (msg_nonce msg) ?s)"
    using seen_filter.no_second_pass [OF assms(7), of "[]" ?cap "msg_nonce msg"] assms(8) by simp
  ultimately have "\<not> nonce_ok ?cap msg ?g2" using assms(2) by (simp add: nonce_ok_def)
  then show ?thesis by (simp add: first handle_message_eq(1) [OF get adm])
qed

definition demo_busy_group :: hub_group where
  "demo_busy_group = (hub_group_new demo_info [] [] 0)\<lparr>hg_rate_limits := [(NodeId 2, (secs 50, 5))]\<rparr>"

theorem rate_limited_message_is_burnt_witness:
  "fst (handle_message demo_crypto hub_ctx (NodeId 2) (demo_msg\<lparr>msg_encrypted := True\<rparr>)
      (put_group demo_gid demo_busy_group demo_hub)) = [] \<and>
   fst (handle_message demo_crypto (hub_ctx\<lparr>now_ms := 1005000, now_instant := secs 55\<rparr>) (NodeId 2)
      (demo_msg\<lparr>msg_encrypted := True\<rparr>)
      (snd (handle_message demo_crypto hub_ctx (NodeId 2) (demo_msg\<lparr>msg_encrypted := True\<rparr>)
        (put_group demo_gid demo_busy_group demo_hub)))) =
     [violation demo_gid (NodeId 2) ''nonce replay detected'']"
proof -
  let ?m = "demo_msg\<lparr>msg_encrypted := True\<rparr>" and ?h = "put_group demo_gid demo_busy_group demo_hub"
  have gid: "msg_group_id ?m = demo_gid" by (simp add: demo_msg_def)
  have get: "hm_get (hub_groups ?h) (msg_group_id ?m) = Some demo_busy_group" by (simp add: gid)
  have cap: "hub_max_dedup_entries demo_hub = 10000" by (simp add: demo_hub_def group_hub_new_def)
  have adm: "admissible demo_crypto hub_ctx (NodeId 2) ?m demo_busy_group"
    "admissible demo_crypto (hub_ctx\<lparr>now_ms := 1005000, now_instant := secs 55\<rparr>) (NodeId 2) ?m demo_busy_group"
    by (simp_all add: admissible_def demo_busy_group_def hub_group_new_def demo_info_def demo_member_def
        demo_msg_def is_member_def msg_is_signed_def msg_verify_signature_def demo_crypto_def hub_ctx_def
        MESSAGE_MAX_AGE_MS_def MESSAGE_MAX_FUTURE_MS_def)
  have "nonce_ok 10000 ?m demo_busy_group" "epoch_ok hub_ctx (NodeId 2) ?m demo_busy_group"
    "\<not> fst (rate_result hub_ctx (NodeId 2) (after_nonce 10000 ?m demo_busy_group))"
    "hg_seen_nonces demo_busy_group = []"
    by (simp_all add: nonce_ok_def epoch_ok_def rate_result_def after_nonce_def demo_busy_group_def
        hub_group_new_def rate_limit_entry_def GROUP_RATE_LIMIT_PER_SECOND_def check_seen_def
        evict_half_def hub_ctx_def)
  with rate_limited_message_is_burnt [OF get _ adm(1) _ _ _ _ _ adm(2)] show ?thesis
    by (simp add: cap gid)
qed

end
