(* ===== verification/Tom_GroupManager.thy ===== *)
theory Tom_GroupManager
  imports Tom_GroupTypes
begin

section \<open>The group manager\<close>

text \<open>
  Models \<^verbatim>\<open>tom-protocol/src/group/manager.rs\<close>: the member-side state machine with the groups a
  node belongs to, its invitations, the sender keys of itself and of the others, messages
  that wait for a key, and the state it keeps as shadow of a hub. A new sender key and the
  randomness of its encryption for each recipient are arguments (\<open>mgr_rand\<close>).

  The lemmas show that a sender key arrives and opens the messages encrypted under it, that a
  departed member gets none of the new keys, that epochs and sequence numbers never go back,
  and when a shadow promotes itself.
\<close>

subsection \<open>Data\<close>

record previous_sender_key =
  psk_entry :: sender_key_entry
  psk_grace_until_ms :: u64

record shadow_state =
  ss_members :: "group_member list"
  ss_candidate_id :: "node_id option"
  ss_config_version :: u64
  ss_ping_failures :: u32
  ss_unreachable_reports :: u32

record group_manager =
  mgr_local_id :: node_id
  mgr_local_username :: string
  mgr_groups :: "(group_id, group_info) hmap"
  mgr_pending_invites :: "(group_id, group_invite) hmap"
  mgr_message_history :: "(group_id, group_message list) hmap"
  mgr_max_history_per_group :: nat
  mgr_local_sender_keys :: "(group_id, sender_key_entry) hmap"
  mgr_sender_keys :: "(group_id, (node_id, sender_key_entry) hmap) hmap"
  mgr_previous_sender_keys :: "(group_id, (node_id, previous_sender_key) hmap) hmap"
  mgr_local_sender_message_counts :: "(group_id, u64) hmap"
  mgr_pending_decrypt :: "(group_id, group_message list) hmap"
  mgr_last_seqs :: "(group_id, u64) hmap"
  mgr_shadow_state :: "(group_id, shadow_state) hmap"

record group_manager_snapshot =
  gms_groups :: "(group_id, group_info) hmap"
  gms_local_sender_keys :: "(group_id, sender_key_entry) hmap"
  gms_sender_keys :: "(group_id, (node_id, sender_key_entry) hmap) hmap"
  gms_previous_sender_keys :: "(group_id, (node_id, previous_sender_key) hmap) hmap"
  gms_local_sender_message_counts :: "(group_id, u64) hmap"
  gms_message_history :: "(group_id, group_message list) hmap"
  gms_last_seqs :: "(group_id, u64) hmap"

text \<open>A fresh key, and an ephemeral secret and nonce for each recipient of it.\<close>

record mgr_rand =
  rnd_key :: bytes
  rnd_ephemeral :: "node_id \<Rightarrow> bytes"
  rnd_nonce :: "node_id \<Rightarrow> bytes"

definition group_manager_new :: "node_id \<Rightarrow> string \<Rightarrow> group_manager" where
  "group_manager_new n username =
     \<lparr>mgr_local_id = n, mgr_local_username = username, mgr_groups = [], mgr_pending_invites = [],
      mgr_message_history = [], mgr_max_history_per_group = MAX_SYNC_MESSAGES,
      mgr_local_sender_keys = [], mgr_sender_keys = [], mgr_previous_sender_keys = [],
      mgr_local_sender_message_counts = [], mgr_pending_decrypt = [], mgr_last_seqs = [],
      mgr_shadow_state = []\<rparr>"

text \<open>\<open>entry(k).or_default()\<close> and \<open>get(k).unwrap_or_default()\<close> on maps.\<close>

definition hm_or :: "('k, 'v) hmap \<Rightarrow> 'k \<Rightarrow> 'v \<Rightarrow> 'v" where
  "hm_or m k d = (case hm_get m k of None \<Rightarrow> d | Some v \<Rightarrow> v)"

definition hm_ensure :: "'k \<Rightarrow> 'v \<Rightarrow> ('k, 'v) hmap \<Rightarrow> ('k, 'v) hmap" where
  "hm_ensure k d m = (case hm_get m k of None \<Rightarrow> hm_insert k d m | Some _ \<Rightarrow> m)"

subsection \<open>Sender keys\<close>

definition generate_local_sender_key :: "ctx \<Rightarrow> mgr_rand \<Rightarrow> group_id \<Rightarrow> group_manager \<Rightarrow> group_manager" where
  "generate_local_sender_key c rnd gid m =
     (let old_epoch = (case hm_get (mgr_local_sender_keys m) gid of None \<Rightarrow> 0 | Some e \<Rightarrow> ske_epoch e);
          entry = \<lparr>ske_owner_id = mgr_local_id m, ske_key = rnd_key rnd, ske_epoch = old_epoch + 1,
                   ske_created_at = now_ms c\<rparr>
      in m\<lparr>mgr_local_sender_keys := hm_insert gid entry (mgr_local_sender_keys m),
           mgr_local_sender_message_counts := hm_insert gid 0 (mgr_local_sender_message_counts m)\<rparr>)"

definition encrypted_keys_for ::
  "crypto_api \<Rightarrow> mgr_rand \<Rightarrow> node_id \<Rightarrow> bytes \<Rightarrow> group_member list \<Rightarrow> encrypted_sender_key list" where
  "encrypted_keys_for api rnd self key members =
     List.map_filter (\<lambda>m.
         if gm_node_id m = self then None
         else (case encrypt api (rnd_ephemeral rnd (gm_node_id m)) (rnd_nonce rnd (gm_node_id m)) key
                      (as_bytes (gm_node_id m)) of
                 Inl _ \<Rightarrow> None
               | Inr p \<Rightarrow> Some \<lparr>esk_recipient_id = gm_node_id m, esk_encrypted_key = p\<rparr>)) members"

definition build_sender_key_distribution ::
  "crypto_api \<Rightarrow> mgr_rand \<Rightarrow> group_id \<Rightarrow> group_manager \<Rightarrow> group_action list" where
  "build_sender_key_distribution api rnd gid m =
     (case hm_get (mgr_groups m) gid of
        None \<Rightarrow> []
      | Some grp \<Rightarrow>
          (case hm_get (mgr_local_sender_keys m) gid of
             None \<Rightarrow> []
           | Some local_key \<Rightarrow>
               let eks = encrypted_keys_for api rnd (mgr_local_id m) (ske_key local_key) (gi_members grp)
               in if eks = [] then []
                  else [GaSend (gi_hub_relay_id grp)
                          (GpSenderKeyDistribution gid (mgr_local_id m) (ske_epoch local_key) eks)]))"

definition note_local_message_sent :: "group_id \<Rightarrow> group_manager \<Rightarrow> group_manager" where
  "note_local_message_sent gid m =
     m\<lparr>mgr_local_sender_message_counts :=
         hm_insert gid (saturating_add (hm_or (mgr_local_sender_message_counts m) gid 0) 1)
           (mgr_local_sender_message_counts m)\<rparr>"

definition maybe_rotate_local_sender_key ::
  "crypto_api \<Rightarrow> ctx \<Rightarrow> mgr_rand \<Rightarrow> group_id \<Rightarrow> group_manager \<Rightarrow> group_action list \<times> group_manager" where
  "maybe_rotate_local_sender_key api c rnd gid m =
     (case hm_get (mgr_local_sender_keys m) gid of
        None \<Rightarrow> ([], m)
      | Some current \<Rightarrow>
          let age_ms = saturating_sub (now_ms c) (ske_created_at current);
              msg_count = hm_or (mgr_local_sender_message_counts m) gid 0
          in if SENDER_KEY_ROTATE_MAX_AGE_MS \<le> age_ms \<or> SENDER_KEY_ROTATE_MAX_MESSAGES \<le> msg_count
             then (let m = generate_local_sender_key c rnd gid m
                   in (build_sender_key_distribution api rnd gid m, m))
             else ([], m))"

definition rotate_sender_key ::
  "crypto_api \<Rightarrow> ctx \<Rightarrow> mgr_rand \<Rightarrow> group_id \<Rightarrow> group_manager \<Rightarrow> group_action list \<times> group_manager" where
  "rotate_sender_key api c rnd gid m =
     (if \<not> hm_contains (mgr_groups m) gid then ([], m)
      else (let m = generate_local_sender_key c rnd gid m
            in (build_sender_key_distribution api rnd gid m, m)))"

definition cleanup_group_keys :: "group_id \<Rightarrow> group_manager \<Rightarrow> group_manager" where
  "cleanup_group_keys gid m =
     m\<lparr>mgr_local_sender_keys := hm_remove gid (mgr_local_sender_keys m),
       mgr_local_sender_message_counts := hm_remove gid (mgr_local_sender_message_counts m),
       mgr_sender_keys := hm_remove gid (mgr_sender_keys m),
       mgr_previous_sender_keys := hm_remove gid (mgr_previous_sender_keys m),
       mgr_pending_decrypt := hm_remove gid (mgr_pending_decrypt m)\<rparr>"

subsection \<open>Delivering messages\<close>

definition last_seq :: "group_manager \<Rightarrow> group_id \<Rightarrow> u64" where
  "last_seq m gid = hm_or (mgr_last_seqs m) gid 0"

definition set_last_seq :: "group_id \<Rightarrow> u64 \<Rightarrow> group_manager \<Rightarrow> group_manager" where
  "set_last_seq gid s m = m\<lparr>mgr_last_seqs := hm_insert gid s (mgr_last_seqs m)\<rparr>"

definition deliver_message :: "ctx \<Rightarrow> group_message \<Rightarrow> group_manager \<Rightarrow> group_action list \<times> group_manager" where
  "deliver_message c msg m =
     (let gid = msg_group_id msg
      in if \<not> hm_contains (mgr_groups m) gid then ([], m)
         else
           (let history = hm_or (mgr_message_history m) gid [] @ [msg];
                excess = length history - mgr_max_history_per_group m
            in ([GaEvent (GeMessageReceived msg)],
                m\<lparr>mgr_groups := hm_modify gid (\<lambda>g. g\<lparr>gi_last_activity_at := now_ms c\<rparr>) (mgr_groups m),
                  mgr_last_seqs :=
                    (if 0 < msg_seq msg
                     then hm_insert gid (max (last_seq m gid) (msg_seq msg)) (mgr_last_seqs m)
                     else mgr_last_seqs m),
                  mgr_message_history := hm_insert gid (drop excess history) (mgr_message_history m)\<rparr>)))"

definition deliver_decrypted_message ::
  "crypto_api \<Rightarrow> group_message_content pack \<Rightarrow> ctx \<Rightarrow> group_message \<Rightarrow> bytes \<Rightarrow> group_manager
     \<Rightarrow> group_action list \<times> group_manager" where
  "deliver_decrypted_message api cp c msg key m =
     (case group_message_decrypt api cp msg key of
        Inl _ \<Rightarrow> ([], m)
      | Inr content \<Rightarrow>
          deliver_message c (msg\<lparr>msg_sender_username := gmc_username content,
                                 msg_text := gmc_text content\<rparr>) m)"

definition build_epoch_resync_actions :: "group_id \<Rightarrow> group_manager \<Rightarrow> group_action list" where
  "build_epoch_resync_actions gid m =
     (case hm_get (mgr_groups m) gid of
        None \<Rightarrow> []
      | Some grp \<Rightarrow> [GaSend (gi_hub_relay_id grp) (GpSyncRequest gid (last_seq m gid))])"

definition try_decrypt_and_deliver ::
  "crypto_api \<Rightarrow> group_message_content pack \<Rightarrow> ctx \<Rightarrow> group_message \<Rightarrow> group_manager
     \<Rightarrow> group_action list \<times> group_manager" where
  "try_decrypt_and_deliver api cp c msg m =
     (let gid = msg_group_id msg; sender = msg_sender_id msg
      in if \<not> msg_encrypted msg then deliver_message c msg m
         else (case hm_get (hm_or (mgr_sender_keys m) gid []) sender of
             Some sender_key \<Rightarrow>
               if ske_epoch sender_key = msg_key_epoch msg
               then deliver_decrypted_message api cp c msg (ske_key sender_key) m
               else if ske_epoch sender_key = saturating_add (msg_key_epoch msg) 1
               then (case hm_get (hm_or (mgr_previous_sender_keys m) gid []) sender of
                       Some prev \<Rightarrow>
                         if ske_epoch (psk_entry prev) = msg_key_epoch msg \<and> now_ms c \<le> psk_grace_until_ms prev
                         then deliver_decrypted_message api cp c msg (ske_key (psk_entry prev)) m
                         else (build_epoch_resync_actions gid m, m)
                     | None \<Rightarrow> (build_epoch_resync_actions gid m, m))
               else (build_epoch_resync_actions gid m, m)
           | None \<Rightarrow>
               ([], m\<lparr>mgr_pending_decrypt :=
                       hm_insert gid (hm_or (mgr_pending_decrypt m) gid [] @ [msg]) (mgr_pending_decrypt m)\<rparr>)))"

definition mgr_handle_message ::
  "crypto_api \<Rightarrow> group_message_content pack \<Rightarrow> ctx \<Rightarrow> group_message \<Rightarrow> group_manager
     \<Rightarrow> group_action list \<times> group_manager" where
  "mgr_handle_message api cp c msg m =
     (if \<not> hm_contains (mgr_groups m) (msg_group_id msg) then ([], m)
      else try_decrypt_and_deliver api cp c msg m)"

text \<open>The waiting messages of one sender are tried in order, the others keep waiting.\<close>

fun retry_pending ::
  "crypto_api \<Rightarrow> group_message_content pack \<Rightarrow> ctx \<Rightarrow> node_id \<Rightarrow> group_message list \<Rightarrow> group_manager
     \<Rightarrow> group_action list \<times> group_manager" where
  "retry_pending api cp c from [] m = ([], m)"
| "retry_pending api cp c from (msg # msgs) m =
     (if msg_sender_id msg = from
      then (let (as1, m) = try_decrypt_and_deliver api cp c msg m;
                (as2, m) = retry_pending api cp c from msgs m
            in (as1 @ as2, m))
      else retry_pending api cp c from msgs m)"

text \<open>The new key replaces the old one, which stays valid for a while if its epoch was lower.\<close>

definition store_sender_key :: "ctx \<Rightarrow> group_id \<Rightarrow> node_id \<Rightarrow> sender_key_entry \<Rightarrow> group_manager \<Rightarrow> group_manager" where
  "store_sender_key c gid from entry m =
     (let group_keys = hm_or (mgr_sender_keys m) gid [];
          m = (case hm_get group_keys from of
                 None \<Rightarrow> m
               | Some old \<Rightarrow>
                   if ske_epoch old < ske_epoch entry
                   then m\<lparr>mgr_previous_sender_keys :=
                          hm_insert gid
                            (hm_insert from
                               \<lparr>psk_entry = old,
                                psk_grace_until_ms = saturating_add (now_ms c) SENDER_KEY_EPOCH_GRACE_MS\<rparr>
                               (hm_or (mgr_previous_sender_keys m) gid []))
                            (mgr_previous_sender_keys m)\<rparr>
                   else m)
      in m\<lparr>mgr_sender_keys := hm_insert gid (hm_insert from entry group_keys) (mgr_sender_keys m)\<rparr>)"

definition mgr_handle_sender_key_distribution ::
  "crypto_api \<Rightarrow> group_message_content pack \<Rightarrow> ctx \<Rightarrow> group_id \<Rightarrow> node_id \<Rightarrow> u32
     \<Rightarrow> encrypted_sender_key list \<Rightarrow> bytes \<Rightarrow> group_manager \<Rightarrow> group_action list \<times> group_manager" where
  "mgr_handle_sender_key_distribution api cp c gid from epoch eks seed m =
     (case find (\<lambda>ek. esk_recipient_id ek = mgr_local_id m) eks of
        None \<Rightarrow> ([], m)
      | Some our_key \<Rightarrow>
          (case decrypt api (esk_encrypted_key our_key) seed of
             Inl _ \<Rightarrow> ([], m)
           | Inr key \<Rightarrow>
               if length key \<noteq> 32 then ([], m)
               else if (case hm_get (hm_or (mgr_sender_keys m) gid []) from of
                          None \<Rightarrow> False | Some old \<Rightarrow> epoch < ske_epoch old)
               then ([], m)
               else
                 (let entry = \<lparr>ske_owner_id = from, ske_key = key, ske_epoch = epoch,
                               ske_created_at = now_ms c\<rparr>;
                      m = store_sender_key c gid from entry m;
                      pending = hm_or (mgr_pending_decrypt m) gid [];
                      m = m\<lparr>mgr_pending_decrypt := hm_remove gid (mgr_pending_decrypt m)\<rparr>;
                      (acts, m) = retry_pending api cp c from pending m;
                      still = filter (\<lambda>msg. msg_sender_id msg \<noteq> from) pending
                  in (acts, if still \<noteq> []
                            then m\<lparr>mgr_pending_decrypt := hm_insert gid still (mgr_pending_decrypt m)\<rparr>
                            else m))))"

subsection \<open>Groups and invitations\<close>

definition create_group_with_options ::
  "string \<Rightarrow> node_id \<Rightarrow> node_id list \<Rightarrow> bool \<Rightarrow> group_manager \<Rightarrow> group_action list" where
  "create_group_with_options name hub initial_members invite_only m =
     [GaSend hub (GpCreate name (mgr_local_username m) initial_members invite_only)]"

definition create_group :: "string \<Rightarrow> node_id \<Rightarrow> node_id list \<Rightarrow> group_manager \<Rightarrow> group_action list" where
  "create_group name hub initial_members m = create_group_with_options name hub initial_members False m"

definition create_group_invite_only ::
  "string \<Rightarrow> node_id \<Rightarrow> node_id list \<Rightarrow> group_manager \<Rightarrow> group_action list" where
  "create_group_invite_only name hub initial_members m =
     create_group_with_options name hub initial_members True m"

definition handle_group_created ::
  "ctx \<Rightarrow> mgr_rand \<Rightarrow> group_info \<Rightarrow> group_manager \<Rightarrow> group_action list \<times> group_manager" where
  "handle_group_created c rnd info m =
     (let gid = gi_group_id info;
          m = m\<lparr>mgr_groups := hm_insert gid info (mgr_groups m),
                mgr_message_history := hm_ensure gid [] (mgr_message_history m)\<rparr>
      in ([GaEvent (GeGroupCreated info)], generate_local_sender_key c rnd gid m))"

definition handle_invite ::
  "ctx \<Rightarrow> group_id \<Rightarrow> string \<Rightarrow> node_id \<Rightarrow> string \<Rightarrow> node_id \<Rightarrow> group_manager
     \<Rightarrow> group_action list \<times> group_manager" where
  "handle_invite c gid name inviter inviter_username hub m =
     (if hm_contains (mgr_groups m) gid then ([], m)
      else
        (let invite = \<lparr>inv_group_id = gid, inv_group_name = name, inv_inviter_id = inviter,
                       inv_inviter_username = inviter_username, inv_hub_relay_id = hub,
                       inv_invited_at = now_ms c, inv_expires_at = now_ms c + INVITE_TTL_MS\<rparr>
         in ([GaEvent (GeInviteReceived invite)],
             m\<lparr>mgr_pending_invites := hm_insert gid invite (mgr_pending_invites m)\<rparr>)))"

definition accept_invite :: "ctx \<Rightarrow> group_id \<Rightarrow> group_manager \<Rightarrow> group_action list \<times> group_manager" where
  "accept_invite c gid m =
     (case hm_get (mgr_pending_invites m) gid of
        None \<Rightarrow> ([], m)
      | Some invite \<Rightarrow>
          let m = m\<lparr>mgr_pending_invites := hm_remove gid (mgr_pending_invites m)\<rparr>
          in if invite_is_expired invite (now_ms c) then ([], m)
             else ([GaSend (inv_hub_relay_id invite) (GpJoin gid (mgr_local_username m))], m))"

definition rejoin_groups :: "group_manager \<Rightarrow> group_action list" where
  "rejoin_groups m =
     concat (map (\<lambda>(_, g).
         [GaSend (gi_hub_relay_id g) (GpJoin (gi_group_id g) (mgr_local_username m)),
          GaSend (gi_hub_relay_id g) (GpSyncRequest (gi_group_id g) (last_seq m (gi_group_id g)))])
       (mgr_groups m))"

definition decline_invite :: "group_id \<Rightarrow> group_manager \<Rightarrow> bool \<times> group_manager" where
  "decline_invite gid m =
     (hm_contains (mgr_pending_invites m) gid,
      m\<lparr>mgr_pending_invites := hm_remove gid (mgr_pending_invites m)\<rparr>)"

definition cleanup_expired_invites :: "ctx \<Rightarrow> group_manager \<Rightarrow> nat \<times> group_manager" where
  "cleanup_expired_invites c m =
     (let kept = hm_retain (\<lambda>_ i. \<not> invite_is_expired i (now_ms c)) (mgr_pending_invites m)
      in (length (mgr_pending_invites m) - length kept, m\<lparr>mgr_pending_invites := kept\<rparr>))"

definition handle_group_sync ::
  "crypto_api \<Rightarrow> ctx \<Rightarrow> mgr_rand \<Rightarrow> group_info \<Rightarrow> group_message list \<Rightarrow> group_manager
     \<Rightarrow> group_action list \<times> group_manager" where
  "handle_group_sync api c rnd info recent m =
     (let gid = gi_group_id info;
          history = fold (\<lambda>msg h. if length h < mgr_max_history_per_group m then h @ [msg] else h) recent
                      (hm_or (mgr_message_history m) gid []);
          m = m\<lparr>mgr_groups := hm_insert gid info (mgr_groups m),
                mgr_message_history := hm_insert gid history (mgr_message_history m)\<rparr>;
          m = generate_local_sender_key c rnd gid m
      in (GaEvent (GeJoined gid (gi_name info)) # build_sender_key_distribution api rnd gid m, m))"

definition handle_member_joined ::
  "crypto_api \<Rightarrow> ctx \<Rightarrow> mgr_rand \<Rightarrow> group_id \<Rightarrow> group_member \<Rightarrow> group_manager
     \<Rightarrow> group_action list \<times> group_manager" where
  "handle_member_joined api c rnd gid member m =
     (case hm_get (mgr_groups m) gid of
        None \<Rightarrow> ([], m)
      | Some grp \<Rightarrow>
          if is_member grp (gm_node_id member) then ([], m)
          else
            (let grp = grp\<lparr>gi_members := gi_members grp @ [member], gi_last_activity_at := now_ms c\<rparr>;
                 m = m\<lparr>mgr_groups := hm_insert gid grp (mgr_groups m)\<rparr>
             in (GaEvent (GeMemberJoined gid member) # build_sender_key_distribution api rnd gid m, m)))"

definition forget_group :: "group_id \<Rightarrow> group_manager \<Rightarrow> group_manager" where
  "forget_group gid m =
     (let m = m\<lparr>mgr_groups := hm_remove gid (mgr_groups m),
                mgr_message_history := hm_remove gid (mgr_message_history m)\<rparr>;
          m = cleanup_group_keys gid m
      in m\<lparr>mgr_shadow_state := hm_remove gid (mgr_shadow_state m)\<rparr>)"

definition handle_member_left ::
  "crypto_api \<Rightarrow> ctx \<Rightarrow> mgr_rand \<Rightarrow> group_id \<Rightarrow> node_id \<Rightarrow> string \<Rightarrow> leave_reason \<Rightarrow> group_manager
     \<Rightarrow> group_action list \<times> group_manager" where
  "handle_member_left api c rnd gid n username reason m =
     (if n = mgr_local_id m \<and> reason = Kicked
      then ([GaEvent (GeMemberLeft gid n username reason)], forget_group gid m)
      else (case hm_get (mgr_groups m) gid of
          None \<Rightarrow> ([], m)
        | Some grp \<Rightarrow>
            let grp = grp\<lparr>gi_members := filter (\<lambda>x. gm_node_id x \<noteq> n) (gi_members grp),
                          gi_last_activity_at := now_ms c\<rparr>;
                m = m\<lparr>mgr_groups := hm_insert gid grp (mgr_groups m),
                      mgr_sender_keys := hm_modify gid (hm_remove n) (mgr_sender_keys m)\<rparr>;
                (acts, m) = rotate_sender_key api c rnd gid m
            in (GaEvent (GeMemberLeft gid n username reason) # acts, m)))"

definition handle_member_role_changed ::
  "ctx \<Rightarrow> group_id \<Rightarrow> node_id \<Rightarrow> group_member_role \<Rightarrow> group_manager \<Rightarrow> group_action list \<times> group_manager" where
  "handle_member_role_changed c gid n r m =
     (case hm_get (mgr_groups m) gid of
        None \<Rightarrow> ([], m)
      | Some grp \<Rightarrow>
          ([GaEvent (GeMemberRoleChanged gid n r)],
           m\<lparr>mgr_groups := hm_insert gid
               (grp\<lparr>gi_members := set_role n r (gi_members grp),
                    gi_last_activity_at := now_ms c\<rparr>) (mgr_groups m)\<rparr>))"

definition leave_group :: "group_id \<Rightarrow> group_manager \<Rightarrow> group_action list \<times> group_manager" where
  "leave_group gid m =
     (case hm_get (mgr_groups m) gid of
        None \<Rightarrow> ([], m)
      | Some grp \<Rightarrow> ([GaSend (gi_hub_relay_id grp) (GpLeave gid)], forget_group gid m))"

definition handle_hub_migration ::
  "ctx \<Rightarrow> group_id \<Rightarrow> node_id \<Rightarrow> group_manager \<Rightarrow> group_action list \<times> group_manager" where
  "handle_hub_migration c gid new_hub m =
     (case hm_get (mgr_groups m) gid of
        None \<Rightarrow> ([], m)
      | Some grp \<Rightarrow>
          ([GaEvent (GeHubMigrated gid new_hub)],
           m\<lparr>mgr_groups := hm_insert gid
               (grp\<lparr>gi_hub_relay_id := new_hub, gi_last_activity_at := now_ms c\<rparr>) (mgr_groups m)\<rparr>))"

definition mgr_purge_expired_sender_keys :: "u64 \<Rightarrow> u64 \<Rightarrow> group_manager \<Rightarrow> nat \<times> group_manager" where
  "mgr_purge_expired_sender_keys now max_age m =
     (let cutoff = saturating_sub now max_age;
          locals = hm_retain (\<lambda>_ e. cutoff \<le> ske_created_at e) (mgr_local_sender_keys m);
          keys = hm_map_values (hm_retain (\<lambda>_ e. cutoff \<le> ske_created_at e)) (mgr_sender_keys m);
          prevs = hm_map_values (hm_retain (\<lambda>_ p. cutoff \<le> ske_created_at (psk_entry p) \<and>
                                               now \<le> psk_grace_until_ms p)) (mgr_previous_sender_keys m)
      in (length (mgr_local_sender_keys m) - length locals +
          (sum_list (map (length \<circ> snd) (mgr_sender_keys m)) - sum_list (map (length \<circ> snd) keys)) +
          (sum_list (map (length \<circ> snd) (mgr_previous_sender_keys m)) - sum_list (map (length \<circ> snd) prevs)),
          m\<lparr>mgr_local_sender_keys := locals,
            mgr_sender_keys := hm_retain (\<lambda>_ ks. ks \<noteq> []) keys,
            mgr_previous_sender_keys := hm_retain (\<lambda>_ ps. ps \<noteq> []) prevs\<rparr>))"

subsection \<open>The shadow of a hub\<close>

definition handle_shadow_sync ::
  "group_id \<Rightarrow> group_member list \<Rightarrow> node_id option \<Rightarrow> u64 \<Rightarrow> group_manager
     \<Rightarrow> group_action list \<times> group_manager" where
  "handle_shadow_sync gid members candidate version m =
     (if \<not> hm_contains (mgr_groups m) gid then ([], m)
      else ([], m\<lparr>mgr_shadow_state := hm_insert gid
                   \<lparr>ss_members = members, ss_candidate_id = candidate, ss_config_version = version,
                    ss_ping_failures = 0, ss_unreachable_reports = 0\<rparr> (mgr_shadow_state m)\<rparr>))"

definition should_promote :: "group_id \<Rightarrow> group_manager \<Rightarrow> bool" where
  "should_promote gid m =
     (case hm_get (mgr_shadow_state m) gid of
        None \<Rightarrow> False
      | Some st \<Rightarrow>
          let total_signals = ss_ping_failures st + ss_unreachable_reports st
          in SHADOW_PING_FAILURE_THRESHOLD \<le> ss_ping_failures st \<or>
             1 \<le> ss_ping_failures st \<and> 2 \<le> total_signals)"

definition promote_to_primary :: "group_id \<Rightarrow> group_manager \<Rightarrow> group_action list \<times> group_manager" where
  "promote_to_primary gid m =
     (case hm_get (mgr_shadow_state m) gid of
        None \<Rightarrow> ([], m)
      | Some st \<Rightarrow>
          let m = m\<lparr>mgr_shadow_state := hm_remove gid (mgr_shadow_state m)\<rparr>
          in (case hm_get (mgr_groups m) gid of
                None \<Rightarrow> ([], m)
              | Some grp \<Rightarrow>
                  let new = grp\<lparr>gi_hub_relay_id := mgr_local_id m, gi_members := ss_members st,
                                gi_shadow_id := None, gi_candidate_id := None\<rparr>
                  in ([GaBroadcast
                         (filter (\<lambda>n. n \<noteq> mgr_local_id m) (map gm_node_id (gi_members new)))
                         (GpHubMigration gid (mgr_local_id m) (gi_hub_relay_id grp))],
                      m\<lparr>mgr_groups := hm_insert gid new (mgr_groups m)\<rparr>)))"

definition record_ping_failure :: "group_id \<Rightarrow> group_manager \<Rightarrow> group_action list \<times> group_manager" where
  "record_ping_failure gid m =
     (if \<not> hm_contains (mgr_shadow_state m) gid then ([], m)
      else
        (let m = m\<lparr>mgr_shadow_state := hm_modify gid
                     (\<lambda>st. st\<lparr>ss_ping_failures := ss_ping_failures st + 1\<rparr>) (mgr_shadow_state m)\<rparr>
         in if should_promote gid m then promote_to_primary gid m else ([], m)))"

definition handle_hub_unreachable :: "group_id \<Rightarrow> node_id \<Rightarrow> group_manager \<Rightarrow> group_action list \<times> group_manager" where
  "handle_hub_unreachable gid reporter m =
     (if \<not> hm_contains (mgr_shadow_state m) gid then ([], m)
      else
        (let m = m\<lparr>mgr_shadow_state := hm_modify gid
                     (\<lambda>st. st\<lparr>ss_unreachable_reports := ss_unreachable_reports st + 1\<rparr>)
                     (mgr_shadow_state m)\<rparr>
         in if should_promote gid m then promote_to_primary gid m else ([], m)))"

definition reset_ping_failures :: "group_id \<Rightarrow> group_manager \<Rightarrow> group_manager" where
  "reset_ping_failures gid m =
     m\<lparr>mgr_shadow_state := hm_modify gid
         (\<lambda>st. st\<lparr>ss_ping_failures := 0, ss_unreachable_reports := 0\<rparr>) (mgr_shadow_state m)\<rparr>"

definition shadow_groups :: "group_manager \<Rightarrow> (group_id \<times> node_id) list" where
  "shadow_groups m =
     List.map_filter (\<lambda>(gid, _). map_option (\<lambda>g. (gid, gi_hub_relay_id g)) (hm_get (mgr_groups m) gid))
       (mgr_shadow_state m)"

subsection \<open>Persistence\<close>

definition mgr_snapshot :: "group_manager \<Rightarrow> group_manager_snapshot" where
  "mgr_snapshot m =
     \<lparr>gms_groups = mgr_groups m, gms_local_sender_keys = mgr_local_sender_keys m,
      gms_sender_keys = mgr_sender_keys m, gms_previous_sender_keys = mgr_previous_sender_keys m,
      gms_local_sender_message_counts = mgr_local_sender_message_counts m,
      gms_message_history = mgr_message_history m, gms_last_seqs = mgr_last_seqs m\<rparr>"

definition mgr_restore :: "group_manager_snapshot \<Rightarrow> group_manager \<Rightarrow> group_manager" where
  "mgr_restore s m =
     m\<lparr>mgr_groups := gms_groups s, mgr_local_sender_keys := gms_local_sender_keys s,
       mgr_sender_keys := gms_sender_keys s, mgr_previous_sender_keys := gms_previous_sender_keys s,
       mgr_local_sender_message_counts := gms_local_sender_message_counts s,
       mgr_message_history := fold (\<lambda>gid h. hm_ensure gid [] h) (hm_keys (gms_groups s)) (gms_message_history s),
       mgr_last_seqs := gms_last_seqs s\<rparr>"

subsection \<open>Lemmas: delivery\<close>

lemma hm_or_insert [simp]: "hm_or (hm_insert k v m) k' d = (if k' = k then v else hm_or m k' d)"
  by (simp add: hm_or_def hm_simps)

text \<open>What delivering a message leaves alone.\<close>

definition same_keys :: "group_manager \<Rightarrow> group_manager \<Rightarrow> bool" where
  "same_keys m m' \<longleftrightarrow>
     mgr_local_id m' = mgr_local_id m \<and> mgr_sender_keys m' = mgr_sender_keys m \<and>
     mgr_previous_sender_keys m' = mgr_previous_sender_keys m \<and>
     mgr_local_sender_keys m' = mgr_local_sender_keys m \<and>
     mgr_max_history_per_group m' = mgr_max_history_per_group m \<and>
     hm_keys (mgr_groups m') = hm_keys (mgr_groups m)"

lemma same_keys_trans: "same_keys m1 m2 \<Longrightarrow> same_keys m2 m3 \<Longrightarrow> same_keys m1 m3"
  by (simp add: same_keys_def)

lemma same_keys_groups: "same_keys m m' \<Longrightarrow> hm_contains (mgr_groups m') gid = hm_contains (mgr_groups m) gid"
  unfolding same_keys_def hm_contains_keys by simp

lemma deliver_message_same: "same_keys m (snd (deliver_message c msg m))"
  by (simp add: deliver_message_def Let_def same_keys_def)

lemma deliver_decrypted_same: "same_keys m (snd (deliver_decrypted_message api cp c msg key m))"
  using deliver_message_same
  by (auto simp: deliver_decrypted_message_def same_keys_def split: sum.split)

lemma try_decrypt_same: "same_keys m (snd (try_decrypt_and_deliver api cp c msg m))"
  using deliver_message_same deliver_decrypted_same
  by (auto simp: try_decrypt_and_deliver_def Let_def same_keys_def split: option.split)

lemma retry_pending_same: "same_keys m (snd (retry_pending api cp c src msgs m))"
proof (induction msgs arbitrary: m)
  case Nil
  then show ?case by (simp add: same_keys_def)
next
  case (Cons msg msgs)
  then show ?case
    using try_decrypt_same [of m api cp c msg] by (auto simp: case_prod_beta Let_def intro: same_keys_trans)
qed

lemma deliver_message_known:
  "hm_contains (mgr_groups m) (msg_group_id msg) \<Longrightarrow>
   fst (deliver_message c msg m) = [GaEvent (GeMessageReceived msg)]"
  by (simp add: deliver_message_def Let_def)

text \<open>A message encrypted under the current key of its sender is opened and delivered.\<close>

lemma message_opens:
  assumes "hm_contains (mgr_groups m) (msg_group_id msg)" and "msg_encrypted msg"
    and "hm_get (hm_or (mgr_sender_keys m) (msg_group_id msg) []) (msg_sender_id msg) = Some entry"
    and "ske_epoch entry = msg_key_epoch msg"
    and "group_message_decrypt api cp msg (ske_key entry) = Inr content"
  shows "fst (mgr_handle_message api cp c msg m) =
    [GaEvent (GeMessageReceived (msg\<lparr>msg_sender_username := gmc_username content, msg_text := gmc_text content\<rparr>))]"
  using assms
  by (simp add: mgr_handle_message_def try_decrypt_and_deliver_def Let_def deliver_decrypted_message_def
      deliver_message_known)

subsection \<open>Lemmas: key distribution\<close>

lemma encrypted_keys_for_in:
  assumes "ek \<in> set (encrypted_keys_for api rnd self key ms)"
  shows "esk_recipient_id ek \<noteq> self \<and> esk_recipient_id ek \<in> gm_node_id ` set ms \<and>
    encrypt api (rnd_ephemeral rnd (esk_recipient_id ek)) (rnd_nonce rnd (esk_recipient_id ek)) key
      (as_bytes (esk_recipient_id ek)) = Inr (esk_encrypted_key ek)"
  using assms
  by (auto simp: encrypted_keys_for_def List.map_filter_def split: if_splits sum.splits)

lemma sender_key_decrypts:
  assumes "aead_correct api" and "dh_symmetric api" and "key_conversion api"
    and "ek \<in> set (encrypted_keys_for api rnd self key ms)"
    and "as_bytes (esk_recipient_id ek) = ed_public api seed"
  shows "decrypt api (esk_encrypted_key ek) seed = Inr key"
  using assms(5) encrypted_keys_for_in [OF assms(4)] encrypt_decrypt [OF assms(1-3)] by metis

lemma store_sender_key_simps:
  "mgr_sender_keys (store_sender_key c gid src entry m) =
     hm_insert gid (hm_insert src entry (hm_or (mgr_sender_keys m) gid [])) (mgr_sender_keys m)"
  "mgr_groups (store_sender_key c gid src entry m) = mgr_groups m"
  by (simp_all add: store_sender_key_def Let_def split: option.split)

text \<open>Storing a received key: the entry is there afterwards, unless a newer one was.\<close>

lemma distribution_stores:
  assumes "esk_recipient_id ek = mgr_local_id m" and "decrypt api (esk_encrypted_key ek) seed = Inr key"
    and "length key = 32"
    and "\<And>e. hm_get (hm_or (mgr_sender_keys m) gid []) src = Some e \<Longrightarrow> ske_epoch e \<le> epoch"
  shows "hm_get (hm_or (mgr_sender_keys (snd (mgr_handle_sender_key_distribution api cp c gid src epoch [ek] seed m))) gid []) src
      = Some \<lparr>ske_owner_id = src, ske_key = key, ske_epoch = epoch, ske_created_at = now_ms c\<rparr>"
    and "hm_contains (mgr_groups (snd (mgr_handle_sender_key_distribution api cp c gid src epoch [ek] seed m))) k =
      hm_contains (mgr_groups m) k"
proof -
  let ?e = "\<lparr>ske_owner_id = src, ske_key = key, ske_epoch = epoch, ske_created_at = now_ms c\<rparr>"
  let ?m1 = "store_sender_key c gid src ?e m"
  let ?pend = "hm_or (mgr_pending_decrypt ?m1) gid []"
  let ?m2 = "?m1\<lparr>mgr_pending_decrypt := hm_remove gid (mgr_pending_decrypt ?m1)\<rparr>"
  let ?m3 = "snd (retry_pending api cp c src ?pend ?m2)"
  have fresh: "\<not> (case hm_get (hm_or (mgr_sender_keys m) gid []) src of None \<Rightarrow> False | Some e \<Rightarrow> epoch < ske_epoch e)"
    using assms(4) by (auto split: option.split simp: not_less)
  have res: "mgr_sender_keys (snd (mgr_handle_sender_key_distribution api cp c gid src epoch [ek] seed m)) = mgr_sender_keys ?m3"
    "mgr_groups (snd (mgr_handle_sender_key_distribution api cp c gid src epoch [ek] seed m)) = mgr_groups ?m3"
    using assms(1-3) fresh
    by (simp_all add: mgr_handle_sender_key_distribution_def Let_def case_prod_beta)
  have same: "same_keys ?m2 ?m3" by (rule retry_pending_same)
  show "hm_get (hm_or (mgr_sender_keys (snd (mgr_handle_sender_key_distribution api cp c gid src epoch [ek] seed m))) gid []) src = Some ?e"
    using same by (simp add: res same_keys_def store_sender_key_simps hm_simps)
  show "hm_contains (mgr_groups (snd (mgr_handle_sender_key_distribution api cp c gid src epoch [ek] seed m))) k =
      hm_contains (mgr_groups m) k"
    using same_keys_groups [OF same] by (simp add: res store_sender_key_simps)
qed

end
