(* ===== verification/Tom_MemberSafety.thy ===== *)
theory Tom_MemberSafety
  imports Tom_GroupManager
begin

section \<open>The group manager: safety\<close>

text \<open>
  Properties of the member side of groups over all calls of the manager: the manager as an
  event machine with a well-formedness invariant (one entry per key, bounded histories, local
  keys and shadow states only for known groups), re-keying when a member departs, epochs of
  received keys that never go back, and the rule by which a shadow promotes itself to hub.
\<close>

subsection \<open>The manager as a machine\<close>

datatype mgr_event =
    MgrGroupCreated ctx mgr_rand group_info
  | MgrInvite ctx group_id string node_id string node_id
  | MgrAccept ctx group_id
  | MgrDecline group_id
  | MgrCleanupInvites ctx
  | MgrSync ctx mgr_rand group_info "group_message list"
  | MgrMemberJoined ctx mgr_rand group_id group_member
  | MgrMemberLeft ctx mgr_rand group_id node_id string leave_reason
  | MgrRoleChanged ctx group_id node_id group_member_role
  | MgrLeave group_id
  | MgrMessage ctx group_message
  | MgrHubMigration ctx group_id node_id
  | MgrNoteSent group_id
  | MgrMaybeRotate ctx mgr_rand group_id
  | MgrRotate ctx mgr_rand group_id
  | MgrDistribution ctx group_id node_id u32 "encrypted_sender_key list" bytes
  | MgrPurge u64 u64
  | MgrShadowSync group_id "group_member list" "node_id option" u64
  | MgrPingFailure group_id
  | MgrUnreachable group_id node_id
  | MgrResetPings group_id
  | MgrSetLastSeq group_id u64

fun mgr_step :: "crypto_api \<Rightarrow> group_message_content pack \<Rightarrow> mgr_event \<Rightarrow> group_manager \<Rightarrow> group_manager" where
  "mgr_step api cp (MgrGroupCreated c rnd info) m = snd (handle_group_created c rnd info m)"
| "mgr_step api cp (MgrInvite c gid nm i iu hub) m = snd (handle_invite c gid nm i iu hub m)"
| "mgr_step api cp (MgrAccept c gid) m = snd (accept_invite c gid m)"
| "mgr_step api cp (MgrDecline gid) m = snd (decline_invite gid m)"
| "mgr_step api cp (MgrCleanupInvites c) m = snd (cleanup_expired_invites c m)"
| "mgr_step api cp (MgrSync c rnd info recent) m = snd (handle_group_sync api c rnd info recent m)"
| "mgr_step api cp (MgrMemberJoined c rnd gid mem) m = snd (handle_member_joined api c rnd gid mem m)"
| "mgr_step api cp (MgrMemberLeft c rnd gid n u r) m = snd (handle_member_left api c rnd gid n u r m)"
| "mgr_step api cp (MgrRoleChanged c gid n r) m = snd (handle_member_role_changed c gid n r m)"
| "mgr_step api cp (MgrLeave gid) m = snd (leave_group gid m)"
| "mgr_step api cp (MgrMessage c msg) m = snd (mgr_handle_message api cp c msg m)"
| "mgr_step api cp (MgrHubMigration c gid h) m = snd (handle_hub_migration c gid h m)"
| "mgr_step api cp (MgrNoteSent gid) m = note_local_message_sent gid m"
| "mgr_step api cp (MgrMaybeRotate c rnd gid) m = snd (maybe_rotate_local_sender_key api c rnd gid m)"
| "mgr_step api cp (MgrRotate c rnd gid) m = snd (rotate_sender_key api c rnd gid m)"
| "mgr_step api cp (MgrDistribution c gid src ep eks seed) m =
     snd (mgr_handle_sender_key_distribution api cp c gid src ep eks seed m)"
| "mgr_step api cp (MgrPurge now age) m = snd (mgr_purge_expired_sender_keys now age m)"
| "mgr_step api cp (MgrShadowSync gid ms cand v) m = snd (handle_shadow_sync gid ms cand v m)"
| "mgr_step api cp (MgrPingFailure gid) m = snd (record_ping_failure gid m)"
| "mgr_step api cp (MgrUnreachable gid r) m = snd (handle_hub_unreachable gid r m)"
| "mgr_step api cp (MgrResetPings gid) m = reset_ping_failures gid m"
| "mgr_step api cp (MgrSetLastSeq gid s) m = set_last_seq gid s m"

subsection \<open>Well-formedness\<close>

definition keyed :: "(group_id, group_info) hmap \<Rightarrow> bool" where
  "keyed gs \<longleftrightarrow> hm_wf gs \<and> (\<forall>gid g. hm_get gs gid = Some g \<longrightarrow> gi_group_id g = gid)"

definition bounded_histories :: "nat \<Rightarrow> (group_id, group_message list) hmap \<Rightarrow> bool" where
  "bounded_histories n h \<longleftrightarrow> (\<forall>gid ms. hm_get h gid = Some ms \<longrightarrow> length ms \<le> n)"

definition own_keys :: "node_id \<Rightarrow> (group_id, group_info) hmap \<Rightarrow> (group_id, sender_key_entry) hmap \<Rightarrow> bool" where
  "own_keys self gs ks \<longleftrightarrow> hm_wf ks \<and>
     (\<forall>gid e. hm_get ks gid = Some e \<longrightarrow> hm_contains gs gid \<and> ske_owner_id e = self)"

definition shadows_known :: "(group_id, group_info) hmap \<Rightarrow> (group_id, shadow_state) hmap \<Rightarrow> bool" where
  "shadows_known gs ss \<longleftrightarrow> (\<forall>gid. hm_contains ss gid \<longrightarrow> hm_contains gs gid)"

definition mgr_wf :: "group_manager \<Rightarrow> bool" where
  "mgr_wf m \<longleftrightarrow>
     mgr_max_history_per_group m = MAX_SYNC_MESSAGES \<and>
     keyed (mgr_groups m) \<and>
     bounded_histories (mgr_max_history_per_group m) (mgr_message_history m) \<and>
     own_keys (mgr_local_id m) (mgr_groups m) (mgr_local_sender_keys m) \<and>
     shadows_known (mgr_groups m) (mgr_shadow_state m)"

lemma mgr_wfI:
  assumes "mgr_wf m" and "mgr_local_id m' = mgr_local_id m"
    and "mgr_max_history_per_group m' = mgr_max_history_per_group m"
    and "keyed (mgr_groups m) \<Longrightarrow> keyed (mgr_groups m')"
    and "bounded_histories (mgr_max_history_per_group m) (mgr_message_history m) \<Longrightarrow>
      bounded_histories (mgr_max_history_per_group m) (mgr_message_history m')"
    and "own_keys (mgr_local_id m) (mgr_groups m) (mgr_local_sender_keys m) \<Longrightarrow>
      own_keys (mgr_local_id m) (mgr_groups m') (mgr_local_sender_keys m')"
    and "shadows_known (mgr_groups m) (mgr_shadow_state m) \<Longrightarrow> shadows_known (mgr_groups m') (mgr_shadow_state m')"
  shows "mgr_wf m'"
  using assms unfolding mgr_wf_def by metis

named_theorems mgr_parts \<open>how the parts of the invariant react to map operations\<close>

lemma keyed_insert [mgr_parts]: "keyed gs \<Longrightarrow> gi_group_id g = gid \<Longrightarrow> keyed (hm_insert gid g gs)"
  by (simp add: keyed_def hm_simps hm_wfs)

lemma keyed_remove [mgr_parts]: "keyed gs \<Longrightarrow> keyed (hm_remove gid gs)"
  by (simp add: keyed_def hm_simps hm_wfs)

lemma keyed_modify [mgr_parts]: "keyed gs \<Longrightarrow> (\<And>g. gi_group_id (f g) = gi_group_id g) \<Longrightarrow> keyed (hm_modify gid f gs)"
  by (auto simp: keyed_def hm_simps)

lemma keyed_get: "keyed gs \<Longrightarrow> hm_get gs gid = Some g \<Longrightarrow> gi_group_id g = gid"
  by (simp add: keyed_def)

lemma bounded_insert [mgr_parts]: "bounded_histories n h \<Longrightarrow> length ms \<le> n \<Longrightarrow> bounded_histories n (hm_insert gid ms h)"
  by (simp add: bounded_histories_def hm_simps)

lemma bounded_remove [mgr_parts]: "bounded_histories n h \<Longrightarrow> bounded_histories n (hm_remove gid h)"
  by (simp add: bounded_histories_def hm_simps)

lemma bounded_ensure [mgr_parts]: "bounded_histories n h \<Longrightarrow> bounded_histories n (hm_ensure gid [] h)"
  by (auto simp: hm_ensure_def bounded_histories_def hm_simps split: option.split)

lemma bounded_or: "bounded_histories n h \<Longrightarrow> length (hm_or h gid []) \<le> n"
  by (auto simp: hm_or_def bounded_histories_def split: option.split)

lemma own_insert [mgr_parts]:
  "own_keys self gs ks \<Longrightarrow> hm_contains gs gid \<Longrightarrow> ske_owner_id e = self \<Longrightarrow> own_keys self gs (hm_insert gid e ks)"
  by (auto simp: own_keys_def hm_simps hm_wfs)

lemma own_remove [mgr_parts]:
  "own_keys self gs ks \<Longrightarrow> own_keys self (hm_remove gid gs) (hm_remove gid ks)"
  by (auto simp: own_keys_def hm_simps hm_wfs)

lemma own_retain [mgr_parts]: "own_keys self gs ks \<Longrightarrow> own_keys self gs (hm_retain P ks)"
  unfolding own_keys_def by (auto simp: hm_simps hm_wfs split: option.splits if_splits)

lemma shadows_remove [mgr_parts]:
  "shadows_known gs ss \<Longrightarrow> shadows_known (hm_remove gid gs) (hm_remove gid ss)"
  "shadows_known gs ss \<Longrightarrow> shadows_known gs (hm_remove gid ss)"
  by (auto simp: shadows_known_def hm_simps)

lemma shadows_insert [mgr_parts]:
  "shadows_known gs ss \<Longrightarrow> hm_contains gs gid \<Longrightarrow> shadows_known gs (hm_insert gid st ss)"
  by (auto simp: shadows_known_def hm_simps)

lemma shadows_modify [mgr_parts]: "shadows_known gs ss \<Longrightarrow> shadows_known gs (hm_modify gid f ss)"
  by (auto simp: shadows_known_def hm_simps)

lemma own_groups_kept [mgr_parts]:
  "own_keys self gs ks \<Longrightarrow> own_keys self (hm_insert gid g gs) ks"
  "own_keys self gs ks \<Longrightarrow> own_keys self (hm_modify gid f gs) ks"
  by (auto simp: own_keys_def hm_simps)

lemma shadows_groups_kept [mgr_parts]:
  "shadows_known gs ss \<Longrightarrow> shadows_known (hm_insert gid g gs) ss"
  "shadows_known gs ss \<Longrightarrow> shadows_known (hm_modify gid f gs) ss"
  by (auto simp: shadows_known_def hm_simps)

subsection \<open>Every operation keeps the invariant\<close>

named_theorems mgr_keeps \<open>operations that keep the invariant of the manager\<close>

lemma generate_wf [mgr_keeps]:
  "mgr_wf m \<Longrightarrow> hm_contains (mgr_groups m) gid \<Longrightarrow> mgr_wf (generate_local_sender_key c rnd gid m)"
  by (erule mgr_wfI) (auto simp: generate_local_sender_key_def Let_def intro!: own_insert)

lemma set_group_wf [mgr_keeps]:
  "mgr_wf m \<Longrightarrow> gi_group_id g = gid \<Longrightarrow> mgr_wf (m\<lparr>mgr_groups := hm_insert gid g (mgr_groups m)\<rparr>)"
  by (erule mgr_wfI)
    (auto intro: mgr_parts)

lemma set_history_wf [mgr_keeps]:
  "mgr_wf m \<Longrightarrow> length ms \<le> mgr_max_history_per_group m \<Longrightarrow>
   mgr_wf (m\<lparr>mgr_message_history := hm_insert gid ms (mgr_message_history m)\<rparr>)"
  by (erule mgr_wfI) (auto intro: bounded_insert)

lemma irrelevant_wf [simp]:
  "mgr_wf (m\<lparr>mgr_pending_invites := invs\<rparr>) = mgr_wf m"
  "mgr_wf (m\<lparr>mgr_sender_keys := sk\<rparr>) = mgr_wf m"
  "mgr_wf (m\<lparr>mgr_previous_sender_keys := pk\<rparr>) = mgr_wf m"
  "mgr_wf (m\<lparr>mgr_local_sender_message_counts := cs\<rparr>) = mgr_wf m"
  "mgr_wf (m\<lparr>mgr_pending_decrypt := pd\<rparr>) = mgr_wf m"
  "mgr_wf (m\<lparr>mgr_last_seqs := ls\<rparr>) = mgr_wf m"
  by (simp_all add: mgr_wf_def)

lemma mgr_wf_group: "mgr_wf m \<Longrightarrow> hm_get (mgr_groups m) gid = Some g \<Longrightarrow> gi_group_id g = gid"
  unfolding mgr_wf_def by (blast intro: keyed_get)

lemma forget_group_wf [mgr_keeps]: "mgr_wf m \<Longrightarrow> mgr_wf (forget_group gid m)"
  by (erule mgr_wfI)
    (auto simp: forget_group_def cleanup_group_keys_def Let_def
      intro: keyed_remove bounded_remove own_remove shadows_remove)

lemma deliver_message_wf [mgr_keeps]: "mgr_wf m \<Longrightarrow> mgr_wf (snd (deliver_message c msg m))"
  by (erule mgr_wfI)
    (auto simp: deliver_message_def Let_def intro!: mgr_parts)

lemma deliver_decrypted_wf [mgr_keeps]:
  "mgr_wf m \<Longrightarrow> mgr_wf (snd (deliver_decrypted_message api cp c msg key m))"
  by (simp add: deliver_decrypted_message_def deliver_message_wf split: sum.split)

lemma try_decrypt_wf [mgr_keeps]: "mgr_wf m \<Longrightarrow> mgr_wf (snd (try_decrypt_and_deliver api cp c msg m))"
  by (simp add: try_decrypt_and_deliver_def Let_def deliver_message_wf deliver_decrypted_wf split: option.split)

lemma retry_pending_wf [mgr_keeps]: "mgr_wf m \<Longrightarrow> mgr_wf (snd (retry_pending api cp c src msgs m))"
  by (induction msgs arbitrary: m) (simp_all add: case_prod_beta Let_def try_decrypt_wf)

lemma store_sender_key_wf [mgr_keeps]: "mgr_wf m \<Longrightarrow> mgr_wf (store_sender_key c gid src e m)"
  by (simp add: store_sender_key_def Let_def split: option.split)

lemma distribution_wf [mgr_keeps]:
  "mgr_wf m \<Longrightarrow> mgr_wf (snd (mgr_handle_sender_key_distribution api cp c gid src ep eks seed m))"
  by (simp add: mgr_handle_sender_key_distribution_def Let_def case_prod_beta retry_pending_wf
      store_sender_key_wf split: option.split sum.split)

lemma rotate_wf [mgr_keeps]: "mgr_wf m \<Longrightarrow> mgr_wf (snd (rotate_sender_key api c rnd gid m))"
  by (simp add: rotate_sender_key_def Let_def generate_wf)

lemma maybe_rotate_wf [mgr_keeps]:
  "mgr_wf m \<Longrightarrow> mgr_wf (snd (maybe_rotate_local_sender_key api c rnd gid m))"
proof -
  assume wf: "mgr_wf m"
  have "hm_contains (mgr_groups m) gid" if "hm_get (mgr_local_sender_keys m) gid = Some e" for e
    using wf that by (auto simp: mgr_wf_def own_keys_def)
  with wf show ?thesis
    by (simp add: maybe_rotate_local_sender_key_def Let_def generate_wf split: option.split)
qed

lemma purge_wf [mgr_keeps]: "mgr_wf m \<Longrightarrow> mgr_wf (snd (mgr_purge_expired_sender_keys now age m))"
  by (erule mgr_wfI) (auto simp: mgr_purge_expired_sender_keys_def Let_def intro: own_retain)

lemma group_created_wf [mgr_keeps]: "mgr_wf m \<Longrightarrow> mgr_wf (snd (handle_group_created c rnd info m))"
proof -
  assume "mgr_wf m"
  then have "mgr_wf (m\<lparr>mgr_groups := hm_insert (gi_group_id info) info (mgr_groups m),
      mgr_message_history := hm_ensure (gi_group_id info) [] (mgr_message_history m)\<rparr>)"
    by (rule mgr_wfI)
      (auto intro: mgr_parts)
  then show ?thesis by (simp add: handle_group_created_def Let_def generate_wf hm_simps)
qed

lemma sync_history_bound:
  "length h \<le> n \<Longrightarrow> length (fold (\<lambda>msg h. if length h < n then h @ [msg] else h) recent h) \<le> n"
  by (induction recent arbitrary: h) auto

lemma group_sync_wf [mgr_keeps]: "mgr_wf m \<Longrightarrow> mgr_wf (snd (handle_group_sync api c rnd info recent m))"
proof -
  let ?gid = "gi_group_id info"
  let ?h = "fold (\<lambda>msg h. if length h < mgr_max_history_per_group m then h @ [msg] else h) recent
              (hm_or (mgr_message_history m) ?gid [])"
  assume wf: "mgr_wf m"
  then have "length ?h \<le> mgr_max_history_per_group m"
    unfolding mgr_wf_def by (blast intro: sync_history_bound bounded_or)
  with wf have "mgr_wf (m\<lparr>mgr_groups := hm_insert ?gid info (mgr_groups m),
      mgr_message_history := hm_insert ?gid ?h (mgr_message_history m)\<rparr>)"
    using set_history_wf [OF set_group_wf [OF wf, of info ?gid], of ?h ?gid] by simp
  then show ?thesis by (simp add: handle_group_sync_def Let_def generate_wf hm_simps)
qed

lemma member_events_wf [mgr_keeps]:
  assumes "mgr_wf m"
  shows "mgr_wf (snd (handle_member_joined api c rnd gid mem m))"
    and "mgr_wf (snd (handle_member_left api c rnd gid n u reason m))"
    and "mgr_wf (snd (handle_member_role_changed c gid n r m))"
    and "mgr_wf (snd (handle_hub_migration c gid h m))"
    and "mgr_wf (snd (leave_group gid m))"
    and "mgr_wf (snd (mgr_handle_message api cp c msg m))"
  using assms
  by (auto simp: handle_member_joined_def handle_member_left_def handle_member_role_changed_def
      handle_hub_migration_def leave_group_def mgr_handle_message_def Let_def case_prod_beta
      mgr_wf_group [OF assms]
      intro!: set_group_wf rotate_wf forget_group_wf try_decrypt_wf split: option.split)

lemma invite_events_wf [mgr_keeps]:
  assumes "mgr_wf m"
  shows "mgr_wf (snd (handle_invite c gid nm i iu hub m))" and "mgr_wf (snd (accept_invite c gid m))"
    and "mgr_wf (snd (decline_invite gid m))" and "mgr_wf (snd (cleanup_expired_invites c m))"
    and "mgr_wf (note_local_message_sent gid m)" and "mgr_wf (set_last_seq gid sq m)"
  using assms
  by (simp_all add: handle_invite_def accept_invite_def decline_invite_def cleanup_expired_invites_def
      note_local_message_sent_def set_last_seq_def Let_def split: option.split)

lemma shadow_states_wf:
  assumes "mgr_wf m"
    and "shadows_known (mgr_groups m) (mgr_shadow_state m) \<Longrightarrow> shadows_known (mgr_groups m) ss"
  shows "mgr_wf (m\<lparr>mgr_shadow_state := ss\<rparr>)"
  using assms by (auto simp: mgr_wf_def)

lemma promote_wf [mgr_keeps]: "mgr_wf m \<Longrightarrow> mgr_wf (snd (promote_to_primary gid m))"
proof -
  assume wf: "mgr_wf m"
  then have wf': "mgr_wf (m\<lparr>mgr_shadow_state := hm_remove gid (mgr_shadow_state m)\<rparr>)"
    by (rule shadow_states_wf) (rule shadows_remove)
  show ?thesis
    using wf wf' mgr_wf_group [OF wf]
    by (auto simp: promote_to_primary_def Let_def intro: set_group_wf [OF wf', simplified] split: option.split)
qed

lemma shadow_events_wf [mgr_keeps]:
  assumes "mgr_wf m"
  shows "mgr_wf (snd (handle_shadow_sync gid ms cand v m))" and "mgr_wf (snd (record_ping_failure gid m))"
    and "mgr_wf (snd (handle_hub_unreachable gid r m))" and "mgr_wf (reset_ping_failures gid m)"
  using assms
  by (auto simp: handle_shadow_sync_def record_ping_failure_def handle_hub_unreachable_def
      reset_ping_failures_def Let_def
      intro!: shadow_states_wf promote_wf shadows_insert shadows_modify)

interpretation manager_machine: event_machine "mgr_step api cp" "\<lambda>_. True" mgr_wf
proof
  fix e s
  assume "mgr_wf s"
  then show "mgr_wf (mgr_step api cp e s)"
    by (cases e) (simp_all add: mgr_keeps)
qed

lemma new_manager_wf: "mgr_wf (group_manager_new n u)"
  by (simp add: group_manager_new_def mgr_wf_def keyed_def bounded_histories_def own_keys_def shadows_known_def)

subsection \<open>Re-keying\<close>

definition local_epoch :: "group_manager \<Rightarrow> group_id \<Rightarrow> u32" where
  "local_epoch m gid = (case hm_get (mgr_local_sender_keys m) gid of None \<Rightarrow> 0 | Some e \<Rightarrow> ske_epoch e)"

lemma generate_simps:
  "hm_get (mgr_local_sender_keys (generate_local_sender_key c rnd gid m)) gid =
     Some \<lparr>ske_owner_id = mgr_local_id m, ske_key = rnd_key rnd, ske_epoch = local_epoch m gid + 1,
           ske_created_at = now_ms c\<rparr>"
  "mgr_groups (generate_local_sender_key c rnd gid m) = mgr_groups m"
  "mgr_sender_keys (generate_local_sender_key c rnd gid m) = mgr_sender_keys m"
  "mgr_local_id (generate_local_sender_key c rnd gid m) = mgr_local_id m"
  by (simp_all add: generate_local_sender_key_def local_epoch_def Let_def hm_simps)

lemma encrypted_keys_set:
  "set (encrypted_keys_for api rnd self key ms) =
     {ek. esk_recipient_id ek \<in> gm_node_id ` set ms \<and> esk_recipient_id ek \<noteq> self \<and>
        encrypt api (rnd_ephemeral rnd (esk_recipient_id ek)) (rnd_nonce rnd (esk_recipient_id ek)) key
          (as_bytes (esk_recipient_id ek)) = Inr (esk_encrypted_key ek)}"
proof (intro set_eqI iffI)
  fix ek
  show "ek \<in> set (encrypted_keys_for api rnd self key ms)"
    if "ek \<in> {ek. esk_recipient_id ek \<in> gm_node_id ` set ms \<and> esk_recipient_id ek \<noteq> self \<and>
        encrypt api (rnd_ephemeral rnd (esk_recipient_id ek)) (rnd_nonce rnd (esk_recipient_id ek)) key
          (as_bytes (esk_recipient_id ek)) = Inr (esk_encrypted_key ek)}"
    using that by (cases ek) (force simp: encrypted_keys_for_def List.map_filter_def)
qed (auto simp: encrypted_keys_for_def List.map_filter_def split: if_splits sum.splits)

text \<open>
  C28. When another member leaves or is kicked, the manager reports it, drops the sender key it had from
  that member and makes a new sender key of its own with the next epoch. It sends one distribution
  of that key through the hub of the group, and nothing else; the distribution holds the new key encrypted for exactly
  the remaining other members that a key can be encrypted for, so the departed member gets no copy. There
  is no distribution only if there is nobody left to encrypt the key for.
\<close>

theorem departed_member_gets_no_key:
  assumes "hm_get (mgr_groups m) gid = Some grp" and "\<not> (n = mgr_local_id m \<and> reason = Kicked)"
  shows "let (acts, m') = handle_member_left api c rnd gid n u reason m
    in hm_get (mgr_local_sender_keys m') gid =
         Some \<lparr>ske_owner_id = mgr_local_id m, ske_key = rnd_key rnd, ske_epoch = local_epoch m gid + 1,
               ske_created_at = now_ms c\<rparr> \<and>
       (\<exists>g'. hm_get (mgr_groups m') gid = Some g' \<and> \<not> is_member g' n) \<and>
       hm_get (hm_or (mgr_sender_keys m') gid []) n = None \<and>
       (\<exists>eks. acts = GaEvent (GeMemberLeft gid n u reason) #
            (if eks = [] then []
             else [GaSend (gi_hub_relay_id grp) (GpSenderKeyDistribution gid (mgr_local_id m) (local_epoch m gid + 1) eks)]) \<and>
          set eks =
            {ek. esk_recipient_id ek \<in> gm_node_id ` set (gi_members grp) \<and> esk_recipient_id ek \<noteq> n \<and>
                 esk_recipient_id ek \<noteq> mgr_local_id m \<and>
                 encrypt api (rnd_ephemeral rnd (esk_recipient_id ek)) (rnd_nonce rnd (esk_recipient_id ek)) (rnd_key rnd)
                   (as_bytes (esk_recipient_id ek)) = Inr (esk_encrypted_key ek)})"
proof -
  let ?ms = "filter (\<lambda>x. gm_node_id x \<noteq> n) (gi_members grp)"
  let ?grp = "grp\<lparr>gi_members := ?ms, gi_last_activity_at := now_ms c\<rparr>"
  let ?m = "m\<lparr>mgr_groups := hm_insert gid ?grp (mgr_groups m),
              mgr_sender_keys := hm_modify gid (hm_remove n) (mgr_sender_keys m)\<rparr>"
  let ?m' = "generate_local_sender_key c rnd gid ?m"
  let ?eks = "encrypted_keys_for api rnd (mgr_local_id m) (rnd_key rnd) ?ms"
  have ep: "local_epoch ?m gid = local_epoch m gid" by (simp add: local_epoch_def)
  have res: "handle_member_left api c rnd gid n u reason m =
      (GaEvent (GeMemberLeft gid n u reason) # build_sender_key_distribution api rnd gid ?m', ?m')"
    using assms by (auto simp: handle_member_left_def rotate_sender_key_def Let_def hm_simps)
  have gone: "hm_get (hm_or (hm_modify gid (hm_remove n) (mgr_sender_keys m)) gid []) n = None"
    by (simp add: hm_or_def hm_simps split: option.split)
  have dist: "build_sender_key_distribution api rnd gid ?m' =
      (if ?eks = [] then []
       else [GaSend (gi_hub_relay_id grp) (GpSenderKeyDistribution gid (mgr_local_id m) (local_epoch m gid + 1) ?eks)])"
    by (simp add: build_sender_key_distribution_def generate_simps ep hm_simps Let_def)
  have eks: "set ?eks =
      {ek. esk_recipient_id ek \<in> gm_node_id ` set (gi_members grp) \<and> esk_recipient_id ek \<noteq> n \<and>
           esk_recipient_id ek \<noteq> mgr_local_id m \<and>
           encrypt api (rnd_ephemeral rnd (esk_recipient_id ek)) (rnd_nonce rnd (esk_recipient_id ek)) (rnd_key rnd)
             (as_bytes (esk_recipient_id ek)) = Inr (esk_encrypted_key ek)}"
    unfolding encrypted_keys_set by auto
  have "\<exists>g'. hm_get (mgr_groups ?m') gid = Some g' \<and> \<not> is_member g' n"
    by (auto simp: generate_simps hm_simps member_simps)
  then show ?thesis
    using gone eks by (auto simp only: res dist Let_def split: prod.split) (auto simp: generate_simps ep hm_simps)
qed

definition demo_grp :: group_info where
  "demo_grp =
     \<lparr>gi_group_id = GroupId ''g'', gi_name = ''team'', gi_hub_relay_id = NodeId 9, gi_backup_hub_id = None,
      gi_members = map (\<lambda>i. \<lparr>gm_node_id = NodeId i, gm_username = ''u'', gm_joined_at = 0, gm_role = Member\<rparr>)
                     [1, 2, 3],
      gi_created_by = NodeId 1, gi_created_at = 0, gi_last_activity_at = 0, gi_max_members = 50,
      gi_shadow_id = None, gi_candidate_id = None, gi_invite_only = False\<rparr>"

definition demo_rnd :: mgr_rand where
  "demo_rnd = \<lparr>rnd_key = replicate 32 5, rnd_ephemeral = (\<lambda>_. replicate 32 3), rnd_nonce = (\<lambda>_. replicate 24 1)\<rparr>"

definition demo_clock :: ctx where
  "demo_clock = \<lparr>now_ms = 1000, now_instant = 0, fresh_uuid = ''id''\<rparr>"

definition demo_content_pack :: "group_message_content pack" where
  "demo_content_pack =
     \<lparr>pack_vec = (\<lambda>p. enc_nats (put_string (gmc_username p) @ put_string (gmc_text p) @ [])),
      unpack_slice = (\<lambda>b. let (u, r) = get_string (dec_nats 0 b); (t, r) = get_string r
                           in if r = [] then Inr \<lparr>gmc_username = u, gmc_text = t\<rparr> else Inl ''trailing bytes'')\<rparr>"

lemma demo_content_pack_ok: "pack_ok demo_content_pack"
  by (simp add: pack_ok_def demo_content_pack_def del: append_Nil2)

definition demo_manager :: group_manager where
  "demo_manager = (group_manager_new (NodeId 1) ''ann'')\<lparr>mgr_groups := [(GroupId ''g'', demo_grp)]\<rparr>"

theorem departed_member_gets_no_key_witness:
  "\<exists>eks m'. handle_member_left demo_crypto demo_clock demo_rnd (GroupId ''g'') (NodeId 3) ''u'' Voluntary demo_manager =
       ([GaEvent (GeMemberLeft (GroupId ''g'') (NodeId 3) ''u'' Voluntary),
         GaSend (NodeId 9) (GpSenderKeyDistribution (GroupId ''g'') (NodeId 1) 1 eks)], m') \<and>
     esk_recipient_id ` set eks = {NodeId 2} \<and>
     map_option ske_epoch (hm_get (mgr_local_sender_keys m') (GroupId ''g'')) = Some 1"
proof -
  let ?r = "handle_member_left demo_crypto demo_clock demo_rnd (GroupId ''g'') (NodeId 3) ''u'' Voluntary demo_manager"
  let ?enc = "\<lambda>r. encrypt demo_crypto (rnd_ephemeral demo_rnd r) (rnd_nonce demo_rnd r) (rnd_key demo_rnd) (as_bytes r)"
  have "hm_get (mgr_groups demo_manager) (GroupId ''g'') = Some demo_grp"
    "\<not> (NodeId 3 = mgr_local_id demo_manager \<and> Voluntary = Kicked)"
    by (simp_all add: demo_manager_def)
  note rekeyed = departed_member_gets_no_key [OF this, of demo_crypto demo_clock demo_rnd "''u''",
      unfolded Let_def case_prod_beta]
  have demo: "local_epoch demo_manager (GroupId ''g'') = 0" "gi_hub_relay_id demo_grp = NodeId 9"
    "mgr_local_id demo_manager = NodeId 1" "gm_node_id ` set (gi_members demo_grp) = {NodeId 1, NodeId 2, NodeId 3}"
    by (simp_all add: demo_manager_def demo_grp_def local_epoch_def group_manager_new_def)
  obtain ct where ct: "?enc (NodeId 2) = Inr ct"
    by (auto simp: encrypt_def ed25519_to_x25519_public_def demo_crypto_def Let_def)
  from rekeyed obtain eks where acts: "fst ?r = GaEvent (GeMemberLeft (GroupId ''g'') (NodeId 3) ''u'' Voluntary) #
        (if eks = [] then [] else [GaSend (NodeId 9) (GpSenderKeyDistribution (GroupId ''g'') (NodeId 1) 1 eks)])"
    and raw: "set eks = {ek. esk_recipient_id ek \<in> {NodeId 1, NodeId 2, NodeId 3} \<and> esk_recipient_id ek \<noteq> NodeId 3 \<and>
        esk_recipient_id ek \<noteq> NodeId 1 \<and> ?enc (esk_recipient_id ek) = Inr (esk_encrypted_key ek)}"
    unfolding demo add_0 by blast
  have eks: "set eks = {ek. esk_recipient_id ek = NodeId 2 \<and> ?enc (esk_recipient_id ek) = Inr (esk_encrypted_key ek)}"
    unfolding raw by auto
  have one: "\<lparr>esk_recipient_id = NodeId 2, esk_encrypted_key = ct\<rparr> \<in> set eks" using ct by (simp add: eks)
  have all: "esk_recipient_id ` set eks \<subseteq> {NodeId 2}" by (auto simp: eks)
  have "esk_recipient_id ` set eks = {NodeId 2}" using imageI [OF one, of esk_recipient_id] all by auto
  moreover have "eks \<noteq> []" using one by (metis list.set(1) empty_iff)
  moreover have "map_option ske_epoch (hm_get (mgr_local_sender_keys (snd ?r)) (GroupId ''g'')) = Some 1"
    using rekeyed demo by simp
  ultimately show ?thesis using acts by (intro exI [of _ eks] exI [of _ "snd ?r"]) (simp add: prod_eq_iff)
qed

subsection \<open>Epochs of received keys\<close>

definition remote_epoch :: "group_manager \<Rightarrow> group_id \<Rightarrow> node_id \<Rightarrow> nat" where
  "remote_epoch m gid src =
     (case hm_get (hm_or (mgr_sender_keys m) gid []) src of None \<Rightarrow> 0 | Some e \<Rightarrow> unat (ske_epoch e))"

text \<open>Calls that do not discard the keys of a group.\<close>

fun keeps_keys :: "group_id \<Rightarrow> mgr_event \<Rightarrow> bool" where
  "keeps_keys gid (MgrMemberLeft c rnd g n u r) = (g \<noteq> gid)"
| "keeps_keys gid (MgrLeave g) = (g \<noteq> gid)"
| "keeps_keys gid (MgrPurge now age) = False"
| "keeps_keys gid e = True"

lemma remote_epoch_same: "mgr_sender_keys m' = mgr_sender_keys m \<Longrightarrow> remote_epoch m' = remote_epoch m"
  by (simp add: remote_epoch_def fun_eq_iff)

lemma remote_epoch_le: "mgr_sender_keys m' = mgr_sender_keys m \<Longrightarrow> remote_epoch m gid src \<le> remote_epoch m' gid src"
  by (simp add: remote_epoch_def)

lemma same_keys_epoch: "same_keys m m' \<Longrightarrow> remote_epoch m' gid src = remote_epoch m gid src"
  by (simp add: same_keys_def remote_epoch_def)

lemma store_epoch:
  assumes "case hm_get (hm_or (mgr_sender_keys m) g []) from of None \<Rightarrow> True | Some old \<Rightarrow> ske_epoch old \<le> ske_epoch e"
  shows "remote_epoch m gid src \<le> remote_epoch (store_sender_key c g from e m) gid src"
  using assms by (auto simp: remote_epoch_def store_sender_key_simps hm_simps word_le_nat_alt split: option.splits)

lemma distribution_keys:
  fixes src' :: node_id and ep :: u32 and c :: ctx
  defines "entry \<equiv> \<lambda>key. \<lparr>ske_owner_id = src', ske_key = key, ske_epoch = ep, ske_created_at = now_ms c\<rparr>"
  obtains "snd (mgr_handle_sender_key_distribution api cp c g src' ep eks seed m) = m"
  | key where "case hm_get (hm_or (mgr_sender_keys m) g []) src' of None \<Rightarrow> True | Some old \<Rightarrow> ske_epoch old \<le> ep"
    and "mgr_sender_keys (snd (mgr_handle_sender_key_distribution api cp c g src' ep eks seed m)) =
      mgr_sender_keys (store_sender_key c g src' (entry key) m)"
proof (cases "find (\<lambda>ek. esk_recipient_id ek = mgr_local_id m) eks")
  case None
  then show thesis using that(1) by (simp add: mgr_handle_sender_key_distribution_def)
next
  case (Some ek)
  let ?old = "hm_get (hm_or (mgr_sender_keys m) g []) src'"
  show thesis
  proof (cases "decrypt api (esk_encrypted_key ek) seed")
    case (Inl e)
    with Some show thesis using that(1) by (simp add: mgr_handle_sender_key_distribution_def)
  next
    case (Inr key)
    show thesis
    proof (cases "length key \<noteq> 32 \<or> (case ?old of None \<Rightarrow> False | Some old \<Rightarrow> ep < ske_epoch old)")
      case True
      with Some Inr show thesis using that(1) by (auto simp: mgr_handle_sender_key_distribution_def)
    next
      case False
      let ?m = "store_sender_key c g src' (entry key) m"
      let ?r = "retry_pending api cp c src' (hm_or (mgr_pending_decrypt ?m) g [])
        (?m\<lparr>mgr_pending_decrypt := hm_remove g (mgr_pending_decrypt ?m)\<rparr>)"
      have "mgr_sender_keys (snd ?r) = mgr_sender_keys ?m"
        using retry_pending_same [of "?m\<lparr>mgr_pending_decrypt := hm_remove g (mgr_pending_decrypt ?m)\<rparr>"]
        by (simp add: same_keys_def)
      with Some Inr False show thesis
        by (intro that(2) [of key])
          (auto simp: mgr_handle_sender_key_distribution_def Let_def case_prod_beta entry_def not_less split: option.splits)
    qed
  qed
qed

lemma distribution_epoch:
  "remote_epoch m gid src \<le>
   remote_epoch (snd (mgr_handle_sender_key_distribution api cp c g src' ep eks seed m)) gid src"
proof (cases rule: distribution_keys [of api cp c g src' ep eks seed m])
  case 1
  then show ?thesis by simp
next
  case (2 key)
  have "remote_epoch m gid src \<le> remote_epoch (store_sender_key c g src'
      \<lparr>ske_owner_id = src', ske_key = key, ske_epoch = ep, ske_created_at = now_ms c\<rparr> m) gid src"
    using 2(1) by (intro store_epoch) (simp split: option.splits)
  then show ?thesis using remote_epoch_same [OF 2(2)] by simp
qed

lemma generate_epoch [simp]: "mgr_sender_keys (generate_local_sender_key c rnd gid m) = mgr_sender_keys m"
  by (rule generate_simps(3))

lemma quiet_keys:
  "mgr_sender_keys (snd (handle_group_created c rnd info m)) = mgr_sender_keys m"
  "mgr_sender_keys (snd (handle_invite c gid nm i iu hub m)) = mgr_sender_keys m"
  "mgr_sender_keys (snd (accept_invite c gid m)) = mgr_sender_keys m"
  "mgr_sender_keys (snd (decline_invite gid m)) = mgr_sender_keys m"
  "mgr_sender_keys (snd (cleanup_expired_invites c m)) = mgr_sender_keys m"
  "mgr_sender_keys (snd (handle_group_sync api c rnd info recent m)) = mgr_sender_keys m"
  "mgr_sender_keys (snd (handle_member_joined api c rnd gid mem m)) = mgr_sender_keys m"
  "mgr_sender_keys (snd (handle_member_role_changed c gid n r m)) = mgr_sender_keys m"
  "mgr_sender_keys (snd (handle_hub_migration c gid h m)) = mgr_sender_keys m"
  "mgr_sender_keys (note_local_message_sent gid m) = mgr_sender_keys m"
  "mgr_sender_keys (snd (maybe_rotate_local_sender_key api c rnd gid m)) = mgr_sender_keys m"
  "mgr_sender_keys (snd (rotate_sender_key api c rnd gid m)) = mgr_sender_keys m"
  "mgr_sender_keys (snd (handle_shadow_sync gid ms cand v m)) = mgr_sender_keys m"
  "mgr_sender_keys (snd (promote_to_primary gid m)) = mgr_sender_keys m"
  "mgr_sender_keys (reset_ping_failures gid m) = mgr_sender_keys m"
  "mgr_sender_keys (set_last_seq gid sq m) = mgr_sender_keys m"
  by (simp_all add: handle_group_created_def handle_invite_def accept_invite_def decline_invite_def
      cleanup_expired_invites_def handle_group_sync_def handle_member_joined_def
      handle_member_role_changed_def handle_hub_migration_def note_local_message_sent_def
      maybe_rotate_local_sender_key_def rotate_sender_key_def handle_shadow_sync_def
      promote_to_primary_def reset_ping_failures_def set_last_seq_def Let_def split: option.split)

lemma quiet_signals:
  "mgr_sender_keys (snd (record_ping_failure gid m)) = mgr_sender_keys m"
  "mgr_sender_keys (snd (handle_hub_unreachable gid n m)) = mgr_sender_keys m"
  by (simp_all add: record_ping_failure_def handle_hub_unreachable_def Let_def quiet_keys(14))

lemma message_epoch: "remote_epoch (snd (mgr_handle_message api cp c msg m)) gid src = remote_epoch m gid src"
  using same_keys_epoch [OF try_decrypt_same] by (simp add: mgr_handle_message_def)

lemma other_group_epoch:
  assumes "g \<noteq> gid"
  shows "remote_epoch (snd (handle_member_left api c rnd g n u r m)) gid src = remote_epoch m gid src"
    and "remote_epoch (snd (leave_group g m)) gid src = remote_epoch m gid src"
  using assms
  by (simp_all add: remote_epoch_def handle_member_left_def leave_group_def forget_group_def
      cleanup_group_keys_def Let_def case_prod_beta quiet_keys(12) hm_or_def hm_simps split: option.split)

interpretation epoch_guard: event_machine "mgr_step api cp" "keeps_keys gid" "\<lambda>m. ep \<le> remote_epoch m gid src"
proof
  fix e s
  assume "keeps_keys gid e" and "ep \<le> remote_epoch s gid src"
  moreover have "remote_epoch s gid src \<le> remote_epoch (mgr_step api cp e s) gid src" if "keeps_keys gid e"
    using that
    by (cases e) (simp_all add: quiet_keys quiet_signals message_epoch other_group_epoch distribution_epoch
        remote_epoch_le)
  ultimately show "ep \<le> remote_epoch (mgr_step api cp e s) gid src" by linarith
qed

text \<open>
  The manager keeps its invariant over every sequence of calls from its creation: one entry
  per group, filed under the group's own identifier; at most 100 messages of history per group;
  a sender key of its own, owned by itself, only for groups it is in; and shadow state only for
  groups it is in.
\<close>

theorem manager_stays_wf:
  "mgr_wf (fold (mgr_step api cp) es (group_manager_new n u))"
  by (rule manager_machine.run_invar) (simp_all add: list_all_iff new_manager_wf)

text \<open>
  C36. As long as a manager does not discard the keys of a group (a member leaving, leaving
  itself, or the purge of old keys), no call lowers the epoch it has stored for a sender: an old
  key distribution that is replayed or delayed cannot replace a newer key.
\<close>

theorem received_epochs_never_regress:
  assumes "list_all (keeps_keys gid) es"
  shows "remote_epoch m gid src \<le> remote_epoch (fold (mgr_step api cp) es m) gid src"
  using assms by (rule epoch_guard.run_invar) simp

definition keyed_manager :: group_manager where
  "keyed_manager = demo_manager\<lparr>mgr_sender_keys := [(GroupId ''g'', [(NodeId 2,
     \<lparr>ske_owner_id = NodeId 2, ske_key = replicate 32 1, ske_epoch = 4, ske_created_at = 0\<rparr>)])]\<rparr>"

theorem received_epochs_never_regress_witness:
  "4 \<le> remote_epoch (fold (mgr_step demo_crypto demo_content_pack)
     [MgrDistribution demo_clock (GroupId ''g'') (NodeId 2) 3
        [\<lparr>esk_recipient_id = NodeId 1, esk_encrypted_key =
           \<lparr>enc_ciphertext = [], enc_nonce = [], enc_ephemeral_pk = []\<rparr>\<rparr>] [],
      MgrNoteSent (GroupId ''g''), MgrLeave (GroupId ''h'')] keyed_manager)
     (GroupId ''g'') (NodeId 2)"
proof -
  have "remote_epoch keyed_manager (GroupId ''g'') (NodeId 2) = 4"
    by (simp add: remote_epoch_def keyed_manager_def hm_or_def)
  with received_epochs_never_regress [of "GroupId ''g''"
      "[MgrDistribution demo_clock (GroupId ''g'') (NodeId 2) 3
        [\<lparr>esk_recipient_id = NodeId 1, esk_encrypted_key =
           \<lparr>enc_ciphertext = [], enc_nonce = [], enc_ephemeral_pk = []\<rparr>\<rparr>] [],
      MgrNoteSent (GroupId ''g''), MgrLeave (GroupId ''h'')]" keyed_manager "NodeId 2" demo_crypto demo_content_pack]
  show ?thesis by simp
qed

subsection \<open>Promotion of a shadow\<close>

lemma remove_modify: "hm_remove k (hm_modify k f m) = hm_remove k m"
  by (induction m) (auto simp: hm_modify_def)

lemma promote_ignores_counters:
  assumes "hm_get (mgr_shadow_state m) gid = Some st" and "ss_members (f st) = ss_members st"
  shows "promote_to_primary gid (m\<lparr>mgr_shadow_state := hm_modify gid f (mgr_shadow_state m)\<rparr>) = promote_to_primary gid m"
  using assms by (simp add: promote_to_primary_def Let_def hm_simps remove_modify split: option.split)

text \<open>
  When a shadow takes over. With the hub's last sync in \<open>st\<close>: a failed ping promotes the shadow
  exactly if it is not the first signal since the counters were reset; a report of another member that the hub is
  unreachable promotes it exactly if the shadow itself has seen a failed ping. So reports alone
  never do. A promotion makes the node the hub of the group with the members of the last sync,
  clears the shadow role, and tells every other member.
\<close>

theorem promotion_rule:
  assumes "hm_get (mgr_shadow_state m) gid = Some st" and "hm_get (mgr_groups m) gid = Some grp"
    and "unat (ss_ping_failures st) + unat (ss_unreachable_reports st) < 2 ^ 32 - 2"
  shows "record_ping_failure gid m =
      (if ss_ping_failures st = 0 \<and> ss_unreachable_reports st = 0
       then ([], m\<lparr>mgr_shadow_state := hm_modify gid
                    (\<lambda>st. st\<lparr>ss_ping_failures := ss_ping_failures st + 1\<rparr>) (mgr_shadow_state m)\<rparr>)
       else promote_to_primary gid m) \<and>
    handle_hub_unreachable gid reporter m =
      (if ss_ping_failures st = 0
       then ([], m\<lparr>mgr_shadow_state := hm_modify gid
                    (\<lambda>st. st\<lparr>ss_unreachable_reports := ss_unreachable_reports st + 1\<rparr>) (mgr_shadow_state m)\<rparr>)
       else promote_to_primary gid m) \<and>
    promote_to_primary gid m =
      ([GaBroadcast (filter (\<lambda>n. n \<noteq> mgr_local_id m) (map gm_node_id (ss_members st)))
          (GpHubMigration gid (mgr_local_id m) (gi_hub_relay_id grp))],
       m\<lparr>mgr_shadow_state := hm_remove gid (mgr_shadow_state m),
         mgr_groups := hm_insert gid
           (grp\<lparr>gi_hub_relay_id := mgr_local_id m, gi_members := ss_members st,
                gi_shadow_id := None, gi_candidate_id := None\<rparr>) (mgr_groups m)\<rparr>)"
proof -
  let ?f = "ss_ping_failures st" and ?u = "ss_unreachable_reports st"
  have f1: "unat (?f + 1) = Suc (unat ?f)" and u1: "unat (?u + 1) = Suc (unat ?u)"
    using assms(3) by (simp_all add: unat_word_ariths)
  have zero: "w = 0 \<longleftrightarrow> unat w = 0" for w :: u32 by (simp add: unat_eq_zero)
  have sumf: "unat (?f + 1 + ?u) = Suc (unat ?f + unat ?u)" and sumu: "unat (?f + (?u + 1)) = Suc (unat ?f + unat ?u)"
    using assms(3) f1 u1 by (simp_all add: unat_word_ariths(1) [of _ ?u] unat_word_ariths(1) [of ?f])
  have sp: "should_promote gid (m\<lparr>mgr_shadow_state := hm_modify gid (\<lambda>st. st\<lparr>ss_ping_failures := ss_ping_failures st + 1\<rparr>) (mgr_shadow_state m)\<rparr>)
      \<longleftrightarrow> \<not> (?f = 0 \<and> ?u = 0)"
    using assms(1) f1 sumf
    by (auto simp: should_promote_def hm_simps SHADOW_PING_FAILURE_THRESHOLD_def word_le_nat_alt zero Let_def)
  have su: "should_promote gid (m\<lparr>mgr_shadow_state := hm_modify gid (\<lambda>st. st\<lparr>ss_unreachable_reports := ss_unreachable_reports st + 1\<rparr>) (mgr_shadow_state m)\<rparr>)
      \<longleftrightarrow> ?f \<noteq> 0"
    using assms(1) u1 sumu
    by (auto simp: should_promote_def hm_simps SHADOW_PING_FAILURE_THRESHOLD_def word_le_nat_alt zero Let_def)
  have "promote_to_primary gid m =
      ([GaBroadcast (filter (\<lambda>n. n \<noteq> mgr_local_id m) (map gm_node_id (ss_members st)))
          (GpHubMigration gid (mgr_local_id m) (gi_hub_relay_id grp))],
       m\<lparr>mgr_shadow_state := hm_remove gid (mgr_shadow_state m),
         mgr_groups := hm_insert gid
           (grp\<lparr>gi_hub_relay_id := mgr_local_id m, gi_members := ss_members st,
                gi_shadow_id := None, gi_candidate_id := None\<rparr>) (mgr_groups m)\<rparr>)"
    using assms(1,2) by (simp add: promote_to_primary_def Let_def)
  then show ?thesis
    using assms sp su
    by (simp add: record_ping_failure_def handle_hub_unreachable_def promote_ignores_counters Let_def)
qed

definition shadow_manager :: "u32 \<Rightarrow> u32 \<Rightarrow> group_manager" where
  "shadow_manager f u = demo_manager\<lparr>mgr_shadow_state := [(GroupId ''g'',
     \<lparr>ss_members = gi_members demo_grp, ss_candidate_id = None, ss_config_version = 1,
      ss_ping_failures = f, ss_unreachable_reports = u\<rparr>)]\<rparr>"

theorem promotion_rule_witness:
  "fst (handle_hub_unreachable (GroupId ''g'') (NodeId 3) (shadow_manager 1 0)) =
     [GaBroadcast [NodeId 2, NodeId 3] (GpHubMigration (GroupId ''g'') (NodeId 1) (NodeId 9))] \<and>
   fst (handle_hub_unreachable (GroupId ''g'') (NodeId 3) (shadow_manager 0 7)) = []"
proof -
  have st: "hm_get (mgr_shadow_state (shadow_manager f u)) (GroupId ''g'') =
      Some \<lparr>ss_members = gi_members demo_grp, ss_candidate_id = None, ss_config_version = 1,
            ss_ping_failures = f, ss_unreachable_reports = u\<rparr>"
    and gr: "hm_get (mgr_groups (shadow_manager f u)) (GroupId ''g'') = Some demo_grp"
    and me: "mgr_local_id (shadow_manager f u) = NodeId 1" for f u
    by (simp_all add: shadow_manager_def demo_manager_def group_manager_new_def)
  have hub: "gi_hub_relay_id demo_grp = NodeId 9" and
    ms: "map gm_node_id (gi_members demo_grp) = [NodeId 1, NodeId 2, NodeId 3]"
    by (simp_all add: demo_grp_def)
  show ?thesis
    using promotion_rule [OF st gr, of 1 0 "NodeId 3"] promotion_rule [OF st gr, of 0 7 "NodeId 3"]
    by (simp add: me hub ms)
qed

subsection \<open>Messages that arrive before their key\<close>

definition opened :: "crypto_api \<Rightarrow> group_message_content pack \<Rightarrow> bytes \<Rightarrow> group_message \<Rightarrow> group_message" where
  "opened api cp key msg =
     (case group_message_decrypt api cp msg key of
        Inl _ \<Rightarrow> msg
      | Inr content \<Rightarrow> msg\<lparr>msg_sender_username := gmc_username content, msg_text := gmc_text content\<rparr>)"

text \<open>The messages of one sender that open under one key of one epoch.\<close>

definition openable :: "crypto_api \<Rightarrow> group_message_content pack \<Rightarrow> group_id \<Rightarrow> node_id \<Rightarrow> u32 \<Rightarrow> bytes \<Rightarrow> group_message \<Rightarrow> bool" where
  "openable api cp gid src ep key msg \<longleftrightarrow>
     msg_group_id msg = gid \<and> msg_sender_id msg = src \<and> msg_encrypted msg \<and> msg_key_epoch msg = ep \<and>
     (\<exists>content. group_message_decrypt api cp msg key = Inr content)"

lemma openable_opens:
  assumes "openable api cp gid src ep key msg" and "hm_contains (mgr_groups m) gid"
    and "hm_get (hm_or (mgr_sender_keys m) gid []) src = Some e" and "ske_epoch e = ep" and "ske_key e = key"
  shows "fst (try_decrypt_and_deliver api cp c msg m) = [GaEvent (GeMessageReceived (opened api cp key msg))]"
proof -
  from assms(1) obtain content where "group_message_decrypt api cp msg key = Inr content"
    by (auto simp: openable_def)
  moreover have "mgr_handle_message api cp c msg m = try_decrypt_and_deliver api cp c msg m"
    using assms by (simp add: mgr_handle_message_def openable_def)
  ultimately show ?thesis
    using message_opens [of m msg e api cp content c] assms by (simp add: opened_def openable_def)
qed

lemma retry_opens:
  assumes "list_all (openable api cp gid src ep key) msgs" and "hm_contains (mgr_groups m) gid"
    and "hm_get (hm_or (mgr_sender_keys m) gid []) src = Some e" and "ske_epoch e = ep" and "ske_key e = key"
  shows "fst (retry_pending api cp c src msgs m) = map (\<lambda>msg. GaEvent (GeMessageReceived (opened api cp key msg))) msgs"
  using assms
proof (induction msgs arbitrary: m)
  case Nil
  then show ?case by simp
next
  case (Cons msg msgs)
  let ?m = "snd (try_decrypt_and_deliver api cp c msg m)"
  have same: "same_keys m ?m" by (rule try_decrypt_same)
  have "fst (retry_pending api cp c src msgs ?m) = map (\<lambda>msg. GaEvent (GeMessageReceived (opened api cp key msg))) msgs"
    using Cons.prems same_keys_groups [OF same] same by (intro Cons.IH) (simp_all add: same_keys_def)
  moreover have "fst (try_decrypt_and_deliver api cp c msg m) = [GaEvent (GeMessageReceived (opened api cp key msg))]"
    using Cons.prems by (intro openable_opens) simp_all
  moreover have "msg_sender_id msg = src" using Cons.prems by (simp add: openable_def)
  ultimately show ?case by (simp add: case_prod_beta Let_def)
qed

lemma deliver_pending [simp]:
  "mgr_pending_decrypt (snd (deliver_message c msg m)) = mgr_pending_decrypt m"
  "mgr_pending_decrypt (snd (deliver_decrypted_message api cp c msg key m)) = mgr_pending_decrypt m"
  by (simp_all add: deliver_message_def deliver_decrypted_message_def Let_def split: sum.split)

lemma retry_pending_kept:
  assumes "list_all (\<lambda>msg. msg_group_id msg = gid) msgs" and "hm_contains (hm_or (mgr_sender_keys m) gid []) src"
  shows "mgr_pending_decrypt (snd (retry_pending api cp c src msgs m)) = mgr_pending_decrypt m"
  using assms
proof (induction msgs arbitrary: m)
  case Nil
  then show ?case by simp
next
  case (Cons msg msgs)
  have same: "same_keys m (snd (try_decrypt_and_deliver api cp c msg m))" by (rule try_decrypt_same)
  have "mgr_pending_decrypt (snd (try_decrypt_and_deliver api cp c msg m)) = mgr_pending_decrypt m"
    if "msg_sender_id msg = src"
    using Cons.prems that by (auto simp: try_decrypt_and_deliver_def Let_def split: option.split)
  with Cons same show ?case by (auto simp: case_prod_beta Let_def same_keys_def)
qed

lemma early_queue:
  assumes "list_all (openable api cp gid src ep key) msgs" and "hm_contains (mgr_groups m) gid"
    and "hm_get (hm_or (mgr_sender_keys m) gid []) src = None"
  shows "fold (\<lambda>msg m. snd (mgr_handle_message api cp c msg m)) msgs m =
    (if msgs = [] then m
     else m\<lparr>mgr_pending_decrypt := hm_insert gid (hm_or (mgr_pending_decrypt m) gid [] @ msgs) (mgr_pending_decrypt m)\<rparr>)"
  using assms
proof (induction msgs arbitrary: m)
  case Nil
  then show ?case by simp
next
  case (Cons msg msgs)
  let ?q = "\<lambda>ms. m\<lparr>mgr_pending_decrypt := hm_insert gid (hm_or (mgr_pending_decrypt m) gid [] @ ms) (mgr_pending_decrypt m)\<rparr>"
  have "snd (mgr_handle_message api cp c msg m) = ?q [msg]"
    using Cons.prems by (simp add: mgr_handle_message_def try_decrypt_and_deliver_def openable_def Let_def)
  moreover have "fold (\<lambda>msg m. snd (mgr_handle_message api cp c msg m)) msgs (?q [msg]) = ?q (msg # msgs)"
    using Cons.IH [of "?q [msg]"] Cons.prems by (simp add: AList.update_last)
  ultimately show ?case by simp
qed

text \<open>
  C35. Encrypted messages that arrive before the key of their sender are not lost: they wait in
  order, and when the distribution with the key arrives, each of them is decrypted and
  delivered, in the order of arrival, and none keeps waiting.
\<close>

theorem early_messages_delivered:
  assumes "list_all (openable api cp gid src ep key) msgs" and "hm_contains (mgr_groups m) gid"
    and "hm_get (hm_or (mgr_sender_keys m) gid []) src = None"
    and "hm_get (mgr_pending_decrypt m) gid = None"
    and "find (\<lambda>ek. esk_recipient_id ek = mgr_local_id m) eks = Some ek"
    and "decrypt api (esk_encrypted_key ek) seed = Inr key" and "length key = 32"
  shows "let m' = fold (\<lambda>msg m. snd (mgr_handle_message api cp c msg m)) msgs m;
             (acts, m'') = mgr_handle_sender_key_distribution api cp c' gid src ep eks seed m'
         in acts = map (\<lambda>msg. GaEvent (GeMessageReceived (opened api cp key msg))) msgs \<and>
            hm_get (mgr_pending_decrypt m'') gid = None"
proof -
  define m' where "m' = fold (\<lambda>msg m. snd (mgr_handle_message api cp c msg m)) msgs m"
  let ?e = "\<lparr>ske_owner_id = src, ske_key = key, ske_epoch = ep, ske_created_at = now_ms c'\<rparr>"
  let ?s = "store_sender_key c' gid src ?e m'"
  let ?t = "?s\<lparr>mgr_pending_decrypt := hm_remove gid (mgr_pending_decrypt ?s)\<rparr>"
  have m': "mgr_groups m' = mgr_groups m" "mgr_sender_keys m' = mgr_sender_keys m" "mgr_local_id m' = mgr_local_id m"
    "hm_or (mgr_pending_decrypt m') gid [] = msgs"
    using early_queue [OF assms(1-3), of c] assms(4) by (simp_all add: m'_def hm_or_def hm_simps)
  have pend: "mgr_pending_decrypt ?s = mgr_pending_decrypt m'"
    using assms(3) by (simp add: store_sender_key_def m'(2))
  have "fst (retry_pending api cp c' src msgs ?t) = map (\<lambda>msg. GaEvent (GeMessageReceived (opened api cp key msg))) msgs"
    using assms(1,2) by (intro retry_opens [where e = ?e]) (auto simp: store_sender_key_simps m'(1,2) hm_simps)
  moreover have "mgr_pending_decrypt (snd (retry_pending api cp c' src msgs ?t)) = mgr_pending_decrypt ?t"
    using assms(1)
    by (intro retry_pending_kept [of gid]) (auto simp: openable_def store_sender_key_simps hm_simps list_all_iff)
  moreover have "filter (\<lambda>msg. msg_sender_id msg \<noteq> src) msgs = []"
    using assms(1) by (auto simp: openable_def list_all_iff filter_empty_conv)
  ultimately have "fst (mgr_handle_sender_key_distribution api cp c' gid src ep eks seed m') =
      map (\<lambda>msg. GaEvent (GeMessageReceived (opened api cp key msg))) msgs \<and>
      hm_get (mgr_pending_decrypt (snd (mgr_handle_sender_key_distribution api cp c' gid src ep eks seed m'))) gid = None"
    using assms(3,5-7) m' pend
    by (simp add: mgr_handle_sender_key_distribution_def Let_def case_prod_beta hm_simps)
  then show ?thesis by (simp add: m'_def Let_def case_prod_beta)
qed

definition early_msg :: group_message where
  "early_msg =
     \<lparr>msg_group_id = GroupId ''g'', msg_message_id = ''m'', msg_sender_id = NodeId 2, msg_sender_username = [],
      msg_text = [],
      msg_ciphertext = replicate 32 5 @ [9] @ pack_vec demo_content_pack \<lparr>gmc_username = ''bob'', gmc_text = ''hi''\<rparr>,
      msg_nonce = [9], msg_key_epoch = 1, msg_encrypted = True, msg_sent_at = 0,
      msg_sender_signature = [], msg_seq = 0\<rparr>"

lemma early_msg_decrypts:
  "group_message_decrypt demo_crypto demo_content_pack early_msg (replicate 32 5) =
     Inr \<lparr>gmc_username = ''bob'', gmc_text = ''hi''\<rparr>"
  using demo_content_pack_ok
  by (simp add: group_message_decrypt_def early_msg_def decrypt_group_message_def demo_crypto_def pack_ok_def)

theorem early_messages_delivered_witness:
  "\<exists>ek. fst (mgr_handle_sender_key_distribution demo_crypto demo_content_pack demo_clock (GroupId ''g'') (NodeId 2) 1
      [ek] [] (snd (mgr_handle_message demo_crypto demo_content_pack demo_clock early_msg
                 (demo_manager\<lparr>mgr_local_id := NodeId 1\<rparr>)))) =
    [GaEvent (GeMessageReceived (early_msg\<lparr>msg_sender_username := ''bob'', msg_text := ''hi''\<rparr>))]"
proof -
  obtain p where "encrypt demo_crypto [] [] (replicate 32 5) (ed_public demo_crypto []) = Inr p"
    by (simp add: encrypt_def ed25519_to_x25519_public_def demo_crypto_def Let_def)
  then have p: "decrypt demo_crypto p [] = Inr (replicate 32 5)"
    by (rule encrypt_decrypt [OF demo_aead_correct demo_dh_symmetric demo_key_conversion])
  let ?ek = "\<lparr>esk_recipient_id = NodeId 1, esk_encrypted_key = p\<rparr>"
  let ?m = "demo_manager\<lparr>mgr_local_id := NodeId 1\<rparr>"
  have open_msg: "list_all (openable demo_crypto demo_content_pack (GroupId ''g'') (NodeId 2) 1 (replicate 32 5)) [early_msg]"
    using early_msg_decrypts by (simp add: openable_def early_msg_def)
  have "hm_contains (mgr_groups ?m) (GroupId ''g'')"
    "hm_get (hm_or (mgr_sender_keys ?m) (GroupId ''g'') []) (NodeId 2) = None"
    "hm_get (mgr_pending_decrypt ?m) (GroupId ''g'') = None"
    "find (\<lambda>ek. esk_recipient_id ek = mgr_local_id ?m) [?ek] = Some ?ek"
    by (simp_all add: demo_manager_def group_manager_new_def hm_or_def)
  from early_messages_delivered [OF open_msg this, of "[]" demo_clock demo_clock] p
  have "fst (mgr_handle_sender_key_distribution demo_crypto demo_content_pack demo_clock (GroupId ''g'') (NodeId 2) 1
      [?ek] [] (snd (mgr_handle_message demo_crypto demo_content_pack demo_clock early_msg ?m))) =
      [GaEvent (GeMessageReceived (opened demo_crypto demo_content_pack (replicate 32 5) early_msg))]"
    by (simp add: case_prod_beta Let_def)
  then show ?thesis by (intro exI [of _ ?ek]) (simp add: opened_def early_msg_decrypts)
qed

subsection \<open>Synchronising twice\<close>

text \<open>
  A member that rejoins gets the recent messages of the group again, and the manager appends
  them to the history it has: while there is room, every one of them is then there twice.
\<close>

theorem resync_duplicates_history:
  assumes "2 * length recent \<le> mgr_max_history_per_group m"
    and "hm_get (mgr_message_history m) (gi_group_id info) = None"
  shows "let m1 = snd (handle_group_sync api c rnd info recent m);
             m2 = snd (handle_group_sync api c' rnd' info recent m1)
         in hm_get (mgr_message_history m2) (gi_group_id info) = Some (recent @ recent)"
proof -
  have app: "fold (\<lambda>msg h. if length h < n then h @ [msg] else h) ms h = h @ ms"
    if "length h + length ms \<le> n" for n h and ms :: "group_message list"
    using that by (induction ms arbitrary: h) auto
  have sync: "mgr_message_history (snd (handle_group_sync api c rnd info recent m)) =
      hm_insert (gi_group_id info) (hm_or (mgr_message_history m) (gi_group_id info) [] @ recent) (mgr_message_history m) \<and>
    mgr_max_history_per_group (snd (handle_group_sync api c rnd info recent m)) = mgr_max_history_per_group m"
    if "length (hm_or (mgr_message_history m) (gi_group_id info) []) + length recent \<le> mgr_max_history_per_group m"
    for c rnd m
    using app [OF that] by (simp add: handle_group_sync_def Let_def generate_local_sender_key_def)
  have none: "hm_or (mgr_message_history m) (gi_group_id info) [] = []" using assms(2) by (simp add: hm_or_def)
  note s1 = sync [of m c rnd, unfolded none]
  show ?thesis
    using assms(1) s1 sync [of "snd (handle_group_sync api c rnd info recent m)" c' rnd']
    by (simp add: Let_def hm_simps)
qed

theorem resync_duplicates_history_witness:
  "let m1 = snd (handle_group_sync demo_crypto demo_clock demo_rnd demo_grp [early_msg] (group_manager_new (NodeId 1) ''ann''));
       m2 = snd (handle_group_sync demo_crypto demo_clock demo_rnd demo_grp [early_msg] m1)
   in hm_get (mgr_message_history m2) (GroupId ''g'') = Some [early_msg, early_msg]"
proof -
  have g: "gi_group_id demo_grp = GroupId ''g''" by (simp add: demo_grp_def)
  have "2 * length [early_msg] \<le> mgr_max_history_per_group (group_manager_new (NodeId 1) ''ann'')"
    "hm_get (mgr_message_history (group_manager_new (NodeId 1) ''ann'')) (gi_group_id demo_grp) = None"
    by (simp_all add: group_manager_new_def MAX_SYNC_MESSAGES_def)
  from resync_duplicates_history [OF this, of demo_crypto demo_clock demo_rnd demo_clock demo_rnd]
  show ?thesis by (simp add: g)
qed

end
