(* ===== verification/Tom_Float.thy ===== *)
theory Tom_Float
  imports Tom_Prelude
begin

section \<open>Double-precision arithmetic\<close>

text \<open>
  The \<^verbatim>\<open>f64\<close> of the Rust sources: a value is the real number it stands for, and every operation
  rounds the exact result to the nearest multiple of the unit in the last place (53 significant
  bits, gradual underflow), ties to even. Infinities and not-a-numbers do not occur in the code
  modelled here, which adds, multiplies and divides non-negative values below \<open>2 ^ 200\<close> by
  positive ones. The lemmas give what the components rely on: rounding is monotone, exact on
  integers up to \<open>2 ^ 53\<close>, idempotent, and never crosses a representable bound.
\<close>

definition round_half_even :: "real \<Rightarrow> int" where
  "round_half_even x =
     (let f = \<lfloor>x\<rfloor>; d = x - of_int f
      in if d < 1 / 2 then f else if 1 / 2 < d then f + 1 else if even f then f else f + 1)"

definition ulp_exp :: "real \<Rightarrow> int" where
  "ulp_exp x = max (\<lfloor>log 2 \<bar>x\<bar>\<rfloor> - 52) (- 1074)"

definition f64_round :: "real \<Rightarrow> real" where
  "f64_round x =
     (if x = 0 then 0
      else let u = 2 powi ulp_exp x in of_int (round_half_even (x / u)) * u)"

definition f64_add :: "real \<Rightarrow> real \<Rightarrow> real" where "f64_add a b = f64_round (a + b)"
definition f64_sub :: "real \<Rightarrow> real \<Rightarrow> real" where "f64_sub a b = f64_round (a - b)"
definition f64_mul :: "real \<Rightarrow> real \<Rightarrow> real" where "f64_mul a b = f64_round (a * b)"
definition f64_div :: "real \<Rightarrow> real \<Rightarrow> real" where "f64_div a b = f64_round (a / b)"

text \<open>The conversion \<open>n as f64\<close>, and a decimal literal.\<close>

definition f64_of_nat :: "nat \<Rightarrow> real" where "f64_of_nat n = f64_round (of_nat n)"

abbreviation f64_lit :: "real \<Rightarrow> real" where "f64_lit x \<equiv> f64_round x"

text \<open>The conversion \<open>x as u8\<close> truncates and saturates.\<close>

definition f64_to_u8 :: "real \<Rightarrow> u8" where
  "f64_to_u8 x = of_int (max 0 (min 255 \<lfloor>x\<rfloor>))"

definition f64_to_u32 :: "real \<Rightarrow> u32" where
  "f64_to_u32 x = of_int (max 0 (min (2 ^ 32 - 1) \<lfloor>x\<rfloor>))"

text \<open>The bits of a double: sign, biased exponent, fraction.\<close>

definition f64_to_bits :: "real \<Rightarrow> u64" where
  "f64_to_bits x =
     (let e = ulp_exp x; frac = \<lfloor>\<bar>x\<bar> / 2 powi e\<rfloor>
      in (if x < 0 then 2 ^ 63 else 0) +
         (if x = 0 then 0
          else if frac < 2 ^ 52 then of_int frac
          else of_int ((e + 1075) * 2 ^ 52 + (frac - 2 ^ 52))))"

named_theorems f64_defs \<open>the arithmetic operations\<close>

declare f64_add_def [f64_defs] f64_sub_def [f64_defs] f64_mul_def [f64_defs] f64_div_def [f64_defs]
  f64_of_nat_def [f64_defs]

subsection \<open>Rounding to an integer\<close>

lemma round_half_even_of_int [simp]: "round_half_even (of_int k) = k"
  by (simp add: round_half_even_def)

lemma round_half_even_mono:
  assumes "x \<le> y"
  shows "round_half_even x \<le> round_half_even y"
proof (cases "\<lfloor>x\<rfloor> = \<lfloor>y\<rfloor>")
  case True
  then show ?thesis using assms by (auto simp: round_half_even_def Let_def)
next
  case False
  then have "\<lfloor>x\<rfloor> + 1 \<le> \<lfloor>y\<rfloor>" using floor_mono [OF assms] by linarith
  moreover have "round_half_even x \<le> \<lfloor>x\<rfloor> + 1" "\<lfloor>y\<rfloor> \<le> round_half_even y"
    by (auto simp: round_half_even_def Let_def)
  ultimately show ?thesis by linarith
qed

lemma round_half_even_le: "x \<le> of_int k \<Longrightarrow> round_half_even x \<le> k"
  using round_half_even_mono [of x "of_int k"] by simp

lemma round_half_even_ge: "of_int k \<le> x \<Longrightarrow> k \<le> round_half_even x"
  using round_half_even_mono [of "of_int k" x] by simp

lemma round_half_even_error: "\<bar>of_int (round_half_even x) - x\<bar> \<le> 1 / 2"
  by (auto simp: round_half_even_def Let_def)

subsection \<open>Rounding to a double\<close>

lemma f64_round_0 [simp]: "f64_round 0 = 0"
  by (simp add: f64_round_def)

lemma f64_round_units:
  assumes "0 \<le> k"
  shows "x \<le> of_int k * 2 powi ulp_exp x \<Longrightarrow> f64_round x \<le> of_int k * 2 powi ulp_exp x"
    and "of_int k * 2 powi ulp_exp x \<le> x \<Longrightarrow> of_int k * 2 powi ulp_exp x \<le> f64_round x"
proof -
  have u: "(0 :: real) < 2 powi ulp_exp x" by (rule zero_less_power_int) simp
  show "f64_round x \<le> of_int k * 2 powi ulp_exp x" if "x \<le> of_int k * 2 powi ulp_exp x"
  proof (cases "x = 0")
    case True
    then show ?thesis using u assms by simp
  next
    case False
    have "round_half_even (x / 2 powi ulp_exp x) \<le> k"
      using that u by (intro round_half_even_le) (simp add: pos_divide_le_eq)
    with False u show ?thesis by (simp add: f64_round_def Let_def)
  qed
  show "of_int k * 2 powi ulp_exp x \<le> f64_round x" if "of_int k * 2 powi ulp_exp x \<le> x"
  proof (cases "x = 0")
    case True
    then show ?thesis using that by simp
  next
    case False
    have "k \<le> round_half_even (x / 2 powi ulp_exp x)"
      using that u by (intro round_half_even_ge) (simp add: pos_le_divide_eq)
    with False u show ?thesis by (simp add: f64_round_def Let_def)
  qed
qed

lemma powi_multiple:
  assumes "a \<le> b"
  shows "\<exists>k \<ge> 0. (2 :: real) powi b = of_int k * 2 powi a"
proof -
  have "(2 :: real) powi b = 2 powi (b - a) * 2 powi a"
    by (simp flip: power_int_add)
  moreover have "(2 :: real) powi (b - a) = of_int (2 ^ nat (b - a))"
    using assms by (simp add: power_int_def)
  ultimately show ?thesis by (intro exI [of _ "2 ^ nat (b - a)"]) simp
qed

lemma powi_mono: "a \<le> b \<Longrightarrow> (2 :: real) powi a \<le> 2 powi b"
  by (rule power_int_increasing) auto

lemma floor_log_bounds:
  assumes "0 < x"
  shows "2 powi \<lfloor>log 2 x\<rfloor> \<le> x" and "x < 2 powi (\<lfloor>log 2 x\<rfloor> + 1)"
proof -
  have eq: "(2 :: real) powi k = 2 powr of_int k" for k by (simp add: powr_real_of_int')
  have "2 powr of_int \<lfloor>log 2 x\<rfloor> \<le> 2 powr log 2 x" by (intro powr_mono) auto
  then show "2 powi \<lfloor>log 2 x\<rfloor> \<le> x" using assms by (simp add: eq)
  have "2 powr log 2 x < 2 powr of_int (\<lfloor>log 2 x\<rfloor> + 1)" by (intro powr_less_mono) linarith+
  then show "x < 2 powi (\<lfloor>log 2 x\<rfloor> + 1)" using assms by (simp only: eq) simp
qed

lemma ulp_exp_mono: "0 < x \<Longrightarrow> x \<le> y \<Longrightarrow> ulp_exp x \<le> ulp_exp y"
  unfolding ulp_exp_def by (intro max.mono diff_right_mono floor_mono) simp_all

lemma f64_round_nonneg: "0 \<le> x \<Longrightarrow> 0 \<le> f64_round x"
  using f64_round_units(2) [of 0 x] by simp

named_theorems f64_nonneg \<open>operations that keep values non-negative\<close>

lemma f64_add_nonneg [f64_nonneg]: "0 \<le> a \<Longrightarrow> 0 \<le> b \<Longrightarrow> 0 \<le> f64_add a b"
  by (simp add: f64_add_def f64_round_nonneg)

lemma f64_mul_nonneg [f64_nonneg]: "0 \<le> a \<Longrightarrow> 0 \<le> b \<Longrightarrow> 0 \<le> f64_mul a b"
  by (simp add: f64_mul_def f64_round_nonneg)

lemma f64_div_nonneg [f64_nonneg]: "0 \<le> a \<Longrightarrow> 0 \<le> b \<Longrightarrow> 0 \<le> f64_div a b"
  by (simp add: f64_div_def f64_round_nonneg)

lemma f64_of_nat_nonneg [f64_nonneg]: "0 \<le> f64_of_nat n"
  unfolding f64_of_nat_def by (rule f64_round_nonneg) (rule of_nat_0_le_iff)

theorem f64_round_mono:
  assumes "0 \<le> x" and "x \<le> y"
  shows "f64_round x \<le> f64_round y"
proof (cases "x = 0")
  case True
  then show ?thesis using assms f64_round_nonneg by simp
next
  case False
  with assms have pos: "0 < x" "0 < y" by auto
  show ?thesis
  proof (cases "ulp_exp x = ulp_exp y")
    case True
    have u: "(0 :: real) < 2 powi ulp_exp y" by (rule zero_less_power_int) simp
    then have "x / 2 powi ulp_exp y \<le> y / 2 powi ulp_exp y" using assms(2) by (simp add: divide_right_mono)
    then show ?thesis
      using True pos u round_half_even_mono by (simp add: f64_round_def Let_def)
  next
    case False
    then have less: "ulp_exp x < ulp_exp y" using ulp_exp_mono [OF pos(1) assms(2)] by simp
    let ?e = "\<lfloor>log 2 y\<rfloor>"
    have e: "ulp_exp y = ?e - 52" and ex: "ulp_exp x < ?e - 52" "\<lfloor>log 2 x\<rfloor> - 52 \<le> ulp_exp x"
      using less pos by (auto simp: ulp_exp_def)
    obtain k where k: "0 \<le> k" "(2 :: real) powi ?e = of_int k * 2 powi ulp_exp x"
      using powi_multiple [of "ulp_exp x" ?e] ex by auto
    obtain l where l: "0 \<le> l" "(2 :: real) powi ?e = of_int l * 2 powi ulp_exp y"
      using powi_multiple [of "ulp_exp y" ?e] e by auto
    have "x \<le> 2 powi (\<lfloor>log 2 x\<rfloor> + 1)" using floor_log_bounds(2) [OF pos(1)] by simp
    also have "\<dots> \<le> 2 powi ?e" using ex by (intro powi_mono) linarith
    finally have "f64_round x \<le> 2 powi ?e" using f64_round_units(1) [OF k(1), of x] k(2) by simp
    also have "\<dots> \<le> f64_round y"
      using f64_round_units(2) [OF l(1), of y] l(2) floor_log_bounds(1) [OF pos(2)] by simp
    finally show ?thesis .
  qed
qed

theorem f64_round_int:
  assumes "0 \<le> k" and "k \<le> 2 ^ 53"
  shows "f64_round (of_int k) = of_int k"
proof (cases "k = 0 \<or> k = 2 ^ 53")
  case True
  have "log 2 ((2 :: real) ^ 53) = of_nat 53" by (rule log_pow_cancel) simp_all
  then have "ulp_exp (2 ^ 53) = 1" by (simp only: ulp_exp_def power_abs abs_numeral) simp
  moreover have "(2 :: real) ^ 53 / 2 = of_int (2 ^ 52)" by simp
  ultimately have "f64_round (2 ^ 53) = 2 ^ 53"
    unfolding f64_round_def Let_def by (simp only: round_half_even_of_int power_int_1_right) simp
  with True show ?thesis by auto
next
  case False
  let ?x = "of_int k :: real"
  have pos: "0 < ?x" and up: "?x < 2 ^ 53"
    using False assms by (auto simp flip: of_int_less_iff)
  have "log 2 ?x < 53" using pos up by (simp add: log_less_iff powr_numeral)
  then have exp0: "ulp_exp ?x \<le> 0" using pos by (auto simp: ulp_exp_def)
  then obtain j where j: "0 \<le> j" "(2 :: real) powi 0 = of_int j * 2 powi ulp_exp ?x"
    using powi_multiple by blast
  then have eq: "?x = of_int (k * j) * 2 powi ulp_exp ?x" by simp
  have "0 \<le> k * j" using assms(1) j(1) by simp
  from f64_round_units [OF this, of ?x] eq show ?thesis by (metis antisym order_refl)
qed

lemma f64_round_nat: "n \<le> 2 ^ 53 \<Longrightarrow> f64_round (of_nat n) = of_nat n"
  using f64_round_int [of "int n"] by simp

lemma f64_round_numeral:
  "numeral n \<le> (2 ^ 53 :: int) \<Longrightarrow> f64_round (numeral n) = numeral n"
  using f64_round_int [of "numeral n"] by simp

lemma f64_round_1 [simp]: "f64_round 1 = 1"
  using f64_round_nat [of 1] by simp

lemma f64_round_le_int: "0 \<le> x \<Longrightarrow> x \<le> of_int k \<Longrightarrow> k \<le> 2 ^ 53 \<Longrightarrow> f64_round x \<le> of_int k"
  using f64_round_mono [of x "of_int k"] f64_round_int [of k] by fastforce

lemma f64_round_ge_int: "0 \<le> k \<Longrightarrow> of_int k \<le> x \<Longrightarrow> k \<le> 2 ^ 53 \<Longrightarrow> of_int k \<le> f64_round x"
  using f64_round_mono [of "of_int k" x] f64_round_int [of k] by simp

subsection \<open>Representable values\<close>

definition is_f64 :: "real \<Rightarrow> bool" where "is_f64 x \<longleftrightarrow> f64_round x = x"

lemma is_f64_multiple: "x = of_int k * 2 powi ulp_exp x \<Longrightarrow> 0 \<le> k \<Longrightarrow> is_f64 x"
  unfolding is_f64_def using f64_round_units [of k x] by (metis antisym order_refl)

lemma f64_round_multiple:
  assumes "0 \<le> x"
  obtains k where "0 \<le> k" and "f64_round x = of_int k * 2 powi ulp_exp x"
proof (cases "x = 0")
  case True
  then show thesis using that [of 0] by simp
next
  case False
  have "0 \<le> round_half_even (x / 2 powi ulp_exp x)"
    using assms by (intro round_half_even_ge) (simp add: power_int_def)
  with False show thesis using that by (simp add: f64_round_def Let_def)
qed

lemma multiple_lower:
  assumes "x = of_int k * (2 :: real) powi b" and "a \<le> b" and "0 \<le> k"
  obtains j where "0 \<le> j" and "x = of_int j * 2 powi a"
proof -
  obtain m where "0 \<le> m" "(2 :: real) powi b = of_int m * 2 powi a" using powi_multiple [OF assms(2)] by blast
  with assms that [of "k * m"] show thesis by simp
qed

lemma f64_round_is_f64:
  assumes "0 \<le> x"
  shows "is_f64 (f64_round x)"
proof (cases "f64_round x = 0")
  case True
  then show ?thesis by (simp add: is_f64_def)
next
  case False
  with f64_round_nonneg [OF assms] have pos: "0 < f64_round x" by simp
  with assms have x: "0 < x" by (cases "x = 0") auto
  let ?e = "\<lfloor>log 2 x\<rfloor>"
  let ?r = "f64_round x"
  obtain k where k: "0 \<le> k" "?r = of_int k * 2 powi ulp_exp x" using f64_round_multiple [OF assms] .
  show ?thesis
  proof (cases "ulp_exp ?r \<le> ulp_exp x")
    case True
    from multiple_lower [OF k(2) True k(1)] is_f64_multiple show ?thesis by metis
  next
    case False
    then have gt: "?e - 52 \<le> ulp_exp x" "ulp_exp x < \<lfloor>log 2 ?r\<rfloor> - 52" "ulp_exp ?r = \<lfloor>log 2 ?r\<rfloor> - 52" "-1074 \<le> ulp_exp x"
      using pos x by (auto simp: ulp_exp_def)
    obtain l where l: "0 \<le> l" "(2 :: real) powi (ulp_exp x + 53) = of_int l * 2 powi ulp_exp x"
      using powi_multiple [of "ulp_exp x" "ulp_exp x + 53"] by auto
    have "x \<le> 2 powi (?e + 1)" using floor_log_bounds(2) [OF x] by simp
    also have "\<dots> \<le> 2 powi (ulp_exp x + 53)" using gt(1) by (intro powi_mono) linarith
    finally have up: "?r \<le> 2 powi (ulp_exp x + 53)" using f64_round_units(1) [OF l(1), of x] l(2) by simp
    have lo: "(2 :: real) powi (ulp_exp x + 53) \<le> 2 powi \<lfloor>log 2 ?r\<rfloor>" using gt by (intro powi_mono) linarith
    have "2 powi \<lfloor>log 2 ?r\<rfloor> \<le> ?r" using floor_log_bounds(1) [OF pos] .
    with up lo have r: "?r = 2 powi \<lfloor>log 2 ?r\<rfloor>" by linarith
    obtain j where "0 \<le> j" "(2 :: real) powi \<lfloor>log 2 ?r\<rfloor> = of_int j * 2 powi ulp_exp ?r"
      using powi_multiple [of "ulp_exp ?r" "\<lfloor>log 2 ?r\<rfloor>"] gt(3) by auto
    with r have "?r = of_int j * 2 powi ulp_exp ?r" "0 \<le> j" by simp_all
    then show ?thesis by (rule is_f64_multiple)
  qed
qed

text \<open>Taking one away is exact.\<close>

lemma f64_sub_one:
  assumes "is_f64 x" and "1 \<le> x" and "x \<le> 2 ^ 53"
  shows "f64_sub x 1 = x - 1"
proof (cases "x = 1")
  case True
  then show ?thesis by (simp add: f64_sub_def)
next
  case False
  let ?y = "x - 1"
  have y: "0 < ?y" "?y < 2 ^ 53" using False assms by auto
  have "log 2 ?y < 53" using y by (simp add: log_less_iff powr_numeral)
  then have u0: "ulp_exp ?y \<le> 0" using y by (auto simp: ulp_exp_def)
  have ux: "ulp_exp ?y \<le> ulp_exp x" using y by (intro ulp_exp_mono) auto
  obtain k where k: "0 \<le> k" "x = of_int k * 2 powi ulp_exp x"
    using f64_round_multiple [of x] assms by (auto simp: is_f64_def)
  obtain j where j: "x = of_int j * 2 powi ulp_exp ?y" using multiple_lower [OF k(2) ux k(1)] by metis
  obtain i where i: "1 = of_int i * (2 :: real) powi ulp_exp ?y" using powi_multiple [OF u0] by auto
  have eq: "?y = of_int (j - i) * 2 powi ulp_exp ?y" using i j by (simp add: left_diff_distrib)
  moreover have "(0 :: real) < 2 powi ulp_exp ?y" by (rule zero_less_power_int) simp
  ultimately have "0 \<le> j - i" using y(1) by (smt (verit) of_int_less_0_iff mult_neg_pos)
  from is_f64_multiple [OF eq this] show ?thesis by (simp add: is_f64_def f64_sub_def)
qed

end
