(* ===== verification/Tom_Backup.thy ===== *)
theory Tom_Backup
  imports Tom_Types Tom_Float
begin

section \<open>Message backup\<close>

text \<open>
  Models \<^verbatim>\<open>tom-protocol/src/backup\<close>: \<^verbatim>\<open>types.rs\<close>, the store of messages kept for offline
  recipients with its index by recipient (\<^verbatim>\<open>store.rs\<close>), and the coordinator of queries,
  replication and delivery confirmation (\<^verbatim>\<open>coordinator.rs\<close>).

  The theory \<open>Tom_BackupSafety\<close> shows that the store with its index refines a plain map from
  message identifiers to entries, that replication never extends the life of a message, and
  that queries for one recipient are at least five seconds apart.
\<close>

subsection \<open>Data\<close>

definition MAX_TTL_MS :: u64 where "MAX_TTL_MS = 24 * 60 * 60 * 1000"
definition DEFAULT_TTL_MS :: u64 where "DEFAULT_TTL_MS = MAX_TTL_MS"
definition REPLICATION_THRESHOLD :: u8 where "REPLICATION_THRESHOLD = 30"
definition DELETION_THRESHOLD :: u8 where "DELETION_THRESHOLD = 10"
definition MAX_REPLICAS :: nat where "MAX_REPLICAS = 5"
definition QUERY_TIMEOUT_MS :: u64 where "QUERY_TIMEOUT_MS = 30000"
definition QUERY_DEBOUNCE_MS :: u64 where "QUERY_DEBOUNCE_MS = 5000"
definition MAX_TOTAL_MESSAGES :: nat where "MAX_TOTAL_MESSAGES = 10000"

record backup_entry =
  be_message_id :: string
  be_payload :: bytes
  be_recipient_id :: node_id
  be_sender_id :: node_id
  be_stored_at :: u64
  be_expires_at :: u64
  be_viability_score :: u8
  be_replicated_to :: "node_id hset"

definition backup_entry_new ::
  "string \<Rightarrow> bytes \<Rightarrow> node_id \<Rightarrow> node_id \<Rightarrow> u64 \<Rightarrow> u64 option \<Rightarrow> backup_entry" where
  "backup_entry_new mid payload recipient sender now ttl_ms =
     (let ttl = min (case ttl_ms of None \<Rightarrow> DEFAULT_TTL_MS | Some t \<Rightarrow> t) MAX_TTL_MS
      in \<lparr>be_message_id = mid, be_payload = payload, be_recipient_id = recipient, be_sender_id = sender,
          be_stored_at = now, be_expires_at = now + ttl, be_viability_score = 100, be_replicated_to = []\<rparr>)"

definition entry_is_expired :: "backup_entry \<Rightarrow> u64 \<Rightarrow> bool" where
  "entry_is_expired e now \<longleftrightarrow> be_expires_at e \<le> now"

definition remaining_ttl :: "backup_entry \<Rightarrow> u64 \<Rightarrow> u64" where
  "remaining_ttl e now = saturating_sub (be_expires_at e) now"

definition replica_count :: "backup_entry \<Rightarrow> nat" where
  "replica_count e = length (be_replicated_to e)"

datatype backup_event =
    BkMessageStored string node_id
  | BkMessageExpired string node_id
  | BkMessageDelivered string node_id
  | BkReplicationNeeded string node_id u8
  | BkSelfDeleteRecommended string node_id u8
  | BkMessageReplicated string node_id

record replication_payload =
  rp_message_id :: string
  rp_payload :: bytes
  rp_recipient_id :: node_id
  rp_sender_id :: node_id
  rp_expires_at :: u64
  rp_viability_score :: u8
  rp_replicated_to :: "node_id list"

datatype backup_action =
    BaReplicate node_id replication_payload
  | BaConfirmDelivery "string list" node_id
  | BaQueryPending node_id
  | BaEvent backup_event

record host_factors =
  hf_stability :: u8
  hf_bandwidth :: u8
  hf_contribution :: u8

definition host_factors_default :: host_factors where
  "host_factors_default = \<lparr>hf_stability = 50, hf_bandwidth = 50, hf_contribution = 50\<rparr>"

record backup_store =
  bs_messages :: "(string, backup_entry) hmap"
  bs_by_recipient :: "(node_id, string hset) hmap"
  bs_host_factors :: host_factors

subsection \<open>The store\<close>

definition backup_store_new :: backup_store where
  "backup_store_new = \<lparr>bs_messages = [], bs_by_recipient = [], bs_host_factors = host_factors_default\<rparr>"

definition index_add :: "node_id \<Rightarrow> string \<Rightarrow> (node_id, string hset) hmap \<Rightarrow> (node_id, string hset) hmap" where
  "index_add r mid ix = hm_insert r (hs_insert mid (case hm_get ix r of None \<Rightarrow> [] | Some ids \<Rightarrow> ids)) ix"

definition index_remove :: "node_id \<Rightarrow> string \<Rightarrow> (node_id, string hset) hmap \<Rightarrow> (node_id, string hset) hmap" where
  "index_remove r mid ix =
     (case hm_get ix r of
        None \<Rightarrow> ix
      | Some ids \<Rightarrow>
          let ids = hs_remove mid ids
          in if ids = [] then hm_remove r ix else hm_insert r ids ix)"

definition bs_delete :: "string \<Rightarrow> backup_store \<Rightarrow> bool \<times> backup_store" where
  "bs_delete mid s =
     (case hm_get (bs_messages s) mid of
        None \<Rightarrow> (False, s)
      | Some e \<Rightarrow>
          (True, s\<lparr>bs_messages := hm_remove mid (bs_messages s),
                   bs_by_recipient := index_remove (be_recipient_id e) mid (bs_by_recipient s)\<rparr>))"

text \<open>\<open>min_by_key\<close>: the first entry with the least key.\<close>

definition min_by_key :: "('a \<Rightarrow> 'b::linorder) \<Rightarrow> 'a list \<Rightarrow> 'a option" where
  "min_by_key f xs =
     fold (\<lambda>x best. case best of None \<Rightarrow> Some x | Some y \<Rightarrow> if f x < f y then Some x else Some y) xs None"

definition evict_oldest :: "u64 \<Rightarrow> backup_store \<Rightarrow> backup_store" where
  "evict_oldest now s =
     (case min_by_key (\<lambda>(_, e). be_stored_at e) (bs_messages s) of
        None \<Rightarrow> s
      | Some (mid, _) \<Rightarrow> snd (bs_delete mid s))"

definition bs_put :: "backup_entry \<Rightarrow> backup_store \<Rightarrow> backup_store" where
  "bs_put e s =
     s\<lparr>bs_by_recipient := index_add (be_recipient_id e) (be_message_id e) (bs_by_recipient s),
       bs_messages := hm_insert (be_message_id e) e (bs_messages s)\<rparr>"

definition bs_store ::
  "string \<Rightarrow> bytes \<Rightarrow> node_id \<Rightarrow> node_id \<Rightarrow> u64 \<Rightarrow> u64 option \<Rightarrow> backup_store \<Rightarrow> backup_event list \<times> backup_store" where
  "bs_store mid payload recipient sender now ttl_ms s =
     (if hm_contains (bs_messages s) mid then ([], s)
      else
        (let s = (if MAX_TOTAL_MESSAGES \<le> length (bs_messages s) then evict_oldest now s else s)
         in ([BkMessageStored mid recipient],
             bs_put (backup_entry_new mid payload recipient sender now ttl_ms) s)))"

definition add_replicas :: "node_id list \<Rightarrow> backup_entry \<Rightarrow> backup_entry" where
  "add_replicas ns e = e\<lparr>be_replicated_to := fold hs_insert ns (be_replicated_to e)\<rparr>"

definition store_replica :: "replication_payload \<Rightarrow> u64 \<Rightarrow> backup_store \<Rightarrow> backup_event list \<times> backup_store" where
  "store_replica p now s =
     (if rp_expires_at p \<le> now then ([], s)
      else if hm_contains (bs_messages s) (rp_message_id p)
      then ([], s\<lparr>bs_messages := hm_modify (rp_message_id p) (add_replicas (rp_replicated_to p)) (bs_messages s)\<rparr>)
      else
        (let remaining = saturating_sub (rp_expires_at p) now;
             entry = backup_entry_new (rp_message_id p) (rp_payload p) (rp_recipient_id p) (rp_sender_id p)
                       now (Some remaining);
             entry = entry\<lparr>be_viability_score := rp_viability_score p\<rparr>;
             entry = add_replicas (rp_replicated_to p) entry
         in ([BkMessageStored (rp_message_id p) (rp_recipient_id p)], bs_put entry s)))"

definition get_for_recipient :: "node_id \<Rightarrow> backup_store \<Rightarrow> backup_entry list" where
  "get_for_recipient r s =
     (case hm_get (bs_by_recipient s) r of
        None \<Rightarrow> []
      | Some ids \<Rightarrow> List.map_filter (\<lambda>mid. hm_get (bs_messages s) mid) ids)"

definition bs_mark_delivered :: "string \<Rightarrow> backup_store \<Rightarrow> backup_event list \<times> backup_store" where
  "bs_mark_delivered mid s =
     (case hm_get (bs_messages s) mid of
        None \<Rightarrow> ([], s)
      | Some e \<Rightarrow>
          ([BkMessageDelivered mid (be_recipient_id e)],
           s\<lparr>bs_messages := hm_remove mid (bs_messages s),
             bs_by_recipient := index_remove (be_recipient_id e) mid (bs_by_recipient s)\<rparr>))"

fun mark_delivered_batch :: "string list \<Rightarrow> backup_store \<Rightarrow> backup_event list \<times> backup_store" where
  "mark_delivered_batch [] s = ([], s)"
| "mark_delivered_batch (mid # mids) s =
     (let (ev, s) = bs_mark_delivered mid s; (evs, s) = mark_delivered_batch mids s in (ev @ evs, s))"

definition record_replication :: "string \<Rightarrow> node_id \<Rightarrow> backup_store \<Rightarrow> backup_store" where
  "record_replication mid target s =
     s\<lparr>bs_messages := hm_modify mid (add_replicas [target]) (bs_messages s)\<rparr>"

definition update_viability :: "string \<Rightarrow> u8 \<Rightarrow> backup_store \<Rightarrow> backup_store" where
  "update_viability mid score s =
     s\<lparr>bs_messages := hm_modify mid (\<lambda>e. e\<lparr>be_viability_score := min score 100\<rparr>) (bs_messages s)\<rparr>"

definition update_host_factors :: "host_factors \<Rightarrow> backup_store \<Rightarrow> backup_store" where
  "update_host_factors f s = s\<lparr>bs_host_factors := f\<rparr>"

fun expire_all :: "string list \<Rightarrow> backup_store \<Rightarrow> backup_event list \<times> backup_store" where
  "expire_all [] s = ([], s)"
| "expire_all (mid # mids) s =
     (case hm_get (bs_messages s) mid of
        None \<Rightarrow> expire_all mids s
      | Some e \<Rightarrow>
          (let s = s\<lparr>bs_messages := hm_remove mid (bs_messages s),
                     bs_by_recipient := index_remove (be_recipient_id e) mid (bs_by_recipient s)\<rparr>;
               (evs, s) = expire_all mids s
           in (BkMessageExpired mid (be_recipient_id e) # evs, s)))"

definition cleanup_expired :: "u64 \<Rightarrow> backup_store \<Rightarrow> backup_event list \<times> backup_store" where
  "cleanup_expired now s =
     expire_all (map fst (filter (\<lambda>(_, e). entry_is_expired e now) (bs_messages s))) s"

definition compute_host_viability :: "backup_store \<Rightarrow> u8" where
  "compute_host_viability s =
     (let f = bs_host_factors s;
          score = f64_add (f64_add (f64_add (f64_mul (f64_of_nat (unat (hf_stability f))) (f64_lit (30 / 100)))
                                             (f64_mul (f64_of_nat (unat (hf_bandwidth f))) (f64_lit (25 / 100))))
                                    (f64_mul (f64_of_nat (unat (hf_contribution f))) (f64_lit (20 / 100))))
                     25
      in min (f64_to_u8 score) 100)"

definition check_viability :: "backup_store \<Rightarrow> backup_event list" where
  "check_viability s =
     (let score = compute_host_viability s
      in List.map_filter (\<lambda>e.
           let effective = min score (be_viability_score e)
           in if effective \<le> DELETION_THRESHOLD
              then Some (BkSelfDeleteRecommended (be_message_id e) (be_recipient_id e) effective)
              else if effective \<le> REPLICATION_THRESHOLD \<and> replica_count e < MAX_REPLICAS
              then Some (BkReplicationNeeded (be_message_id e) (be_recipient_id e) effective)
              else None) (hm_values (bs_messages s)))"

definition create_replication_payload :: "string \<Rightarrow> backup_store \<Rightarrow> replication_payload option" where
  "create_replication_payload mid s =
     map_option (\<lambda>e. \<lparr>rp_message_id = be_message_id e, rp_payload = be_payload e,
         rp_recipient_id = be_recipient_id e, rp_sender_id = be_sender_id e,
         rp_expires_at = be_expires_at e, rp_viability_score = be_viability_score e,
         rp_replicated_to = be_replicated_to e\<rparr>) (hm_get (bs_messages s) mid)"

subsection \<open>The coordinator\<close>

record query_state =
  qs_started_at :: u64
  qs_received_ids :: "string hset"

record backup_coordinator =
  bc_local_id :: node_id
  bc_store :: backup_store
  bc_active_queries :: "(node_id, query_state) hmap"
  bc_last_query_time :: "(node_id, u64) hmap"
  bc_pending_replications :: "(string, (node_id \<times> u64) list) hmap"

definition backup_coordinator_new :: "node_id \<Rightarrow> backup_coordinator" where
  "backup_coordinator_new n =
     \<lparr>bc_local_id = n, bc_store = backup_store_new, bc_active_queries = [], bc_last_query_time = [],
      bc_pending_replications = []\<rparr>"

definition bc_store_message ::
  "string \<Rightarrow> bytes \<Rightarrow> node_id \<Rightarrow> node_id \<Rightarrow> u64 \<Rightarrow> u64 option \<Rightarrow> backup_coordinator
     \<Rightarrow> backup_action list \<times> backup_coordinator" where
  "bc_store_message mid payload recipient sender now ttl_ms b =
     (let (evs, s) = bs_store mid payload recipient sender now ttl_ms (bc_store b)
      in (map BaEvent evs, b\<lparr>bc_store := s\<rparr>))"

definition handle_replication ::
  "replication_payload \<Rightarrow> node_id \<Rightarrow> u64 \<Rightarrow> backup_coordinator \<Rightarrow> backup_action list \<times> backup_coordinator" where
  "handle_replication p from now b =
     (let (evs, s) = store_replica p now (bc_store b);
          mid = rp_message_id p
      in if hm_contains (bs_messages s) mid
         then (map BaEvent evs @ [BaEvent (BkMessageReplicated mid (bc_local_id b))],
               b\<lparr>bc_store := record_replication mid from (record_replication mid (bc_local_id b) s)\<rparr>)
         else (map BaEvent evs, b\<lparr>bc_store := s\<rparr>))"

definition query_pending :: "node_id \<Rightarrow> u64 \<Rightarrow> backup_coordinator \<Rightarrow> backup_action list \<times> backup_coordinator" where
  "query_pending recipient now b =
     (if (case hm_get (bc_last_query_time b) recipient of
            None \<Rightarrow> False | Some prev \<Rightarrow> saturating_sub now prev < QUERY_DEBOUNCE_MS)
      then ([], b)
      else
        (let received = fold hs_insert (map be_message_id (get_for_recipient recipient (bc_store b))) []
         in ([BaQueryPending recipient],
             b\<lparr>bc_last_query_time := hm_insert recipient now (bc_last_query_time b),
               bc_active_queries := hm_insert recipient \<lparr>qs_started_at = now, qs_received_ids = received\<rparr>
                                      (bc_active_queries b)\<rparr>)))"

fun take_new :: "string list \<Rightarrow> string hset \<Rightarrow> string list \<times> string hset" where
  "take_new [] s = ([], s)"
| "take_new (x # xs) s =
     (let (new, s') = take_new xs (hs_insert x s) in (if x \<in> set s then new else x # new, s'))"

definition handle_query_response ::
  "node_id \<Rightarrow> string list \<Rightarrow> u64 \<Rightarrow> backup_coordinator \<Rightarrow> string list \<times> backup_coordinator" where
  "handle_query_response recipient mids now b =
     (case hm_get (bc_active_queries b) recipient of
        None \<Rightarrow> ([], b)
      | Some q \<Rightarrow>
          let (new, ids) = take_new mids (qs_received_ids q)
          in (new, b\<lparr>bc_active_queries := hm_insert recipient (q\<lparr>qs_received_ids := ids\<rparr>) (bc_active_queries b)\<rparr>))"

definition cleanup_queries :: "u64 \<Rightarrow> backup_coordinator \<Rightarrow> backup_coordinator" where
  "cleanup_queries now b =
     b\<lparr>bc_active_queries :=
         hm_retain (\<lambda>_ q. saturating_sub now (qs_started_at q) < QUERY_TIMEOUT_MS) (bc_active_queries b)\<rparr>"

definition confirm_delivery ::
  "string list \<Rightarrow> node_id \<Rightarrow> backup_coordinator \<Rightarrow> backup_action list \<times> backup_coordinator" where
  "confirm_delivery mids recipient b =
     (let (evs, s) = mark_delivered_batch mids (bc_store b)
      in (map BaEvent evs @ [BaConfirmDelivery mids recipient],
          b\<lparr>bc_store := s,
            bc_pending_replications := fold hm_remove mids (bc_pending_replications b),
            bc_active_queries := hm_remove recipient (bc_active_queries b)\<rparr>))"

definition handle_delivery_confirmation ::
  "string list \<Rightarrow> backup_coordinator \<Rightarrow> backup_action list \<times> backup_coordinator" where
  "handle_delivery_confirmation mids b =
     (let (evs, s) = mark_delivered_batch mids (bc_store b) in (map BaEvent evs, b\<lparr>bc_store := s\<rparr>))"

definition replicate_to ::
  "string \<Rightarrow> node_id \<Rightarrow> u64 \<Rightarrow> backup_coordinator \<Rightarrow> backup_action list \<times> backup_coordinator" where
  "replicate_to mid target now b =
     (case hm_get (bs_messages (bc_store b)) mid of
        None \<Rightarrow> ([], b)
      | Some e \<Rightarrow>
          if target \<in> set (be_replicated_to e) then ([], b)
          else if MAX_REPLICAS \<le> replica_count e then ([], b)
          else (case create_replication_payload mid (bc_store b) of
              None \<Rightarrow> ([], b)
            | Some p \<Rightarrow>
                ([BaReplicate target p],
                 b\<lparr>bc_pending_replications :=
                     hm_insert mid ((case hm_get (bc_pending_replications b) mid of None \<Rightarrow> [] | Some l \<Rightarrow> l)
                                      @ [(target, now)]) (bc_pending_replications b)\<rparr>)))"

definition handle_replication_ack ::
  "string \<Rightarrow> node_id \<Rightarrow> backup_coordinator \<Rightarrow> backup_action list \<times> backup_coordinator" where
  "handle_replication_ack mid from b =
     (let b = b\<lparr>bc_store := record_replication mid from (bc_store b)\<rparr>;
          pending = (case hm_get (bc_pending_replications b) mid of
                       None \<Rightarrow> bc_pending_replications b
                     | Some l \<Rightarrow>
                         let l = filter (\<lambda>(target, _). target \<noteq> from) l
                         in if l = [] then hm_remove mid (bc_pending_replications b)
                            else hm_insert mid l (bc_pending_replications b))
      in ([BaEvent (BkMessageReplicated mid from)], b\<lparr>bc_pending_replications := pending\<rparr>))"

definition backup_tick :: "u64 \<Rightarrow> backup_coordinator \<Rightarrow> backup_action list \<times> backup_coordinator" where
  "backup_tick now b =
     (let (expired, s) = cleanup_expired now (bc_store b);
          b = cleanup_queries now (b\<lparr>bc_store := s\<rparr>);
          viability = check_viability s;
          pending = hm_map_values (filter (\<lambda>(_, sent_at). saturating_sub now sent_at < QUERY_TIMEOUT_MS))
                      (bc_pending_replications b)
      in (map BaEvent expired @ map BaEvent viability,
          b\<lparr>bc_pending_replications := hm_retain (\<lambda>_ l. l \<noteq> []) pending\<rparr>))"

end
