(* ===== verification/Tom_BackupSafety.thy ===== *)
theory Tom_BackupSafety
  imports Tom_Backup
begin

section \<open>Message backup: refinement and safety\<close>

text \<open>
  The store as an event machine that refines a \<^emph>\<open>mailbox\<close>, a map from message identifiers to
  entries without index: a simulation relates every operation to a step of the mailbox, and
  looking up a recipient gives exactly the entries addressed to it. On top of it, the life of
  a message under replication, expiry, and the spacing of queries.
\<close>

subsection \<open>The abstract mailbox\<close>

type_synonym mailbox = "string \<rightharpoonup> backup_entry"

datatype bk_event =
    BkStore string bytes node_id node_id u64 "u64 option"
  | BkReplica replication_payload u64
  | BkDelivered "string list"
  | BkDelete string
  | BkRecord string node_id
  | BkViability string u8
  | BkFactors host_factors
  | BkCleanup u64

definition replica_entry :: "replication_payload \<Rightarrow> u64 \<Rightarrow> backup_entry" where
  "replica_entry p now =
     add_replicas (rp_replicated_to p)
       ((backup_entry_new (rp_message_id p) (rp_payload p) (rp_recipient_id p) (rp_sender_id p) now
           (Some (saturating_sub (rp_expires_at p) now)))\<lparr>be_viability_score := rp_viability_score p\<rparr>)"

definition change :: "string \<Rightarrow> (backup_entry \<Rightarrow> backup_entry) \<Rightarrow> mailbox \<Rightarrow> mailbox" where
  "change mid f mb = mb(mid := map_option f (mb mid))"

inductive mb_step :: "bk_event \<Rightarrow> mailbox \<Rightarrow> mailbox \<Rightarrow> bool" where
  store_known: "mb mid \<noteq> None \<Longrightarrow> mb_step (BkStore mid pl r sd now ttl) mb mb"
| store_new: "mb mid = None \<Longrightarrow> card (dom mb) < MAX_TOTAL_MESSAGES \<Longrightarrow>
    mb_step (BkStore mid pl r sd now ttl) mb (mb(mid \<mapsto> backup_entry_new mid pl r sd now ttl))"
| store_full: "mb mid = None \<Longrightarrow> MAX_TOTAL_MESSAGES \<le> card (dom mb) \<Longrightarrow> mb victim = Some e \<Longrightarrow>
    \<forall>e' \<in> ran mb. be_stored_at e \<le> be_stored_at e' \<Longrightarrow>
    mb_step (BkStore mid pl r sd now ttl) mb ((mb(victim := None))(mid \<mapsto> backup_entry_new mid pl r sd now ttl))"
| replica_expired: "rp_expires_at p \<le> now \<Longrightarrow> mb_step (BkReplica p now) mb mb"
| replica_known: "\<not> rp_expires_at p \<le> now \<Longrightarrow> mb (rp_message_id p) \<noteq> None \<Longrightarrow>
    mb_step (BkReplica p now) mb (change (rp_message_id p) (add_replicas (rp_replicated_to p)) mb)"
| replica_new: "\<not> rp_expires_at p \<le> now \<Longrightarrow> mb (rp_message_id p) = None \<Longrightarrow>
    mb_step (BkReplica p now) mb (mb(rp_message_id p \<mapsto> replica_entry p now))"
| delivered: "mb_step (BkDelivered mids) mb (mb |` (- set mids))"
| deleted: "mb_step (BkDelete mid) mb (mb(mid := None))"
| recorded: "mb_step (BkRecord mid n) mb (change mid (add_replicas [n]) mb)"
| viability: "mb_step (BkViability mid v) mb (change mid (\<lambda>e. e\<lparr>be_viability_score := min v 100\<rparr>) mb)"
| factors: "mb_step (BkFactors f) mb mb"
| cleanup: "mb_step (BkCleanup now) mb
    (\<lambda>mid. case mb mid of None \<Rightarrow> None | Some e \<Rightarrow> if entry_is_expired e now then None else Some e)"

subsection \<open>The store as a machine\<close>

fun bk_step :: "bk_event \<Rightarrow> backup_store \<Rightarrow> backup_store" where
  "bk_step (BkStore mid pl r sd now ttl) s = snd (bs_store mid pl r sd now ttl s)"
| "bk_step (BkReplica p now) s = snd (store_replica p now s)"
| "bk_step (BkDelivered mids) s = snd (mark_delivered_batch mids s)"
| "bk_step (BkDelete mid) s = snd (bs_delete mid s)"
| "bk_step (BkRecord mid n) s = record_replication mid n s"
| "bk_step (BkViability mid v) s = update_viability mid v s"
| "bk_step (BkFactors f) s = update_host_factors f s"
| "bk_step (BkCleanup now) s = snd (cleanup_expired now s)"

definition mailbox_of :: "backup_store \<Rightarrow> mailbox" where
  "mailbox_of s = map_of (bs_messages s)"

definition index_wf :: "(node_id, string hset) hmap \<Rightarrow> bool" where
  "index_wf ix \<longleftrightarrow> hm_wf ix \<and> (\<forall>r ids. hm_get ix r = Some ids \<longrightarrow> ids \<noteq> [] \<and> distinct ids)"

definition indexed :: "(node_id, string hset) hmap \<Rightarrow> node_id \<Rightarrow> string set" where
  "indexed ix r = (case hm_get ix r of None \<Rightarrow> {} | Some ids \<Rightarrow> set ids)"

definition addressed :: "mailbox \<Rightarrow> node_id \<Rightarrow> string set" where
  "addressed mb r = {mid. \<exists>e. mb mid = Some e \<and> be_recipient_id e = r}"

definition store_wf :: "backup_store \<Rightarrow> bool" where
  "store_wf s \<longleftrightarrow>
     hm_wf (bs_messages s) \<and> index_wf (bs_by_recipient s) \<and>
     (\<forall>mid e. hm_get (bs_messages s) mid = Some e \<longrightarrow> be_message_id e = mid) \<and>
     (\<forall>r. indexed (bs_by_recipient s) r = addressed (mailbox_of s) r)"

lemma store_wfI:
  assumes "hm_wf (bs_messages s)" and "index_wf (bs_by_recipient s)"
    and "\<And>mid e. hm_get (bs_messages s) mid = Some e \<Longrightarrow> be_message_id e = mid"
    and "\<And>r. indexed (bs_by_recipient s) r = addressed (mailbox_of s) r"
  shows "store_wf s"
  using assms by (simp add: store_wf_def)

lemma index_add_wf: "index_wf ix \<Longrightarrow> index_wf (index_add r mid ix)"
  by (auto simp: index_wf_def index_add_def hm_simps hm_wfs hs_insert_def split: option.splits)

lemma indexed_add: "indexed (index_add r mid ix) r' = (if r' = r then insert mid (indexed ix r) else indexed ix r')"
  by (auto simp: indexed_def index_add_def hm_simps split: option.splits)

lemma index_remove_wf: "index_wf ix \<Longrightarrow> index_wf (index_remove r mid ix)"
  by (auto simp: index_wf_def index_remove_def Let_def hm_simps hm_wfs simp del: map_of_eq_Some_iff
      split: option.splits if_splits)

lemma indexed_remove:
  "indexed (index_remove r mid ix) r' = (if r' = r then indexed ix r - {mid} else indexed ix r')"
proof -
  have "hs_remove mid ids = [] \<Longrightarrow> set ids - {mid} = {}" for ids :: "string list"
    using set_hs_remove [of mid ids] by simp
  then show ?thesis
    by (auto simp: indexed_def index_remove_def Let_def hm_simps split: option.splits)
qed

subsection \<open>Each operation\<close>

text \<open>The two ways in which all operations change the store: putting and taking out an entry.\<close>

definition bs_drop :: "string \<Rightarrow> backup_store \<Rightarrow> backup_store" where
  "bs_drop mid s = snd (bs_delete mid s)"

lemma put_mailbox: "mailbox_of (bs_put e s) = (mailbox_of s)(be_message_id e \<mapsto> e)"
  by (simp add: mailbox_of_def bs_put_def update_conv')

lemma put_wf:
  assumes "store_wf s" and "mailbox_of s (be_message_id e) = None"
  shows "store_wf (bs_put e s)"
proof (rule store_wfI)
  show "hm_wf (bs_messages (bs_put e s))" "index_wf (bs_by_recipient (bs_put e s))"
    using assms(1) by (simp_all add: store_wf_def bs_put_def hm_wfs index_add_wf)
  show "be_message_id e' = mid" if "hm_get (bs_messages (bs_put e s)) mid = Some e'" for mid e'
    using assms(1) that by (auto simp: store_wf_def bs_put_def hm_simps split: if_splits)
  show "indexed (bs_by_recipient (bs_put e s)) r = addressed (mailbox_of (bs_put e s)) r" for r
  proof -
    have "addressed (mailbox_of (bs_put e s)) r =
        (if r = be_recipient_id e then insert (be_message_id e) (addressed (mailbox_of s) r) else addressed (mailbox_of s) r)"
      using assms(2) by (auto simp: addressed_def put_mailbox)
    with assms(1) show ?thesis by (simp add: bs_put_def indexed_add store_wf_def)
  qed
qed

lemma drop_mailbox: "mailbox_of (bs_drop mid s) = (mailbox_of s)(mid := None)"
  by (auto simp: mailbox_of_def bs_drop_def bs_delete_def delete_conv' fun_eq_iff split: option.split)

lemma drop_wf:
  assumes "store_wf s"
  shows "store_wf (bs_drop mid s)"
proof (cases "hm_get (bs_messages s) mid")
  case None
  then show ?thesis using assms by (simp add: bs_drop_def bs_delete_def)
next
  case (Some e)
  then have fields: "bs_messages (bs_drop mid s) = hm_remove mid (bs_messages s)"
    "bs_by_recipient (bs_drop mid s) = index_remove (be_recipient_id e) mid (bs_by_recipient s)"
    by (simp_all add: bs_drop_def bs_delete_def)
  have got: "mailbox_of s mid = Some e" using Some by (simp add: mailbox_of_def)
  have "addressed (mailbox_of (bs_drop mid s)) r =
      (if r = be_recipient_id e then addressed (mailbox_of s) r - {mid} else addressed (mailbox_of s) r)" for r
    using got by (auto simp: addressed_def drop_mailbox)
  then show ?thesis
    using assms
    by (intro store_wfI)
      (auto simp: fields store_wf_def hm_simps hm_wfs index_remove_wf indexed_remove simp del: map_of_eq_Some_iff
        split: if_splits)
qed

lemma mark_delivered_drop: "snd (bs_mark_delivered mid s) = bs_drop mid s"
  by (simp add: bs_mark_delivered_def bs_drop_def bs_delete_def split: option.split)

lemma batch_drop: "snd (mark_delivered_batch mids s) = fold bs_drop mids s"
  by (induction mids arbitrary: s) (simp_all add: case_prod_beta Let_def mark_delivered_drop)

lemma expire_drop: "snd (expire_all mids s) = fold bs_drop mids s"
proof (induction mids arbitrary: s)
  case Nil
  then show ?case by simp
next
  case (Cons mid mids)
  show ?case
  proof (cases "hm_get (bs_messages s) mid")
    case None
    then have "bs_drop mid s = s" by (simp add: bs_drop_def bs_delete_def)
    with None show ?thesis by (simp add: Cons.IH)
  next
    case (Some e)
    then have "bs_drop mid s = s\<lparr>bs_messages := hm_remove mid (bs_messages s),
        bs_by_recipient := index_remove (be_recipient_id e) mid (bs_by_recipient s)\<rparr>"
      by (simp add: bs_drop_def bs_delete_def)
    with Some show ?thesis by (simp add: Cons.IH case_prod_beta Let_def)
  qed
qed

lemma drops_mailbox: "mailbox_of (fold bs_drop mids s) = mailbox_of s |` (- set mids)"
  by (induction mids arbitrary: s) (auto simp: drop_mailbox restrict_map_def fun_eq_iff)

lemma drops_wf: "store_wf s \<Longrightarrow> store_wf (fold bs_drop mids s)"
  by (induction mids arbitrary: s) (auto intro: drop_wf)

lemma modify_mailbox:
  "mailbox_of (s\<lparr>bs_messages := hm_modify mid f (bs_messages s)\<rparr>) = change mid f (mailbox_of s)"
  by (auto simp: mailbox_of_def change_def hm_simps fun_eq_iff)

lemma modify_wf:
  assumes "store_wf s"
    and "\<And>e. be_message_id (f e) = be_message_id e" and "\<And>e. be_recipient_id (f e) = be_recipient_id e"
  shows "store_wf (s\<lparr>bs_messages := hm_modify mid f (bs_messages s)\<rparr>)" (is "store_wf ?s")
proof (rule store_wfI)
  show "hm_wf (bs_messages ?s)" "index_wf (bs_by_recipient ?s)"
    using assms(1) by (simp_all add: store_wf_def)
  show "be_message_id e = mid'" if "hm_get (bs_messages ?s) mid' = Some e" for mid' e
    using assms(1,2) that by (auto simp: store_wf_def hm_simps simp del: map_of_eq_Some_iff split: if_splits)
  have "addressed (change mid f mb) r = addressed mb r" for mb r
    using assms(3) by (auto simp: addressed_def change_def)
  then show "indexed (bs_by_recipient ?s) r = addressed (mailbox_of ?s) r" for r
    using assms(1) by (simp add: modify_mailbox store_wf_def)
qed

lemma add_replicas_simps [simp]:
  "be_message_id (add_replicas ns e) = be_message_id e" "be_recipient_id (add_replicas ns e) = be_recipient_id e"
  "be_expires_at (add_replicas ns e) = be_expires_at e" "be_payload (add_replicas ns e) = be_payload e"
  "be_sender_id (add_replicas ns e) = be_sender_id e" "be_stored_at (add_replicas ns e) = be_stored_at e"
  by (simp_all add: add_replicas_def)

lemma entry_new_simps [simp]:
  "be_message_id (backup_entry_new mid pl r sd now ttl) = mid"
  "be_recipient_id (backup_entry_new mid pl r sd now ttl) = r"
  by (simp_all add: backup_entry_new_def Let_def)

lemma min_by_key_fold:
  assumes "fold (\<lambda>x best. case best of None \<Rightarrow> Some x | Some y \<Rightarrow> if f x < f y then Some x else Some y) xs acc = r"
  shows "(r = None \<longrightarrow> xs = [] \<and> acc = None) \<and>
    (\<forall>x. r = Some x \<longrightarrow> x \<in> set xs \<union> set_option acc \<and> (\<forall>y \<in> set xs \<union> set_option acc. f x \<le> (f y :: 'b::linorder)))"
  using assms
proof (induction xs arbitrary: acc)
  case Nil
  then show ?case by auto
next
  case (Cons a xs)
  show ?case
  proof (cases acc)
    case None
    with Cons.IH [of "Some a"] Cons.prems show ?thesis by auto
  next
    case (Some b)
    show ?thesis
    proof (cases "f a < f b")
      case True
      with Some Cons.IH [of "Some a"] Cons.prems show ?thesis by fastforce
    next
      case False
      with Some Cons.IH [of "Some b"] Cons.prems show ?thesis by fastforce
    qed
  qed
qed

lemma min_by_key_correct:
  "min_by_key f xs = None \<Longrightarrow> xs = []"
  "min_by_key f xs = Some x \<Longrightarrow> x \<in> set xs \<and> (\<forall>y \<in> set xs. f x \<le> f y)"
  using min_by_key_fold [of f xs None] by (simp_all add: min_by_key_def)

lemma card_mailbox: "hm_wf (bs_messages s) \<Longrightarrow> card (dom (mailbox_of s)) = length (bs_messages s)"
  by (metis dom_map_of_conv_image_fst distinct_card length_map list.set_map mailbox_of_def)

lemma evict_oldest_drop:
  assumes "store_wf s" and "bs_messages s \<noteq> []"
  obtains victim e where "evict_oldest now s = bs_drop victim s" and "mailbox_of s victim = Some e"
    and "\<forall>e' \<in> ran (mailbox_of s). be_stored_at e \<le> be_stored_at e'"
proof -
  obtain victim e where v: "min_by_key (\<lambda>(_, e). be_stored_at e) (bs_messages s) = Some (victim, e)"
    using assms(2) min_by_key_correct(1) [of "\<lambda>(_, e). be_stored_at e" "bs_messages s"]
    by (cases "min_by_key (\<lambda>(_, e). be_stored_at e) (bs_messages s)") auto
  from min_by_key_correct(2) [OF v] have mem: "(victim, e) \<in> set (bs_messages s)"
    and least: "\<And>m e'. (m, e') \<in> set (bs_messages s) \<Longrightarrow> be_stored_at e \<le> be_stored_at e'"
    by auto
  have "evict_oldest now s = bs_drop victim s" using v by (simp add: evict_oldest_def bs_drop_def)
  moreover have "mailbox_of s victim = Some e"
    using mem assms(1) unfolding mailbox_of_def store_wf_def by (blast intro: hm_in_set_get)
  moreover have "\<forall>e' \<in> ran (mailbox_of s). be_stored_at e \<le> be_stored_at e'"
    unfolding ran_def mailbox_of_def using least by (blast dest: hm_get_in_set)
  ultimately show thesis by (rule that)
qed

lemma cleanup_mailbox:
  assumes "hm_wf (bs_messages s)"
  shows "mailbox_of (snd (cleanup_expired now s)) =
    (\<lambda>mid. case mailbox_of s mid of None \<Rightarrow> None | Some e \<Rightarrow> if entry_is_expired e now then None else Some e)"
proof
  fix mid
  let ?ids = "map fst (filter (\<lambda>(_, e). entry_is_expired e now) (bs_messages s))"
  have "mid \<in> set ?ids \<longleftrightarrow> (\<exists>e. mailbox_of s mid = Some e \<and> entry_is_expired e now)"
    using assms by (force simp: mailbox_of_def)
  then show "mailbox_of (snd (cleanup_expired now s)) mid =
      (case mailbox_of s mid of None \<Rightarrow> None | Some e \<Rightarrow> if entry_is_expired e now then None else Some e)"
    by (auto simp: cleanup_expired_def expire_drop drops_mailbox restrict_map_def split: option.split)
qed

lemma cleanup_wf: "store_wf s \<Longrightarrow> store_wf (snd (cleanup_expired now s))"
  by (simp add: cleanup_expired_def expire_drop drops_wf)

lemma store_step:
  assumes wf: "store_wf s"
  shows "store_wf (bk_step (BkStore mid pl r sd now ttl) s) \<and>
    mb_step (BkStore mid pl r sd now ttl) (mailbox_of s) (mailbox_of (bk_step (BkStore mid pl r sd now ttl) s))"
proof (cases "mailbox_of s mid")
  case (Some e)
  then show ?thesis using wf by (auto simp: bs_store_def mailbox_of_def intro: mb_step.store_known)
next
  case None
  let ?e = "backup_entry_new mid pl r sd now ttl"
  have new: "hm_get (bs_messages s) mid = None" using None by (simp add: mailbox_of_def)
  have card: "card (dom (mailbox_of s)) = length (bs_messages s)" using wf by (simp add: card_mailbox store_wf_def)
  show ?thesis
  proof (cases "MAX_TOTAL_MESSAGES \<le> length (bs_messages s)")
    case False
    then have "bk_step (BkStore mid pl r sd now ttl) s = bs_put ?e s" using new by (simp add: bs_store_def)
    with False None wf card show ?thesis
      using mb_step.store_new [of "mailbox_of s" mid pl r sd now ttl] by (simp add: put_wf put_mailbox)
  next
    case True
    then have "bs_messages s \<noteq> []" by (auto simp: MAX_TOTAL_MESSAGES_def)
    with wf obtain v e where v: "evict_oldest now s = bs_drop v s" "mailbox_of s v = Some e"
      "\<forall>e' \<in> ran (mailbox_of s). be_stored_at e \<le> be_stored_at e'"
      using evict_oldest_drop by blast
    have "bk_step (BkStore mid pl r sd now ttl) s = bs_put ?e (bs_drop v s)"
      using True new v(1) by (simp add: bs_store_def)
    with True None wf card v show ?thesis
      using mb_step.store_full [of "mailbox_of s" mid v e pl r sd now ttl]
      by (simp add: put_wf put_mailbox drop_wf drop_mailbox)
  qed
qed

lemma replica_step:
  assumes wf: "store_wf s"
  shows "store_wf (bk_step (BkReplica p now) s) \<and>
    mb_step (BkReplica p now) (mailbox_of s) (mailbox_of (bk_step (BkReplica p now) s))"
proof (cases "rp_expires_at p \<le> now")
  case True
  then show ?thesis using wf by (simp add: store_replica_def mb_step.replica_expired)
next
  case False
  show ?thesis
  proof (cases "mailbox_of s (rp_message_id p)")
    case (Some e)
    then have "bk_step (BkReplica p now) s =
        s\<lparr>bs_messages := hm_modify (rp_message_id p) (add_replicas (rp_replicated_to p)) (bs_messages s)\<rparr>"
      using False by (simp add: store_replica_def mailbox_of_def)
    with False Some wf show ?thesis
      using mb_step.replica_known [of p now "mailbox_of s"] by (simp add: modify_wf modify_mailbox)
  next
    case None
    then have "bk_step (BkReplica p now) s = bs_put (replica_entry p now) s"
      using False by (simp add: store_replica_def mailbox_of_def replica_entry_def Let_def)
    moreover have "be_message_id (replica_entry p now) = rp_message_id p" by (simp add: replica_entry_def)
    ultimately show ?thesis
      using False None wf mb_step.replica_new [of p now "mailbox_of s"] by (simp add: put_wf put_mailbox)
  qed
qed

interpretation backup_machine: refined_machine bk_step "\<lambda>_. True" store_wf mb_step mailbox_of
proof
  fix e s
  assume wf: "store_wf s"
  have "store_wf (bk_step e s) \<and> mb_step e (mailbox_of s) (mailbox_of (bk_step e s))"
  proof (cases e)
    case (BkDelivered mids)
    then show ?thesis using wf by (simp add: batch_drop drops_mailbox drops_wf mb_step.delivered)
  next
    case (BkDelete mid)
    then show ?thesis
      using wf drop_mailbox [of mid s] drop_wf [OF wf, of mid] by (simp add: bs_drop_def mb_step.deleted)
  next
    case (BkRecord mid n)
    then show ?thesis using wf by (simp add: record_replication_def modify_wf modify_mailbox mb_step.recorded)
  next
    case (BkViability mid v)
    then show ?thesis using wf by (simp add: update_viability_def modify_wf modify_mailbox mb_step.viability)
  next
    case (BkFactors f)
    then show ?thesis
      using wf by (simp add: update_host_factors_def store_wf_def mailbox_of_def mb_step.factors)
  next
    case (BkCleanup now)
    have "hm_wf (bs_messages s)" using wf by (simp add: store_wf_def)
    with BkCleanup wf show ?thesis by (simp add: cleanup_mailbox cleanup_wf mb_step.cleanup)
  qed (use wf store_step replica_step in \<open>simp_all del: bk_step.simps\<close>)
  then show "store_wf (bk_step e s)" and "mb_step e (mailbox_of s) (mailbox_of (bk_step e s))" by auto
qed

lemma new_store_wf: "store_wf backup_store_new" and new_mailbox: "mailbox_of backup_store_new = Map.empty"
  by (simp_all add: store_wf_def backup_store_new_def index_wf_def indexed_def addressed_def mailbox_of_def)

lemma lookup_exact:
  assumes "store_wf s"
  shows "set (get_for_recipient r s) = {e \<in> ran (mailbox_of s). be_recipient_id e = r}"
proof -
  have "set (get_for_recipient r s) = {e. \<exists>mid \<in> indexed (bs_by_recipient s) r. mailbox_of s mid = Some e}"
    by (force simp: get_for_recipient_def indexed_def mailbox_of_def List.map_filter_def split: option.split)
  also have "indexed (bs_by_recipient s) r = addressed (mailbox_of s) r" using assms by (simp add: store_wf_def)
  finally show ?thesis by (auto simp: addressed_def ran_def)
qed

text \<open>
  C29. The store refines the mailbox: whatever operations are run on a new store, the map from
  identifiers to entries that it holds is the result of the corresponding steps of the mailbox
  (a store at capacity gives up an entry stored earliest), and its index is exact: a look-up by recipient returns
  precisely the entries addressed to it.
\<close>

theorem store_refines_mailbox:
  "run_of mb_step evs Map.empty (mailbox_of (fold bk_step evs backup_store_new)) \<and>
   set (get_for_recipient r (fold bk_step evs backup_store_new)) =
     {e \<in> ran (mailbox_of (fold bk_step evs backup_store_new)). be_recipient_id e = r}"
proof
  show "run_of mb_step evs Map.empty (mailbox_of (fold bk_step evs backup_store_new))"
    using backup_machine.run_refines [of evs backup_store_new] new_store_wf
    by (simp add: new_mailbox list_all_iff)
  have "store_wf (fold bk_step evs backup_store_new)"
    using new_store_wf by (intro backup_machine.run_invar) (simp_all add: list_all_iff)
  then show "set (get_for_recipient r (fold bk_step evs backup_store_new)) =
      {e \<in> ran (mailbox_of (fold bk_step evs backup_store_new)). be_recipient_id e = r}"
    by (rule lookup_exact)
qed

subsection \<open>The life of a message\<close>

text \<open>A message is copied from store to store, each at its own time.\<close>

fun relay_copies :: "string \<Rightarrow> backup_store \<Rightarrow> (backup_store \<times> u64) list \<Rightarrow> backup_store" where
  "relay_copies mid s [] = s"
| "relay_copies mid s ((t, now) # rest) =
     relay_copies mid
       (case create_replication_payload mid s of None \<Rightarrow> t | Some p \<Rightarrow> snd (store_replica p now t)) rest"

definition copy_of :: "backup_entry \<Rightarrow> backup_entry \<Rightarrow> bool" where
  "copy_of e e' \<longleftrightarrow> be_payload e' = be_payload e \<and> be_recipient_id e' = be_recipient_id e \<and>
     be_sender_id e' = be_sender_id e \<and> be_expires_at e' \<le> be_expires_at e"

lemma expiry_not_extended:
  assumes "(now :: u64) < ex"
  shows "now + min (saturating_sub ex now) MAX_TTL_MS \<le> ex"
proof -
  have sat: "saturating_sub ex now = ex - now" using assms by (auto simp: saturating_sub_def)
  have "unat (ex - now) = unat ex - unat now" using assms by (simp add: unat_sub less_imp_le)
  moreover have "unat (min (ex - now) MAX_TTL_MS) \<le> unat (ex - now)" by (simp add: min_def word_le_nat_alt)
  ultimately have le: "unat now + unat (min (ex - now) MAX_TTL_MS) \<le> unat ex"
    using assms by (simp add: word_less_nat_alt)
  also have "\<dots> < 2 ^ 64" using unsigned_less [of ex] by simp
  finally have "unat (now + min (ex - now) MAX_TTL_MS) = unat now + unat (min (ex - now) MAX_TTL_MS)"
    by (simp add: unat_word_ariths)
  with le show ?thesis by (simp add: sat word_le_nat_alt)
qed

lemma copied_once:
  assumes "hm_get (bs_messages s) mid = Some e" and "be_message_id e = mid"
    and "create_replication_payload mid s = Some p" and "hm_get (bs_messages t) mid = None"
    and "hm_get (bs_messages (snd (store_replica p now t))) mid = Some e'"
  shows "copy_of e e' \<and> be_message_id e' = mid"
proof -
  have p: "rp_message_id p = mid" "rp_payload p = be_payload e" "rp_recipient_id p = be_recipient_id e"
    "rp_sender_id p = be_sender_id e" "rp_expires_at p = be_expires_at e"
    using assms(1-3) by (auto simp: create_replication_payload_def)
  have alive: "\<not> rp_expires_at p \<le> now"
    using assms(4,5) p by (auto simp: store_replica_def)
  then have "bs_messages (snd (store_replica p now t)) = hm_insert mid (replica_entry p now) (bs_messages t)"
    using assms(4) p by (simp add: store_replica_def bs_put_def replica_entry_def Let_def)
  then have "e' = replica_entry p now" using assms(5) by (simp add: hm_simps)
  then show ?thesis
    using alive p expiry_not_extended [of now "rp_expires_at p"]
    by (simp add: copy_of_def replica_entry_def backup_entry_new_def Let_def)
qed

text \<open>
  C34. Copying never extends the life of a message: however often a stored message is passed on
  from store to store, at whatever times, each copy that is still held carries the original
  payload, sender and recipient, and expires no later than the original.
\<close>

theorem replication_never_extends_life:
  assumes "hm_get (bs_messages s) mid = Some e" and "be_message_id e = mid"
    and "list_all (\<lambda>(t, now). hm_get (bs_messages t) mid = None) chain"
    and "hm_get (bs_messages (relay_copies mid s chain)) mid = Some e'"
  shows "copy_of e e'"
  using assms
proof (induction chain arbitrary: s e)
  case Nil
  then show ?case by (simp add: copy_of_def)
next
  case (Cons step chain)
  obtain t now where step: "step = (t, now)" by force
  obtain p where p: "create_replication_payload mid s = Some p"
    using Cons.prems(1) by (simp add: create_replication_payload_def)
  let ?t = "snd (store_replica p now t)"
  have fin: "hm_get (bs_messages (relay_copies mid ?t chain)) mid = Some e'"
    using Cons.prems(4) by (simp add: step p)
  show ?case
  proof (cases "hm_get (bs_messages ?t) mid")
    case (Some e1)
    have e1: "copy_of e e1 \<and> be_message_id e1 = mid"
      using Cons.prems Some p step by (intro copied_once [of s mid e p t now e1]) auto
    with Some fin Cons have "copy_of e1 e'" by (intro Cons.IH) auto
    with e1 show ?thesis by (auto simp: copy_of_def)
  next
    case None
    have "hm_get (bs_messages (relay_copies mid u chain)) mid = None"
      if "hm_get (bs_messages u) mid = None" for u
      using that Cons.prems(3) unfolding step
      by (induction chain arbitrary: u) (auto simp: create_replication_payload_def)
    with None fin show ?thesis by simp
  qed
qed

definition demo_stored :: backup_store where
  "demo_stored = snd (bs_store ''m'' [1, 2] (NodeId 2) (NodeId 1) 1000 None backup_store_new)"

theorem replication_never_extends_life_witness:
  "\<exists>e e'. hm_get (bs_messages demo_stored) ''m'' = Some e \<and>
     hm_get (bs_messages (relay_copies ''m'' demo_stored [(backup_store_new, 5000), (backup_store_new, 9000)])) ''m'' = Some e' \<and>
     be_expires_at e' \<le> 86401000 \<and> be_payload e' = [1, 2]"
proof -
  let ?e = "backup_entry_new ''m'' [1, 2] (NodeId 2) (NodeId 1) 1000 None"
  let ?f = "relay_copies ''m'' demo_stored [(backup_store_new, 5000), (backup_store_new, 9000)]"
  have s: "hm_get (bs_messages demo_stored) ''m'' = Some ?e"
    by (simp add: demo_stored_def bs_store_def backup_store_new_def bs_put_def MAX_TOTAL_MESSAGES_def)
  have ex: "be_expires_at ?e = 86401000" "be_payload ?e = [1, 2]"
    by (simp_all add: backup_entry_new_def DEFAULT_TTL_MS_def MAX_TTL_MS_def)
  have empty: "list_all (\<lambda>(t, now). hm_get (bs_messages t) ''m'' = None) [(backup_store_new, 5000), (backup_store_new, 9000)]"
    by (simp add: backup_store_new_def)
  obtain e' where f: "hm_get (bs_messages ?f) ''m'' = Some e'"
    by (simp add: demo_stored_def bs_store_def backup_store_new_def bs_put_def MAX_TOTAL_MESSAGES_def
        create_replication_payload_def backup_entry_new_def store_replica_def DEFAULT_TTL_MS_def MAX_TTL_MS_def
        saturating_sub_def Let_def add_replicas_def)
  have "copy_of ?e e'" using replication_never_extends_life [OF s _ empty f] by simp
  then show ?thesis using s f ex by (auto simp: copy_of_def)
qed

subsection \<open>Viability\<close>

lemma host_score_bounds:
  fixes a b c :: nat
  assumes "a \<le> 255" and "b \<le> 255" and "c \<le> 255"
  defines "t \<equiv> \<lambda>n w. f64_mul (f64_of_nat n) (f64_lit w)"
  shows "25 \<le> f64_add (f64_add (f64_add (t a (30 / 100)) (t b (25 / 100))) (t c (20 / 100))) 25"
proof -
  have t: "0 \<le> t n w" if "0 \<le> w" for n w
    using that by (simp add: t_def f64_defs f64_round_nonneg)
  have "0 \<le> f64_add x y" if "0 \<le> x" "0 \<le> y" for x y
    using that by (simp add: f64_add_def f64_round_nonneg)
  then have "0 \<le> f64_add (f64_add (t a (30 / 100)) (t b (25 / 100))) (t c (20 / 100))"
    by (simp add: t)
  then show ?thesis
    unfolding f64_add_def [of _ 25] by (intro f64_round_ge_int [of 25, simplified]) simp_all
qed

lemma host_viability_floor: "25 \<le> compute_host_viability s"
proof -
  let ?f = "bs_host_factors s"
  define x where "x = f64_add (f64_add (f64_add
      (f64_mul (f64_of_nat (unat (hf_stability ?f))) (f64_lit (30 / 100)))
      (f64_mul (f64_of_nat (unat (hf_bandwidth ?f))) (f64_lit (25 / 100))))
      (f64_mul (f64_of_nat (unat (hf_contribution ?f))) (f64_lit (20 / 100)))) 25"
  have "unat w \<le> 255" for w :: u8 using unsigned_less [of w, where 'a = nat] by simp
  then have "25 \<le> x" unfolding x_def by (intro host_score_bounds)
  then have "25 \<le> max 0 (min 255 \<lfloor>x\<rfloor>)" "max 0 (min 255 \<lfloor>x\<rfloor>) \<le> 255" by (simp_all add: le_floor_iff)
  then have "25 \<le> f64_to_u8 x"
    by (simp add: f64_to_u8_def word_le_def uint_word_of_int)
  then show ?thesis by (simp add: compute_host_viability_def Let_def x_def)
qed

text \<open>
  A poor host never recommends a deletion: the viability computed from the host's
  factors is at least 25, whatever they are, so a message is recommended for deletion exactly
  when its own score, which no host factor enters, is at most 10.
\<close>

theorem deletion_needs_entry_score:
  "25 \<le> compute_host_viability s \<and>
   {mid. \<exists>r v. BkSelfDeleteRecommended mid r v \<in> set (check_viability s)} =
   be_message_id ` {e \<in> set (hm_values (bs_messages s)). be_viability_score e \<le> DELETION_THRESHOLD}"
proof -
  let ?h = "compute_host_viability s"
  have h: "25 \<le> ?h" by (rule host_viability_floor)
  have low: "min ?h v \<le> DELETION_THRESHOLD \<longleftrightarrow> v \<le> DELETION_THRESHOLD" for v
    using h unfolding DELETION_THRESHOLD_def min_def by (auto simp: word_le_nat_alt)
  have "BkSelfDeleteRecommended mid r v \<in> set (check_viability s) \<longleftrightarrow>
      (\<exists>e \<in> set (hm_values (bs_messages s)). be_viability_score e \<le> DELETION_THRESHOLD \<and> mid = be_message_id e \<and>
         r = be_recipient_id e \<and> v = min ?h (be_viability_score e))" for mid r v
    by (auto simp: check_viability_def List.map_filter_def Let_def low image_iff split: if_splits)
  with h show ?thesis by auto
qed

subsection \<open>Queries\<close>

text \<open>A query that is sent within five seconds of an earlier one for the same recipient is suppressed.\<close>

lemma queries_spaced:
  assumes "query_pending r now b = ([BaQueryPending r], b')" and "saturating_sub later now < QUERY_DEBOUNCE_MS"
  shows "query_pending r later b' = ([], b')"
  using assms by (auto simp: query_pending_def Let_def hm_simps split: if_splits)

lemma take_new_spec:
  "set (fst (take_new mids ids)) = set mids - set ids \<and> distinct (fst (take_new mids ids)) \<and>
   set (snd (take_new mids ids)) = set mids \<union> set ids"
proof (induction mids arbitrary: ids)
  case Nil
  then show ?case by simp
next
  case (Cons x mids)
  show ?case using Cons.IH [of "hs_insert x ids"] by (auto simp: hs_insert_def Let_def split_beta)
qed

subsection \<open>Replicas are not bounded\<close>

lemma replicas_all_stored:
  assumes "list_all (\<lambda>p. now < rp_expires_at p) ps" and "distinct (map rp_message_id ps)"
    and "\<forall>p \<in> set ps. hm_get (bs_messages s) (rp_message_id p) = None"
  shows "length (bs_messages (fold (\<lambda>p. bk_step (BkReplica p now)) ps s)) = length (bs_messages s) + length ps"
  using assms
proof (induction ps arbitrary: s)
  case Nil
  then show ?case by simp
next
  case (Cons p ps)
  have put: "bs_messages (bk_step (BkReplica p now) s) = hm_insert (rp_message_id p) (replica_entry p now) (bs_messages s)"
    using Cons.prems by (auto simp: store_replica_def bs_put_def replica_entry_def Let_def not_le [symmetric])
  have "\<forall>q \<in> set ps. hm_get (bs_messages (bk_step (BkReplica p now) s)) (rp_message_id q) = None"
    using Cons.prems by (simp add: put hm_simps image_iff del: bk_step.simps) metis
  moreover have "length (bs_messages (bk_step (BkReplica p now) s)) = Suc (length (bs_messages s))"
    using Cons.prems by (simp add: put length_insert del: bk_step.simps)
  ultimately show ?case using Cons.IH [of "bk_step (BkReplica p now) s"] Cons.prems by simp
qed

text \<open>
  The limit of ten thousand stored messages does not hold for replicas: any number of
  distinct, unexpired replicas that another node sends are all stored, whatever the store
  already holds.
\<close>

theorem replicas_unbounded:
  assumes "list_all (\<lambda>p. now < rp_expires_at p) ps" and "distinct (map rp_message_id ps)"
  shows "length (bs_messages (fold (\<lambda>p. bk_step (BkReplica p now)) ps backup_store_new)) = length ps"
  using replicas_all_stored [OF assms, of backup_store_new] by (simp add: backup_store_new_def)

definition flood :: "nat \<Rightarrow> replication_payload list" where
  "flood n = map (\<lambda>i. \<lparr>rp_message_id = replicate i CHR ''x'', rp_payload = [], rp_recipient_id = NodeId 1,
     rp_sender_id = NodeId 2, rp_expires_at = 100, rp_viability_score = 100, rp_replicated_to = []\<rparr>) [0..<n]"

theorem replicas_unbounded_witness:
  "MAX_TOTAL_MESSAGES < length (bs_messages (fold (\<lambda>p. bk_step (BkReplica p 50)) (flood 20000) backup_store_new))"
proof -
  have "list_all (\<lambda>p. 50 < rp_expires_at p) (flood 20000)" by (simp add: flood_def list_all_iff)
  moreover have "distinct (map rp_message_id (flood 20000))"
    by (simp add: flood_def distinct_map inj_on_def comp_def)
  ultimately have "length (bs_messages (fold (\<lambda>p. bk_step (BkReplica p 50)) (flood 20000) backup_store_new)) = length (flood 20000)"
    by (rule replicas_unbounded)
  then show ?thesis by (simp add: flood_def MAX_TOTAL_MESSAGES_def)
qed

end
