(* ===== verification/Tom_Election.thy ===== *)
theory Tom_Election
  imports Tom_GroupTypes Tom_Topology
begin

section \<open>Hub election\<close>

text \<open>
  Models \<^verbatim>\<open>tom-protocol/src/group/election.rs\<close>: the choice of a new hub after the old one failed,
  made by every member on its own from its table of peers. The lemmas characterise the winner
  and show that members whose tables agree elect the same hub, whatever the iteration order.
\<close>

datatype election_reason = Backup | Deterministic | NoCandidates

record election_result =
  er_new_hub_id :: "node_id option"
  er_reason :: election_reason
  er_candidate_count :: nat

definition elect_hub :: "group_info \<Rightarrow> node_id \<Rightarrow> topology \<Rightarrow> election_result" where
  "elect_hub grp failed t =
     (case (case gi_backup_hub_id grp of
              None \<Rightarrow> None
            | Some backup \<Rightarrow>
                if backup \<noteq> failed \<and>
                   (case tp_get backup t of None \<Rightarrow> False | Some p \<Rightarrow> pi_status p = Online)
                then Some backup else None) of
        Some backup \<Rightarrow>
          \<lparr>er_new_hub_id = Some backup, er_reason = Backup, er_candidate_count = 1\<rparr>
      | None \<Rightarrow>
          let candidates = map pi_node_id
                (filter (\<lambda>p. pi_node_id p \<noteq> failed \<and> pi_role p = Relay \<and> pi_status p = Online)
                   (online_relays t))
          in (case sort_key node_to_string candidates of
                [] \<Rightarrow> \<lparr>er_new_hub_id = None, er_reason = NoCandidates, er_candidate_count = 0\<rparr>
              | winner # _ \<Rightarrow>
                  \<lparr>er_new_hub_id = Some winner, er_reason = Deterministic,
                   er_candidate_count = length candidates\<rparr>))"

subsection \<open>Lemmas\<close>

definition usable_backup :: "group_info \<Rightarrow> node_id \<Rightarrow> topology \<Rightarrow> node_id option" where
  "usable_backup grp failed t =
     (case gi_backup_hub_id grp of
        None \<Rightarrow> None
      | Some backup \<Rightarrow>
          if backup \<noteq> failed \<and>
             (case tp_get backup t of None \<Rightarrow> False | Some p \<Rightarrow> pi_status p = Online)
          then Some backup else None)"

definition eligible :: "topology \<Rightarrow> node_id \<Rightarrow> node_id set" where
  "eligible t failed = {n. n \<noteq> failed \<and> (\<exists>p. tp_get n t = Some p \<and> is_online_relay p)}"

definition election_candidates :: "topology \<Rightarrow> node_id \<Rightarrow> node_id list" where
  "election_candidates t failed =
     map pi_node_id
       (filter (\<lambda>p. pi_node_id p \<noteq> failed \<and> pi_role p = Relay \<and> pi_status p = Online) (online_relays t))"

lemma elect_hub_eq:
  "elect_hub grp failed t =
     (case usable_backup grp failed t of
        Some backup \<Rightarrow> \<lparr>er_new_hub_id = Some backup, er_reason = Backup, er_candidate_count = 1\<rparr>
      | None \<Rightarrow>
          (case sort (election_candidates t failed) of
             [] \<Rightarrow> \<lparr>er_new_hub_id = None, er_reason = NoCandidates, er_candidate_count = 0\<rparr>
           | winner # _ \<Rightarrow>
               \<lparr>er_new_hub_id = Some winner, er_reason = Deterministic,
                er_candidate_count = length (election_candidates t failed)\<rparr>))"
  unfolding elect_hub_def usable_backup_def election_candidates_def sort_key_node_to_string Let_def ..

lemma candidates_eligible:
  assumes "topology_wf t"
  shows "set (election_candidates t failed) = eligible t failed" and "distinct (election_candidates t failed)"
proof -
  let ?ps = "tp_peers t"
  have wf: "hm_wf ?ps" and keys: "\<And>n p. (n, p) \<in> set ?ps \<Longrightarrow> pi_node_id p = n"
    using assms by (auto simp: topology_wf_def)
  have vals: "map pi_node_id (hm_values ?ps) = hm_keys ?ps"
    using keys by (auto simp: comp_def intro!: map_cong)
  have "distinct (map pi_node_id (filter is_online_relay (hm_values ?ps)))"
    by (intro distinct_map_filter) (simp only: vals wf)
  then have dist: "distinct (map pi_node_id (online_relays t))"
    by (simp add: online_relays_def distinct_map)
  then show "distinct (election_candidates t failed)"
    unfolding election_candidates_def by (rule distinct_map_filter)
  show "set (election_candidates t failed) = eligible t failed"
  proof (intro equalityI subsetI)
    fix n
    assume "n \<in> set (election_candidates t failed)"
    then obtain p where p: "p \<in> set (hm_values ?ps)" "is_online_relay p" "n = pi_node_id p" "n \<noteq> failed"
      by (auto simp: election_candidates_def online_relays_def)
    then have "(n, p) \<in> set ?ps" using keys by auto
    with p show "n \<in> eligible t failed"
      using hm_in_set_get [OF wf] by (auto simp: eligible_def tp_get_def)
  next
    fix n
    assume "n \<in> eligible t failed"
    then obtain p where p: "hm_get ?ps n = Some p" "is_online_relay p" "n \<noteq> failed"
      by (auto simp: eligible_def tp_get_def)
    then have "p \<in> set (hm_values ?ps)" "pi_node_id p = n" using keys by (force dest!: hm_get_in_set)+
    with p show "n \<in> set (election_candidates t failed)"
      by (auto simp: election_candidates_def online_relays_def is_online_relay_def)
  qed
qed

lemma sort_candidates:
  assumes "topology_wf t"
  shows "sort (election_candidates t failed) = sorted_list_of_set (eligible t failed)"
    and "length (election_candidates t failed) = card (eligible t failed)"
  using candidates_eligible [OF assms, of failed]
  by (metis sorted_list_of_set_sort_remdups distinct_remdups_id, metis distinct_card)

text \<open>
  C33. The election is a function of what a member knows about its peers: two members whose
  tables hold the same entries, in whatever order, elect the same hub for the same reason. The winner is the
  group's backup hub if it is known to be online and is not the failed hub, otherwise the
  online relay with the lowest identity, and there is none exactly if no other relay is online.
\<close>

theorem election_agreement:
  assumes "topology_wf t" and "topology_wf t'" and "\<forall>n. tp_get n t = tp_get n t'"
  shows "elect_hub grp failed t = elect_hub grp failed t' \<and>
    er_new_hub_id (elect_hub grp failed t) =
      (case usable_backup grp failed t of
         Some backup \<Rightarrow> Some backup
       | None \<Rightarrow> if eligible t failed = {} then None else Some (Min (eligible t failed)))"
proof
  have "usable_backup grp failed t = usable_backup grp failed t'" "eligible t failed = eligible t' failed"
    using assms(3) by (simp_all add: usable_backup_def eligible_def split: option.split)
  then show "elect_hub grp failed t = elect_hub grp failed t'"
    unfolding elect_hub_eq sort_candidates [OF assms(1)] sort_candidates [OF assms(2)] by (simp only:)
  have fin: "finite (eligible t failed)"
    using candidates_eligible(1) [OF assms(1), of failed] by (metis List.finite_set)
  show "er_new_hub_id (elect_hub grp failed t) =
      (case usable_backup grp failed t of
         Some backup \<Rightarrow> Some backup
       | None \<Rightarrow> if eligible t failed = {} then None else Some (Min (eligible t failed)))"
    using fin sort_candidates [OF assms(1), of failed]
    by (auto simp: elect_hub_eq sorted_list_of_set_nonempty split: option.split)
qed

definition shuffled_topology :: topology where
  "shuffled_topology = \<lparr>tp_peers = rev (tp_peers demo_topology)\<rparr>"

definition headless_group :: group_info where
  "headless_group =
     \<lparr>gi_group_id = GroupId ''g'', gi_name = ''team'', gi_hub_relay_id = NodeId 9, gi_backup_hub_id = Some (NodeId 9),
      gi_members = [], gi_created_by = NodeId 1, gi_created_at = 0, gi_last_activity_at = 0, gi_max_members = 50,
      gi_shadow_id = None, gi_candidate_id = None, gi_invite_only = False\<rparr>"

theorem election_agreement_witness:
  "elect_hub headless_group (NodeId 9) demo_topology = elect_hub headless_group (NodeId 9) shuffled_topology \<and>
   er_new_hub_id (elect_hub headless_group (NodeId 9) demo_topology) = Some (NodeId 2)"
proof -
  have wf: "topology_wf shuffled_topology"
    by (simp add: topology_wf_def shuffled_topology_def demo_topology_def MAX_PEERS_def)
  have "\<forall>n. tp_get n demo_topology = tp_get n shuffled_topology"
    by (simp add: tp_get_def shuffled_topology_def demo_topology_def)
  note agree = election_agreement [OF demo_topology_wf wf this, of headless_group "NodeId 9"]
  have "usable_backup headless_group (NodeId 9) demo_topology = None"
    by (simp add: usable_backup_def headless_group_def)
  moreover have "eligible demo_topology (NodeId 9) = {NodeId 2, NodeId 3}"
    by (auto simp: eligible_def tp_get_def demo_topology_def is_online_relay_def split: if_splits)
  moreover have "Min {NodeId 2, NodeId 3} = NodeId 2"
    by (simp add: min_def less_eq_node_id_def)
  ultimately show ?thesis using agree by force
qed

end
