(* ===== verification/Tom_Discovery.thy ===== *)
theory Tom_Discovery
  imports Tom_Topology Tom_Crypto Tom_Float
begin

section \<open>Discovery and liveness\<close>

text \<open>
  Models \<^verbatim>\<open>tom-protocol/src/discovery\<close>: announcements (\<^verbatim>\<open>types.rs\<close>), the tracker that turns missed
  heartbeats into peer states (\<^verbatim>\<open>heartbeat.rs\<close>) and signed role announcements (\<^verbatim>\<open>role_sync.rs\<close>).
  The lemmas show that a check gives every tracked peer the status that the time since its
  last heartbeat prescribes and reports exactly the changes, that a peer is reported as
  discovered once, and that a signed role announcement verifies.
\<close>

subsection \<open>Data\<close>

definition STALE_THRESHOLD_MS :: u64 where "STALE_THRESHOLD_MS = 20000"
definition OFFLINE_THRESHOLD_MS :: u64 where "OFFLINE_THRESHOLD_MS = 45000"
definition MAX_FUTURE_DRIFT_MS :: u64 where "MAX_FUTURE_DRIFT_MS = 5 * 60 * 1000"

record peer_announce =
  pa_node_id :: node_id
  pa_username :: string
  pa_roles :: "peer_role list"
  pa_encryption_key :: "bytes option"
  pa_timestamp :: u64

definition peer_announce_new :: "ctx \<Rightarrow> node_id \<Rightarrow> string \<Rightarrow> peer_role list \<Rightarrow> peer_announce" where
  "peer_announce_new c n username roles =
     \<lparr>pa_node_id = n, pa_username = username, pa_roles = roles, pa_encryption_key = Some (as_bytes n),
      pa_timestamp = now_ms c\<rparr>"

definition is_timestamp_valid :: "peer_announce \<Rightarrow> u64 \<Rightarrow> bool" where
  "is_timestamp_valid a now \<longleftrightarrow>
     \<not> now + MAX_FUTURE_DRIFT_MS < pa_timestamp a \<and>
     \<not> (pa_timestamp a < now \<and> 60 * 60 * 1000 < now - pa_timestamp a)"

datatype discovery_source = Direct | Gossip | Announce | Dht

datatype discovery_event =
    DePeerDiscovered node_id string discovery_source
  | DePeerStale node_id
  | DePeerOffline node_id
  | DePeerOnline node_id

datatype liveness_state = LsAlive | LsStale | LsDeparted

subsection \<open>The heartbeat tracker\<close>

record heartbeat_tracker =
  hb_last_heartbeat :: "(node_id, u64) hmap"
  hb_stale_threshold :: u64
  hb_offline_threshold :: u64
  hb_pending_source :: "(node_id, discovery_source) hmap"
  hb_pending_username :: "(node_id, string) hmap"
  hb_discovered :: "node_id hset"

definition with_thresholds :: "u64 \<Rightarrow> u64 \<Rightarrow> heartbeat_tracker" where
  "with_thresholds stale_ms offline_ms =
     \<lparr>hb_last_heartbeat = [], hb_stale_threshold = stale_ms, hb_offline_threshold = offline_ms,
      hb_pending_source = [], hb_pending_username = [], hb_discovered = []\<rparr>"

definition heartbeat_tracker_new :: heartbeat_tracker where
  "heartbeat_tracker_new =
     \<lparr>hb_last_heartbeat = [], hb_stale_threshold = STALE_THRESHOLD_MS,
      hb_offline_threshold = OFFLINE_THRESHOLD_MS,
      hb_pending_source = [], hb_pending_username = [], hb_discovered = []\<rparr>"

definition record_heartbeat_at :: "node_id \<Rightarrow> u64 \<Rightarrow> heartbeat_tracker \<Rightarrow> heartbeat_tracker" where
  "record_heartbeat_at n timestamp h =
     h\<lparr>hb_last_heartbeat := hm_insert n timestamp (hb_last_heartbeat h)\<rparr>"

definition record_heartbeat :: "ctx \<Rightarrow> node_id \<Rightarrow> heartbeat_tracker \<Rightarrow> heartbeat_tracker" where
  "record_heartbeat c n h = h\<lparr>hb_last_heartbeat := hm_insert n (now_ms c) (hb_last_heartbeat h)\<rparr>"

definition record_heartbeat_with_source ::
  "ctx \<Rightarrow> node_id \<Rightarrow> discovery_source \<Rightarrow> string \<Rightarrow> heartbeat_tracker \<Rightarrow> heartbeat_tracker" where
  "record_heartbeat_with_source c n source username h =
     record_heartbeat c n
       (h\<lparr>hb_pending_source := hm_insert n source (hb_pending_source h),
          hb_pending_username := hm_insert n username (hb_pending_username h)\<rparr>)"

definition track_peer :: "ctx \<Rightarrow> node_id \<Rightarrow> heartbeat_tracker \<Rightarrow> heartbeat_tracker" where
  "track_peer c n h =
     (if hm_contains (hb_last_heartbeat h) n then h
      else h\<lparr>hb_last_heartbeat := hm_insert n (now_ms c) (hb_last_heartbeat h)\<rparr>)"

definition untrack_peer :: "node_id \<Rightarrow> heartbeat_tracker \<Rightarrow> heartbeat_tracker" where
  "untrack_peer n h = h\<lparr>hb_last_heartbeat := hm_remove n (hb_last_heartbeat h)\<rparr>"

definition liveness_at :: "node_id \<Rightarrow> u64 \<Rightarrow> heartbeat_tracker \<Rightarrow> liveness_state" where
  "liveness_at n now h =
     (case hm_get (hb_last_heartbeat h) n of
        None \<Rightarrow> LsDeparted
      | Some beat \<Rightarrow>
          let elapsed = saturating_sub now beat
          in if hb_offline_threshold h \<le> elapsed then LsDeparted
             else if hb_stale_threshold h \<le> elapsed then LsStale
             else LsAlive)"

definition liveness :: "ctx \<Rightarrow> node_id \<Rightarrow> heartbeat_tracker \<Rightarrow> liveness_state" where
  "liveness c n h = liveness_at n (now_ms c) h"

text \<open>Give a known peer a new status, by a copy put back into the table.\<close>

definition set_peer_status :: "node_id \<Rightarrow> peer_status \<Rightarrow> topology \<Rightarrow> topology" where
  "set_peer_status n st t =
     (case tp_get n t of None \<Rightarrow> t | Some p \<Rightarrow> snd (upsert (p\<lparr>pi_status := st\<rparr>) t))"

text \<open>One round of the loop of \<open>check_all\<close>.\<close>

definition check_peer ::
  "u64 \<Rightarrow> node_id \<times> u64 \<Rightarrow> heartbeat_tracker \<Rightarrow> topology
     \<Rightarrow> discovery_event list \<times> heartbeat_tracker \<times> topology" where
  "check_peer now entry h t =
     (let (n, beat) = entry;
          elapsed = saturating_sub now beat;
          current_status = map_option pi_status (tp_get n t)
      in if hb_offline_threshold h \<le> elapsed
         then (if current_status \<noteq> Some Offline
               then ([DePeerOffline n], h, set_peer_status n Offline t) else ([], h, t))
         else if hb_stale_threshold h \<le> elapsed
         then (if current_status \<noteq> Some Stale
               then ([DePeerStale n], h, set_peer_status n Stale t) else ([], h, t))
         else if n \<notin> set (hb_discovered h)
         then (let source = (case hm_get (hb_pending_source h) n of None \<Rightarrow> Direct | Some s \<Rightarrow> s);
                   username = (case hm_get (hb_pending_username h) n of None \<Rightarrow> [] | Some u \<Rightarrow> u)
               in ([DePeerDiscovered n username source],
                   h\<lparr>hb_pending_source := hm_remove n (hb_pending_source h),
                     hb_pending_username := hm_remove n (hb_pending_username h)\<rparr>,
                   set_peer_status n Online t))
         else if current_status = Some Stale \<or> current_status = Some Offline
         then ([DePeerOnline n], h, set_peer_status n Online t)
         else ([], h, t))"

fun check_loop ::
  "u64 \<Rightarrow> (node_id \<times> u64) list \<Rightarrow> heartbeat_tracker \<Rightarrow> topology
     \<Rightarrow> discovery_event list \<times> heartbeat_tracker \<times> topology" where
  "check_loop now [] h t = ([], h, t)"
| "check_loop now (x # xs) h t =
     (let (evs, h, t) = check_peer now x h t; (evs', h, t) = check_loop now xs h t in (evs @ evs', h, t))"

fun discovered_node :: "discovery_event \<Rightarrow> node_id option" where
  "discovered_node (DePeerDiscovered n u s) = Some n"
| "discovered_node _ = None"

definition check_all ::
  "ctx \<Rightarrow> heartbeat_tracker \<Rightarrow> topology \<Rightarrow> discovery_event list \<times> heartbeat_tracker \<times> topology" where
  "check_all c h t =
     (let (evs, h, t) = check_loop (now_ms c) (hb_last_heartbeat h) h t
      in (evs, h\<lparr>hb_discovered := fold hs_insert (List.map_filter discovered_node evs) (hb_discovered h)\<rparr>, t))"

definition cleanup_departed :: "ctx \<Rightarrow> heartbeat_tracker \<Rightarrow> node_id list \<times> heartbeat_tracker" where
  "cleanup_departed c h =
     (let gone = (\<lambda>beat. hb_offline_threshold h * 3 \<le> saturating_sub (now_ms c) beat);
          removed = map fst (filter (\<lambda>(_, beat). gone beat) (hb_last_heartbeat h))
      in (removed,
          h\<lparr>hb_last_heartbeat := hm_retain (\<lambda>_ beat. \<not> gone beat) (hb_last_heartbeat h),
            hb_discovered := fold hs_remove removed (hb_discovered h),
            hb_pending_source := fold hm_remove removed (hb_pending_source h),
            hb_pending_username := fold hm_remove removed (hb_pending_username h)\<rparr>))"

subsection \<open>Role announcements\<close>

record role_change_announce =
  ra_node_id :: node_id
  ra_new_role :: peer_role
  ra_score :: real
  ra_timestamp :: u64
  ra_signature :: bytes

definition ra_signing_bytes :: "role_change_announce \<Rightarrow> bytes" where
  "ra_signing_bytes a =
     as_bytes (ra_node_id a) @ [case ra_new_role a of Peer \<Rightarrow> 0 | Relay \<Rightarrow> 1] @
     to_le_bytes 8 (f64_to_bits (ra_score a)) @ to_le_bytes 8 (ra_timestamp a)"

definition ra_sign :: "crypto_api \<Rightarrow> bytes \<Rightarrow> role_change_announce \<Rightarrow> role_change_announce" where
  "ra_sign api seed a = a\<lparr>ra_signature := ed_sign api seed (ra_signing_bytes a)\<rparr>"

definition role_change_announce_new ::
  "crypto_api \<Rightarrow> node_id \<Rightarrow> peer_role \<Rightarrow> real \<Rightarrow> u64 \<Rightarrow> bytes \<Rightarrow> role_change_announce" where
  "role_change_announce_new api n role score timestamp seed =
     ra_sign api seed \<lparr>ra_node_id = n, ra_new_role = role, ra_score = score, ra_timestamp = timestamp,
                       ra_signature = []\<rparr>"

definition ra_verify_signature :: "crypto_api \<Rightarrow> role_change_announce \<Rightarrow> bool" where
  "ra_verify_signature api a \<longleftrightarrow>
     ed_key_ok api (as_bytes (ra_node_id a)) \<and> length (ra_signature a) = 64 \<and>
     ed_verify api (as_bytes (ra_node_id a)) (ra_signing_bytes a) (ra_signature a)"

subsection \<open>Lemmas\<close>

definition prescribed :: "heartbeat_tracker \<Rightarrow> u64 \<Rightarrow> u64 \<Rightarrow> peer_status" where
  "prescribed h now beat =
     (if hb_offline_threshold h \<le> saturating_sub now beat then Offline
      else if hb_stale_threshold h \<le> saturating_sub now beat then Stale
      else Online)"

lemma set_peer_status_get:
  assumes "topology_wf t"
  shows "tp_get m (set_peer_status n st t) =
    (if m = n then map_option (\<lambda>p. p\<lparr>pi_status := st\<rparr>) (tp_get n t) else tp_get m t)"
proof (cases "tp_get n t")
  case None
  then show ?thesis by (simp add: set_peer_status_def)
next
  case (Some p)
  then have "pi_node_id p = n" "hm_contains (tp_peers t) n"
    using assms by (auto simp: topology_wf_def tp_get_def dest!: hm_get_in_set)
  with Some show ?thesis by (auto simp: set_peer_status_def upsert_def tp_get_def hm_simps)
qed

lemma set_peer_status_wf: "topology_wf t \<Longrightarrow> topology_wf (set_peer_status n st t)"
  by (simp add: set_peer_status_def upsert_wf split: option.split)

lemma same_status: "map_option pi_status (tp_get n t) = Some st \<Longrightarrow> map_option (\<lambda>p. p\<lparr>pi_status := st\<rparr>) (tp_get n t) = tp_get n t"
  by (cases "tp_get n t") auto

lemma check_peer_topology:
  assumes "topology_wf t"
  shows "tp_get m (snd (snd (check_peer now (n, beat) h t))) =
      (if m = n then map_option (\<lambda>p. p\<lparr>pi_status := prescribed h now beat\<rparr>) (tp_get n t) else tp_get m t)"
    and "topology_wf (snd (snd (check_peer now (n, beat) h t)))"
proof -
  have online: "map_option (\<lambda>p. p\<lparr>pi_status := Online\<rparr>) (tp_get n t) = tp_get n t"
    if "\<not> (map_option pi_status (tp_get n t) = Some Stale \<or> map_option pi_status (tp_get n t) = Some Offline)"
  proof (cases "tp_get n t")
    case (Some p)
    with that have "pi_status p = Online" by (cases "pi_status p") auto
    then have "p\<lparr>pi_status := Online\<rparr> = p" by simp
    with Some show ?thesis by simp
  qed simp
  show "tp_get m (snd (snd (check_peer now (n, beat) h t))) =
      (if m = n then map_option (\<lambda>p. p\<lparr>pi_status := prescribed h now beat\<rparr>) (tp_get n t) else tp_get m t)"
    using assms online
    by (simp add: check_peer_def Let_def prescribed_def set_peer_status_get same_status)
  show "topology_wf (snd (snd (check_peer now (n, beat) h t)))"
    using assms by (simp add: check_peer_def Let_def set_peer_status_wf)
qed

lemma check_peer_tracker:
  "hb_offline_threshold (fst (snd (check_peer now x h t))) = hb_offline_threshold h"
  "hb_stale_threshold (fst (snd (check_peer now x h t))) = hb_stale_threshold h"
  "hb_discovered (fst (snd (check_peer now x h t))) = hb_discovered h"
  by (simp_all add: check_peer_def Let_def case_prod_beta)

lemma check_peer_events:
  "List.map_filter discovered_node (fst (check_peer now (n, beat) h t)) =
     (if prescribed h now beat = Online \<and> n \<notin> set (hb_discovered h) then [n] else [])"
  by (simp add: check_peer_def Let_def prescribed_def List.map_filter_def)

lemma map_filter_app: "List.map_filter f (xs @ ys) = List.map_filter f xs @ List.map_filter f ys"
  by (simp add: List.map_filter_def)

lemma check_loop_topology:
  assumes "topology_wf t" and "distinct (map fst xs)"
  shows "tp_get m (snd (snd (check_loop now xs h t))) =
      (case hm_get xs m of
         None \<Rightarrow> tp_get m t
       | Some beat \<Rightarrow> map_option (\<lambda>p. p\<lparr>pi_status := prescribed h now beat\<rparr>) (tp_get m t))
    \<and> List.map_filter discovered_node (fst (check_loop now xs h t)) =
        map fst (filter (\<lambda>(n, beat). prescribed h now beat = Online \<and> n \<notin> set (hb_discovered h)) xs)
    \<and> hb_discovered (fst (snd (check_loop now xs h t))) = hb_discovered h"
  using assms
proof (induction xs arbitrary: h t)
  case Nil
  then show ?case by (simp add: List.map_filter_def)
next
  case (Cons x xs)
  obtain n beat where x: "x = (n, beat)" by force
  let ?r = "check_peer now (n, beat) h t"
  let ?h = "fst (snd ?r)" and ?t = "snd (snd ?r)"
  have pres: "prescribed ?h = prescribed h"
    by (simp add: prescribed_def fun_eq_iff check_peer_tracker)
  have wf: "topology_wf ?t" using Cons.prems(1) by (rule check_peer_topology(2))
  have dist: "distinct (map fst xs)" "n \<notin> fst ` set xs" using Cons.prems(2) x by auto
  note ih = Cons.IH [OF wf dist(1), of ?h, unfolded pres check_peer_tracker]
  have new: "hm_get xs n = None" using dist(2) by (simp add: map_of_eq_None_iff)
  have "check_loop now (x # xs) h t =
      (fst ?r @ fst (check_loop now xs ?h ?t), fst (snd (check_loop now xs ?h ?t)), snd (snd (check_loop now xs ?h ?t)))"
    by (simp add: x case_prod_beta Let_def)
  then show ?case
    using ih new check_peer_topology(1) [OF Cons.prems(1), of m now n beat h] check_peer_events [of now n beat h t]
    by (auto simp: x map_filter_app split: option.splits)
qed

text \<open>The tables of the tracker are well-formed and its thresholds are the default ones.\<close>

definition heartbeat_wf :: "heartbeat_tracker \<Rightarrow> bool" where
  "heartbeat_wf h \<longleftrightarrow>
     hm_wf (hb_last_heartbeat h) \<and> hm_wf (hb_pending_source h) \<and> hm_wf (hb_pending_username h) \<and>
     distinct (hb_discovered h) \<and> hb_stale_threshold h = STALE_THRESHOLD_MS \<and>
     hb_offline_threshold h = OFFLINE_THRESHOLD_MS"

lemma heartbeat_new_wf: "heartbeat_wf heartbeat_tracker_new"
  by (simp add: heartbeat_wf_def heartbeat_tracker_new_def)

lemma check_peer_wf: "heartbeat_wf h \<Longrightarrow> heartbeat_wf (fst (snd (check_peer now x h t)))"
  by (auto simp: heartbeat_wf_def check_peer_def case_prod_beta Let_def hm_wfs)

lemma check_loop_wf: "heartbeat_wf h \<Longrightarrow> heartbeat_wf (fst (snd (check_loop now xs h t)))"
  by (induction xs arbitrary: h t) (simp_all add: case_prod_beta Let_def check_peer_wf)

lemma heartbeat_ops_wf:
  assumes "heartbeat_wf h"
  shows "heartbeat_wf (record_heartbeat c n h)"
    and "heartbeat_wf (record_heartbeat_with_source c n src u h)"
    and "heartbeat_wf (untrack_peer n h)"
    and "heartbeat_wf (fst (snd (check_all c h t)))"
    and "heartbeat_wf (snd (cleanup_departed c h))"
  using assms check_loop_wf [OF assms, of "now_ms c" "hb_last_heartbeat h" t]
  by (simp_all add: heartbeat_wf_def record_heartbeat_def record_heartbeat_with_source_def untrack_peer_def
      check_all_def cleanup_departed_def case_prod_beta Let_def hm_wfs wf_fold_remove)

lemma set_fold_hs_insert: "set (fold hs_insert xs s) = set xs \<union> set s"
  by (induction xs arbitrary: s) auto

lemma role_announce_verifies:
  assumes "ed_correct api" and "as_bytes n = ed_public api seed"
  shows "ra_verify_signature api (role_change_announce_new api n role score ts seed)"
  using assms
  by (simp add: ra_verify_signature_def role_change_announce_new_def ra_sign_def ra_signing_bytes_def ed_correct_def)

text \<open>
  C32. A liveness check is exact: afterwards every tracked peer of the table has the status that
  the time since its last heartbeat prescribes (online, stale from 20 seconds, offline from
  45), every other entry is untouched, the peers reported as discovered are exactly the live
  ones not reported before, each once, and they are remembered.
\<close>

theorem check_all_exact:
  assumes "hm_wf (hb_last_heartbeat h)" and "topology_wf t"
  shows "let (evs, h', t') = check_all c h t;
             new = filter (\<lambda>(n, beat). prescribed h (now_ms c) beat = Online \<and> n \<notin> set (hb_discovered h))
                     (hb_last_heartbeat h)
         in (\<forall>n. tp_get n t' =
               (case hm_get (hb_last_heartbeat h) n of
                  None \<Rightarrow> tp_get n t
                | Some beat \<Rightarrow> map_option (\<lambda>p. p\<lparr>pi_status := prescribed h (now_ms c) beat\<rparr>) (tp_get n t))) \<and>
            List.map_filter discovered_node evs = map fst new \<and>
            set (hb_discovered h') = set (hb_discovered h) \<union> fst ` set new"
  using check_loop_topology [OF assms(2,1), of _ "now_ms c" h]
  by (auto simp: check_all_def Let_def case_prod_beta set_fold_hs_insert)

definition beats :: heartbeat_tracker where
  "beats = heartbeat_tracker_new\<lparr>hb_last_heartbeat := [(NodeId 2, 100000), (NodeId 3, 70000), (NodeId 7, 10000)]\<rparr>"

theorem check_all_exact_witness:
  "let (evs, h', t') = check_all \<lparr>now_ms = 100000, now_instant = 0, fresh_uuid = []\<rparr> beats demo_topology
   in map_option pi_status (tp_get (NodeId 2) t') = Some Online \<and>
      map_option pi_status (tp_get (NodeId 3) t') = Some Stale \<and>
      map_option pi_status (tp_get (NodeId 7) t') = Some Offline \<and>
      List.map_filter discovered_node evs = [NodeId 2]"
proof -
  let ?c = "\<lparr>now_ms = 100000, now_instant = 0, fresh_uuid = []\<rparr>"
  have "hm_wf (hb_last_heartbeat beats)" by (simp add: beats_def)
  note exact = check_all_exact [OF this demo_topology_wf, of ?c, unfolded Let_def case_prod_beta]
  have pres: "prescribed beats 100000 100000 = Online" "prescribed beats 100000 70000 = Stale"
    "prescribed beats 100000 10000 = Offline"
    by (simp_all add: prescribed_def beats_def heartbeat_tracker_new_def STALE_THRESHOLD_MS_def
        OFFLINE_THRESHOLD_MS_def saturating_sub_def)
  have hb: "hb_last_heartbeat beats = [(NodeId 2, 100000), (NodeId 3, 70000), (NodeId 7, 10000)]"
    "hb_discovered beats = []"
    by (simp_all add: beats_def heartbeat_tracker_new_def)
  show ?thesis
    using exact by (simp add: hb pres tp_get_def demo_topology_def case_prod_beta)
qed

end
