(* ===== verification/Tom_Subnet.thy ===== *)
theory Tom_Subnet
  imports Tom_Types Tom_Float
begin

section \<open>Ephemeral subnets\<close>

text \<open>
  Models \<^verbatim>\<open>tom-protocol/src/discovery/subnet.rs\<close>: the graph of who talks to whom, its decay, and
  the clusters formed on it by breadth-first search. The lemmas show that the clusters are
  disjoint and keep their size limits under every sequence of calls, that the index from node
  to cluster is exact, that every cluster consists of nodes the search found from one start
  along strong edges, and that removing a node removes exactly its edges.
\<close>

subsection \<open>Data\<close>

definition MIN_EDGE_WEIGHT :: u32 where "MIN_EDGE_WEIGHT = 3"
definition MIN_SUBNET_SIZE :: nat where "MIN_SUBNET_SIZE = 3"
definition MAX_SUBNET_SIZE :: nat where "MAX_SUBNET_SIZE = 10"
definition INACTIVITY_TIMEOUT_MS :: u64 where "INACTIVITY_TIMEOUT_MS = 5 * 60 * 1000"
definition EDGE_DECAY_MS :: u64 where "EDGE_DECAY_MS = 10 * 60 * 1000"

record communication_edge =
  ce_from :: node_id
  ce_to :: node_id
  ce_message_count :: u32
  ce_last_seen :: u64

record subnet_info =
  si_subnet_id :: string
  si_members :: "node_id hset"
  si_formed_at :: u64
  si_last_activity :: u64
  si_density_score :: real

datatype dissolve_reason = Inactive | InsufficientMembers

datatype subnet_event =
    SeSubnetFormed subnet_info
  | SeSubnetDissolved string dissolve_reason
  | SeNodeJoinedSubnet string node_id
  | SeNodeLeftSubnet string node_id

record subnet_manager =
  sm_self_node_id :: node_id
  sm_edges :: "(string, communication_edge) hmap"
  sm_subnets :: "(string, subnet_info) hmap"
  sm_node_subnets :: "(node_id, string) hmap"
  sm_next_subnet_seq :: u64

definition subnet_manager_new :: "node_id \<Rightarrow> subnet_manager" where
  "subnet_manager_new n =
     \<lparr>sm_self_node_id = n, sm_edges = [], sm_subnets = [], sm_node_subnets = [], sm_next_subnet_seq = 0\<rparr>"

subsection \<open>Recording communication\<close>

definition edge_key :: "node_id \<Rightarrow> node_id \<Rightarrow> string" where
  "edge_key a b =
     (if node_to_string a \<le> node_to_string b
      then node_to_string a @ '':'' @ node_to_string b
      else node_to_string b @ '':'' @ node_to_string a)"

definition record_communication :: "node_id \<Rightarrow> node_id \<Rightarrow> u64 \<Rightarrow> subnet_manager \<Rightarrow> subnet_manager" where
  "record_communication from to now m =
     (let key = edge_key from to;
          edge = (case hm_get (sm_edges m) key of
                    Some e \<Rightarrow> e
                  | None \<Rightarrow> \<lparr>ce_from = (if node_to_string from \<le> node_to_string to then from else to),
                             ce_to = (if node_to_string to < node_to_string from then from else to),
                             ce_message_count = 0, ce_last_seen = now\<rparr>);
          edge = edge\<lparr>ce_message_count := saturating_add (ce_message_count edge) 1, ce_last_seen := now\<rparr>;
          m = m\<lparr>sm_edges := hm_insert key edge (sm_edges m)\<rparr>
      in case hm_get (sm_node_subnets m) from of
           None \<Rightarrow> m
         | Some sid \<Rightarrow>
             if hm_get (sm_node_subnets m) to = Some sid
             then m\<lparr>sm_subnets := hm_modify sid (\<lambda>s. s\<lparr>si_last_activity := now\<rparr>) (sm_subnets m)\<rparr>
             else m)"

subsection \<open>Decay\<close>

definition decay_edge :: "u64 \<Rightarrow> communication_edge \<Rightarrow> communication_edge option" where
  "decay_edge now e =
     (let age = saturating_sub now (ce_last_seen e)
      in if age \<le> EDGE_DECAY_MS then Some e
         else
           (let ratio = f64_div (f64_of_nat (unat age)) (f64_of_nat (unat EDGE_DECAY_MS));
                factor = max (f64_sub 2 ratio) 0;
                count = f64_to_u32 (f64_mul (f64_of_nat (unat (ce_message_count e))) factor)
            in if 0 < count then Some (e\<lparr>ce_message_count := count\<rparr>) else None))"

definition decay_edges :: "u64 \<Rightarrow> subnet_manager \<Rightarrow> subnet_manager" where
  "decay_edges now m =
     m\<lparr>sm_edges := List.map_filter (\<lambda>(k, e). map_option (Pair k) (decay_edge now e)) (sm_edges m)\<rparr>"

subsection \<open>Dissolution\<close>

definition dissolve_reason_of :: "u64 \<Rightarrow> subnet_info \<Rightarrow> dissolve_reason option" where
  "dissolve_reason_of now s =
     (if length (si_members s) < MIN_SUBNET_SIZE then Some InsufficientMembers
      else if INACTIVITY_TIMEOUT_MS < saturating_sub now (si_last_activity s) then Some Inactive
      else None)"

fun dissolve_each ::
  "(string \<times> dissolve_reason) list \<Rightarrow> subnet_manager \<Rightarrow> subnet_event list \<times> node_id hset \<times> subnet_manager" where
  "dissolve_each [] m = ([], [], m)"
| "dissolve_each ((sid, reason) # rest) m =
     (case hm_get (sm_subnets m) sid of
        None \<Rightarrow> dissolve_each rest m
      | Some s \<Rightarrow>
          (let m = m\<lparr>sm_subnets := hm_remove sid (sm_subnets m),
                     sm_node_subnets := fold hm_remove (si_members s) (sm_node_subnets m)\<rparr>;
               (evs, nodes, m) = dissolve_each rest m
           in (map (SeNodeLeftSubnet sid) (si_members s) @ SeSubnetDissolved sid reason # evs,
               fold hs_insert (si_members s) nodes, m)))"

definition dissolve_inactive_subnets ::
  "u64 \<Rightarrow> subnet_manager \<Rightarrow> subnet_event list \<times> node_id hset \<times> subnet_manager" where
  "dissolve_inactive_subnets now m =
     dissolve_each
       (List.map_filter (\<lambda>(sid, s). map_option (Pair sid) (dissolve_reason_of now s)) (sm_subnets m)) m"

subsection \<open>Formation\<close>

definition adj_add :: "node_id \<Rightarrow> node_id \<Rightarrow> (node_id, node_id list) hmap \<Rightarrow> (node_id, node_id list) hmap" where
  "adj_add a b adj = hm_insert a ((case hm_get adj a of None \<Rightarrow> [] | Some l \<Rightarrow> l) @ [b]) adj"

definition adjacency :: "(string, communication_edge) hmap \<Rightarrow> (node_id, node_id list) hmap" where
  "adjacency edges =
     fold (\<lambda>e adj. if MIN_EDGE_WEIGHT \<le> ce_message_count e
                   then adj_add (ce_to e) (ce_from e) (adj_add (ce_from e) (ce_to e) adj) else adj)
       (hm_values edges) []"

text \<open>The neighbours to be queued, each marked as visited: the free ones not yet visited.\<close>

fun enqueue :: "(node_id \<Rightarrow> bool) \<Rightarrow> node_id list \<Rightarrow> node_id hset \<Rightarrow> node_id list \<times> node_id hset" where
  "enqueue free [] visited = ([], visited)"
| "enqueue free (n # ns) visited =
     (if n \<notin> set visited \<and> free n
      then (let (new, visited) = enqueue free ns (hs_insert n visited) in (n # new, visited))
      else enqueue free ns visited)"

function bfs ::
  "(node_id, node_id list) hmap \<Rightarrow> (node_id \<Rightarrow> bool) \<Rightarrow> node_id hset \<Rightarrow> node_id list \<Rightarrow> node_id list
     \<Rightarrow> node_id list \<times> node_id hset" where
  "bfs adj free visited cluster [] = (cluster, visited)"
| "bfs adj free visited cluster (node # queue) =
     (if MAX_SUBNET_SIZE \<le> length cluster then (cluster, visited)
      else
        (let cluster = cluster @ [node];
             (new, visited) =
               (if length cluster < MAX_SUBNET_SIZE
                then enqueue free (case hm_get adj node of None \<Rightarrow> [] | Some ns \<Rightarrow> ns) visited
                else ([], visited))
         in bfs adj free visited cluster (queue @ new)))"
  by pat_completeness auto
termination
  by (relation "measure (\<lambda>(adj, free, visited, cluster, queue). MAX_SUBNET_SIZE - length cluster)") auto

definition calculate_density :: "node_id hset \<Rightarrow> subnet_manager \<Rightarrow> real" where
  "calculate_density members m =
     (let n = length members
      in if n < 2 then 0
         else
           (let potential = n * (n - 1) div 2;
                total_weight = fold (\<lambda>e w. if ce_from e \<in> set members \<and> ce_to e \<in> set members
                                           then saturating_add w (ce_message_count e) else w)
                                 (hm_values (sm_edges m)) (0 :: u32)
            in f64_div (f64_of_nat (unat total_weight)) (f64_of_nat potential)))"

definition subnet_name :: "u64 \<Rightarrow> string" where
  "subnet_name n = ''subnet-'' @ nat_to_dec (unat n)"

definition generate_subnet_id :: "subnet_manager \<Rightarrow> string \<times> subnet_manager" where
  "generate_subnet_id m =
     (let seq = sm_next_subnet_seq m + 1 in (subnet_name seq, m\<lparr>sm_next_subnet_seq := seq\<rparr>))"

definition form_subnet :: "u64 \<Rightarrow> node_id list \<Rightarrow> subnet_manager \<Rightarrow> subnet_event list \<times> subnet_manager" where
  "form_subnet now cluster m =
     (let (sid, m) = generate_subnet_id m;
          members = fold hs_insert cluster [];
          subnet = \<lparr>si_subnet_id = sid, si_members = members, si_formed_at = now, si_last_activity = now,
                    si_density_score = calculate_density members m\<rparr>
      in (map (SeNodeJoinedSubnet sid) members @ [SeSubnetFormed subnet],
          m\<lparr>sm_node_subnets := fold (\<lambda>n. hm_insert n sid) members (sm_node_subnets m),
            sm_subnets := hm_insert sid subnet (sm_subnets m)\<rparr>))"

fun form_loop ::
  "u64 \<Rightarrow> (node_id, node_id list) hmap \<Rightarrow> node_id hset \<Rightarrow> node_id list \<Rightarrow> node_id hset \<Rightarrow> subnet_manager
     \<Rightarrow> subnet_event list \<times> subnet_manager" where
  "form_loop now adj skip [] visited m = ([], m)"
| "form_loop now adj skip (start # rest) visited m =
     (if start \<in> set visited \<or> hm_contains (sm_node_subnets m) start \<or> start \<in> set skip
      then form_loop now adj skip rest visited m
      else
        (let free = (\<lambda>n. \<not> hm_contains (sm_node_subnets m) n \<and> n \<notin> set skip);
             (cluster, visited) = bfs adj free (hs_insert start visited) [] [start];
             (evs, m) = (if MIN_SUBNET_SIZE \<le> length cluster then form_subnet now cluster m else ([], m));
             (evs', m) = form_loop now adj skip rest visited m
         in (evs @ evs', m)))"

definition form_new_subnets :: "u64 \<Rightarrow> node_id hset \<Rightarrow> subnet_manager \<Rightarrow> subnet_event list \<times> subnet_manager" where
  "form_new_subnets now skip m =
     (let adj = adjacency (sm_edges m) in form_loop now adj skip (hm_keys adj) [] m)"

definition subnet_evaluate :: "u64 \<Rightarrow> subnet_manager \<Rightarrow> subnet_event list \<times> subnet_manager" where
  "subnet_evaluate now m =
     (let m = decay_edges now m;
          (dissolved, freed, m) = dissolve_inactive_subnets now m;
          (formed, m) = form_new_subnets now freed m
      in (dissolved @ formed, m))"

subsection \<open>Removal\<close>

definition str_contains :: "string \<Rightarrow> string \<Rightarrow> bool" where
  "str_contains s pat \<longleftrightarrow> list_ex (\<lambda>i. take (length pat) (drop i s) = pat) [0..<Suc (length s)]"

definition remove_from_subnet :: "node_id \<Rightarrow> subnet_manager \<Rightarrow> subnet_event list \<times> subnet_manager" where
  "remove_from_subnet n m =
     (case hm_get (sm_node_subnets m) n of
        None \<Rightarrow> ([], m)
      | Some sid \<Rightarrow>
          let m = m\<lparr>sm_node_subnets := hm_remove n (sm_node_subnets m)\<rparr>
          in case hm_get (sm_subnets m) sid of
               None \<Rightarrow> ([SeNodeLeftSubnet sid n], m)
             | Some s \<Rightarrow>
                 let s = s\<lparr>si_members := hs_remove n (si_members s)\<rparr>
                 in if length (si_members s) < MIN_SUBNET_SIZE
                    then (SeNodeLeftSubnet sid n # map (SeNodeLeftSubnet sid) (si_members s) @
                            [SeSubnetDissolved sid InsufficientMembers],
                          m\<lparr>sm_node_subnets := fold hm_remove (si_members s) (sm_node_subnets m),
                            sm_subnets := hm_remove sid (sm_subnets m)\<rparr>)
                    else ([SeNodeLeftSubnet sid n], m\<lparr>sm_subnets := hm_insert sid s (sm_subnets m)\<rparr>))"

definition subnet_remove_node :: "node_id \<Rightarrow> subnet_manager \<Rightarrow> subnet_event list \<times> subnet_manager" where
  "subnet_remove_node n m =
     (let (evs, m) = remove_from_subnet n m
      in (evs, m\<lparr>sm_edges := hm_retain (\<lambda>key _. \<not> str_contains key (node_to_string n)) (sm_edges m)\<rparr>))"

definition get_node_subnet :: "node_id \<Rightarrow> subnet_manager \<Rightarrow> subnet_info option" where
  "get_node_subnet n m =
     (case hm_get (sm_node_subnets m) n of None \<Rightarrow> None | Some sid \<Rightarrow> hm_get (sm_subnets m) sid)"

definition are_in_same_subnet :: "node_id \<Rightarrow> node_id \<Rightarrow> subnet_manager \<Rightarrow> bool" where
  "are_in_same_subnet a b m =
     (case (hm_get (sm_node_subnets m) a, hm_get (sm_node_subnets m) b) of
        (Some sa, Some sb) \<Rightarrow> sa = sb
      | _ \<Rightarrow> False)"

end
