(* ===== verification/Tom_SubnetSafety.thy ===== *)
theory Tom_SubnetSafety
  imports Tom_Subnet
begin

section \<open>Ephemeral subnets: safety\<close>

text \<open>
  The subnet manager as a machine: clusters stay disjoint, of three to ten nodes, with an exact
  index from node to cluster. The breadth-first search is treated once, for any predicate that
  spreads along edges, and used for distinctness, size and connectedness of clusters.
\<close>

subsection \<open>The search\<close>

lemma set_hs_fold: "set (fold hs_insert xs s) = set xs \<union> set s"
  by (induction xs arbitrary: s) auto

lemma distinct_hs_fold: "distinct s \<Longrightarrow> distinct (fold hs_insert xs s)"
  by (induction xs arbitrary: s) auto

lemma hs_fold_distinct: "distinct xs \<Longrightarrow> set xs \<inter> set s = {} \<Longrightarrow> fold hs_insert xs s = s @ xs"
  by (induction xs arbitrary: s) (auto simp: hs_insert_def)

lemma enqueue_props:
  "distinct (fst (enqueue free ns visited)) \<and> set (fst (enqueue free ns visited)) \<inter> set visited = {} \<and>
   set (fst (enqueue free ns visited)) \<subseteq> {n \<in> set ns. free n} \<and>
   set (snd (enqueue free ns visited)) = set visited \<union> set (fst (enqueue free ns visited))"
proof (induction ns arbitrary: visited)
  case Nil
  then show ?case by simp
next
  case (Cons n ns)
  show ?case
    using Cons.IH [of "hs_insert n visited"] Cons.IH [of visited]
    by (auto simp: case_prod_beta Let_def)
qed

definition neighbours :: "(node_id, node_id list) hmap \<Rightarrow> node_id \<Rightarrow> node_id list" where
  "neighbours adj n = (case hm_get adj n of None \<Rightarrow> [] | Some ns \<Rightarrow> ns)"

lemma bfs_props:
  assumes "distinct (cluster @ queue)" and "set (cluster @ queue) \<subseteq> set visited"
    and "\<forall>n \<in> set (cluster @ queue). P n" and "length cluster \<le> MAX_SUBNET_SIZE"
    and spread: "\<And>n k. P n \<Longrightarrow> k \<in> set (neighbours adj n) \<Longrightarrow> free k \<Longrightarrow> P k"
  shows "distinct (fst (bfs adj free visited cluster queue)) \<and>
    length (fst (bfs adj free visited cluster queue)) \<le> MAX_SUBNET_SIZE \<and>
    (\<forall>n \<in> set (fst (bfs adj free visited cluster queue)). P n)"
  using assms(1-4)
proof (induction "MAX_SUBNET_SIZE - length cluster" arbitrary: visited cluster queue rule: less_induct)
  case less
  show ?case
  proof (cases "queue = [] \<or> MAX_SUBNET_SIZE \<le> length cluster")
    case True
    then have "fst (bfs adj free visited cluster queue) = cluster" by (cases queue) auto
    with less.prems show ?thesis by simp
  next
    case False
    then obtain node rest where q: "queue = node # rest" by (cases queue) auto
    let ?c = "cluster @ [node]"
    define e where "e = (if length ?c < MAX_SUBNET_SIZE then enqueue free (neighbours adj node) visited else ([], visited))"
    have e: "distinct (fst e)" "set (fst e) \<inter> set visited = {}" "set (fst e) \<subseteq> {n \<in> set (neighbours adj node). free n}"
      "set (snd e) = set visited \<union> set (fst e)"
      using enqueue_props [of free "neighbours adj node" visited] by (auto simp: e_def)
    have step: "bfs adj free visited cluster queue = bfs adj free (snd e) ?c (rest @ fst e)"
      using False by (simp add: q e_def neighbours_def case_prod_beta Let_def)
    have "P node" using less.prems(3) by (simp add: q)
    then have "\<forall>k \<in> set (fst e). P k" using e(3) spread by auto
    then have "\<forall>n \<in> set (?c @ rest @ fst e). P n" using less.prems(3) by (auto simp: q)
    moreover have "distinct (?c @ rest @ fst e)" using less.prems(1,2) e(1,2) by (auto simp: q)
    moreover have "set (?c @ rest @ fst e) \<subseteq> set (snd e)" using less.prems(2) e(4) by (auto simp: q)
    moreover have "length ?c \<le> MAX_SUBNET_SIZE" "MAX_SUBNET_SIZE - length ?c < MAX_SUBNET_SIZE - length cluster"
      using False by auto
    ultimately show ?thesis unfolding step by (intro less.hyps)
  qed
qed

subsection \<open>The invariant\<close>

definition numbered :: "nat \<Rightarrow> string" where
  "numbered k = ''subnet-'' @ nat_to_dec k"

lemma numbered_inject [simp]: "numbered j = numbered k \<longleftrightarrow> j = k"
  by (simp add: numbered_def)

lemma subnet_name_numbered: "subnet_name w = numbered (unat w)"
  by (simp add: subnet_name_def numbered_def)

definition index_ok :: "(string, subnet_info) hmap \<Rightarrow> (node_id, string) hmap \<Rightarrow> bool" where
  "index_ok subs ns \<longleftrightarrow>
     (\<forall>n sid. hm_get ns n = Some sid \<longleftrightarrow> (\<exists>s. hm_get subs sid = Some s \<and> n \<in> set (si_members s)))"

definition clusters_ok :: "nat \<Rightarrow> (string, subnet_info) hmap \<Rightarrow> bool" where
  "clusters_ok seq subs \<longleftrightarrow>
     (\<forall>sid s. hm_get subs sid = Some s \<longrightarrow>
        distinct (si_members s) \<and> MIN_SUBNET_SIZE \<le> length (si_members s) \<and>
        length (si_members s) \<le> MAX_SUBNET_SIZE \<and> si_subnet_id s = sid \<and>
        (\<exists>k \<le> seq. sid = numbered k))"

definition subnets_wf :: "subnet_manager \<Rightarrow> bool" where
  "subnets_wf m \<longleftrightarrow> hm_wf (sm_subnets m) \<and> hm_wf (sm_node_subnets m) \<and>
     index_ok (sm_subnets m) (sm_node_subnets m) \<and> clusters_ok (unat (sm_next_subnet_seq m)) (sm_subnets m)"

lemma get_fold_remove: "hm_get (fold hm_remove ks m) k = (if k \<in> set ks then None else hm_get m k)"
  by (induction ks arbitrary: m) (auto simp: hm_simps)

lemma get_fold_insert: "hm_get (fold (\<lambda>n. hm_insert n v) ks m) k = (if k \<in> set ks then Some v else hm_get m k)"
  by (induction ks arbitrary: m) (auto simp: hm_simps)

lemma wf_fold_insert: "hm_wf m \<Longrightarrow> hm_wf (fold (\<lambda>n. hm_insert n v) ks m)"
  by (induction ks arbitrary: m) (auto simp: hm_wfs)

lemma index_drop:
  assumes "index_ok subs ns" and "hm_get subs sid = Some s"
  shows "index_ok (hm_remove sid subs) (fold hm_remove (si_members s) ns)"
  using assms unfolding index_ok_def by (auto simp: get_fold_remove hm_simps split: if_splits) (metis option.inject)+

lemma index_add_cluster:
  assumes "index_ok subs ns" and "hm_get subs sid = None" and "\<forall>n \<in> set (si_members s). hm_get ns n = None"
  shows "index_ok (hm_insert sid s subs) (fold (\<lambda>n. hm_insert n sid) (si_members s) ns)"
  using assms unfolding index_ok_def by (simp add: get_fold_insert hm_simps) (metis option.distinct(1) option.inject)

lemma index_shrink:
  assumes "index_ok subs ns" and "hm_get subs sid = Some s" and "set (si_members s') = set (si_members s) - {n}"
    and "hm_get ns n = Some sid"
  shows "index_ok (hm_insert sid s' subs) (hm_remove n ns)"
  using assms unfolding index_ok_def by (simp add: hm_simps) (metis option.inject)

lemma index_touch:
  assumes "index_ok subs ns" and "\<And>s. si_members (f s) = si_members s"
  shows "index_ok (hm_modify sid f subs) ns"
  using assms unfolding index_ok_def by (simp add: hm_simps) (metis option.inject)

lemma clusters_remove: "clusters_ok seq subs \<Longrightarrow> clusters_ok seq (hm_remove sid subs)"
  unfolding clusters_ok_def by (simp add: hm_simps)

lemma clusters_insert:
  assumes "clusters_ok seq subs" and "seq \<le> seq'" and "distinct (si_members s)"
    and "MIN_SUBNET_SIZE \<le> length (si_members s)" and "length (si_members s) \<le> MAX_SUBNET_SIZE"
    and "si_subnet_id s = numbered k" and "k \<le> seq'"
  shows "clusters_ok seq' (hm_insert (numbered k) s subs)"
  using assms unfolding clusters_ok_def by (simp add: hm_simps) (metis le_trans)

lemma clusters_fresh: "clusters_ok seq subs \<Longrightarrow> seq < k \<Longrightarrow> hm_get subs (numbered k) = None"
  unfolding clusters_ok_def by (metis not_None_eq not_le numbered_inject)

lemma clusters_touch:
  assumes "clusters_ok seq subs" and "\<And>s. si_members (f s) = si_members s" and "\<And>s. si_subnet_id (f s) = si_subnet_id s"
  shows "clusters_ok seq (hm_modify sid f subs)"
  using assms unfolding clusters_ok_def by (auto simp: hm_simps)

subsection \<open>Each operation\<close>

lemma record_wf: "subnets_wf m \<Longrightarrow> subnets_wf (record_communication a b now m)"
  by (simp add: subnets_wf_def record_communication_def Let_def index_touch clusters_touch split: option.split)

lemma dissolve_wf: "subnets_wf m \<Longrightarrow> subnets_wf (snd (snd (dissolve_each xs m)))"
proof (induction xs m rule: dissolve_each.induct)
  case (1 m)
  then show ?case by simp
next
  case (2 sid reason rest m)
  show ?case
  proof (cases "hm_get (sm_subnets m) sid")
    case None
    with 2 show ?thesis by simp
  next
    case (Some s)
    let ?m = "m\<lparr>sm_subnets := hm_remove sid (sm_subnets m),
                sm_node_subnets := fold hm_remove (si_members s) (sm_node_subnets m)\<rparr>"
    have "subnets_wf ?m"
      using 2(3) Some by (simp add: subnets_wf_def index_drop clusters_remove wf_fold_remove hm_wfs)
    with 2(2) [OF Some] Some show ?thesis by (simp add: case_prod_beta Let_def)
  qed
qed

lemma form_subnet_wf:
  assumes "subnets_wf m" and "distinct cluster" and "MIN_SUBNET_SIZE \<le> length cluster"
    and "length cluster \<le> MAX_SUBNET_SIZE" and "\<forall>n \<in> set cluster. hm_get (sm_node_subnets m) n = None"
    and "unat (sm_next_subnet_seq m) + 1 < 2 ^ 64"
  shows "subnets_wf (snd (form_subnet now cluster m))"
    and "unat (sm_next_subnet_seq (snd (form_subnet now cluster m))) = unat (sm_next_subnet_seq m) + 1"
    and "sm_edges (snd (form_subnet now cluster m)) = sm_edges m"
proof -
  let ?k = "unat (sm_next_subnet_seq m) + 1"
  have k: "unat (sm_next_subnet_seq m + 1) = ?k" using assms(6) by (simp add: unat_word_ariths)
  have members: "fold hs_insert cluster [] = cluster" using hs_fold_distinct [OF assms(2), of "[]"] by simp
  have new: "hm_get (sm_subnets m) (numbered ?k) = None"
    using assms(1) by (intro clusters_fresh) (auto simp: subnets_wf_def)
  show "unat (sm_next_subnet_seq (snd (form_subnet now cluster m))) = ?k"
    "sm_edges (snd (form_subnet now cluster m)) = sm_edges m"
    using k by (simp_all add: form_subnet_def generate_subnet_id_def Let_def)
  let ?s = "\<lparr>si_subnet_id = numbered ?k, si_members = cluster, si_formed_at = now, si_last_activity = now,
      si_density_score = calculate_density cluster (m\<lparr>sm_next_subnet_seq := sm_next_subnet_seq m + 1\<rparr>)\<rparr>"
  have "index_ok (hm_insert (numbered ?k) ?s (sm_subnets m)) (fold (\<lambda>n. hm_insert n (numbered ?k)) cluster (sm_node_subnets m))"
    using index_add_cluster [of "sm_subnets m" "sm_node_subnets m" "numbered ?k" ?s] assms(1,5) new
    by (simp add: subnets_wf_def)
  moreover have "clusters_ok ?k (hm_insert (numbered ?k) ?s (sm_subnets m))"
    using clusters_insert [of "unat (sm_next_subnet_seq m)" "sm_subnets m" ?k ?s ?k] assms(1-4)
    by (simp add: subnets_wf_def)
  ultimately show "subnets_wf (snd (form_subnet now cluster m))"
    using assms(1) k
    by (simp add: subnets_wf_def form_subnet_def generate_subnet_id_def subnet_name_numbered members Let_def
        wf_fold_insert hm_wfs)
qed

text \<open>Each round of the formation loop forms at most one cluster, of free nodes.\<close>

lemma form_loop_wf:
  assumes "subnets_wf m" and "unat (sm_next_subnet_seq m) + length starts < 2 ^ 64"
  shows "subnets_wf (snd (form_loop now adj skip starts visited m)) \<and>
    unat (sm_next_subnet_seq (snd (form_loop now adj skip starts visited m))) \<le>
      unat (sm_next_subnet_seq m) + length starts \<and>
    sm_edges (snd (form_loop now adj skip starts visited m)) = sm_edges m"
  using assms
proof (induction starts arbitrary: visited m)
  case Nil
  then show ?case by simp
next
  case (Cons start rest)
  show ?case
  proof (cases "start \<in> set visited \<or> hm_contains (sm_node_subnets m) start \<or> start \<in> set skip")
    case True
    then have "form_loop now adj skip (start # rest) visited m = form_loop now adj skip rest visited m" by auto
    with Cons.IH [of m visited] Cons.prems show ?thesis by simp
  next
    case False
    let ?free = "\<lambda>n. \<not> hm_contains (sm_node_subnets m) n \<and> n \<notin> set skip"
    define b where "b = bfs adj ?free (hs_insert start visited) [] [start]"
    have props: "distinct (fst b) \<and> length (fst b) \<le> MAX_SUBNET_SIZE \<and> (\<forall>n \<in> set (fst b). ?free n)"
      unfolding b_def by (rule bfs_props) (use False in simp_all)
    then have b: "distinct (fst b)" "length (fst b) \<le> MAX_SUBNET_SIZE" "\<forall>n \<in> set (fst b). hm_get (sm_node_subnets m) n = None"
      by simp_all
    define m' where "m' = (if MIN_SUBNET_SIZE \<le> length (fst b) then snd (form_subnet now (fst b) m) else m)"
    have m': "subnets_wf m'" "unat (sm_next_subnet_seq m') \<le> unat (sm_next_subnet_seq m) + 1" "sm_edges m' = sm_edges m"
      using form_subnet_wf [OF Cons.prems(1) b(1) _ b(2) b(3), of now] Cons.prems by (simp_all add: m'_def)
    have "snd (form_loop now adj skip (start # rest) visited m) = snd (form_loop now adj skip rest (snd b) m')"
      using False by (simp add: b_def m'_def case_prod_beta Let_def)
    with Cons.IH [OF m'(1), of "snd b"] m'(2,3) Cons.prems(2) show ?thesis by auto
  qed
qed

lemma adjacency_length: "length (adjacency edges) \<le> 2 * length edges"
proof -
  have add: "length (adj_add a b adj) \<le> Suc (length adj)" for a b adj
    unfolding adj_add_def by (rule length_insert_le)
  have two: "length (adj_add (ce_to e) (ce_from e) (adj_add (ce_from e) (ce_to e) adj)) \<le> length adj + 2" for e adj
    using add [of "ce_to e" "ce_from e" "adj_add (ce_from e) (ce_to e) adj"] add [of "ce_from e" "ce_to e" adj] by linarith
  have "length (fold (\<lambda>e adj. if MIN_EDGE_WEIGHT \<le> ce_message_count e
                   then adj_add (ce_to e) (ce_from e) (adj_add (ce_from e) (ce_to e) adj) else adj) es adj)
      \<le> length adj + 2 * length es" for es adj
  proof (induction es arbitrary: adj)
    case Nil
    then show ?case by simp
  next
    case (Cons e es)
    let ?adj = "if MIN_EDGE_WEIGHT \<le> ce_message_count e
                then adj_add (ce_to e) (ce_from e) (adj_add (ce_from e) (ce_to e) adj) else adj"
    have "length ?adj \<le> length adj + 2" using two [of e adj] by auto
    with Cons.IH [of ?adj] show ?case by simp
  qed
  from this [of "hm_values edges" "[]"] show ?thesis by (simp add: adjacency_def)
qed

lemma dissolve_frame:
  "sm_edges (snd (snd (dissolve_each xs m))) = sm_edges m \<and>
   sm_next_subnet_seq (snd (snd (dissolve_each xs m))) = sm_next_subnet_seq m"
  by (induction xs m rule: dissolve_each.induct) (auto simp: case_prod_beta Let_def split: option.split)

lemma edges_irrelevant [simp]: "subnets_wf (m\<lparr>sm_edges := es\<rparr>) = subnets_wf m"
  by (simp add: subnets_wf_def)

lemma evaluate_wf:
  assumes "subnets_wf m" and "unat (sm_next_subnet_seq m) + 2 * length (sm_edges m) < 2 ^ 64"
  shows "subnets_wf (snd (subnet_evaluate now m)) \<and>
    length (sm_edges (snd (subnet_evaluate now m))) \<le> length (sm_edges m) \<and>
    unat (sm_next_subnet_seq (snd (subnet_evaluate now m))) \<le> unat (sm_next_subnet_seq m) + 2 * length (sm_edges m)"
proof -
  define m1 where "m1 = decay_edges now m"
  define m2 where "m2 = snd (snd (dissolve_inactive_subnets now m1))"
  have m1: "subnets_wf m1" "length (sm_edges m1) \<le> length (sm_edges m)" "sm_next_subnet_seq m1 = sm_next_subnet_seq m"
    using assms(1) by (simp_all add: m1_def decay_edges_def List.map_filter_def le_trans [OF length_filter_le])
  have m2: "subnets_wf m2" "sm_edges m2 = sm_edges m1" "sm_next_subnet_seq m2 = sm_next_subnet_seq m"
    using m1 dissolve_wf dissolve_frame by (simp_all add: m2_def dissolve_inactive_subnets_def)
  let ?starts = "hm_keys (adjacency (sm_edges m2))"
  have len: "length ?starts \<le> 2 * length (sm_edges m)"
    using adjacency_length [of "sm_edges m2"] m1(2) m2(2) by simp
  have "snd (subnet_evaluate now m) =
      snd (form_loop now (adjacency (sm_edges m2)) (fst (snd (dissolve_inactive_subnets now m1))) ?starts [] m2)"
    by (simp add: subnet_evaluate_def form_new_subnets_def m1_def m2_def case_prod_beta Let_def)
  then show ?thesis
    using form_loop_wf [OF m2(1), of ?starts now "adjacency (sm_edges m2)"
        "fst (snd (dissolve_inactive_subnets now m1))" "[]"] len m1(2) m2(2,3) assms(2)
    by auto
qed

lemma remove_from_wf:
  assumes "subnets_wf m"
  shows "subnets_wf (snd (remove_from_subnet n m)) \<and> sm_edges (snd (remove_from_subnet n m)) = sm_edges m \<and>
    sm_next_subnet_seq (snd (remove_from_subnet n m)) = sm_next_subnet_seq m"
proof (cases "hm_get (sm_node_subnets m) n")
  case None
  then show ?thesis using assms by (simp add: remove_from_subnet_def)
next
  case (Some sid)
  have ix: "index_ok (sm_subnets m) (sm_node_subnets m)" and cl: "clusters_ok (unat (sm_next_subnet_seq m)) (sm_subnets m)"
    and wf: "hm_wf (sm_subnets m)" "hm_wf (sm_node_subnets m)"
    using assms by (simp_all add: subnets_wf_def)
  obtain s where s: "hm_get (sm_subnets m) sid = Some s" "n \<in> set (si_members s)"
    using ix Some unfolding index_ok_def by blast
  let ?s = "s\<lparr>si_members := hs_remove n (si_members s)\<rparr>"
  have set: "set (si_members ?s) = set (si_members s) - {n}" by simp
  have sz: "distinct (si_members s)" "length (si_members s) \<le> MAX_SUBNET_SIZE" "si_subnet_id s = sid"
    using cl s(1) unfolding clusters_ok_def by blast+
  obtain k where k: "k \<le> unat (sm_next_subnet_seq m)" "sid = numbered k"
    using cl s(1) unfolding clusters_ok_def by blast
  show ?thesis
  proof (cases "length (si_members ?s) < MIN_SUBNET_SIZE")
    case True
    have mem: "set (n # si_members ?s) = set (si_members s)" using s(2) set by auto
    have eq: "hm_get (fold hm_remove (si_members ?s) (hm_remove n (sm_node_subnets m))) k =
        hm_get (fold hm_remove (si_members s) (sm_node_subnets m)) k" for k
      using mem by (simp add: get_fold_remove hm_simps) blast
    have "index_ok (hm_remove sid (sm_subnets m)) (fold hm_remove (si_members ?s) (hm_remove n (sm_node_subnets m)))"
      using index_drop [OF ix s(1)] unfolding index_ok_def eq .
    then show ?thesis
      using True Some s wf cl
      by (simp add: remove_from_subnet_def subnets_wf_def clusters_remove wf_fold_remove hm_wfs)
  next
    case False
    have "index_ok (hm_insert sid ?s (sm_subnets m)) (hm_remove n (sm_node_subnets m))"
      using index_shrink [OF ix s(1) set Some] .
    moreover have "clusters_ok (unat (sm_next_subnet_seq m)) (hm_insert sid ?s (sm_subnets m))"
      unfolding k(2)
      using False sz k cl
      by (intro clusters_insert [OF cl order.refl]) (auto simp: hs_remove_def intro: le_trans [OF length_filter_le])
    ultimately show ?thesis
      using False Some s wf by (simp add: remove_from_subnet_def subnets_wf_def hm_wfs)
  qed
qed

subsection \<open>The manager as a machine\<close>

datatype subnet_call =
    SnRecord node_id node_id u64
  | SnEvaluate u64
  | SnRemove node_id

fun subnet_step :: "subnet_call \<Rightarrow> subnet_manager \<Rightarrow> subnet_manager" where
  "subnet_step (SnRecord a b now) m = record_communication a b now m"
| "subnet_step (SnEvaluate now) m = snd (subnet_evaluate now m)"
| "subnet_step (SnRemove n) m = snd (subnet_remove_node n m)"

definition subnet_invar :: "nat \<Rightarrow> subnet_manager \<Rightarrow> bool" where
  "subnet_invar n m \<longleftrightarrow> subnets_wf m \<and> length (sm_edges m) \<le> n \<and> unat (sm_next_subnet_seq m) \<le> 2 * n * n"

lemma record_frame:
  "length (sm_edges (record_communication a b now m)) \<le> Suc (length (sm_edges m)) \<and>
   sm_next_subnet_seq (record_communication a b now m) = sm_next_subnet_seq m"
  by (simp add: record_communication_def Let_def length_insert_le split: option.split)

interpretation subnet_machine: counted_machine subnet_step "\<lambda>_. True" subnet_invar "2 ^ 31"
proof
  fix e n and m :: subnet_manager
  assume n: "n < 2 ^ 31" and inv_m: "subnet_invar n m"
  have sq: "2 * n * n + 2 * n \<le> 2 * Suc n * Suc n" "2 * n * n \<le> 2 * Suc n * Suc n" by simp_all
  have "n * n \<le> (2 ^ 31 - 1) * (2 ^ 31 - 1)" using n by (intro mult_le_mono) simp_all
  then have room: "2 * n * n + 2 * n < 2 ^ 64" using n by simp
  show "subnet_invar (Suc n) (subnet_step e m)"
  proof (cases e)
    case (SnRecord a b now)
    then show ?thesis
      using inv_m sq record_wf record_frame [of a b now m] by (simp add: subnet_invar_def)
  next
    case (SnEvaluate now)
    have "unat (sm_next_subnet_seq m) + 2 * length (sm_edges m) < 2 ^ 64"
      using inv_m room by (auto simp: subnet_invar_def)
    with SnEvaluate inv_m sq show ?thesis
      using evaluate_wf [of m now] by (auto simp: subnet_invar_def)
  next
    case (SnRemove k)
    then show ?thesis
      using inv_m sq remove_from_wf [of m k]
        length_retain_le [of "\<lambda>key _. \<not> str_contains key (node_to_string k)" "sm_edges m"]
      by (simp add: subnet_invar_def subnet_remove_node_def case_prod_beta Let_def)
  qed
qed

lemma subnets_run_wf:
  assumes "length calls \<le> 2 ^ 31"
  shows "subnets_wf (fold subnet_step calls (subnet_manager_new self))"
proof -
  have "subnet_invar 0 (subnet_manager_new self)"
    by (simp add: subnet_invar_def subnets_wf_def subnet_manager_new_def index_ok_def clusters_ok_def)
  then have "subnet_invar (0 + length calls) (fold subnet_step calls (subnet_manager_new self))"
    using assms by (intro subnet_machine.counted_run) (simp_all add: list_all_iff)
  then show ?thesis by (simp add: subnet_invar_def)
qed

text \<open>
  C31. Ephemeral subnets partition the nodes they hold: from a new manager, after any sequence of
  at most \<open>2 ^ 31\<close> calls (so that the number in the name of a subnet never wraps around), every subnet has three to ten distinct members, no node is in two
  subnets, and the index from node to subnet is exact.
\<close>

theorem subnets_partition:
  assumes "length calls \<le> 2 ^ 31"
  shows "let m = fold subnet_step calls (subnet_manager_new self)
    in (\<forall>sid s. hm_get (sm_subnets m) sid = Some s \<longrightarrow>
          distinct (si_members s) \<and> 3 \<le> length (si_members s) \<and> length (si_members s) \<le> 10) \<and>
       (\<forall>sid sid' s s' n. hm_get (sm_subnets m) sid = Some s \<longrightarrow> hm_get (sm_subnets m) sid' = Some s' \<longrightarrow>
          n \<in> set (si_members s) \<longrightarrow> n \<in> set (si_members s') \<longrightarrow> sid = sid') \<and>
       (\<forall>n s. get_node_subnet n m = Some s \<longleftrightarrow> (\<exists>sid. hm_get (sm_subnets m) sid = Some s \<and> n \<in> set (si_members s)))"
proof -
  define m where "m = fold subnet_step calls (subnet_manager_new self)"
  have ix: "index_ok (sm_subnets m) (sm_node_subnets m)"
    and cl: "clusters_ok (unat (sm_next_subnet_seq m)) (sm_subnets m)"
    using subnets_run_wf [OF assms, of self] by (simp_all add: m_def subnets_wf_def)
  have sizes: "\<forall>sid s. hm_get (sm_subnets m) sid = Some s \<longrightarrow>
      distinct (si_members s) \<and> 3 \<le> length (si_members s) \<and> length (si_members s) \<le> 10"
    using cl by (auto simp: clusters_ok_def MIN_SUBNET_SIZE_def MAX_SUBNET_SIZE_def)
  have at: "hm_get (sm_node_subnets m) n = Some sid"
    if "hm_get (sm_subnets m) sid = Some s" "n \<in> set (si_members s)" for n sid s
    using ix that unfolding index_ok_def by blast
  have disj: "\<forall>sid sid' s s' n. hm_get (sm_subnets m) sid = Some s \<longrightarrow> hm_get (sm_subnets m) sid' = Some s' \<longrightarrow>
      n \<in> set (si_members s) \<longrightarrow> n \<in> set (si_members s') \<longrightarrow> sid = sid'"
  proof (intro allI impI)
    fix sid sid' s s' n
    assume a: "hm_get (sm_subnets m) sid = Some s" "hm_get (sm_subnets m) sid' = Some s'"
      "n \<in> set (si_members s)" "n \<in> set (si_members s')"
    from at [OF a(1,3)] at [OF a(2,4)] show "sid = sid'" by simp
  qed
  have "get_node_subnet n m = Some s \<longleftrightarrow> (\<exists>sid. hm_get (sm_subnets m) sid = Some s \<and> n \<in> set (si_members s))" for n s
  proof
    assume l: "get_node_subnet n m = Some s"
    then obtain sid where n: "hm_get (sm_node_subnets m) n = Some sid" and s: "hm_get (sm_subnets m) sid = Some s"
      by (cases "hm_get (sm_node_subnets m) n") (simp_all add: get_node_subnet_def)
    from n ix obtain s' where "hm_get (sm_subnets m) sid = Some s'" "n \<in> set (si_members s')"
      unfolding index_ok_def by blast
    with s show "\<exists>sid. hm_get (sm_subnets m) sid = Some s \<and> n \<in> set (si_members s)" by auto
  next
    assume "\<exists>sid. hm_get (sm_subnets m) sid = Some s \<and> n \<in> set (si_members s)"
    then obtain sid where s: "hm_get (sm_subnets m) sid = Some s" and n: "n \<in> set (si_members s)" by blast
    from at [OF this] s show "get_node_subnet n m = Some s" by (simp add: get_node_subnet_def)
  qed
  with sizes disj show ?thesis unfolding m_def [symmetric] Let_def by blast
qed

text \<open>Three nodes of which two pairs have exchanged three messages form a subnet.\<close>

lemma edge_key_pair: "edge_key a b = edge_key c d \<Longrightarrow> {a, b} = {c, d}"
  by (auto simp: edge_key_def split: if_splits)

definition demo_link :: "node_id \<Rightarrow> node_id \<Rightarrow> communication_edge" where
  "demo_link a b = \<lparr>ce_from = a, ce_to = b, ce_message_count = 3, ce_last_seen = 5\<rparr>"

definition demo_net :: "string \<Rightarrow> communication_edge \<Rightarrow> string \<Rightarrow> communication_edge \<Rightarrow> subnet_manager" where
  "demo_net k e k' e' = (subnet_manager_new (NodeId 1))\<lparr>sm_edges := [(k, e), (k', e')]\<rparr>"

definition demo_talk :: "subnet_call list" where
  "demo_talk = replicate 3 (SnRecord (NodeId 1) (NodeId 2) 5) @ replicate 3 (SnRecord (NodeId 2) (NodeId 3) 5)"

lemma demo_edges:
  obtains k k' a b c d where "fold subnet_step demo_talk (subnet_manager_new (NodeId 1)) = demo_net k (demo_link a b) k' (demo_link c d)"
    and "(a, b) = (NodeId 1, NodeId 2) \<or> (a, b) = (NodeId 2, NodeId 1)" "(c, d) = (NodeId 2, NodeId 3) \<or> (c, d) = (NodeId 3, NodeId 2)"
proof -
  have k: "edge_key (NodeId 1) (NodeId 2) \<noteq> edge_key (NodeId 2) (NodeId 3)"
    using edge_key_pair [of "NodeId 1" "NodeId 2" "NodeId 2" "NodeId 3"] by (auto simp: doubleton_eq_iff)
  let ?a = "\<lambda>x y. if node_to_string x \<le> node_to_string y then x else y"
  let ?b = "\<lambda>x y. if node_to_string y < node_to_string x then x else y"
  have "fold subnet_step demo_talk (subnet_manager_new (NodeId 1)) =
      demo_net (edge_key (NodeId 1) (NodeId 2)) (demo_link (?a (NodeId 1) (NodeId 2)) (?b (NodeId 1) (NodeId 2)))
        (edge_key (NodeId 2) (NodeId 3)) (demo_link (?a (NodeId 2) (NodeId 3)) (?b (NodeId 2) (NodeId 3)))"
    using k k [symmetric]
    by (simp add: demo_talk_def demo_net_def record_communication_def Let_def subnet_manager_new_def hm_simps numeral_3_eq_3
        saturating_add_def demo_link_def)
  then show thesis by (rule that) (auto simp: not_less)
qed

lemma demo_formed:
  assumes "(a, b) = (NodeId 1, NodeId 2) \<or> (a, b) = (NodeId 2, NodeId 1)" "(c, d) = (NodeId 2, NodeId 3) \<or> (c, d) = (NodeId 3, NodeId 2)"
  shows "\<exists>s. get_node_subnet (NodeId 2) (snd (form_new_subnets 6 [] (demo_net k (demo_link a b) k' (demo_link c d)))) = Some s \<and>
    set (si_members s) = {NodeId 1, NodeId 2, NodeId 3}"
  using assms
  by (elim disjE) (auto simp: form_new_subnets_def adjacency_def adj_add_def demo_net_def demo_link_def MIN_EDGE_WEIGHT_def
      MAX_SUBNET_SIZE_def MIN_SUBNET_SIZE_def hs_insert_def form_subnet_def generate_subnet_id_def get_node_subnet_def
      subnet_manager_new_def case_prod_beta Let_def)

lemma demo_evaluated:
  "subnet_step (SnEvaluate 6) (demo_net k (demo_link a b) k' (demo_link c d)) =
     snd (form_new_subnets 6 [] (demo_net k (demo_link a b) k' (demo_link c d)))"
  by (simp add: subnet_evaluate_def decay_edges_def decay_edge_def demo_net_def demo_link_def dissolve_inactive_subnets_def
      subnet_manager_new_def EDGE_DECAY_MS_def saturating_sub_def map_filter_simps Let_def case_prod_beta)

theorem subnets_partition_witness:
  "let m = fold subnet_step (demo_talk @ [SnEvaluate 6]) (subnet_manager_new (NodeId 1))
   in \<exists>sid s. hm_get (sm_subnets m) sid = Some s \<and> set (si_members s) = {NodeId 1, NodeId 2, NodeId 3} \<and>
        distinct (si_members s) \<and> (\<forall>n \<in> set (si_members s). get_node_subnet n m = Some s)"
proof -
  let ?m = "fold subnet_step (demo_talk @ [SnEvaluate 6]) (subnet_manager_new (NodeId 1))"
  have "length (demo_talk @ [SnEvaluate 6]) \<le> 2 ^ 31" by (simp add: demo_talk_def)
  note parts = subnets_partition [OF this, of "NodeId 1", unfolded Let_def]
  obtain k k' a b c d where e: "fold subnet_step demo_talk (subnet_manager_new (NodeId 1)) = demo_net k (demo_link a b) k' (demo_link c d)"
    and ab: "(a, b) = (NodeId 1, NodeId 2) \<or> (a, b) = (NodeId 2, NodeId 1)" "(c, d) = (NodeId 2, NodeId 3) \<or> (c, d) = (NodeId 3, NodeId 2)"
    by (rule demo_edges)
  have "?m = snd (form_new_subnets 6 [] (demo_net k (demo_link a b) k' (demo_link c d)))"
    by (simp only: fold_append comp_apply e fold_simps demo_evaluated)
  then obtain s where s: "get_node_subnet (NodeId 2) ?m = Some s" "set (si_members s) = {NodeId 1, NodeId 2, NodeId 3}"
    using demo_formed [OF ab, of k k'] by (elim exE conjE) (simp only:)
  note look = parts [THEN conjunct2, THEN conjunct2, rule_format]
  from look [THEN iffD1, OF s(1)] obtain sid where sid: "hm_get (sm_subnets ?m) sid = Some s" by (elim exE conjE)
  have "distinct (si_members s)" using parts [THEN conjunct1, rule_format, OF sid] by (rule conjunct1)
  moreover have "get_node_subnet n ?m = Some s" if "n \<in> set (si_members s)" for n
    by (rule look [THEN iffD2]) (intro exI conjI, rule sid, rule that)
  ultimately show ?thesis unfolding Let_def using sid s(2) by (intro exI [of _ sid] exI [of _ s] conjI ballI)
qed

subsection \<open>Removal of a node\<close>

lemma window_in_pair:
  assumes "length x = length w" and "length y = length w" and "c \<notin> set w"
    and "take (length w) (drop i (x @ c # y)) = w"
  shows "w = x \<or> w = y"
proof (cases "i = 0 \<or> Suc (length w) \<le> i")
  case True
  then show ?thesis
  proof
    assume "i = 0"
    then show ?thesis using assms(1,4) by simp
  next
    assume i: "Suc (length w) \<le> i"
    then have "drop i (x @ c # y) = drop (i - Suc (length w)) y" using assms(1) by (simp add: drop_Cons')
    with assms(4) have w: "w = take (length w) (drop (i - Suc (length w)) y)" by metis
    have "length w = min (length w) (length y - (i - Suc (length w)))"
      using arg_cong [OF w, of length] by (simp only: length_take length_drop min.commute)
    then have "length w = 0 \<or> i - Suc (length w) = 0" using assms(2) i by linarith
    with w assms(2) show ?thesis by auto
  qed
next
  case False
  then have "length x - i < length w" "i \<le> length x" using assms(1) by auto
  then have "take (length w) (drop i (x @ c # y)) ! (length x - i) = c"
    by (simp add: nth_append)
  moreover have "length x - i < length (take (length w) (drop i (x @ c # y)))"
    using assms(4) \<open>length x - i < length w\<close> by simp
  ultimately have "c \<in> set (take (length w) (drop i (x @ c # y)))" by (metis nth_mem)
  with assms(3,4) show ?thesis by simp
qed

text \<open>
  Removing a node drops exactly the edges it is an endpoint of: although the code looks for
  the printed name anywhere in the key of the edge, a key contains the name of a node exactly
  if that node is one of its two ends.
\<close>

theorem edge_key_mentions: "str_contains (edge_key a b) (node_to_string n) \<longleftrightarrow> n = a \<or> n = b"
proof -
  have key: "\<exists>x y. edge_key a b = node_to_string x @ CHR '':'' # node_to_string y \<and> {x, y} = {a, b}"
    by (auto simp: edge_key_def)
  then obtain x y where k: "edge_key a b = node_to_string x @ CHR '':'' # node_to_string y" and xy: "{x, y} = {a, b}"
    by blast
  have "n = x \<or> n = y" if "str_contains (edge_key a b) (node_to_string n)"
    using that window_in_pair [OF _ _ node_to_string_no_colon, of "node_to_string x" n "node_to_string y"]
    by (auto simp: str_contains_def k list_ex_iff)
  moreover have "str_contains (edge_key a b) (node_to_string n)" if "n = x \<or> n = y"
  proof -
    have "take 64 (drop 0 (edge_key a b)) = node_to_string x" "take 64 (drop 65 (edge_key a b)) = node_to_string y"
      by (simp_all add: k)
    with that show ?thesis
      unfolding str_contains_def list_ex_iff by (auto simp: k intro: bexI [of _ 0] bexI [of _ 65])
  qed
  ultimately have "str_contains (edge_key a b) (node_to_string n) \<longleftrightarrow> n \<in> {x, y}" by blast
  then show ?thesis by (simp add: xy)
qed

end
