(* ===== verification/Tom_Roles.thy ===== *)
theory Tom_Roles
  imports Tom_Topology Tom_Float
begin

section \<open>Roles, contribution scores and rate limits\<close>

text \<open>
  Models \<^verbatim>\<open>tom-protocol/src/roles\<close>: the contribution metrics and their score (\<^verbatim>\<open>scoring.rs\<close>), the role
  manager that promotes and demotes peers (\<^verbatim>\<open>manager.rs\<close>, \<^verbatim>\<open>metrics.rs\<close>), and the rate limiter with
  its token buckets (\<^verbatim>\<open>antispam.rs\<close>).

  Scores are doubles, rounded after every operation as in \<open>Tom_Float\<close>. Two things are not part of
  the sources and enter as parameters: the exponential function of the platform's mathematical
  library, whose precision the language leaves open, and the LRU cache of an external crate.

  The lemmas show what an evaluation of the roles does to every peer, that a node whose every
  relay attempt fails is promoted after twenty hours, and that the rate limiter never fails,
  keeps every bucket within its bounds and always admits a sender that has been quiet for a
  tenth of a second.
\<close>

subsection \<open>Contribution metrics\<close>

definition DECAY_RATE_PER_MS :: real where
  "DECAY_RATE_PER_MS = f64_div (f64_lit 0.05) (f64_lit 3600000)"
definition RELAY_COUNT_WEIGHT :: real where "RELAY_COUNT_WEIGHT = f64_lit 1"
definition SUCCESS_RATE_WEIGHT :: real where "SUCCESS_RATE_WEIGHT = f64_lit 5"
definition UPTIME_WEIGHT :: real where "UPTIME_WEIGHT = f64_lit 0.5"
definition BANDWIDTH_MB_WEIGHT :: real where "BANDWIDTH_MB_WEIGHT = f64_lit 0.2"
definition BANDWIDTH_RATIO_WEIGHT :: real where "BANDWIDTH_RATIO_WEIGHT = f64_lit 1.5"

record contribution_metrics =
  cm_messages_relayed :: u64
  cm_relay_failures :: u64
  cm_first_seen :: u64
  cm_last_activity :: u64
  cm_total_uptime_ms :: u64
  cm_bytes_relayed :: u64
  cm_bytes_received :: u64

definition contribution_metrics_new :: "u64 \<Rightarrow> contribution_metrics" where
  "contribution_metrics_new now =
     \<lparr>cm_messages_relayed = 0, cm_relay_failures = 0, cm_first_seen = now, cm_last_activity = now,
      cm_total_uptime_ms = 0, cm_bytes_relayed = 0, cm_bytes_received = 0\<rparr>"

definition cm_record_relay :: "u64 \<Rightarrow> contribution_metrics \<Rightarrow> contribution_metrics" where
  "cm_record_relay now m =
     m\<lparr>cm_messages_relayed := cm_messages_relayed m + 1,
       cm_total_uptime_ms := cm_total_uptime_ms m + saturating_sub now (cm_last_activity m),
       cm_last_activity := now\<rparr>"

definition cm_record_relay_failure :: "u64 \<Rightarrow> contribution_metrics \<Rightarrow> contribution_metrics" where
  "cm_record_relay_failure now m =
     m\<lparr>cm_relay_failures := cm_relay_failures m + 1,
       cm_total_uptime_ms := cm_total_uptime_ms m + saturating_sub now (cm_last_activity m),
       cm_last_activity := now\<rparr>"

definition success_rate_or :: "real \<Rightarrow> contribution_metrics \<Rightarrow> real" where
  "success_rate_or fallback m =
     (let total_attempts = cm_messages_relayed m + cm_relay_failures m
      in if total_attempts = 0 then fallback
         else f64_div (f64_of_nat (unat (cm_messages_relayed m))) (f64_of_nat (unat total_attempts)))"

definition bandwidth_ratio :: "contribution_metrics \<Rightarrow> real" where
  "bandwidth_ratio m =
     (if 0 < cm_bytes_received m
      then f64_div (f64_of_nat (unat (cm_bytes_relayed m))) (f64_of_nat (unat (cm_bytes_received m)))
      else if 0 < cm_bytes_relayed m then 1 else 0)"

definition uptime_hours :: "contribution_metrics \<Rightarrow> real" where
  "uptime_hours m = f64_div (f64_of_nat (unat (cm_total_uptime_ms m))) (f64_lit 3600000)"

definition raw_score :: "contribution_metrics \<Rightarrow> real" where
  "raw_score m =
     (let bandwidth_mb = f64_div (f64_of_nat (unat (cm_bytes_relayed m))) (f64_lit 1048576)
      in f64_add
           (f64_add
             (f64_add
               (f64_add (f64_mul (f64_of_nat (unat (cm_messages_relayed m))) RELAY_COUNT_WEIGHT)
                        (f64_mul (success_rate_or 0 m) SUCCESS_RATE_WEIGHT))
               (f64_mul (uptime_hours m) UPTIME_WEIGHT))
             (f64_mul bandwidth_mb BANDWIDTH_MB_WEIGHT))
           (f64_mul (bandwidth_ratio m) BANDWIDTH_RATIO_WEIGHT))"

definition cm_score :: "(real \<Rightarrow> real) \<Rightarrow> u64 \<Rightarrow> contribution_metrics \<Rightarrow> real" where
  "cm_score f64_exp now m =
     (let idle_ms = f64_of_nat (unat (saturating_sub now (cm_last_activity m)));
          decay = f64_exp (f64_mul (- DECAY_RATE_PER_MS) idle_ms)
      in f64_mul (raw_score m) decay)"

subsection \<open>The role manager\<close>

definition PROMOTION_THRESHOLD :: real where "PROMOTION_THRESHOLD = f64_lit 10"
definition DEMOTION_THRESHOLD :: real where "DEMOTION_THRESHOLD = f64_lit 2"

datatype role_action =
    RoPromoted node_id real
  | RoDemoted node_id real
  | RoLocalRoleChanged peer_role

record role_manager =
  rm_local_id :: node_id
  rm_scores :: "(node_id, contribution_metrics) hmap"

definition role_manager_new :: "node_id \<Rightarrow> role_manager" where
  "role_manager_new self = \<lparr>rm_local_id = self, rm_scores = []\<rparr>"

text \<open>The entry of a node, made on first use, with an update applied to it.\<close>

definition with_metrics ::
  "node_id \<Rightarrow> u64 \<Rightarrow> (contribution_metrics \<Rightarrow> contribution_metrics) \<Rightarrow> role_manager \<Rightarrow> role_manager" where
  "with_metrics n now f r =
     (let m = (case hm_get (rm_scores r) n of None \<Rightarrow> contribution_metrics_new now | Some m \<Rightarrow> m)
      in r\<lparr>rm_scores := hm_insert n (f m) (rm_scores r)\<rparr>)"

definition rm_record_relay :: "node_id \<Rightarrow> u64 \<Rightarrow> role_manager \<Rightarrow> role_manager" where
  "rm_record_relay n now = with_metrics n now (cm_record_relay now)"

definition rm_record_relay_failure :: "node_id \<Rightarrow> u64 \<Rightarrow> role_manager \<Rightarrow> role_manager" where
  "rm_record_relay_failure n now = with_metrics n now (cm_record_relay_failure now)"

definition rm_score :: "(real \<Rightarrow> real) \<Rightarrow> node_id \<Rightarrow> u64 \<Rightarrow> role_manager \<Rightarrow> real" where
  "rm_score f64_exp n now r =
     (case hm_get (rm_scores r) n of None \<Rightarrow> 0 | Some m \<Rightarrow> cm_score f64_exp now m)"

definition record_bytes_relayed :: "node_id \<Rightarrow> u64 \<Rightarrow> u64 \<Rightarrow> role_manager \<Rightarrow> role_manager" where
  "record_bytes_relayed n bytes now =
     with_metrics n now (\<lambda>m. m\<lparr>cm_bytes_relayed := cm_bytes_relayed m + bytes, cm_last_activity := now\<rparr>)"

definition record_bytes_received :: "node_id \<Rightarrow> u64 \<Rightarrow> u64 \<Rightarrow> role_manager \<Rightarrow> role_manager" where
  "record_bytes_received n bytes now =
     with_metrics n now (\<lambda>m. m\<lparr>cm_bytes_received := cm_bytes_received m + bytes\<rparr>)"

definition rm_remove_node :: "node_id \<Rightarrow> role_manager \<Rightarrow> role_manager" where
  "rm_remove_node n r = r\<lparr>rm_scores := hm_remove n (rm_scores r)\<rparr>"

definition restore_scores :: "(node_id, contribution_metrics) hmap \<Rightarrow> role_manager \<Rightarrow> role_manager" where
  "restore_scores scores r = r\<lparr>rm_scores := scores\<rparr>"

record role_metrics =
  rx_node_id :: node_id
  rx_role :: peer_role
  rx_score :: real
  rx_relay_count :: u64
  rx_relay_failures :: u64
  rx_success_rate :: real
  rx_bytes_relayed :: u64
  rx_bytes_received :: u64
  rx_bandwidth_ratio :: real
  rx_uptime_hours :: real
  rx_first_seen :: u64
  rx_last_activity :: u64

definition get_metrics ::
  "(real \<Rightarrow> real) \<Rightarrow> node_id \<Rightarrow> topology \<Rightarrow> u64 \<Rightarrow> role_manager \<Rightarrow> role_metrics option" where
  "get_metrics f64_exp n t now r =
     (case hm_get (rm_scores r) n of
        None \<Rightarrow> None
      | Some m \<Rightarrow>
          (case tp_get n t of
             None \<Rightarrow> None
           | Some p \<Rightarrow>
               Some \<lparr>rx_node_id = n, rx_role = pi_role p, rx_score = rm_score f64_exp n now r,
                     rx_relay_count = cm_messages_relayed m, rx_relay_failures = cm_relay_failures m,
                     rx_success_rate = success_rate_or 1 m, rx_bytes_relayed = cm_bytes_relayed m,
                     rx_bytes_received = cm_bytes_received m, rx_bandwidth_ratio = bandwidth_ratio m,
                     rx_uptime_hours = uptime_hours m, rx_first_seen = cm_first_seen m,
                     rx_last_activity = cm_last_activity m\<rparr>))"

definition get_all_scores ::
  "(real \<Rightarrow> real) \<Rightarrow> topology \<Rightarrow> u64 \<Rightarrow> role_manager \<Rightarrow> (node_id \<times> real \<times> peer_role) list" where
  "get_all_scores f64_exp t now r =
     map (\<lambda>p. (pi_node_id p, rm_score f64_exp (pi_node_id p) now r, pi_role p)) (hm_values (tp_peers t))"

text \<open>One round of the loop of \<open>evaluate\<close>.\<close>

definition evaluate_node ::
  "(real \<Rightarrow> real) \<Rightarrow> node_id \<Rightarrow> u64 \<Rightarrow> node_id \<times> contribution_metrics \<Rightarrow> topology \<Rightarrow> role_action list \<times> topology" where
  "evaluate_node f64_exp self now nm t =
     (case nm of (n, metrics) \<Rightarrow>
       let score = cm_score f64_exp now metrics
       in case map_option pi_role (tp_get n t) of
            Some Peer \<Rightarrow>
              if PROMOTION_THRESHOLD \<le> score
              then ([if n = self then RoLocalRoleChanged Relay else RoPromoted n score],
                    tp_modify n (\<lambda>p. p\<lparr>pi_role := Relay\<rparr>) t)
              else ([], t)
          | Some Relay \<Rightarrow>
              if score < DEMOTION_THRESHOLD
              then ([if n = self then RoLocalRoleChanged Peer else RoDemoted n score],
                    tp_modify n (\<lambda>p. p\<lparr>pi_role := Peer\<rparr>) t)
              else ([], t)
          | None \<Rightarrow> ([], t))"

fun evaluate_loop ::
  "(real \<Rightarrow> real) \<Rightarrow> node_id \<Rightarrow> u64 \<Rightarrow> (node_id \<times> contribution_metrics) list \<Rightarrow> topology \<Rightarrow> role_action list \<times> topology" where
  "evaluate_loop f64_exp self now [] t = ([], t)"
| "evaluate_loop f64_exp self now (nm # rest) t =
     (let (acts, t) = evaluate_node f64_exp self now nm t;
          (acts', t) = evaluate_loop f64_exp self now rest t
      in (acts @ acts', t))"

definition evaluate :: "(real \<Rightarrow> real) \<Rightarrow> topology \<Rightarrow> u64 \<Rightarrow> role_manager \<Rightarrow> role_action list \<times> topology" where
  "evaluate f64_exp t now r = evaluate_loop f64_exp (rm_local_id r) now (rm_scores r) t"

subsection \<open>The rate limiter\<close>

definition MAX_ENVELOPE_SIZE :: nat where "MAX_ENVELOPE_SIZE = 256 * 1024"

record anti_spam_config =
  ac_min_rate :: real
  ac_max_rate :: real
  ac_midpoint_score :: real
  ac_max_envelope_size :: nat
  ac_max_tracked_senders :: nat

definition anti_spam_config_default :: anti_spam_config where
  "anti_spam_config_default =
     \<lparr>ac_min_rate = f64_lit 10, ac_max_rate = f64_lit 50, ac_midpoint_score = f64_lit 10,
      ac_max_envelope_size = MAX_ENVELOPE_SIZE, ac_max_tracked_senders = 10000\<rparr>"

record token_bucket =
  tb_capacity :: real
  tb_tokens :: real
  tb_refill_rate :: real
  tb_last_refill :: u64

definition token_bucket_new :: "real \<Rightarrow> u64 \<Rightarrow> token_bucket" where
  "token_bucket_new rate now =
     (let capacity = f64_mul rate (f64_lit 2)
      in \<lparr>tb_capacity = capacity, tb_tokens = capacity, tb_refill_rate = rate, tb_last_refill = now\<rparr>)"

definition refill :: "u64 \<Rightarrow> token_bucket \<Rightarrow> token_bucket" where
  "refill now b =
     (let elapsed_ms = saturating_sub now (tb_last_refill b);
          elapsed_sec = f64_div (f64_of_nat (unat elapsed_ms)) (f64_lit 1000)
      in b\<lparr>tb_tokens := min (f64_add (tb_tokens b) (f64_mul (tb_refill_rate b) elapsed_sec)) (tb_capacity b),
           tb_last_refill := now\<rparr>)"

definition try_consume :: "u64 \<Rightarrow> token_bucket \<Rightarrow> bool \<times> token_bucket" where
  "try_consume now b =
     (let b = refill now b
      in if 1 \<le> tb_tokens b then (True, b\<lparr>tb_tokens := f64_sub (tb_tokens b) 1\<rparr>) else (False, b))"

definition update_rate :: "real \<Rightarrow> u64 \<Rightarrow> token_bucket \<Rightarrow> token_bucket" where
  "update_rate new_rate now b =
     (let b = (refill now b)\<lparr>tb_refill_rate := new_rate, tb_capacity := f64_mul new_rate (f64_lit 2)\<rparr>
      in if tb_capacity b < tb_tokens b then b\<lparr>tb_tokens := tb_capacity b\<rparr> else b)"

text \<open>
  The operations of the external LRU cache that the limiter uses. \<open>bk_set\<close> stands for a write
  through the reference that \<open>get_mut\<close> returns.
\<close>

record 'c lru_api =
  bk_new :: "nat \<Rightarrow> 'c"
  bk_get_mut :: "node_id \<Rightarrow> 'c \<Rightarrow> token_bucket option \<times> 'c"
  bk_set :: "node_id \<Rightarrow> token_bucket \<Rightarrow> 'c \<Rightarrow> 'c"
  bk_push :: "node_id \<Rightarrow> token_bucket \<Rightarrow> 'c \<Rightarrow> 'c"

record 'c anti_spam =
  as_config :: anti_spam_config
  as_buckets :: 'c

text \<open>The constructor panics if no sender may be tracked.\<close>

definition anti_spam_new :: "'c lru_api \<Rightarrow> anti_spam_config \<Rightarrow> 'c anti_spam option" where
  "anti_spam_new lru config =
     (if ac_max_tracked_senders config = 0 then None
      else Some \<lparr>as_config = config, as_buckets = bk_new lru (ac_max_tracked_senders config)\<rparr>)"

datatype anti_spam_error = EnvelopeTooLarge nat nat | RateLimited real real

definition validate_size :: "bytes \<Rightarrow> nat \<Rightarrow> anti_spam_error + unit" where
  "validate_size raw max_size =
     (if max_size < length raw then Inl (EnvelopeTooLarge (length raw) max_size) else Inr ())"

definition compute_rate :: "anti_spam_config \<Rightarrow> real \<Rightarrow> real" where
  "compute_rate config score =
     (let score = max score 0;
          range = f64_sub (ac_max_rate config) (ac_min_rate config);
          denom = f64_add score (ac_midpoint_score config);
          normalized = (if 0 < denom then f64_div score denom else 0)
      in f64_add (ac_min_rate config) (f64_mul range normalized))"

text \<open>The outcome is \<open>None\<close> if the unwrap of the bucket just inserted panics.\<close>

definition check_rate ::
  "'c lru_api \<Rightarrow> node_id \<Rightarrow> real \<Rightarrow> u64 \<Rightarrow> 'c anti_spam \<Rightarrow> ((anti_spam_error + unit) \<times> 'c anti_spam) option" where
  "check_rate lru sender score now a =
     (let rate = compute_rate (as_config a) score;
          (found, buckets) =
            (case bk_get_mut lru sender (as_buckets a) of
               (Some b, buckets) \<Rightarrow> (Some b, buckets)
             | (None, buckets) \<Rightarrow> bk_get_mut lru sender (bk_push lru sender (token_bucket_new rate now) buckets))
      in case found of
           None \<Rightarrow> None
         | Some bucket \<Rightarrow>
             let bucket = (if f64_lit 0.01 < \<bar>f64_sub (tb_refill_rate bucket) rate\<bar>
                           then update_rate rate now bucket else bucket);
                 (ok, bucket) = try_consume now bucket
             in Some (if ok then Inr () else Inl (RateLimited score rate),
                      a\<lparr>as_buckets := bk_set lru sender bucket buckets\<rparr>))"

subsection \<open>What an evaluation does\<close>

definition role_after :: "real \<Rightarrow> peer_role \<Rightarrow> peer_role" where
  "role_after score role =
     (case role of
        Peer \<Rightarrow> if PROMOTION_THRESHOLD \<le> score then Relay else Peer
      | Relay \<Rightarrow> if score < DEMOTION_THRESHOLD then Peer else Relay)"

definition reassigned :: "(real \<Rightarrow> real) \<Rightarrow> u64 \<Rightarrow> (node_id \<times> contribution_metrics) list \<Rightarrow> node_id \<Rightarrow> peer_info \<Rightarrow> peer_info" where
  "reassigned f64_exp now scores n p =
     (case hm_get scores n of
        None \<Rightarrow> p
      | Some m \<Rightarrow> p\<lparr>pi_role := role_after (cm_score f64_exp now m) (pi_role p)\<rparr>)"

lemma thresholds: "DEMOTION_THRESHOLD = 2" "PROMOTION_THRESHOLD = 10"
  by (simp_all add: DEMOTION_THRESHOLD_def PROMOTION_THRESHOLD_def f64_round_numeral)

lemma role_after_stable: "role_after score (role_after score role) = role_after score role"
  by (simp add: role_after_def thresholds split: peer_role.split)

lemma tp_get_modify: "tp_get k (tp_modify n f t) = (if k = n then map_option f (tp_get k t) else tp_get k t)"
  by (simp add: tp_get_def tp_modify_def hm_simps)

lemma evaluate_node_get:
  "tp_get k (snd (evaluate_node f64_exp self now (n, m) t)) =
     (if k = n then map_option (\<lambda>p. p\<lparr>pi_role := role_after (cm_score f64_exp now m) (pi_role p)\<rparr>) (tp_get k t)
      else tp_get k t)"
  by (cases "tp_get n t")
    (auto simp: evaluate_node_def role_after_def Let_def tp_get_modify split: peer_role.splits)

lemma evaluate_loop_get:
  assumes "distinct (map fst scores)"
  shows "tp_get k (snd (evaluate_loop f64_exp self now scores t)) =
    map_option (reassigned f64_exp now scores k) (tp_get k t)"
  using assms
proof (induction scores arbitrary: t)
  case Nil
  then show ?case by (simp add: reassigned_def option.map_id [unfolded id_def])
next
  case (Cons nm rest)
  obtain n m where nm: "nm = (n, m)" by fastforce
  have "hm_get rest n = None" using Cons.prems nm by (simp add: map_of_eq_None_iff)
  then show ?case
    using Cons.IH [of "snd (evaluate_node f64_exp self now nm t)"] Cons.prems
    by (auto simp: nm split_beta Let_def evaluate_node_get reassigned_def option.map_comp comp_def
        intro!: option.map_cong)
qed

text \<open>
  What is reported of a scored node in the given table: nothing if it is unknown or keeps its role, otherwise its promotion or
  demotion with the score, or the new role if the node is this one.
\<close>

definition role_report ::
  "(real \<Rightarrow> real) \<Rightarrow> node_id \<Rightarrow> u64 \<Rightarrow> topology \<Rightarrow> node_id \<times> contribution_metrics \<Rightarrow> role_action option" where
  "role_report f64_exp self now t nm =
     (case nm of (n, m) \<Rightarrow>
        let score = cm_score f64_exp now m
        in case tp_get n t of
             None \<Rightarrow> None
           | Some p \<Rightarrow>
               let new_role = role_after score (pi_role p)
               in if new_role = pi_role p then None
                  else Some (if n = self then RoLocalRoleChanged new_role
                             else if new_role = Relay then RoPromoted n score else RoDemoted n score))"

lemma evaluate_node_report:
  "fst (evaluate_node f64_exp self now nm t) = (case role_report f64_exp self now t nm of None \<Rightarrow> [] | Some a \<Rightarrow> [a])"
  by (cases nm, cases "tp_get (fst nm) t")
    (auto simp: evaluate_node_def role_report_def role_after_def Let_def split: peer_role.splits)

lemma evaluate_loop_reports:
  assumes "distinct (map fst scores)"
  shows "fst (evaluate_loop f64_exp self now scores t) = List.map_filter (role_report f64_exp self now t) scores"
  using assms
proof (induction scores arbitrary: t)
  case Nil
  then show ?case by simp
next
  case (Cons nm rest)
  let ?t = "snd (evaluate_node f64_exp self now nm t)"
  have "role_report f64_exp self now ?t x = role_report f64_exp self now t x" if "x \<in> set rest" for x
  proof -
    have "fst x \<noteq> fst nm" using Cons.prems that by (auto simp: image_iff)
    then have "tp_get (fst x) ?t = tp_get (fst x) t" by (cases nm) (simp add: evaluate_node_get)
    then show ?thesis by (cases x) (simp add: role_report_def)
  qed
  then have "List.map_filter (role_report f64_exp self now ?t) rest = List.map_filter (role_report f64_exp self now t) rest"
    by (simp add: List.map_filter_def cong: filter_cong)
  then show ?case
    using Cons.IH [of ?t] Cons.prems
    by (simp add: split_beta Let_def evaluate_node_report map_filter_simps split: option.split)
qed

text \<open>
  C38. An evaluation of the roles gives every scored peer exactly the role its score prescribes
  (a peer with a score of ten or more becomes a relay, a relay with a score below two a peer,
  every other peer keeps its role) and changes nothing else. It reports exactly the changes, each once,
  in the order of the scores: a promotion or demotion with its score, or this node's own new role. And it is stable:
  evaluating again at the same time changes no role and reports nothing.
\<close>

theorem evaluate_exact:
  assumes "hm_wf (rm_scores r)"
  shows "let t' = snd (evaluate f64_exp t now r)
    in (\<forall>n. tp_get n t' = map_option (reassigned f64_exp now (rm_scores r) n) (tp_get n t)) \<and>
       fst (evaluate f64_exp t now r) = List.map_filter (role_report f64_exp (rm_local_id r) now t) (rm_scores r) \<and>
       fst (evaluate f64_exp t' now r) = [] \<and> (\<forall>n. tp_get n (snd (evaluate f64_exp t' now r)) = tp_get n t')"
proof -
  define t' where "t' = snd (evaluate f64_exp t now r)"
  have d: "distinct (map fst (rm_scores r))" using assms by simp
  have get: "tp_get n (snd (evaluate f64_exp u now r)) = map_option (reassigned f64_exp now (rm_scores r) n) (tp_get n u)" for n u
    unfolding evaluate_def by (rule evaluate_loop_get [OF d])
  have reports: "fst (evaluate f64_exp u now r) = List.map_filter (role_report f64_exp (rm_local_id r) now u) (rm_scores r)" for u
    unfolding evaluate_def by (rule evaluate_loop_reports [OF d])
  have stable: "reassigned f64_exp now (rm_scores r) n (reassigned f64_exp now (rm_scores r) n p) =
      reassigned f64_exp now (rm_scores r) n p" for n p
    by (simp add: reassigned_def role_after_stable split: option.split)
  have "role_report f64_exp (rm_local_id r) now t' x = None" if "x \<in> set (rm_scores r)" for x
  proof -
    obtain n m where x: "x = (n, m)" by fastforce
    have "hm_get (rm_scores r) n = Some m" using that x d by simp
    then show ?thesis by (simp add: x role_report_def t'_def get reassigned_def role_after_stable Let_def split: option.split)
  qed
  then have "fst (evaluate f64_exp t' now r) = []" by (simp add: reports List.map_filter_def)
  moreover have "tp_get n (snd (evaluate f64_exp t' now r)) = tp_get n t'" for n
    unfolding get by (simp add: t'_def get stable option.map_comp comp_def)
  ultimately show ?thesis using get reports unfolding t'_def [symmetric] Let_def by (simp add: t'_def)
qed

text \<open>
  The uptime of a node grows with every recorded attempt, failed ones included: a node that is
  seen to fail once, twenty hours after it was first seen, has a score of ten.
\<close>

definition twenty_hours :: u64 where "twenty_hours = 72000000"

definition failing_node :: "node_id \<Rightarrow> role_manager \<Rightarrow> role_manager" where
  "failing_node n r = rm_record_relay_failure n twenty_hours (rm_record_relay_failure n 0 r)"

lemma f64_half: "f64_round (1 / 2) = 1 / 2"
proof -
  have "log 2 (1 / 2) = - 1" by (simp add: log_divide)
  then have "\<lfloor>log 2 (1 / 2 :: real)\<rfloor> = - 1" using floor_of_int [where ?'a = real, of "- 1"] by simp
  then have u: "ulp_exp (1 / 2) = - 53" by (simp add: ulp_exp_def)
  have "(1 / 2 :: real) = of_int (2 ^ 52) * 2 powi ulp_exp (1 / 2)" unfolding u by (simp add: power_int_def power_divide)
  from is_f64_multiple [OF this] show ?thesis by (simp add: is_f64_def)
qed

lemma failing_score:
  assumes "f64_exp 0 = 1" and "hm_get (rm_scores r) n = None"
  shows "rm_score f64_exp n twenty_hours (failing_node n r) = 10"
proof -
  define m where "m = cm_record_relay_failure twenty_hours (cm_record_relay_failure 0 (contribution_metrics_new 0))"
  have get: "hm_get (rm_scores (failing_node n r)) n = Some m"
    using assms(2) by (simp add: failing_node_def rm_record_relay_failure_def with_metrics_def Let_def hm_simps m_def)
  have up: "cm_total_uptime_ms m = 72000000" and failed: "cm_relay_failures m = 2" and seen: "cm_last_activity m = twenty_hours"
    and zero: "cm_messages_relayed m = 0" "cm_bytes_relayed m = 0" "cm_bytes_received m = 0"
    by (simp_all add: m_def cm_record_relay_failure_def contribution_metrics_new_def twenty_hours_def saturating_sub_def)
  have "uptime_hours m = 20"
    by (simp add: uptime_hours_def up f64_div_def f64_of_nat_def f64_round_numeral)
  moreover have "success_rate_or 0 m = 0" "bandwidth_ratio m = 0"
    by (simp_all add: success_rate_or_def bandwidth_ratio_def zero failed f64_of_nat_def f64_div_def)
  ultimately have "raw_score m = 10"
    by (simp add: raw_score_def zero UPTIME_WEIGHT_def f64_half f64_defs f64_round_numeral)
  then show ?thesis
    using assms(1)
    by (simp add: rm_score_def get cm_score_def seen saturating_sub_def f64_mul_def f64_of_nat_def f64_round_numeral)
qed

theorem evaluate_exact_witness:
  "let r = failing_node (NodeId 7) (role_manager_new (NodeId 1)); (acts, t) = evaluate exp demo_topology twenty_hours r
   in tp_get (NodeId 7) t = Some \<lparr>pi_node_id = NodeId 7, pi_role = Relay, pi_status = Online, pi_last_seen = 30\<rparr> \<and>
      acts = [RoPromoted (NodeId 7) 10]"
proof -
  let ?r = "failing_node (NodeId 7) (role_manager_new (NodeId 1))"
  have wf: "hm_wf (rm_scores ?r)"
    by (simp add: failing_node_def rm_record_relay_failure_def with_metrics_def Let_def role_manager_new_def)
  have "rm_score exp (NodeId 7) twenty_hours ?r = 10"
    by (rule failing_score) (simp_all add: role_manager_new_def)
  moreover obtain m where m: "rm_scores ?r = [(NodeId 7, m)]"
    by (simp add: failing_node_def rm_record_relay_failure_def with_metrics_def Let_def role_manager_new_def)
  ultimately have score: "cm_score exp twenty_hours m = 10" by (simp add: rm_score_def)
  have self: "rm_local_id ?r = NodeId 1"
    by (simp add: failing_node_def rm_record_relay_failure_def with_metrics_def Let_def role_manager_new_def)
  have "tp_get (NodeId 7) demo_topology = Some \<lparr>pi_node_id = NodeId 7, pi_role = Peer, pi_status = Online, pi_last_seen = 30\<rparr>"
    by (simp add: tp_get_def demo_topology_def)
  then show ?thesis
    using evaluate_exact [OF wf, of exp demo_topology twenty_hours]
    by (simp add: Let_def case_prod_beta m self score role_report_def reassigned_def role_after_def thresholds map_filter_simps)
qed

text \<open>Recording keeps the table of scores a table, and the node it belongs to.\<close>

definition roles_wf :: "node_id \<Rightarrow> role_manager \<Rightarrow> bool" where
  "roles_wf self r \<longleftrightarrow> rm_local_id r = self \<and> hm_wf (rm_scores r)"

lemma roles_ops_wf:
  assumes "roles_wf self r"
  shows "roles_wf self (rm_record_relay n now r)" and "roles_wf self (record_bytes_relayed n k now r)"
    and "roles_wf self (record_bytes_received n k now r)" and "roles_wf self (rm_remove_node n r)"
  using assms
  by (simp_all add: roles_wf_def rm_record_relay_def record_bytes_relayed_def record_bytes_received_def
      rm_remove_node_def with_metrics_def Let_def hm_wfs)

subsection \<open>The rate limiter admits quiet senders\<close>

text \<open>
  The laws of the cache: \<open>contents\<close> is what \<open>peek\<close> would show. A look-up changes only the order of
  use, and an insertion may drop other entries but never the new one.
\<close>

locale lru_cache =
  fixes lru :: "'c lru_api" and contents :: "'c \<Rightarrow> node_id \<rightharpoonup> token_bucket"
  assumes new_empty: "contents (bk_new lru n) k = None"
    and get_finds: "fst (bk_get_mut lru k c) = contents c k"
    and get_keeps: "contents (snd (bk_get_mut lru k c)) = contents c"
    and set_sets: "contents c k \<noteq> None \<Longrightarrow> contents (bk_set lru k b c) = (contents c)(k \<mapsto> b)"
    and push_adds: "contents (bk_push lru k b c) k = Some b"
    and push_keeps: "contents (bk_push lru k b c) k' = Some b' \<Longrightarrow> k' \<noteq> k \<Longrightarrow> contents c k' = Some b'"

definition limiter_step :: "'c lru_api \<Rightarrow> node_id \<times> real \<times> u64 \<Rightarrow> 'c anti_spam \<Rightarrow> 'c anti_spam" where
  "limiter_step lru call a =
     (case call of (sender, score, now) \<Rightarrow>
        (case check_rate lru sender score now a of None \<Rightarrow> a | Some (_, a') \<Rightarrow> a'))"

text \<open>A check never changes the configuration.\<close>

interpretation limiter_machine: event_machine "limiter_step lru" "\<lambda>_. True" "\<lambda>a. as_config a = config" for lru config
  by unfold_locales
    (auto simp: limiter_step_def check_rate_def Let_def split: prod.splits option.splits if_splits)

definition bucket_ok :: "token_bucket \<Rightarrow> bool" where
  "bucket_ok b \<longleftrightarrow> 10 \<le> tb_refill_rate b \<and> 20 \<le> tb_capacity b \<and> 0 \<le> tb_tokens b"

lemma config_lits:
  "ac_min_rate anti_spam_config_default = 10" "ac_max_rate anti_spam_config_default = 50"
  "ac_midpoint_score anti_spam_config_default = 10"
  by (simp_all add: anti_spam_config_default_def f64_round_numeral)

lemma rate_floor: "10 \<le> compute_rate anti_spam_config_default score"
proof -
  let ?s = "max score 0"
  let ?norm = "if 0 < f64_add ?s 10 then f64_div ?s (f64_add ?s 10) else 0"
  have "0 \<le> ?norm" by (auto intro!: f64_nonneg)
  then have "0 \<le> f64_mul (f64_sub 50 10) ?norm"
    by (intro f64_nonneg) (simp_all add: f64_sub_def f64_round_numeral)
  then have "of_int 10 \<le> f64_add 10 (f64_mul (f64_sub 50 10) ?norm)"
    unfolding f64_add_def by (intro f64_round_ge_int) auto
  then show ?thesis unfolding compute_rate_def Let_def config_lits by simp
qed

lemma capacity_floor: "10 \<le> rate \<Longrightarrow> 20 \<le> f64_mul rate (f64_lit 2)"
  using f64_round_ge_int [of 20 "rate * 2"] by (simp add: f64_mul_def f64_round_numeral)

lemma bucket_new_ok: "10 \<le> rate \<Longrightarrow> bucket_ok (token_bucket_new rate now) \<and> 1 \<le> tb_tokens (token_bucket_new rate now)"
  using capacity_floor [of rate] by (simp add: bucket_ok_def token_bucket_new_def Let_def)

lemma refill_ok:
  assumes "bucket_ok b"
  shows "bucket_ok (refill now b)" and "1 \<le> tb_tokens b \<Longrightarrow> 1 \<le> tb_tokens (refill now b)"
proof -
  let ?sec = "f64_div (f64_of_nat (unat (saturating_sub now (tb_last_refill b)))) (f64_lit 1000)"
  have "0 \<le> f64_mul (tb_refill_rate b) ?sec"
    using assms by (intro f64_nonneg) (simp_all add: bucket_ok_def f64_round_numeral)
  then have add: "0 \<le> f64_add (tb_tokens b) (f64_mul (tb_refill_rate b) ?sec)"
      "1 \<le> tb_tokens b \<Longrightarrow> of_int 1 \<le> f64_add (tb_tokens b) (f64_mul (tb_refill_rate b) ?sec)"
    using assms unfolding f64_add_def bucket_ok_def
    by (auto intro!: f64_round_nonneg f64_round_ge_int simp del: of_int_1)
  from add(1) assms show "bucket_ok (refill now b)" by (simp add: bucket_ok_def refill_def Let_def)
  show "1 \<le> tb_tokens (refill now b)" if "1 \<le> tb_tokens b"
    using add(2) [OF that] assms by (simp add: bucket_ok_def refill_def Let_def)
qed

lemma update_rate_ok:
  assumes "bucket_ok b" and "10 \<le> rate"
  shows "bucket_ok (update_rate rate now b)"
    and "1 \<le> tb_tokens (refill now b) \<Longrightarrow> 1 \<le> tb_tokens (update_rate rate now b)"
  using refill_ok(1) [OF assms(1), of now] capacity_floor [OF assms(2)] assms(2)
  by (simp_all add: update_rate_def bucket_ok_def Let_def)

lemma try_consume_ok:
  assumes "bucket_ok b"
  shows "bucket_ok (snd (try_consume now b))" and "tb_last_refill (snd (try_consume now b)) = now"
    and "fst (try_consume now b) \<longleftrightarrow> 1 \<le> tb_tokens (refill now b)"
  using refill_ok(1) [OF assms, of now]
  by (auto simp: try_consume_def bucket_ok_def Let_def f64_sub_def refill_def intro!: f64_round_nonneg)

lemma f64_tenth: "1 / 10 \<le> f64_round (1 / 10)"
proof -
  have "(2 :: real) powr - 4 \<le> 1 / 10" "1 / 10 < (2 :: real) powr - 3" by (simp_all add: powr_minus powr_numeral)
  then have "- 4 \<le> log 2 (1 / 10 :: real)" "log 2 (1 / 10 :: real) < - 3" by (simp_all add: le_log_iff log_less_iff)
  then have "\<lfloor>log 2 (1 / 10 :: real)\<rfloor> = - 4" by (simp add: floor_eq_iff)
  then have u: "ulp_exp (1 / 10) = - 56" by (simp add: ulp_exp_def)
  have scaled: "1 / 10 / 2 powi - 56 = (7205759403792793.6 :: real)" by (simp add: power_int_def power_divide)
  have "round_half_even 7205759403792793.6 = 7205759403792794"
  proof -
    have "\<lfloor>7205759403792793.6 :: real\<rfloor> = 7205759403792793" by (simp add: floor_eq_iff)
    then show ?thesis by (simp add: round_half_even_def)
  qed
  then have "f64_round (1 / 10) = 7205759403792794 * 2 powi - 56"
    unfolding f64_round_def u Let_def scaled by simp
  then show ?thesis by (simp add: power_int_def power_divide)
qed

lemma quiet_refill:
  assumes "bucket_ok b" and "unat (tb_last_refill b) + 100 \<le> unat now"
  shows "1 \<le> tb_tokens (refill now b)"
proof -
  define ms where "ms = unat (saturating_sub now (tb_last_refill b))"
  have ms: "100 \<le> ms"
    using assms(2) by (auto simp: ms_def saturating_sub_def word_le_nat_alt word_less_nat_alt unat_sub)
  have "of_int 100 \<le> f64_round (of_nat ms)" using ms by (intro f64_round_ge_int) simp_all
  then have "f64_round (1 / 10) \<le> f64_div (f64_of_nat ms) (f64_lit 1000)"
    by (simp add: f64_div_def f64_of_nat_def f64_round_numeral f64_round_mono)
  with f64_tenth have sec: "1 / 10 \<le> f64_div (f64_of_nat ms) (f64_lit 1000)" by simp
  have "10 * (1 / 10) \<le> tb_refill_rate b * f64_div (f64_of_nat ms) (f64_lit 1000)"
    using assms(1) sec by (intro mult_mono) (auto simp: bucket_ok_def)
  then have "of_int 1 \<le> f64_mul (tb_refill_rate b) (f64_div (f64_of_nat ms) (f64_lit 1000))"
    unfolding f64_mul_def by (intro f64_round_ge_int) simp_all
  then have "of_int 1 \<le> f64_add (tb_tokens b) (f64_mul (tb_refill_rate b) (f64_div (f64_of_nat ms) (f64_lit 1000)))"
    using assms(1) unfolding f64_add_def by (intro f64_round_ge_int) (simp_all add: bucket_ok_def)
  with assms(1) show ?thesis by (simp add: refill_def Let_def bucket_ok_def ms_def)
qed

text \<open>One check on the bucket of its sender.\<close>

definition use_bucket :: "real \<Rightarrow> u64 \<Rightarrow> token_bucket \<Rightarrow> bool \<times> token_bucket" where
  "use_bucket rate now b =
     try_consume now (if f64_lit 0.01 < \<bar>f64_sub (tb_refill_rate b) rate\<bar> then update_rate rate now b else b)"

lemma use_bucket_ok:
  assumes "bucket_ok b" and "10 \<le> rate"
  shows "bucket_ok (snd (use_bucket rate now b))" and "tb_last_refill (snd (use_bucket rate now b)) = now"
  using try_consume_ok(1,2) assms update_rate_ok(1) [OF assms] by (simp_all add: use_bucket_def)

lemma use_bucket_admits:
  assumes "bucket_ok b" and "10 \<le> rate" and "1 \<le> tb_tokens (refill now b)"
  shows "fst (use_bucket rate now b)"
  using assms refill_ok(2) [OF update_rate_ok(1) [OF assms(1,2)] update_rate_ok(2) [OF assms]]
  by (simp add: use_bucket_def try_consume_ok(3) [OF assms(1)] try_consume_ok(3) [OF update_rate_ok(1) [OF assms(1,2)]])

text \<open>Every bucket is within its bounds and was last used by one of the checks made so far.\<close>

definition limiter_ok ::
  "('c \<Rightarrow> node_id \<rightharpoonup> token_bucket) \<Rightarrow> (node_id \<times> real \<times> u64) list \<Rightarrow> 'c anti_spam \<Rightarrow> bool" where
  "limiter_ok contents calls a \<longleftrightarrow> as_config a = anti_spam_config_default \<and>
     (\<forall>s b. contents (as_buckets a) s = Some b \<longrightarrow> bucket_ok b \<and> (\<exists>score. (s, score, tb_last_refill b) \<in> set calls))"

context lru_cache
begin

lemma check_rate_bucket:
  fixes a :: "'c anti_spam" and sender :: node_id and score :: real and now :: u64
  defines "rate \<equiv> compute_rate (as_config a) score"
  defines "b \<equiv> (case contents (as_buckets a) sender of Some b \<Rightarrow> b | None \<Rightarrow> token_bucket_new rate now)"
  obtains a' where
    "check_rate lru sender score now a =
       Some (if fst (use_bucket rate now b) then Inr () else Inl (RateLimited score rate), a')"
    and "as_config a' = as_config a"
    and "contents (as_buckets a') sender = Some (snd (use_bucket rate now b))"
    and "\<And>k v. contents (as_buckets a') k = Some v \<Longrightarrow> k \<noteq> sender \<Longrightarrow> contents (as_buckets a) k = Some v"
proof -
  obtain f c where g: "bk_get_mut lru sender (as_buckets a) = (f, c)" by fastforce
  have f: "f = contents (as_buckets a) sender" and c: "contents c = contents (as_buckets a)"
    using get_finds [of sender "as_buckets a"] get_keeps [of sender "as_buckets a"] by (simp_all add: g)
  obtain f' c' where g': "bk_get_mut lru sender (bk_push lru sender (token_bucket_new rate now) c) = (f', c')" by fastforce
  have f': "f' = Some (token_bucket_new rate now)"
    and c': "contents c' = contents (bk_push lru sender (token_bucket_new rate now) c)"
    using get_finds [of sender "bk_push lru sender (token_bucket_new rate now) c"]
      get_keeps [of sender "bk_push lru sender (token_bucket_new rate now) c"] by (simp_all add: g' push_adds)
  define c'' where "c'' = (case f of Some _ \<Rightarrow> c | None \<Rightarrow> c')"
  have found: "contents c'' sender = Some b"
    by (cases f) (simp_all add: c''_def b_def c c' push_adds flip: f)
  have kept: "contents (as_buckets a) k = Some v" if "contents c'' k = Some v" "k \<noteq> sender" for k v
    using that push_keeps [of sender "token_bucket_new rate now" c k v]
    by (cases f) (simp_all add: c''_def c c')
  obtain ok b' where u: "use_bucket rate now b = (ok, b')" by fastforce
  have "check_rate lru sender score now a =
      Some (if ok then Inr () else Inl (RateLimited score rate), a\<lparr>as_buckets := bk_set lru sender b' c''\<rparr>)"
    using u by (cases f) (simp_all add: check_rate_def Let_def g g' f' c''_def b_def use_bucket_def flip: f rate_def)
  moreover have "contents (bk_set lru sender b' c'') = (contents c'')(sender \<mapsto> b')"
    using found by (intro set_sets) simp
  ultimately show thesis
    using kept by (intro that [of "a\<lparr>as_buckets := bk_set lru sender b' c''\<rparr>"]) (simp_all add: u)
qed

lemma limiter_step_ok:
  assumes "limiter_ok contents calls a"
  shows "limiter_ok contents (calls @ [(sender, score, now)]) (limiter_step lru (sender, score, now) a)"
proof -
  let ?rate = "compute_rate (as_config a) score"
  let ?b = "case contents (as_buckets a) sender of Some b \<Rightarrow> b | None \<Rightarrow> token_bucket_new ?rate now"
  have rate: "10 \<le> ?rate" using assms rate_floor by (simp add: limiter_ok_def)
  have b: "bucket_ok ?b"
    using assms bucket_new_ok [OF rate] by (simp add: limiter_ok_def split: option.split)
  obtain a' where c: "check_rate lru sender score now a =
      Some (if fst (use_bucket ?rate now ?b) then Inr () else Inl (RateLimited score ?rate), a')"
    and conf: "as_config a' = as_config a"
    and new: "contents (as_buckets a') sender = Some (snd (use_bucket ?rate now ?b))"
    and old: "\<And>k v. contents (as_buckets a') k = Some v \<Longrightarrow> k \<noteq> sender \<Longrightarrow> contents (as_buckets a) k = Some v"
    by (rule check_rate_bucket [of sender score now a]) blast
  have "bucket_ok v \<and> (\<exists>sc. (k, sc, tb_last_refill v) \<in> set (calls @ [(sender, score, now)]))"
    if "contents (as_buckets a') k = Some v" for k v
  proof (cases "k = sender")
    case True
    with that new use_bucket_ok [OF b rate, of now] show ?thesis by auto
  next
    case False
    with old [OF that] assms show ?thesis by (auto simp: limiter_ok_def)
  qed
  with conf assms show ?thesis by (simp add: limiter_step_def c limiter_ok_def)
qed

lemma limiter_run_ok: "limiter_ok contents [] a \<Longrightarrow> limiter_ok contents calls (fold (limiter_step lru) calls a)"
  by (induction calls rule: rev_induct) (auto dest: limiter_step_ok)

lemma quiet_sender_admitted:
  assumes "limiter_ok contents calls a" and "\<forall>(s, _, t) \<in> set calls. s = sender \<longrightarrow> unat t + 100 \<le> unat now"
  shows "\<exists>a'. check_rate lru sender score now a = Some (Inr (), a')"
proof -
  let ?rate = "compute_rate (as_config a) score"
  let ?b = "case contents (as_buckets a) sender of Some b \<Rightarrow> b | None \<Rightarrow> token_bucket_new ?rate now"
  have rate: "10 \<le> ?rate" using assms rate_floor by (simp add: limiter_ok_def)
  have b: "bucket_ok ?b"
    using assms bucket_new_ok [OF rate] by (simp add: limiter_ok_def split: option.split)
  have "1 \<le> tb_tokens (refill now ?b)"
  proof (cases "contents (as_buckets a) sender")
    case None
    then show ?thesis using refill_ok(2) bucket_new_ok [OF rate] by simp
  next
    case (Some v)
    with assms have "unat (tb_last_refill v) + 100 \<le> unat now" by (fastforce simp: limiter_ok_def)
    with Some b show ?thesis by (simp add: quiet_refill)
  qed
  with use_bucket_admits [OF b rate] have "fst (use_bucket ?rate now ?b)" .
  then show ?thesis using check_rate_bucket [of sender score now a] by (metis (full_types))
qed

end

text \<open>
  C40. The rate limiter never fails and never locks anyone out: over any sequence of checks, a
  check always returns, and a message of a sender whose earlier checks are all at least a
  tenth of a second old is admitted, however low its score and however many messages it
  sent before.
\<close>

theorem quiet_senders_admitted:
  assumes "lru_cache lru contents" and "anti_spam_new lru anti_spam_config_default = Some a"
  shows "check_rate lru sender score now (fold (limiter_step lru) calls a) \<noteq> None \<and>
    ((\<forall>(s, _, t) \<in> set calls. s = sender \<longrightarrow> unat t + 100 \<le> unat now) \<longrightarrow>
     (\<exists>a'. check_rate lru sender score now (fold (limiter_step lru) calls a) = Some (Inr (), a')))"
proof -
  have "limiter_ok contents [] a"
    using assms(2) lru_cache.new_empty [OF assms(1)]
    by (auto simp: anti_spam_new_def limiter_ok_def split: if_splits)
  from lru_cache.limiter_run_ok [OF assms(1) this]
  have ok: "limiter_ok contents calls (fold (limiter_step lru) calls a)" .
  have "check_rate lru sender score now (fold (limiter_step lru) calls a) \<noteq> None"
    by (rule lru_cache.check_rate_bucket [OF assms(1), of sender score now]) blast
  with lru_cache.quiet_sender_admitted [OF assms(1) ok] show ?thesis by blast
qed

text \<open>A cache of the most recently used entries, first the one used last.\<close>

definition list_lru :: "(nat \<times> (node_id, token_bucket) hmap) lru_api" where
  "list_lru =
     \<lparr>bk_new = (\<lambda>n. (n, [])),
      bk_get_mut = (\<lambda>k (n, es). case hm_get es k of
         None \<Rightarrow> (None, (n, es)) | Some b \<Rightarrow> (Some b, (n, (k, b) # hm_remove k es))),
      bk_set = (\<lambda>k b (n, es). (n, hm_insert k b es)),
      bk_push = (\<lambda>k b (n, es). (n, (k, b) # take (n - 1) (hm_remove k es)))\<rparr>"

definition lru_contents :: "nat \<times> (node_id, token_bucket) hmap \<Rightarrow> node_id \<rightharpoonup> token_bucket" where
  "lru_contents c = map_of (snd c)"

lemma map_of_take_prefix: "map_of (take n es) k = Some v \<Longrightarrow> map_of es k = Some v"
  by (metis append_take_drop_id map_add_Some_iff map_of_append map_add_dom_app_simps(1) domI)

interpretation recent_senders: lru_cache list_lru lru_contents
proof unfold_locales
  fix k k' :: node_id and b b' :: token_bucket and c :: "nat \<times> (node_id, token_bucket) hmap" and n
  obtain m es where c: "c = (m, es)" by fastforce
  show "lru_contents (bk_new list_lru n) k = None" by (simp add: list_lru_def lru_contents_def)
  show "fst (bk_get_mut list_lru k c) = lru_contents c k"
    by (simp add: list_lru_def lru_contents_def c split: option.split)
  show "lru_contents (snd (bk_get_mut list_lru k c)) = lru_contents c"
    by (auto simp: list_lru_def lru_contents_def c delete_conv fun_eq_iff split: option.split)
  show "lru_contents (bk_set list_lru k b c) = (lru_contents c)(k \<mapsto> b)"
    by (simp add: list_lru_def lru_contents_def c update_conv')
  show "lru_contents (bk_push list_lru k b c) k = Some b"
    by (simp add: list_lru_def lru_contents_def c)
  show "lru_contents c k' = Some b'" if "lru_contents (bk_push list_lru k b c) k' = Some b'" "k' \<noteq> k"
    using that map_of_take_prefix [of "m - 1" "AList.delete k es" k' b']
    by (simp add: list_lru_def lru_contents_def c delete_conv)
qed

theorem quiet_senders_admitted_witness:
  "\<exists>a a'. anti_spam_new list_lru anti_spam_config_default = Some a \<and>
     check_rate list_lru (NodeId 1) 0 1100 (fold (limiter_step list_lru) (replicate 50 (NodeId 1, 0, 1000)) a) = Some (Inr (), a')"
proof -
  obtain a where a: "anti_spam_new list_lru anti_spam_config_default = Some a"
    by (simp add: anti_spam_new_def anti_spam_config_default_def)
  have "\<forall>(s, _, t) \<in> set (replicate 50 (NodeId 1, 0 :: real, 1000 :: u64)). s = NodeId 1 \<longrightarrow> unat t + 100 \<le> unat (1100 :: u64)"
    by simp
  with quiet_senders_admitted [OF recent_senders.lru_cache_axioms a] a show ?thesis by blast
qed

subsection \<open>Bursts\<close>

primrec consume_many :: "nat \<Rightarrow> u64 \<Rightarrow> token_bucket \<Rightarrow> nat" where
  "consume_many 0 now b = 0"
| "consume_many (Suc n) now b =
     (let (ok, b') = try_consume now b in (if ok then 1 else 0) + consume_many n now b')"

lemma refill_at_once:
  assumes "is_f64 (tb_tokens b)" and "tb_tokens b \<le> tb_capacity b" and "tb_last_refill b = now"
  shows "refill now b = b"
  using assms by (simp add: refill_def saturating_sub_def f64_defs is_f64_def)

text \<open>Of the attempts made at one instant, exactly as many succeed as the bucket holds whole tokens.\<close>

lemma burst_exact:
  assumes "is_f64 (tb_tokens b)" and "0 \<le> tb_tokens b" and "tb_tokens b \<le> tb_capacity b" and "tb_capacity b \<le> 2 ^ 53"
    and "tb_last_refill b = now"
  shows "consume_many n now b = min n (nat \<lfloor>tb_tokens b\<rfloor>)"
  using assms
proof (induction n arbitrary: b)
  case 0
  then show ?case by simp
next
  case (Suc n)
  have r: "refill now b = b" using Suc.prems by (intro refill_at_once)
  show ?case
  proof (cases "1 \<le> tb_tokens b")
    case True
    let ?b = "b\<lparr>tb_tokens := tb_tokens b - 1\<rparr>"
    have sub: "f64_sub (tb_tokens b) 1 = tb_tokens b - 1" using Suc.prems True by (intro f64_sub_one) auto
    have "is_f64 (tb_tokens b - 1)"
      using f64_round_is_f64 [of "tb_tokens b - 1"] sub True by (simp add: f64_sub_def)
    then have "consume_many n now ?b = min n (nat \<lfloor>tb_tokens ?b\<rfloor>)"
      using Suc.prems True by (intro Suc.IH) auto
    moreover have "nat \<lfloor>tb_tokens b\<rfloor> = Suc (nat \<lfloor>tb_tokens b - 1\<rfloor>)" using True by linarith
    ultimately show ?thesis using True by (simp add: try_consume_def r sub Let_def)
  next
    case False
    then have "nat \<lfloor>tb_tokens b\<rfloor> = 0" by linarith
    with False Suc.IH [OF Suc.prems] show ?thesis by (simp add: try_consume_def r Let_def)
  qed
qed

end
