(* ===== verification/Tom_Countable.thy ===== *)
theory Tom_Countable
  imports Tom_Roles Tom_GroupTypes Tom_Router Tom_Backup Tom_Discovery "HOL-Library.Countable"
begin

section \<open>Serialisers exist\<close>

text \<open>
  The serialisers of the program are parameters with a law: what was written is read back. The
  types that travel are countable, so each has a concrete serialiser that obeys the law: it
  writes the number of the value as that many bytes or characters. The witnesses of the
  properties about whole nodes use these serialisers.
\<close>

subsection \<open>Countable types\<close>

instance word :: (len) countable
  by (rule countable_classI [of unat]) (simp add: unsigned_word_eqI)

instance node_id :: countable by countable_datatype
instance group_id :: countable by countable_datatype
instance group_member_role :: countable by countable_datatype
instance leave_reason :: countable by countable_datatype
instance message_type :: countable by countable_datatype
instance ack_type :: countable by countable_datatype
instance peer_role :: countable by countable_datatype

instance group_member_ext :: (countable) countable
  by (rule countable_classI [of "\<lambda>r. to_nat (gm_node_id r, gm_username r, gm_joined_at r, gm_role r, group_member.more r)"])
    (auto intro: group_member.equality)

instance group_info_ext :: (countable) countable
  by (rule countable_classI [of "\<lambda>r. to_nat ((gi_group_id r, gi_name r, gi_hub_relay_id r, gi_backup_hub_id r, gi_members r,
        gi_created_by r), (gi_created_at r, gi_last_activity_at r, gi_max_members r, gi_shadow_id r, gi_candidate_id r,
        gi_invite_only r, group_info.more r))"])
    (auto intro: group_info.equality)

instance group_message_ext :: (countable) countable
  by (rule countable_classI [of "\<lambda>r. to_nat ((msg_group_id r, msg_message_id r, msg_sender_id r, msg_sender_username r,
        msg_text r, msg_ciphertext r), (msg_nonce r, msg_key_epoch r, msg_encrypted r, msg_sent_at r,
        msg_sender_signature r, msg_seq r, group_message.more r))"])
    (auto intro: group_message.equality)

instance group_message_content_ext :: (countable) countable
  by (rule countable_classI [of "\<lambda>r. to_nat (gmc_username r, gmc_text r, group_message_content.more r)"])
    (auto intro: group_message_content.equality)

instance encrypted_payload_ext :: (countable) countable
  by (rule countable_classI [of "\<lambda>r. to_nat (enc_ciphertext r, enc_nonce r, enc_ephemeral_pk r, encrypted_payload.more r)"])
    (auto intro: encrypted_payload.equality)

instance encrypted_sender_key_ext :: (countable) countable
  by (rule countable_classI [of "\<lambda>r. to_nat (esk_recipient_id r, esk_encrypted_key r, encrypted_sender_key.more r)"])
    (auto intro: encrypted_sender_key.equality)

instance sender_key_entry_ext :: (countable) countable
  by (rule countable_classI [of "\<lambda>r. to_nat (ske_owner_id r, ske_key r, ske_epoch r, ske_created_at r, sender_key_entry.more r)"])
    (auto intro: sender_key_entry.equality)

instance group_payload :: countable by countable_datatype

instance envelope_ext :: (countable) countable
  by (rule countable_classI [of "\<lambda>r. to_nat ((env_id r, env_from r, env_to r, env_via r, env_msg_type r),
        (env_payload r, env_timestamp r, env_signature r, env_ttl r, env_encrypted r, envelope.more r))"])
    (auto intro: envelope.equality)

instance signable_envelope_ext :: (countable) countable
  by (rule countable_classI [of "\<lambda>r. to_nat ((sig_id r, sig_from r, sig_to r, sig_via r, sig_msg_type r),
        (sig_payload r, sig_timestamp r, sig_encrypted r, signable_envelope.more r))"])
    (auto intro: signable_envelope.equality)

instance ack_payload_ext :: (countable) countable
  by (rule countable_classI [of "\<lambda>r. to_nat (ack_original_message_id r, ack_ack_type r, ack_payload.more r)"])
    (auto intro: ack_payload.equality)

instance read_receipt_payload_ext :: (countable) countable
  by (rule countable_classI [of "\<lambda>r. to_nat (rr_original_message_id r, rr_read_at r, read_receipt_payload.more r)"])
    (auto intro: read_receipt_payload.equality)

instance contribution_metrics_ext :: (countable) countable
  by (rule countable_classI [of "\<lambda>r. to_nat ((cm_messages_relayed r, cm_relay_failures r, cm_first_seen r, cm_last_activity r),
        (cm_total_uptime_ms r, cm_bytes_relayed r, cm_bytes_received r, contribution_metrics.more r))"])
    (auto intro: contribution_metrics.equality)

instance replication_payload_ext :: (countable) countable
  by (rule countable_classI [of "\<lambda>r. to_nat ((rp_message_id r, rp_payload r, rp_recipient_id r, rp_sender_id r),
        (rp_expires_at r, rp_viability_score r, rp_replicated_to r, replication_payload.more r))"])
    (auto intro: replication_payload.equality)

subsection \<open>Concrete serialisers\<close>

definition counting_pack :: "'a::countable pack" where
  "counting_pack = \<lparr>pack_vec = (\<lambda>x. replicate (to_nat x) 0), unpack_slice = (\<lambda>b. Inr (from_nat (length b)))\<rparr>"

definition counting_codec :: "'a::countable codec" where
  "counting_codec = \<lparr>to_vec = (\<lambda>x. Inr (replicate (to_nat x) 0)), from_slice = (\<lambda>b. Inr (from_nat (length b)))\<rparr>"

lemma counting_pack_ok [simp]: "pack_ok counting_pack"
  by (simp add: pack_ok_def counting_pack_def)

lemma counting_codec_ok [simp]: "codec_ok counting_codec"
  by (auto simp: codec_ok_def counting_codec_def)

lemma counting_codec_writes [simp]: "\<exists>b. to_vec counting_codec x = Inr b"
  by (simp add: counting_codec_def)

end
