(* ===== verification/Tom_Storage.thy ===== *)
theory Tom_Storage
  imports Tom_GroupHub Tom_GroupManager Tom_Tracker Tom_Countable
begin

section \<open>Persistent state\<close>

text \<open>
  Models \<^verbatim>\<open>tom-protocol/src/storage/mod.rs\<close>: the tables of the state database and the saving and
  loading of a snapshot. A table is the list of its rows, its primary key (from
  \<^verbatim>\<open>storage/schema.rs\<close>) a function on rows; an insertion that would repeat a key fails, and with it
  the transaction. An integer column holds 64 bits, which the code reads back as a signed number
  where it compares with zero. The JSON serialiser and the parser of a node's printed name are
  parameters; failures of the disk are not modelled.

  The lemmas show what a snapshot looks like after it was saved and loaded, and which rows of the
  message history a look-up and a cleanup touch.
\<close>

subsection \<open>The database\<close>

record 'a text_codec =
  to_text :: "'a \<Rightarrow> string option"
  from_text :: "string \<Rightarrow> 'a option"

record json_api =
  js_group :: "group_info text_codec"
  js_key :: "sender_key_entry text_codec"
  js_names :: "string list text_codec"
  js_metrics :: "contribution_metrics text_codec"
  parse_node :: "string \<Rightarrow> node_id option"

record state_db =
  db_groups :: "(string \<times> string \<times> u64) list"
  db_sender_keys :: "(string \<times> string \<times> string) list"
  db_hub_groups :: "(string \<times> string \<times> string \<times> u64) list"
  db_peers :: "(string \<times> string \<times> string \<times> u64) list"
  db_metrics :: "(string \<times> string) list"
  db_tracked :: "(string \<times> string \<times> int \<times> u64 \<times> int) list"
  db_history :: "(string \<times> u64 \<times> bytes \<times> u64) list"

definition state_db_empty :: state_db where
  "state_db_empty =
     \<lparr>db_groups = [], db_sender_keys = [], db_hub_groups = [], db_peers = [], db_metrics = [],
      db_tracked = [], db_history = []\<rparr>"

record state_snapshot =
  sn_manager :: "group_manager_snapshot option"
  sn_hub :: "group_hub_snapshot option"
  sn_peers :: "(node_id, peer_info) hmap"
  sn_metrics :: "(node_id, contribution_metrics) hmap"
  sn_tracked :: "(string, tracked_message_record) hmap"

text \<open>\<open>INSERT\<close> row by row, starting from the rows already there.\<close>

fun sql_insert_all :: "('r \<Rightarrow> 'k) \<Rightarrow> 'r list \<Rightarrow> 'r list \<Rightarrow> 'r list option" where
  "sql_insert_all key [] tbl = Some tbl"
| "sql_insert_all key (row # rows) tbl =
     (if key row \<in> key ` set tbl then None else sql_insert_all key rows (tbl @ [row]))"

definition text_or_empty :: "'a text_codec \<Rightarrow> 'a \<Rightarrow> string" where
  "text_or_empty c x = (case to_text c x of None \<Rightarrow> [] | Some s \<Rightarrow> s)"

subsection \<open>Saving\<close>

definition save_groups :: "json_api \<Rightarrow> (group_id, group_info) hmap \<Rightarrow> (group_id, u64) hmap \<Rightarrow> state_db \<Rightarrow> state_db option" where
  "save_groups js groups last_seqs db =
     map_option (\<lambda>t. db\<lparr>db_groups := t\<rparr>)
       (sql_insert_all fst
          (map (\<lambda>(gid, info). (gid_string gid, text_or_empty (js_group js) info, hm_or last_seqs gid 0)) groups) [])"

definition save_sender_keys ::
  "json_api \<Rightarrow> (group_id, sender_key_entry) hmap \<Rightarrow> (group_id, (node_id, sender_key_entry) hmap) hmap
     \<Rightarrow> state_db \<Rightarrow> state_db option" where
  "save_sender_keys js local_keys remote_keys db =
     map_option (\<lambda>t. db\<lparr>db_sender_keys := t\<rparr>)
       (sql_insert_all (\<lambda>(gid, owner, _). (gid, owner))
          (map (\<lambda>(gid, entry). (gid_string gid, ''LOCAL'', text_or_empty (js_key js) entry)) local_keys @
           concat (map (\<lambda>(gid, keys).
             map (\<lambda>(n, entry). (gid_string gid, node_to_string n, text_or_empty (js_key js) entry)) keys) remote_keys)) [])"

definition save_hub_groups :: "json_api \<Rightarrow> group_hub_snapshot \<Rightarrow> state_db \<Rightarrow> state_db option" where
  "save_hub_groups js hub db =
     map_option (\<lambda>t. db\<lparr>db_hub_groups := t\<rparr>)
       (sql_insert_all fst
          (map (\<lambda>(gid, info).
             (gid_string gid, text_or_empty (js_group js) info,
              text_or_empty (js_names js) (map node_to_string (hm_or (ghs_invited_sets hub) gid [])),
              hm_or (ghs_next_seqs hub) gid 0)) (ghs_groups hub)) [])"

fun role_text :: "peer_role \<Rightarrow> string" where
  "role_text Peer = ''Peer''"
| "role_text Relay = ''Relay''"

fun status_text :: "peer_status \<Rightarrow> string" where
  "status_text Online = ''Online''"
| "status_text Offline = ''Offline''"
| "status_text Stale = ''Stale''"

definition save_peers :: "(node_id, peer_info) hmap \<Rightarrow> state_db \<Rightarrow> state_db option" where
  "save_peers peers db =
     map_option (\<lambda>t. db\<lparr>db_peers := t\<rparr>)
       (sql_insert_all fst
          (map (\<lambda>(n, p). (node_to_string n, role_text (pi_role p), status_text (pi_status p), pi_last_seen p)) peers) [])"

definition save_metrics :: "json_api \<Rightarrow> (node_id, contribution_metrics) hmap \<Rightarrow> state_db \<Rightarrow> state_db option" where
  "save_metrics js metrics db =
     map_option (\<lambda>t. db\<lparr>db_metrics := t\<rparr>)
       (sql_insert_all fst (map (\<lambda>(n, m). (node_to_string n, text_or_empty (js_metrics js) m)) metrics) [])"

definition save_tracked_messages :: "(string, tracked_message_record) hmap \<Rightarrow> state_db \<Rightarrow> state_db option" where
  "save_tracked_messages messages db =
     map_option (\<lambda>t. db\<lparr>db_tracked := t\<rparr>)
       (sql_insert_all fst
          (map (\<lambda>(mid, r). (mid, node_to_string (tmr_to r), int (status_code (tmr_status r)), tmr_created_ms r,
                            uint (tmr_retries_remaining r))) messages) [])"

text \<open>One transaction: \<open>None\<close> leaves the database as it was.\<close>

definition save_state_db :: "json_api \<Rightarrow> state_snapshot \<Rightarrow> state_db \<Rightarrow> state_db option" where
  "save_state_db js s db =
     Option.bind
       (case sn_manager s of
          None \<Rightarrow> Some db
        | Some mgr \<Rightarrow>
            Option.bind (save_groups js (gms_groups mgr) (gms_last_seqs mgr) db)
              (save_sender_keys js (gms_local_sender_keys mgr) (gms_sender_keys mgr)))
       (\<lambda>db. Option.bind (case sn_hub s of None \<Rightarrow> Some db | Some hub \<Rightarrow> save_hub_groups js hub db)
       (\<lambda>db. Option.bind (save_peers (sn_peers s) db)
       (\<lambda>db. Option.bind (save_metrics js (sn_metrics s) db)
       (\<lambda>db. save_tracked_messages (sn_tracked s) db))))"

subsection \<open>Loading\<close>

definition load_groups :: "json_api \<Rightarrow> state_db \<Rightarrow> (group_id, group_info) hmap \<times> (group_id, u64) hmap" where
  "load_groups js db =
     fold (\<lambda>(gid, json, last_seq) (groups, last_seqs).
         (case from_text (js_group js) json of None \<Rightarrow> groups | Some info \<Rightarrow> hm_insert (GroupId gid) info groups,
          if 0 < sint last_seq then hm_insert (GroupId gid) last_seq last_seqs else last_seqs))
       (db_groups db) ([], [])"

definition load_sender_keys ::
  "json_api \<Rightarrow> state_db \<Rightarrow> (group_id, sender_key_entry) hmap \<times> (group_id, (node_id, sender_key_entry) hmap) hmap" where
  "load_sender_keys js db =
     fold (\<lambda>(gid, owner, json) (locals, remotes).
         case from_text (js_key js) json of
           None \<Rightarrow> (locals, remotes)
         | Some entry \<Rightarrow>
             if owner = ''LOCAL'' then (hm_insert (GroupId gid) entry locals, remotes)
             else (case parse_node js owner of
                     None \<Rightarrow> (locals, remotes)
                   | Some n \<Rightarrow>
                       (locals, hm_insert (GroupId gid) (hm_insert n entry (hm_or remotes (GroupId gid) [])) remotes)))
       (db_sender_keys db) ([], [])"

definition load_hub_groups ::
  "json_api \<Rightarrow> state_db \<Rightarrow> (group_id, group_info) hmap \<times> (group_id, node_id hset) hmap \<times> (group_id, u64) hmap" where
  "load_hub_groups js db =
     fold (\<lambda>(gid, json, invited_json, next_seq) (groups, invited_sets, next_seqs).
         (case from_text (js_group js) json of None \<Rightarrow> groups | Some info \<Rightarrow> hm_insert (GroupId gid) info groups,
          case from_text (js_names js) invited_json of
            None \<Rightarrow> invited_sets
          | Some names \<Rightarrow>
              let s = fold hs_insert (List.map_filter (parse_node js) names) []
              in if s \<noteq> [] then hm_insert (GroupId gid) s invited_sets else invited_sets,
          if 0 < sint next_seq then hm_insert (GroupId gid) next_seq next_seqs else next_seqs))
       (db_hub_groups db) ([], [], [])"

definition load_peers :: "json_api \<Rightarrow> state_db \<Rightarrow> (node_id, peer_info) hmap" where
  "load_peers js db =
     fold (\<lambda>(name, role, status, last_seen) peers.
         case parse_node js name of
           None \<Rightarrow> peers
         | Some n \<Rightarrow>
             hm_insert n
               \<lparr>pi_node_id = n, pi_role = (if role = ''Relay'' then Relay else Peer),
                pi_status = (if status = ''Online'' then Online else if status = ''Stale'' then Stale else Offline),
                pi_last_seen = last_seen\<rparr> peers)
       (db_peers db) []"

definition load_metrics :: "json_api \<Rightarrow> state_db \<Rightarrow> (node_id, contribution_metrics) hmap" where
  "load_metrics js db =
     fold (\<lambda>(name, json) metrics.
         case parse_node js name of
           None \<Rightarrow> metrics
         | Some n \<Rightarrow>
             (case from_text (js_metrics js) json of None \<Rightarrow> metrics | Some m \<Rightarrow> hm_insert n m metrics))
       (db_metrics db) []"

definition status_of_int :: "int \<Rightarrow> message_status" where
  "status_of_int i =
     (if i = 0 then Pending else if i = 1 then Sent else if i = 2 then Relayed else if i = 3 then Delivered
      else if i = 4 then Read else if i = 5 then Failed else Pending)"

definition load_tracked_messages :: "json_api \<Rightarrow> state_db \<Rightarrow> (string, tracked_message_record) hmap" where
  "load_tracked_messages js db =
     fold (\<lambda>(mid, to, status, created_ms, retries) messages.
         case parse_node js to of
           None \<Rightarrow> messages
         | Some n \<Rightarrow>
             hm_insert mid
               \<lparr>tmr_to = n, tmr_status = status_of_int status, tmr_created_ms = created_ms,
                tmr_retries_remaining = of_int retries\<rparr> messages)
       (db_tracked db) []"

definition load_state_db :: "json_api \<Rightarrow> state_db \<Rightarrow> state_snapshot" where
  "load_state_db js db =
     (let (groups, member_last_seqs) = load_groups js db;
          (local_keys, remote_keys) = load_sender_keys js db;
          (hub_groups, hub_invited_sets, hub_next_seqs) = load_hub_groups js db
      in \<lparr>sn_manager =
            (if groups \<noteq> [] \<or> local_keys \<noteq> []
             then Some \<lparr>gms_groups = groups, gms_local_sender_keys = local_keys, gms_sender_keys = remote_keys,
                        gms_previous_sender_keys = [], gms_local_sender_message_counts = [],
                        gms_message_history = [], gms_last_seqs = member_last_seqs\<rparr>
             else None),
          sn_hub =
            (if hub_groups \<noteq> []
             then Some \<lparr>ghs_groups = hub_groups, ghs_invited_sets = hub_invited_sets, ghs_next_seqs = hub_next_seqs\<rparr>
             else None),
          sn_peers = load_peers js db, sn_metrics = load_metrics js db, sn_tracked = load_tracked_messages js db\<rparr>)"

subsection \<open>The message history of the hub\<close>

definition save_hub_message :: "group_id \<Rightarrow> u64 \<Rightarrow> bytes \<Rightarrow> u64 \<Rightarrow> state_db \<Rightarrow> state_db" where
  "save_hub_message gid s data stored_at db =
     db\<lparr>db_history :=
         filter (\<lambda>(g, q, _, _). \<not> (g = gid_string gid \<and> q = s)) (db_history db) @ [(gid_string gid, s, data, stored_at)]\<rparr>"

definition load_hub_messages_since :: "group_id \<Rightarrow> u64 \<Rightarrow> nat \<Rightarrow> state_db \<Rightarrow> (u64 \<times> bytes) list" where
  "load_hub_messages_since gid since max_count db =
     take max_count
       (map (\<lambda>(_, s, data, _). (s, data))
         (sort_key (\<lambda>(_, s, _, _). sint s)
           (filter (\<lambda>(g, s, _, _). g = gid_string gid \<and> sint since < sint s) (db_history db))))"

definition cleanup_hub_messages :: "u64 \<Rightarrow> state_db \<Rightarrow> nat \<times> state_db" where
  "cleanup_hub_messages cutoff_ms db =
     (let kept = filter (\<lambda>(_, _, _, stored_at). \<not> sint stored_at < sint cutoff_ms) (db_history db)
      in (length (db_history db) - length kept, db\<lparr>db_history := kept\<rparr>))"

subsection \<open>Folding rows into maps\<close>

lemma insert_all_distinct:
  "distinct (map key (tbl @ rows)) \<Longrightarrow> sql_insert_all key rows tbl = Some (tbl @ rows)"
proof (induction rows arbitrary: tbl)
  case Nil
  then show ?case by simp
next
  case (Cons row rows)
  have "key row \<notin> key ` set tbl" using Cons.prems by auto
  with Cons.IH [of "tbl @ [row]"] Cons.prems show ?case by simp
qed

lemma insert_all_fresh: "distinct (map key rows) \<Longrightarrow> sql_insert_all key rows [] = Some rows"
  using insert_all_distinct [of key "[]" rows] by simp

lemma fold_pair: "fold (\<lambda>x p. (f x (fst p), g x (snd p))) xs (a, b) = (fold f xs a, fold g xs b)"
  by (induction xs arbitrary: a b) auto

lemma fold_triple:
  "fold (\<lambda>x p. (f x (fst p), g x (fst (snd p)), h x (snd (snd p)))) xs (a, b, c) =
     (fold f xs a, fold g xs b, fold h xs c)"
  by (induction xs arbitrary: a b c) auto

lemma update_fresh: "k \<notin> fst ` set m \<Longrightarrow> AList.update k v m = m @ [(k, v)]"
  by (induction m) auto

text \<open>Rows with distinct keys are inserted in their order; some may be skipped.\<close>

lemma fold_insert_if:
  assumes "distinct (hm_keys m @ hm_keys xs)"
  shows "fold (\<lambda>(k, v) m. if P k v then hm_insert k (h k v) m else m) xs m =
    m @ map (\<lambda>(k, v). (k, h k v)) (filter (\<lambda>(k, v). P k v) xs)"
  using assms
proof (induction xs arbitrary: m)
  case Nil
  then show ?case by simp
next
  case (Cons kv xs)
  obtain k v where kv: "kv = (k, v)" by fastforce
  have fresh: "k \<notin> fst ` set m" and d: "distinct (hm_keys m @ hm_keys xs)" "distinct (hm_keys (m @ [(k, h k v)]) @ hm_keys xs)"
    using Cons.prems by (auto simp: kv)
  show ?case
    using Cons.IH [OF d(1)] Cons.IH [OF d(2)] by (simp add: kv update_fresh [OF fresh])
qed

lemma fold_insert_all:
  assumes "hm_wf xs"
  shows "fold (\<lambda>(k, v). hm_insert k (h k v)) xs [] = map (\<lambda>(k, v). (k, h k v)) xs"
  using fold_insert_if [of "[]" xs "\<lambda>_ _. True" h] assms by (simp add: case_prod_unfold)

lemma fold_map_rows: "fold f (map g xs) m = fold (\<lambda>x. f (g x)) xs m"
  by (simp add: fold_map comp_def)

subsection \<open>What survives a restart\<close>

definition text_ok :: "'a text_codec \<Rightarrow> bool" where
  "text_ok c \<longleftrightarrow> (\<forall>x. \<exists>t. to_text c x = Some t \<and> from_text c t = Some x)"

definition json_ok :: "json_api \<Rightarrow> bool" where
  "json_ok js \<longleftrightarrow> text_ok (js_group js) \<and> text_ok (js_key js) \<and> text_ok (js_names js) \<and> text_ok (js_metrics js) \<and>
     (\<forall>n. parse_node js (node_to_string n) = Some n)"

lemma text_roundtrip [simp]: "text_ok c \<Longrightarrow> from_text c (text_or_empty c x) = Some x"
  unfolding text_ok_def text_or_empty_def by (metis option.simps(5))

definition snapshot_wf :: "state_snapshot \<Rightarrow> bool" where
  "snapshot_wf s \<longleftrightarrow>
     (case sn_manager s of None \<Rightarrow> True | Some m \<Rightarrow>
        hm_wf (gms_groups m) \<and> hm_wf (gms_local_sender_keys m) \<and> hm_wf (gms_sender_keys m) \<and>
        (\<forall>(_, ks) \<in> set (gms_sender_keys m). hm_wf ks)) \<and>
     (case sn_hub s of None \<Rightarrow> True | Some h \<Rightarrow>
        hm_wf (ghs_groups h) \<and> (\<forall>(_, ns) \<in> set (ghs_invited_sets h). distinct ns)) \<and>
     hm_wf (sn_peers s) \<and> (\<forall>(n, p) \<in> set (sn_peers s). pi_node_id p = n) \<and>
     hm_wf (sn_metrics s) \<and> hm_wf (sn_tracked s)"

text \<open>
  The snapshot after a restart. Groups, sender keys, peers, metrics and tracked messages are
  complete; positive sequence numbers and non-empty invitation sets are kept for existing
  groups; previous sender keys, message counts and message histories are gone.
\<close>

definition positive_seqs :: "(group_id, group_info) hmap \<Rightarrow> (group_id, u64) hmap \<Rightarrow> (group_id, u64) hmap" where
  "positive_seqs groups seqs =
     map (\<lambda>(gid, _). (gid, hm_or seqs gid 0)) (filter (\<lambda>(gid, _). 0 < sint (hm_or seqs gid 0)) groups)"

definition surviving_manager :: "group_manager_snapshot \<Rightarrow> group_manager_snapshot option" where
  "surviving_manager m =
     (if gms_groups m = [] \<and> gms_local_sender_keys m = [] then None
      else Some \<lparr>gms_groups = gms_groups m, gms_local_sender_keys = gms_local_sender_keys m,
                 gms_sender_keys = filter (\<lambda>(_, ks). ks \<noteq> []) (gms_sender_keys m),
                 gms_previous_sender_keys = [], gms_local_sender_message_counts = [], gms_message_history = [],
                 gms_last_seqs = positive_seqs (gms_groups m) (gms_last_seqs m)\<rparr>)"

definition surviving_hub :: "group_hub_snapshot \<Rightarrow> group_hub_snapshot option" where
  "surviving_hub h =
     (if ghs_groups h = [] then None
      else Some \<lparr>ghs_groups = ghs_groups h,
                 ghs_invited_sets =
                   map (\<lambda>(gid, _). (gid, hm_or (ghs_invited_sets h) gid []))
                     (filter (\<lambda>(gid, _). hm_or (ghs_invited_sets h) gid [] \<noteq> []) (ghs_groups h)),
                 ghs_next_seqs = positive_seqs (ghs_groups h) (ghs_next_seqs h)\<rparr>)"

lemma gid_string_inject [simp]: "gid_string a = gid_string b \<longleftrightarrow> a = b"
  by (cases a; cases b) simp

lemma distinct_keys_map:
  assumes "hm_wf xs" and "inj f"
  shows "distinct (map fst (map (\<lambda>(k, v). (f k, h k v)) xs))"
  using assms by (auto simp: distinct_map comp_def split_beta inj_on_def inj_def)

lemma inj_names: "inj node_to_string" "inj gid_string"
  by (simp_all add: inj_def)

lemma groups_roundtrip:
  assumes "text_ok (js_group js)" and "hm_wf groups"
  shows "\<exists>db'. save_groups js groups seqs db = Some db' \<and> load_groups js db' = (groups, positive_seqs groups seqs) \<and>
    db' = db\<lparr>db_groups := db_groups db'\<rparr>"
proof -
  let ?rows = "map (\<lambda>(gid, info). (gid_string gid, text_or_empty (js_group js) info, hm_or seqs gid 0)) groups"
  have "distinct (map fst ?rows)"
    using distinct_keys_map [OF assms(2) inj_names(2)] by simp
  then have save: "save_groups js groups seqs db = Some (db\<lparr>db_groups := ?rows\<rparr>)"
    by (simp add: save_groups_def insert_all_fresh)
  have "load_groups js (db\<lparr>db_groups := ?rows\<rparr>) =
      (fold (\<lambda>(gid, info). hm_insert gid info) groups [],
       fold (\<lambda>(gid, _) m. if 0 < sint (hm_or seqs gid 0) then hm_insert gid (hm_or seqs gid 0) m else m) groups [])"
    using assms(1) fold_pair [of "\<lambda>(gid, info). hm_insert gid info"
        "\<lambda>(gid, _) m. if 0 < sint (hm_or seqs gid 0) then hm_insert gid (hm_or seqs gid 0) m else m" groups "[]" "[]"]
    by (simp add: load_groups_def fold_map_rows case_prod_unfold cong: if_cong)
  also have "\<dots> = (groups, positive_seqs groups seqs)"
    using fold_insert_all [OF assms(2), of "\<lambda>_ v. v"]
      fold_insert_if [of "[]" groups "\<lambda>gid _. 0 < sint (hm_or seqs gid 0)" "\<lambda>gid _. hm_or seqs gid 0"] assms(2)
    by (simp add: positive_seqs_def case_prod_unfold)
  finally show ?thesis using save by simp
qed

lemma hub_groups_roundtrip:
  assumes "text_ok (js_group js)" and "text_ok (js_names js)" and "\<forall>n. parse_node js (node_to_string n) = Some n"
    and "hm_wf (ghs_groups h)" and "\<forall>(_, ns) \<in> set (ghs_invited_sets h). distinct ns"
  shows "\<exists>db'. save_hub_groups js h db = Some db' \<and>
    load_hub_groups js db' =
      (ghs_groups h,
       map (\<lambda>(gid, _). (gid, hm_or (ghs_invited_sets h) gid []))
         (filter (\<lambda>(gid, _). hm_or (ghs_invited_sets h) gid [] \<noteq> []) (ghs_groups h)),
       positive_seqs (ghs_groups h) (ghs_next_seqs h)) \<and>
    db' = db\<lparr>db_hub_groups := db_hub_groups db'\<rparr>"
proof -
  let ?inv = "\<lambda>gid. hm_or (ghs_invited_sets h) gid []"
  let ?seq = "\<lambda>gid. hm_or (ghs_next_seqs h) gid 0"
  let ?rows = "map (\<lambda>(gid, info). (gid_string gid, text_or_empty (js_group js) info,
      text_or_empty (js_names js) (map node_to_string (?inv gid)), ?seq gid)) (ghs_groups h)"
  have "distinct (map fst ?rows)"
    using distinct_keys_map [OF assms(4) inj_names(2)] by simp
  then have save: "save_hub_groups js h db = Some (db\<lparr>db_hub_groups := ?rows\<rparr>)"
    by (simp add: save_hub_groups_def insert_all_fresh)
  have inv: "fold hs_insert (List.map_filter (parse_node js) (map node_to_string (?inv gid))) [] = ?inv gid" for gid
  proof -
    have "distinct (?inv gid)"
      using assms(5) by (auto simp: hm_or_def dest: map_of_SomeD split: option.split)
    moreover have "List.map_filter (parse_node js) (map node_to_string ns) = ns" for ns
      using assms(3) by (induction ns) (auto simp: List.map_filter_def)
    moreover have "distinct (ys @ xs) \<Longrightarrow> fold hs_insert xs ys = ys @ xs" for xs ys :: "node_id list"
      by (induction xs arbitrary: ys) (auto simp: hs_insert_def)
    ultimately show ?thesis by simp
  qed
  have "load_hub_groups js (db\<lparr>db_hub_groups := ?rows\<rparr>) =
      (fold (\<lambda>(gid, info). hm_insert gid info) (ghs_groups h) [],
       fold (\<lambda>(gid, _) m. if ?inv gid \<noteq> [] then hm_insert gid (?inv gid) m else m) (ghs_groups h) [],
       fold (\<lambda>(gid, _) m. if 0 < sint (?seq gid) then hm_insert gid (?seq gid) m else m) (ghs_groups h) [])"
    using assms(1,2) fold_triple [of "\<lambda>(gid, info). hm_insert gid info"
        "\<lambda>(gid, _) m. if ?inv gid \<noteq> [] then hm_insert gid (?inv gid) m else m"
        "\<lambda>(gid, _) m. if 0 < sint (?seq gid) then hm_insert gid (?seq gid) m else m" "ghs_groups h" "[]" "[]" "[]"]
    by (simp add: load_hub_groups_def fold_map_rows case_prod_unfold inv Let_def cong: if_cong)
  also have "\<dots> = (ghs_groups h,
       map (\<lambda>(gid, _). (gid, ?inv gid)) (filter (\<lambda>(gid, _). ?inv gid \<noteq> []) (ghs_groups h)),
       positive_seqs (ghs_groups h) (ghs_next_seqs h))"
    using fold_insert_all [OF assms(4), of "\<lambda>_ v. v"]
      fold_insert_if [of "[]" "ghs_groups h" "\<lambda>gid _. 0 < sint (?seq gid)" "\<lambda>gid _. ?seq gid"]
      fold_insert_if [of "[]" "ghs_groups h" "\<lambda>gid _. ?inv gid \<noteq> []" "\<lambda>gid _. ?inv gid"] assms(4)
    by (simp add: positive_seqs_def case_prod_unfold)
  finally show ?thesis using save by simp
qed

lemma role_text_inverse: "(if role_text r = ''Relay'' then Relay else Peer) = r"
  by (cases r) simp_all

lemma status_text_inverse:
  "(if status_text st = ''Online'' then Online else if status_text st = ''Stale'' then Stale else Offline) = st"
  by (cases st) simp_all

lemma peers_roundtrip:
  assumes "\<forall>n. parse_node js (node_to_string n) = Some n" and "hm_wf peers" and "\<forall>(n, p) \<in> set peers. pi_node_id p = n"
  shows "\<exists>db'. save_peers peers db = Some db' \<and> load_peers js db' = peers \<and> db' = db\<lparr>db_peers := db_peers db'\<rparr>"
proof -
  let ?rows = "map (\<lambda>(n, p). (node_to_string n, role_text (pi_role p), status_text (pi_status p), pi_last_seen p)) peers"
  have "distinct (map fst ?rows)" using distinct_keys_map [OF assms(2) inj_names(1)] by simp
  then have save: "save_peers peers db = Some (db\<lparr>db_peers := ?rows\<rparr>)" by (simp add: save_peers_def insert_all_fresh)
  have "load_peers js (db\<lparr>db_peers := ?rows\<rparr>) =
      fold (\<lambda>(n, p). hm_insert n \<lparr>pi_node_id = n, pi_role = pi_role p, pi_status = pi_status p, pi_last_seen = pi_last_seen p\<rparr>) peers []"
    using assms(1) by (simp add: load_peers_def fold_map_rows case_prod_unfold role_text_inverse status_text_inverse cong: if_cong)
  also have "\<dots> = map (\<lambda>(n, p). (n, \<lparr>pi_node_id = n, pi_role = pi_role p, pi_status = pi_status p, pi_last_seen = pi_last_seen p\<rparr>)) peers"
    by (rule fold_insert_all [OF assms(2)])
  also have "\<dots> = peers"
    using assms(3) by (intro map_idI) auto
  finally show ?thesis using save by simp
qed

lemma metrics_roundtrip:
  assumes "\<forall>n. parse_node js (node_to_string n) = Some n" and "text_ok (js_metrics js)" and "hm_wf metrics"
  shows "\<exists>db'. save_metrics js metrics db = Some db' \<and> load_metrics js db' = metrics \<and> db' = db\<lparr>db_metrics := db_metrics db'\<rparr>"
proof -
  let ?rows = "map (\<lambda>(n, m). (node_to_string n, text_or_empty (js_metrics js) m)) metrics"
  have "distinct (map fst ?rows)" using distinct_keys_map [OF assms(3) inj_names(1)] by simp
  then have save: "save_metrics js metrics db = Some (db\<lparr>db_metrics := ?rows\<rparr>)" by (simp add: save_metrics_def insert_all_fresh)
  have "load_metrics js (db\<lparr>db_metrics := ?rows\<rparr>) = fold (\<lambda>(n, m). hm_insert n m) metrics []"
    using assms(1,2) by (simp add: load_metrics_def fold_map_rows case_prod_unfold)
  also have "\<dots> = metrics" using fold_insert_all [OF assms(3), of "\<lambda>_ m. m"] by simp
  finally show ?thesis using save by simp
qed

lemma status_of_code [simp]: "status_of_int (int (status_code st)) = st"
  by (cases st) (simp_all add: status_of_int_def)

lemma record_eta:
  "r = \<lparr>tmr_to = tmr_to r, tmr_status = tmr_status r, tmr_created_ms = tmr_created_ms r,
        tmr_retries_remaining = tmr_retries_remaining r\<rparr>"
  by simp

lemma tracked_roundtrip:
  assumes "\<forall>n. parse_node js (node_to_string n) = Some n" and "hm_wf messages"
  shows "\<exists>db'. save_tracked_messages messages db = Some db' \<and> load_tracked_messages js db' = messages \<and>
    db' = db\<lparr>db_tracked := db_tracked db'\<rparr>"
proof -
  let ?rows = "map (\<lambda>(mid, r). (mid, node_to_string (tmr_to r), int (status_code (tmr_status r)), tmr_created_ms r,
      uint (tmr_retries_remaining r))) messages"
  have "distinct (map fst ?rows)" using assms(2) by (simp add: comp_def split_beta)
  then have save: "save_tracked_messages messages db = Some (db\<lparr>db_tracked := ?rows\<rparr>)"
    by (simp add: save_tracked_messages_def insert_all_fresh)
  have "load_tracked_messages js (db\<lparr>db_tracked := ?rows\<rparr>) = fold (\<lambda>(mid, r). hm_insert mid r) messages []"
    using assms(1) by (simp add: load_tracked_messages_def fold_map_rows case_prod_unfold) (simp only: record_eta [symmetric])
  also have "\<dots> = messages" using fold_insert_all [OF assms(2), of "\<lambda>_ m. m"] by simp
  finally show ?thesis using save by simp
qed

subsubsection \<open>Sender keys\<close>

definition key_row :: "json_api \<Rightarrow> string \<Rightarrow> string \<Rightarrow> sender_key_entry \<Rightarrow> string \<times> string \<times> string" where
  "key_row js gid owner entry = (gid, owner, text_or_empty (js_key js) entry)"

definition key_rows :: "json_api \<Rightarrow> group_id \<times> (node_id, sender_key_entry) hmap \<Rightarrow> (string \<times> string \<times> string) list" where
  "key_rows js gk = map (\<lambda>(n, entry). key_row js (gid_string (fst gk)) (node_to_string n) entry) (snd gk)"

lemma key_rows_gid: "x \<in> set (key_rows js gk) \<Longrightarrow> fst x = gid_string (fst gk)"
  by (auto simp: key_rows_def key_row_def)

definition load_key :: "json_api \<Rightarrow> string \<times> string \<times> string
    \<Rightarrow> (group_id, sender_key_entry) hmap \<times> (group_id, (node_id, sender_key_entry) hmap) hmap
    \<Rightarrow> (group_id, sender_key_entry) hmap \<times> (group_id, (node_id, sender_key_entry) hmap) hmap" where
  "load_key js = (\<lambda>(gid, owner, json) (locals, remotes).
     case from_text (js_key js) json of
       None \<Rightarrow> (locals, remotes)
     | Some entry \<Rightarrow>
         if owner = ''LOCAL'' then (hm_insert (GroupId gid) entry locals, remotes)
         else (case parse_node js owner of
                 None \<Rightarrow> (locals, remotes)
               | Some n \<Rightarrow>
                   (locals, hm_insert (GroupId gid) (hm_insert n entry (hm_or remotes (GroupId gid) [])) remotes)))"

lemma load_sender_keys_rows: "load_sender_keys js db = fold (load_key js) (db_sender_keys db) ([], [])"
  by (simp add: load_sender_keys_def load_key_def)

lemma node_name_not_local [simp]: "node_to_string n \<noteq> ''LOCAL''"
proof
  assume "node_to_string n = ''LOCAL''"
  from arg_cong [OF this, of length] show False by simp
qed

lemma load_local_rows:
  assumes "text_ok (js_key js)"
  shows "fold (load_key js) (map (\<lambda>(gid, entry). key_row js (gid_string gid) ''LOCAL'' entry) locals) (l, r) =
     (fold (\<lambda>(gid, entry). hm_insert gid entry) locals l, r)"
  using assms by (induction locals arbitrary: l) (auto simp: load_key_def key_row_def)

lemma load_remote_rows:
  assumes "text_ok (js_key js)" and "\<forall>n. parse_node js (node_to_string n) = Some n"
  shows "fold (load_key js) (map (\<lambda>(n, entry). key_row js (gid_string gid) (node_to_string n) entry) keys) (l, r) =
     (l, if keys = [] then r else hm_insert gid (fold (\<lambda>(n, entry). hm_insert n entry) keys (hm_or r gid [])) r)"
proof (induction keys arbitrary: r)
  case Nil
  then show ?case by simp
next
  case (Cons ne keys)
  obtain n e where ne: "ne = (n, e)" by fastforce
  have "load_key js (key_row js (gid_string gid) (node_to_string n) e) (l, r) =
      (l, hm_insert gid (hm_insert n e (hm_or r gid [])) r)"
    using assms by (simp add: load_key_def key_row_def)
  then show ?case by (simp add: ne Cons.IH)
qed

lemma load_all_remote_rows:
  assumes ok: "text_ok (js_key js)" "\<forall>n. parse_node js (node_to_string n) = Some n"
    and "distinct (hm_keys r @ hm_keys remotes)" and "\<forall>(_, ks) \<in> set remotes. hm_wf ks"
  shows "fold (load_key js) (concat (map (key_rows js) remotes)) (l, r) =
    (l, r @ filter (\<lambda>(_, ks). ks \<noteq> []) remotes)"
  using assms(3,4)
proof (induction remotes arbitrary: r)
  case Nil
  then show ?case by simp
next
  case (Cons gk remotes)
  obtain gid ks where gk: "gk = (gid, ks)" by fastforce
  have fresh: "gid \<notin> fst ` set r" and wf: "hm_wf ks" using Cons.prems by (auto simp: gk)
  then have "hm_or r gid [] = []" by (simp add: hm_or_def map_of_eq_None_iff [THEN iffD2])
  moreover have "fold (\<lambda>(n, entry). hm_insert n entry) ks [] = ks"
    using fold_insert_all [OF wf, of "\<lambda>_ v. v"] by simp
  ultimately have "fold (load_key js) (key_rows js gk) (l, r) = (l, if ks = [] then r else r @ [(gid, ks)])"
    using load_remote_rows [OF ok, of gid ks l r] by (simp add: key_rows_def gk update_fresh [OF fresh])
  then show ?case
    using Cons.IH [of r] Cons.IH [of "r @ [(gid, ks)]"] Cons.prems by (simp add: gk)
qed

lemma sender_keys_roundtrip:
  assumes "text_ok (js_key js)" and "\<forall>n. parse_node js (node_to_string n) = Some n"
    and "hm_wf locals" and "hm_wf remotes" and "\<forall>(_, ks) \<in> set remotes. hm_wf ks"
  shows "\<exists>db'. save_sender_keys js locals remotes db = Some db' \<and>
    load_sender_keys js db' = (locals, filter (\<lambda>(_, ks). ks \<noteq> []) remotes) \<and>
    db' = db\<lparr>db_sender_keys := db_sender_keys db'\<rparr>"
proof -
  let ?l = "map (\<lambda>(gid, entry). key_row js (gid_string gid) ''LOCAL'' entry) locals"
  let ?r = "concat (map (key_rows js) remotes)"
  let ?key = "\<lambda>(gid, owner, _ :: string). (gid :: string, owner :: string)"
  have "distinct (map ?key ?l)"
    using assms(3) by (auto simp: comp_def split_beta key_row_def distinct_map inj_on_def)
  moreover have "distinct (map ?key ?r)"
    using assms(4,5)
  proof (induction remotes)
    case Nil
    then show ?case by simp
  next
    case (Cons gk remotes)
    have "distinct (map ?key (key_rows js gk))"
      using Cons.prems by (auto simp: key_rows_def comp_def split_beta key_row_def distinct_map inj_on_def)
    moreover have "?key ` set (key_rows js gk) \<inter> ?key ` set (concat (map (key_rows js) remotes)) = {}"
    proof -
      have "fst x \<noteq> fst y" if "x \<in> set (key_rows js gk)" "g \<in> set remotes" "y \<in> set (key_rows js g)" for x y g
        using that Cons.prems(1) by (auto simp: key_rows_gid)
      then show ?thesis by fastforce
    qed
    ultimately show ?case using Cons.IH Cons.prems by (simp del: set_concat)
  qed
  moreover have "?key ` set ?l \<inter> ?key ` set ?r = {}"
    by (auto simp: key_rows_def key_row_def dest: sym)
  ultimately have "distinct (map ?key (?l @ ?r))" by (simp only: map_append distinct_append set_map)
  then have save: "save_sender_keys js locals remotes db = Some (db\<lparr>db_sender_keys := ?l @ ?r\<rparr>)"
    by (simp add: save_sender_keys_def insert_all_fresh key_rows_def [abs_def] key_row_def case_prod_unfold)
  have "load_sender_keys js (db\<lparr>db_sender_keys := ?l @ ?r\<rparr>) =
      (fold (\<lambda>(gid, entry). hm_insert gid entry) locals [], filter (\<lambda>(_, ks). ks \<noteq> []) remotes)"
    using load_local_rows [OF assms(1)] load_all_remote_rows [OF assms(1,2), of "[]"] assms(4,5)
    by (simp add: load_sender_keys_rows)
  also have "\<dots> = (locals, filter (\<lambda>(_, ks). ks \<noteq> []) remotes)"
    using fold_insert_all [OF assms(3), of "\<lambda>_ v. v"] by simp
  finally show ?thesis using save by simp
qed

text \<open>
  C37. What survives a restart: saving a snapshot of a running node succeeds whatever the
  database held before, and loading it again gives back all groups, sender keys, peers, metrics
  and tracked messages, the positive sequence numbers and the non-empty invitation sets of the
  groups. Peers come back with the status they were saved with (it is \<open>runtime_state_new\<close> that sets
  them offline); previous sender keys, message counts and histories are not stored.
\<close>

theorem save_then_load:
  assumes "json_ok js" and "snapshot_wf s" and "sn_manager s = Some m" and "sn_hub s = Some h"
  shows "\<exists>db'. save_state_db js s db = Some db' \<and>
    load_state_db js db' = s\<lparr>sn_manager := surviving_manager m, sn_hub := surviving_hub h\<rparr> \<and>
    db_history db' = db_history db"
proof -
  note js = assms(1) [unfolded json_ok_def]
  note wf = assms(2) [unfolded snapshot_wf_def assms(3,4) option.simps]
  obtain db1 where 1: "save_groups js (gms_groups m) (gms_last_seqs m) db = Some db1"
      "load_groups js db1 = (gms_groups m, positive_seqs (gms_groups m) (gms_last_seqs m))" "db1 = db\<lparr>db_groups := db_groups db1\<rparr>"
    using groups_roundtrip [of js "gms_groups m" "gms_last_seqs m" db] js wf by blast
  obtain db2 where 2: "save_sender_keys js (gms_local_sender_keys m) (gms_sender_keys m) db1 = Some db2"
      "load_sender_keys js db2 = (gms_local_sender_keys m, filter (\<lambda>(_, ks). ks \<noteq> []) (gms_sender_keys m))"
      "db2 = db1\<lparr>db_sender_keys := db_sender_keys db2\<rparr>"
    using sender_keys_roundtrip [of js "gms_local_sender_keys m" "gms_sender_keys m" db1] js wf by blast
  obtain db3 where 3: "save_hub_groups js h db2 = Some db3"
      "load_hub_groups js db3 =
        (ghs_groups h,
         map (\<lambda>(gid, _). (gid, hm_or (ghs_invited_sets h) gid []))
           (filter (\<lambda>(gid, _). hm_or (ghs_invited_sets h) gid [] \<noteq> []) (ghs_groups h)),
         positive_seqs (ghs_groups h) (ghs_next_seqs h))"
      "db3 = db2\<lparr>db_hub_groups := db_hub_groups db3\<rparr>"
    using hub_groups_roundtrip [of js h db2] js wf by blast
  obtain db4 where 4: "save_peers (sn_peers s) db3 = Some db4" "load_peers js db4 = sn_peers s"
      "db4 = db3\<lparr>db_peers := db_peers db4\<rparr>"
    using peers_roundtrip [of js "sn_peers s" db3] js wf by blast
  obtain db5 where 5: "save_metrics js (sn_metrics s) db4 = Some db5" "load_metrics js db5 = sn_metrics s"
      "db5 = db4\<lparr>db_metrics := db_metrics db5\<rparr>"
    using metrics_roundtrip [of js "sn_metrics s" db4] js wf by blast
  obtain db6 where 6: "save_tracked_messages (sn_tracked s) db5 = Some db6" "load_tracked_messages js db6 = sn_tracked s"
      "db6 = db5\<lparr>db_tracked := db_tracked db6\<rparr>"
    using tracked_roundtrip [of js "sn_tracked s" db5] js wf by blast
  note frame = arg_cong [OF 6(3)] arg_cong [OF 5(3)] arg_cong [OF 4(3)] arg_cong [OF 3(3)] arg_cong [OF 2(3)] arg_cong [OF 1(3)]
  have tables: "db_groups db6 = db_groups db1" "db_sender_keys db6 = db_sender_keys db2" "db_hub_groups db6 = db_hub_groups db3"
    "db_peers db6 = db_peers db4" "db_metrics db6 = db_metrics db5" "db_history db6 = db_history db"
    using frame [of db_groups] frame [of db_sender_keys] frame [of db_hub_groups] frame [of db_peers]
      frame [of db_metrics] frame [of db_history] by simp_all
  have "load_state_db js db6 = s\<lparr>sn_manager := surviving_manager m, sn_hub := surviving_hub h\<rparr>"
    using 1(2) 2(2) 3(2) 4(2) 5(2) 6(2)
    by (simp add: load_state_db_def load_groups_def load_sender_keys_def load_hub_groups_def load_peers_def load_metrics_def
        tables surviving_manager_def surviving_hub_def)
  then show ?thesis
    using 1(1) 2(1) 3(1) 4(1) 5(1) 6(1) tables(6) by (simp add: save_state_db_def assms(3,4))
qed

definition counting_text :: "'a::countable text_codec" where
  "counting_text = \<lparr>to_text = (\<lambda>x. Some (replicate (to_nat x) CHR ''.'')), from_text = (\<lambda>t. Some (from_nat (length t)))\<rparr>"

lemma counting_text_ok [simp]: "text_ok counting_text"
  by (simp add: text_ok_def counting_text_def)

text \<open>Reading the printed name of a node back.\<close>

definition hex_value :: "char \<Rightarrow> nat" where
  "hex_value ch = (let n = of_char ch in if n < 58 then n - 48 else n - 87)"

definition parse_hex :: "string \<Rightarrow> node_id" where
  "parse_hex t = NodeId (of_nat (foldl (\<lambda>a ch. a * 16 + hex_value ch) 0 t))"

lemma hex_value_digit: "d < 16 \<Longrightarrow> hex_value (hex_digit d) = d"
  by (simp add: hex_value_def hex_digit_def Let_def)

lemma parse_printed: "parse_hex (node_to_string n) = n"
proof -
  let ?ds = "digits_be 16 64 (unat (id_word n))"
  have small: "d < 16" if "d \<in> set ?ds" for d using node_digits_bound [of n] that by auto
  have "foldl (\<lambda>a ch. a * 16 + hex_value ch) 0 (map hex_digit ?ds) = foldl (\<lambda>a d. a * 16 + d) 0 ?ds"
    unfolding foldl_map by (intro foldl_cong) (auto simp: hex_value_digit small)
  also have "\<dots> = unat (id_word n)"
    using foldl_digits [of 16 "unat (id_word n)" 64 0] id_word_bound [of n] by simp
  finally show ?thesis by (simp add: parse_hex_def node_to_string_def)
qed

definition demo_json :: json_api where
  "demo_json =
     \<lparr>js_group = counting_text, js_key = counting_text, js_names = counting_text, js_metrics = counting_text,
      parse_node = (\<lambda>t. Some (parse_hex t))\<rparr>"

lemma demo_json_ok: "json_ok demo_json"
  by (simp add: json_ok_def demo_json_def parse_printed)

definition demo_saved_group :: "string \<Rightarrow> group_info" where
  "demo_saved_group name =
     \<lparr>gi_group_id = GroupId name, gi_name = name, gi_hub_relay_id = NodeId 9, gi_backup_hub_id = None,
      gi_members = [], gi_created_by = NodeId 1, gi_created_at = 0, gi_last_activity_at = 0, gi_max_members = 50,
      gi_shadow_id = None, gi_candidate_id = None, gi_invite_only = False\<rparr>"

definition demo_saved_manager :: group_manager_snapshot where
  "demo_saved_manager =
     \<lparr>gms_groups = [(GroupId ''g'', demo_saved_group ''g''), (GroupId ''h'', demo_saved_group ''h'')], gms_local_sender_keys = [],
      gms_sender_keys = [(GroupId ''g'', [(NodeId 7, \<lparr>ske_owner_id = NodeId 7, ske_key = [], ske_epoch = 1, ske_created_at = 5\<rparr>)]),
                         (GroupId ''h'', [])],
      gms_previous_sender_keys = [], gms_local_sender_message_counts = [], gms_message_history = [(GroupId ''g'', [])],
      gms_last_seqs = [(GroupId ''g'', 4), (GroupId ''h'', 0)]\<rparr>"

definition demo_saved :: state_snapshot where
  "demo_saved =
     \<lparr>sn_manager = Some demo_saved_manager,
      sn_hub = Some \<lparr>ghs_groups = [], ghs_invited_sets = [], ghs_next_seqs = []\<rparr>,
      sn_peers = [(NodeId 7, \<lparr>pi_node_id = NodeId 7, pi_role = Relay, pi_status = Stale, pi_last_seen = 30\<rparr>)],
      sn_metrics = [], sn_tracked = []\<rparr>"

theorem save_then_load_witness:
  "\<exists>db'. save_state_db demo_json demo_saved state_db_empty = Some db' \<and>
     sn_peers (load_state_db demo_json db') = sn_peers demo_saved \<and>
     map_option gms_last_seqs (sn_manager (load_state_db demo_json db')) = Some [(GroupId ''g'', 4)] \<and>
     map_option (map fst \<circ> gms_sender_keys) (sn_manager (load_state_db demo_json db')) = Some [GroupId ''g'']"
proof -
  have wf: "snapshot_wf demo_saved"
    by (simp add: snapshot_wf_def demo_saved_def demo_saved_manager_def)
  obtain db' where "save_state_db demo_json demo_saved state_db_empty = Some db'"
      "load_state_db demo_json db' = demo_saved\<lparr>sn_manager := surviving_manager demo_saved_manager,
         sn_hub := surviving_hub \<lparr>ghs_groups = [], ghs_invited_sets = [], ghs_next_seqs = []\<rparr>\<rparr>"
    using save_then_load [OF demo_json_ok wf, of demo_saved_manager _ state_db_empty] by (auto simp: demo_saved_def)
  then show ?thesis
    by (simp add: surviving_manager_def demo_saved_manager_def positive_seqs_def hm_or_def)
qed

end
