(* ===== verification/Tom_RuntimeTypes.thy ===== *)
theory Tom_RuntimeTypes
  imports Tom_Router Tom_Backup Tom_Subnet Tom_Discovery Tom_Storage
begin

section \<open>The runtime: configuration, events, effects and state\<close>

text \<open>
  Models the data of \<^verbatim>\<open>tom-protocol/src/runtime\<close>: the configuration, the commands of the
  application and the events it observes (\<^verbatim>\<open>mod.rs\<close>), the effects that the pure logic returns
  (\<^verbatim>\<open>effect.rs\<close>) and the state that ties the components together (\<^verbatim>\<open>state.rs\<close>), with the functions
  that turn the actions of a component into effects.

  The external parts a node uses are the fields of \<open>runtime_api\<close>. Random values come from an
  endless supply: \<open>ap_uuid\<close>, \<open>ap_rand\<close> and \<open>ap_entropy\<close> give the \<open>n\<close>-th draw and the state counts the draws. The
  DHT client is not modelled.
\<close>

subsection \<open>External parts\<close>

record ('c, 'b) runtime_api =
  ap_crypto :: crypto_api
  ap_wire :: wire_api
  ap_router :: "'c router_api"
  ap_buckets :: "'b lru_api"
  ap_exp :: "real \<Rightarrow> real"
  ap_content :: "group_message_content pack"
  ap_group_payload :: "group_payload pack"
  ap_group_message :: "group_message codec"
  ap_replication :: "replication_payload pack"
  ap_id :: "string pack"
  ap_ids :: "string list pack"
  ap_node :: "node_id pack"
  ap_announce :: "peer_announce codec"
  ap_role_announce :: "role_change_announce codec"
  ap_json :: json_api
  ap_uuid :: "nat \<Rightarrow> string"
  ap_rand :: "nat \<Rightarrow> mgr_rand"
  ap_entropy :: "nat \<Rightarrow> bytes \<times> bytes" \<comment> \<open>ephemeral secret and nonce of one encryption\<close>

subsection \<open>Configuration, commands and events\<close>

record runtime_config =
  cf_encryption :: bool
  cf_cache_cleanup_interval :: nat
  cf_heartbeat_interval :: nat
  cf_tracker_cleanup_interval :: nat
  cf_username :: string
  cf_group_hub_heartbeat_interval :: nat
  cf_backup_tick_interval :: nat
  cf_gossip_announce_interval :: nat
  cf_gossip_bootstrap_peers :: "node_id list"
  cf_shadow_ping_interval :: nat
  cf_enable_dht :: bool
  cf_data_dir :: "string option"
  cf_antispam_config :: anti_spam_config

definition runtime_config_default :: runtime_config where
  "runtime_config_default =
     \<lparr>cf_encryption = True, cf_cache_cleanup_interval = secs 300, cf_heartbeat_interval = secs 5,
      cf_tracker_cleanup_interval = secs 300, cf_username = ''anonymous'',
      cf_group_hub_heartbeat_interval = secs 30, cf_backup_tick_interval = secs 60,
      cf_gossip_announce_interval = secs 10, cf_gossip_bootstrap_peers = [],
      cf_shadow_ping_interval = secs 3, cf_enable_dht = True, cf_data_dir = None,
      cf_antispam_config = anti_spam_config_default\<rparr>"

text \<open>Commands that carry only transport data (addresses) keep the part the state uses.\<close>

datatype runtime_command =
    CmdSendMessage node_id bytes
  | CmdSendReadReceipt node_id string
  | CmdAddPeer node_id
  | CmdAddPeerAddr node_id
  | CmdUpsertPeer peer_info
  | CmdRemovePeer node_id
  | CmdGetConnectedPeers
  | CmdCreateGroup string node_id "node_id list" bool
  | CmdAcceptInvite group_id
  | CmdDeclineInvite group_id
  | CmdLeaveGroup group_id
  | CmdSendGroupMessage group_id string
  | CmdGetGroups
  | CmdKickMember group_id node_id
  | CmdUpdateMemberRole group_id node_id group_member_role
  | CmdInviteMember group_id node_id
  | CmdGetPendingInvites
  | CmdGetRoleMetrics node_id
  | CmdGetAllRoleScores
  | CmdDhtLookupResult string
  | CmdShutdown

text \<open>What a query sends back on its reply channel.\<close>

datatype runtime_reply =
    RepGroups "group_info list"
  | RepPendingInvites "group_invite list"
  | RepRoleMetrics "role_metrics option"
  | RepAllRoleScores "(node_id \<times> real \<times> peer_role) list"

record delivered_message =
  dm_from :: node_id
  dm_payload :: bytes
  dm_envelope_id :: string
  dm_timestamp :: u64
  dm_signature_valid :: bool
  dm_was_encrypted :: bool

datatype protocol_event =
    PePeerDiscovered node_id string discovery_source
  | PePeerStale node_id
  | PePeerOffline node_id
  | PePeerOnline node_id
  | PeMessageRejected string
  | PeForwarded string node_id
  | PePathChanged node_id
  | PeError string
  | PeGroupCreated group_info
  | PeGroupInviteReceived group_invite
  | PeGroupJoined group_id string
  | PeGroupMemberJoined group_id group_member
  | PeGroupMemberLeft group_id node_id string leave_reason
  | PeGroupMessageReceived group_message
  | PeGroupHubMigrated group_id node_id
  | PeGroupSecurityViolation group_id node_id string
  | PeGroupMemberRoleChanged group_id node_id group_member_role
  | PeGroupShadowPromoted group_id node_id
  | PeGroupCandidateAssigned group_id
  | PeGroupHubChainRestored group_id
  | PeGossipNeighborUp node_id
  | PeGossipNeighborDown node_id
  | PeSubnetFormed string "node_id list"
  | PeSubnetDissolved string string
  | PeRolePromoted node_id real
  | PeRoleDemoted node_id real
  | PeLocalRoleChanged peer_role
  | PeBackupStored string node_id
  | PeBackupDelivered string node_id
  | PeBackupExpired string node_id
  | PeDeliveryRetry string node_id u8
  | PeDeliveryTimeout string node_id message_status
  | PeSenderThrottled node_id real real

datatype runtime_effect =
    SendEnvelope envelope
  | SendEnvelopeTo node_id envelope
  | DeliverMessage delivered_message
  | NotifyStatus status_change
  | Emit protocol_event
  | SendWithBackupFallback envelope "runtime_effect list" "runtime_effect list"
  | BroadcastRoleChange role_change_announce

datatype gossip_input =
    GiPeerAnnounce bytes
  | GiNeighborUp node_id
  | GiNeighborDown node_id

subsection \<open>The state\<close>

record ('c, 'b) runtime_state =
  st_local_id :: node_id
  st_secret_seed :: bytes
  st_config :: runtime_config
  st_router :: "'c router"
  st_topology :: topology
  st_tracker :: message_tracker
  st_heartbeat :: heartbeat_tracker
  st_group_manager :: group_manager
  st_group_hub :: group_hub
  st_backup :: backup_coordinator
  st_subnets :: subnet_manager
  st_role_manager :: role_manager
  st_local_roles :: "peer_role list"
  st_role_announce_throttle :: "(node_id, u64) hmap"
  st_store :: "state_db option"
  st_pending_envelopes :: "(string, envelope) hmap"
  st_antispam :: "'b anti_spam"
  st_draws :: nat \<comment> \<open>random values drawn so far\<close>

text \<open>The context of a call that needs a UUID.\<close>

definition with_uuid :: "('c, 'b) runtime_api \<Rightarrow> ctx \<Rightarrow> nat \<Rightarrow> ctx" where
  "with_uuid api c n = c\<lparr>fresh_uuid := ap_uuid api n\<rparr>"

text \<open>
  Start a node, from the state its database holds if there is one. The path of the database and
  its opening are outside; \<open>None\<close> is the panic of a rate limiter that may track no sender.
\<close>

definition runtime_state_new ::
  "('c, 'b) runtime_api \<Rightarrow> ctx \<Rightarrow> node_id \<Rightarrow> bytes \<Rightarrow> runtime_config \<Rightarrow> state_db option \<Rightarrow> ('c, 'b) runtime_state option" where
  "runtime_state_new api c self seed config store =
     (let manager = group_manager_new self (cf_username config);
          hub = group_hub_new self;
          (manager, hub, topology, roles, tracker) =
            (case store of
               None \<Rightarrow> (manager, hub, topology_new, role_manager_new self, tracker_new)
             | Some db \<Rightarrow>
                 let s = load_state_db (ap_json api) db
                 in (case sn_manager s of None \<Rightarrow> manager | Some ms \<Rightarrow> mgr_restore ms manager,
                     case sn_hub s of None \<Rightarrow> hub | Some hs \<Rightarrow> hub_restore hs hub,
                     fold (\<lambda>p t. snd (upsert (p\<lparr>pi_status := Offline\<rparr>) t)) (hm_values (sn_peers s)) topology_new,
                     if sn_metrics s \<noteq> [] then restore_scores (sn_metrics s) (role_manager_new self)
                     else role_manager_new self,
                     if sn_tracked s \<noteq> [] then tr_restore c (sn_tracked s) tracker_new else tracker_new))
      in case anti_spam_new (ap_buckets api) (cf_antispam_config config) of
           None \<Rightarrow> None
         | Some antispam \<Rightarrow>
             Some \<lparr>st_local_id = self, st_secret_seed = seed, st_config = config,
                   st_router = router_new (ap_router api) self, st_topology = topology, st_tracker = tracker,
                   st_heartbeat = heartbeat_tracker_new, st_group_manager = manager, st_group_hub = hub,
                   st_backup = backup_coordinator_new self, st_subnets = subnet_manager_new self,
                   st_role_manager = roles, st_local_roles = [Peer], st_role_announce_throttle = [],
                   st_store = store, st_pending_envelopes = [], st_antispam = antispam, st_draws = 0\<rparr>)"

definition save_state :: "('c, 'b) runtime_api \<Rightarrow> ctx \<Rightarrow> ('c, 'b) runtime_state \<Rightarrow> ('c, 'b) runtime_state" where
  "save_state api c st =
     (case st_store st of
        None \<Rightarrow> st
      | Some db \<Rightarrow>
          let s = \<lparr>sn_manager = Some (mgr_snapshot (st_group_manager st)), sn_hub = Some (hub_snapshot (st_group_hub st)),
                   sn_peers = tp_peers (st_topology st), sn_metrics = rm_scores (st_role_manager st),
                   sn_tracked = tr_snapshot c (st_tracker st)\<rparr>
          in (case save_state_db (ap_json api) s db of None \<Rightarrow> st | Some db' \<Rightarrow> st\<lparr>st_store := Some db'\<rparr>))"

subsection \<open>Surfacing events\<close>

fun group_payload_to_message_type :: "group_payload \<Rightarrow> message_type" where
  "group_payload_to_message_type (GpCreate _ _ _ _) = GroupCreate"
| "group_payload_to_message_type (GpCreated _) = GroupCreated"
| "group_payload_to_message_type (GpInvite _ _ _ _) = GroupInvite"
| "group_payload_to_message_type (GpJoin _ _) = GroupJoin"
| "group_payload_to_message_type (GpSync _ _) = GroupSync"
| "group_payload_to_message_type (GpMessage _) = GroupMessage"
| "group_payload_to_message_type (GpLeave _) = GroupLeave"
| "group_payload_to_message_type (GpMemberJoined _ _) = GroupMemberJoined"
| "group_payload_to_message_type (GpMemberLeft _ _ _ _) = GroupMemberLeft"
| "group_payload_to_message_type (GpDeliveryAck _ _) = GroupDeliveryAck"
| "group_payload_to_message_type (GpHubMigration _ _ _) = GroupHubMigration"
| "group_payload_to_message_type (GpHubHeartbeat _ _) = GroupHubHeartbeat"
| "group_payload_to_message_type (GpSenderKeyDistribution _ _ _ _) = GroupSenderKeyDistribution"
| "group_payload_to_message_type (GpHubPing _) = GroupHubPing"
| "group_payload_to_message_type (GpHubPong _) = GroupHubPong"
| "group_payload_to_message_type (GpHubShadowSync _ _ _ _) = GroupHubShadowSync"
| "group_payload_to_message_type (GpCandidateAssigned _) = GroupCandidateAssigned"
| "group_payload_to_message_type (GpHubUnreachable _) = GroupHubUnreachable"
| "group_payload_to_message_type (GpKickMember _ _) = GroupKickMember"
| "group_payload_to_message_type (GpUpdateMemberRole _ _ _) = GroupUpdateMemberRole"
| "group_payload_to_message_type (GpMemberRoleChanged _ _ _) = GroupMemberRoleChanged"
| "group_payload_to_message_type (GpInviteMember _ _) = GroupInviteMember"
| "group_payload_to_message_type (GpSyncRequest _ _) = GroupSyncRequest"
| "group_payload_to_message_type (GpSyncResponse _ _ _) = GroupSyncResponse"

fun surface_group_event :: "group_event \<Rightarrow> runtime_effect list" where
  "surface_group_event (GeGroupCreated info) = [Emit (PeGroupCreated info)]"
| "surface_group_event (GeInviteReceived invite) = [Emit (PeGroupInviteReceived invite)]"
| "surface_group_event (GeJoined gid name) = [Emit (PeGroupJoined gid name)]"
| "surface_group_event (GeMemberJoined gid member) = [Emit (PeGroupMemberJoined gid member)]"
| "surface_group_event (GeMemberLeft gid n username reason) = [Emit (PeGroupMemberLeft gid n username reason)]"
| "surface_group_event (GeMemberRoleChanged gid n role) = [Emit (PeGroupMemberRoleChanged gid n role)]"
| "surface_group_event (GeMessageReceived msg) = [Emit (PeGroupMessageReceived msg)]"
| "surface_group_event (GeHubMigrated gid hub) = [Emit (PeGroupHubMigrated gid hub)]"
| "surface_group_event (GeSecurityViolation gid n reason) = [Emit (PeGroupSecurityViolation gid n reason)]"

fun surface_backup_event :: "backup_event \<Rightarrow> runtime_effect list" where
  "surface_backup_event (BkMessageStored mid recipient) = [Emit (PeBackupStored mid recipient)]"
| "surface_backup_event (BkMessageDelivered mid recipient) = [Emit (PeBackupDelivered mid recipient)]"
| "surface_backup_event (BkMessageExpired mid recipient) = [Emit (PeBackupExpired mid recipient)]"
| "surface_backup_event _ = []"

fun dissolve_reason_debug :: "dissolve_reason \<Rightarrow> string" where
  "dissolve_reason_debug Inactive = ''Inactive''"
| "dissolve_reason_debug InsufficientMembers = ''InsufficientMembers''"

fun surface_subnet_event :: "subnet_event \<Rightarrow> runtime_effect list" where
  "surface_subnet_event (SeSubnetFormed s) = [Emit (PeSubnetFormed (si_subnet_id s) (si_members s))]"
| "surface_subnet_event (SeSubnetDissolved sid reason) = [Emit (PeSubnetDissolved sid (dissolve_reason_debug reason))]"
| "surface_subnet_event _ = []"

subsection \<open>Envelopes of this node\<close>

definition own_envelope ::
  "('c, 'b) runtime_api \<Rightarrow> ctx \<Rightarrow> ('c, 'b) runtime_state \<Rightarrow> nat \<Rightarrow> node_id \<Rightarrow> message_type \<Rightarrow> bytes \<Rightarrow> node_id list \<Rightarrow> envelope" where
  "own_envelope api c st n to mt payload via =
     builder_sign (ap_crypto api) (ap_wire api) (ap_uuid api n) (now_ms c) (st_secret_seed st)
       (builder_via via (builder_new (st_local_id st) to mt payload))"

definition path_to :: "('c, 'b) runtime_state \<Rightarrow> node_id \<Rightarrow> node_id list" where
  "path_to st target = select_path (st_local_id st) target (st_topology st)"

text \<open>One envelope for each target, in order, each with the next identifier.\<close>

definition envelopes_to ::
  "('c, 'b) runtime_api \<Rightarrow> ctx \<Rightarrow> message_type \<Rightarrow> bytes \<Rightarrow> (node_id \<Rightarrow> node_id list) \<Rightarrow> node_id list \<Rightarrow> ('c, 'b) runtime_state
     \<Rightarrow> runtime_effect list \<times> ('c, 'b) runtime_state" where
  "envelopes_to api c mt payload via targets st =
     (map (\<lambda>(i, target). SendEnvelope (own_envelope api c st (st_draws st + i) target mt payload (via target)))
        (enumerate 0 targets),
      st\<lparr>st_draws := st_draws st + length targets\<rparr>)"

fun group_actions_to_effects ::
  "('c, 'b) runtime_api \<Rightarrow> ctx \<Rightarrow> group_action list \<Rightarrow> ('c, 'b) runtime_state
     \<Rightarrow> runtime_effect list \<times> ('c, 'b) runtime_state" where
  "group_actions_to_effects api c [] st = ([], st)"
| "group_actions_to_effects api c (act # acts) st =
     (let (effs, st) =
        (case act of
           GaSend to payload \<Rightarrow>
             envelopes_to api c (group_payload_to_message_type payload) (pack_vec (ap_group_payload api) payload)
               (path_to st) [to] st
         | GaBroadcast targets payload \<Rightarrow>
             let st = (case payload of
                         GpMessage msg \<Rightarrow>
                           (case st_store st of
                              None \<Rightarrow> st
                            | Some db \<Rightarrow>
                                let data = (case to_vec (ap_group_message api) msg of Inl _ \<Rightarrow> [] | Inr b \<Rightarrow> b)
                                in st\<lparr>st_store := Some (save_hub_message (msg_group_id msg) (msg_seq msg) data (now_ms c) db)\<rparr>)
                       | _ \<Rightarrow> st)
             in envelopes_to api c (group_payload_to_message_type payload) (pack_vec (ap_group_payload api) payload)
                  (path_to st) targets st
         | GaEvent event \<Rightarrow> (surface_group_event event, st)
         | GaNone \<Rightarrow> ([], st));
        (effs', st) = group_actions_to_effects api c acts st
      in (effs @ effs', st))"

definition online_peers :: "('c, 'b) runtime_state \<Rightarrow> node_id list" where
  "online_peers st =
     map pi_node_id (filter (\<lambda>p. pi_node_id p \<noteq> st_local_id st \<and> pi_status p = Online) (hm_values (tp_peers (st_topology st))))"

fun backup_actions_to_effects ::
  "('c, 'b) runtime_api \<Rightarrow> ctx \<Rightarrow> backup_action list \<Rightarrow> ('c, 'b) runtime_state
     \<Rightarrow> runtime_effect list \<times> ('c, 'b) runtime_state" where
  "backup_actions_to_effects api c [] st = ([], st)"
| "backup_actions_to_effects api c (act # acts) st =
     (let (effs, st) =
        (case act of
           BaReplicate target payload \<Rightarrow>
             envelopes_to api c BackupReplicate (pack_vec (ap_replication api) payload) (path_to st) [target] st
         | BaConfirmDelivery mids _ \<Rightarrow>
             envelopes_to api c BackupConfirmDelivery (pack_vec (ap_ids api) mids) (\<lambda>_. []) (online_peers st) st
         | BaQueryPending recipient \<Rightarrow>
             envelopes_to api c BackupQuery (pack_vec (ap_node api) recipient) (\<lambda>_. []) (online_peers st) st
         | BaEvent event \<Rightarrow> (surface_backup_event event, st));
        (effs', st) = backup_actions_to_effects api c acts st
      in (effs @ effs', st))"

end
