(* ===== verification/Tom_Runtime.thy ===== *)
theory Tom_Runtime
  imports Tom_RuntimeTypes "HOL-Library.Multiset"
begin

section \<open>The runtime: handlers\<close>

text \<open>
  Models the functions of \<^verbatim>\<open>RuntimeState\<close> in \<^verbatim>\<open>tom-protocol/src/runtime/state.rs\<close>: the periodic ticks,
  the handling of incoming envelopes, commands of the application and gossip, and the local
  processing of group actions a node addresses to itself. Each returns the effects to execute
  and the new state; \<open>None\<close> is a panic. A function reads the clock once.
\<close>

subsection \<open>Calling a component\<close>

definition on_hub ::
  "('c, 'b) runtime_api \<Rightarrow> ctx \<Rightarrow> group_payload \<Rightarrow> node_id \<Rightarrow> ('c, 'b) runtime_state
     \<Rightarrow> group_action list \<times> ('c, 'b) runtime_state" where
  "on_hub api c p from st =
     (let (acts, h) = hub_handle_payload (ap_crypto api) (with_uuid api c (st_draws st)) p from (st_group_hub st)
      in (acts, st\<lparr>st_group_hub := h, st_draws := Suc (st_draws st)\<rparr>))"

definition on_manager ::
  "('c, 'b) runtime_api \<Rightarrow> (mgr_rand \<Rightarrow> group_manager \<Rightarrow> group_action list \<times> group_manager) \<Rightarrow> ('c, 'b) runtime_state
     \<Rightarrow> group_action list \<times> ('c, 'b) runtime_state" where
  "on_manager api f st =
     (let (acts, m) = f (ap_rand api (st_draws st)) (st_group_manager st)
      in (acts, st\<lparr>st_group_manager := m, st_draws := Suc (st_draws st)\<rparr>))"

definition on_backup ::
  "(backup_coordinator \<Rightarrow> backup_action list \<times> backup_coordinator) \<Rightarrow> ('c, 'b) runtime_state
     \<Rightarrow> backup_action list \<times> ('c, 'b) runtime_state" where
  "on_backup f st = (let (acts, b) = f (st_backup st) in (acts, st\<lparr>st_backup := b\<rparr>))"

text \<open>A peer is seen through some source: its heartbeat is recorded and it is online.\<close>

definition note_peer ::
  "ctx \<Rightarrow> node_id \<Rightarrow> discovery_source \<Rightarrow> string \<Rightarrow> peer_info \<Rightarrow> ('c, 'b) runtime_state \<Rightarrow> ('c, 'b) runtime_state" where
  "note_peer c n source username info st =
     st\<lparr>st_heartbeat := record_heartbeat_with_source c n source username (st_heartbeat st),
        st_topology := snd (upsert info (st_topology st))\<rparr>"

definition online_peer :: "ctx \<Rightarrow> peer_role \<Rightarrow> node_id \<Rightarrow> peer_info" where
  "online_peer c role n = \<lparr>pi_node_id = n, pi_role = role, pi_status = Online, pi_last_seen = now_ms c\<rparr>"

subsection \<open>Group actions addressed to this node\<close>

definition member_payload ::
  "('c, 'b) runtime_api \<Rightarrow> ctx \<Rightarrow> node_id \<Rightarrow> group_payload \<Rightarrow> ('c, 'b) runtime_state
     \<Rightarrow> group_action list \<times> ('c, 'b) runtime_state" where
  "member_payload api c from p st =
     (case p of
        GpCreated info \<Rightarrow> on_manager api (\<lambda>rnd. handle_group_created c rnd info) st
      | GpInvite gid name inviter inviter_username \<Rightarrow>
          on_manager api (\<lambda>_. handle_invite c gid name inviter inviter_username from) st
      | GpSync info recent \<Rightarrow> on_manager api (\<lambda>rnd. handle_group_sync (ap_crypto api) c rnd info recent) st
      | GpMemberJoined gid member \<Rightarrow>
          on_manager api (\<lambda>rnd. handle_member_joined (ap_crypto api) c rnd gid member) st
      | GpMemberLeft gid n username reason \<Rightarrow>
          on_manager api (\<lambda>rnd. handle_member_left (ap_crypto api) c rnd gid n username reason) st
      | GpMemberRoleChanged gid n role \<Rightarrow> on_manager api (\<lambda>_. handle_member_role_changed c gid n role) st
      | _ \<Rightarrow> ([], st))"

definition local_message ::
  "('c, 'b) runtime_api \<Rightarrow> ctx \<Rightarrow> group_message \<Rightarrow> ('c, 'b) runtime_state
     \<Rightarrow> group_action list \<times> ('c, 'b) runtime_state" where
  "local_message api c msg st = on_manager api (\<lambda>_. mgr_handle_message (ap_crypto api) (ap_content api) c msg) st"

definition local_sender_key ::
  "('c, 'b) runtime_api \<Rightarrow> ctx \<Rightarrow> group_id \<Rightarrow> node_id \<Rightarrow> u32 \<Rightarrow> encrypted_sender_key list \<Rightarrow> ('c, 'b) runtime_state
     \<Rightarrow> group_action list \<times> ('c, 'b) runtime_state" where
  "local_sender_key api c gid from epoch eks st =
     on_manager api (\<lambda>_. mgr_handle_sender_key_distribution (ap_crypto api) (ap_content api) c gid from epoch eks
       (st_secret_seed st)) st"

fun handle_local_group_payload ::
  "('c, 'b) runtime_api \<Rightarrow> ctx \<Rightarrow> node_id \<Rightarrow> group_payload \<Rightarrow> ('c, 'b) runtime_state
     \<Rightarrow> group_action list \<times> ('c, 'b) runtime_state" where
  "handle_local_group_payload api c self (GpCreate name username members invite_only) st =
     on_hub api c (GpCreate name username members invite_only) self st"
| "handle_local_group_payload api c self (GpJoin gid username) st = on_hub api c (GpJoin gid username) self st"
| "handle_local_group_payload api c self (GpLeave gid) st = on_hub api c (GpLeave gid) self st"
| "handle_local_group_payload api c self (GpKickMember gid target) st = on_hub api c (GpKickMember gid target) self st"
| "handle_local_group_payload api c self (GpUpdateMemberRole gid target role) st =
     on_hub api c (GpUpdateMemberRole gid target role) self st"
| "handle_local_group_payload api c self (GpInviteMember gid target) st =
     on_hub api c (GpInviteMember gid target) self st"
| "handle_local_group_payload api c self (GpSenderKeyDistribution gid from epoch eks) st =
     (let (acts, st) = local_sender_key api c gid from epoch eks st;
          others = filter (\<lambda>ek. esk_recipient_id ek \<noteq> self) eks
      in if others \<noteq> [] \<and> get_group (st_group_hub st) gid \<noteq> None
         then (let (acts', st) = on_hub api c (GpSenderKeyDistribution gid from epoch others) self st
               in (acts @ acts', st))
         else (acts, st))"
| "handle_local_group_payload api c self (GpDeliveryAck gid mid) st =
     (if get_group (st_group_hub st) gid \<noteq> None then on_hub api c (GpDeliveryAck gid mid) self st else ([], st))"
| "handle_local_group_payload api c self (GpMessage msg) st = local_message api c msg st"
| "handle_local_group_payload api c self p st = member_payload api c self p st"

text \<open>
  How long a chain of local processing a payload can start: a request to the hub makes it send
  the new state of the group, which makes the member distribute its key, which at most makes it
  ask for a synchronisation.
\<close>

fun payload_rank :: "group_payload \<Rightarrow> nat" where
  "payload_rank (GpCreate _ _ _ _) = 3"
| "payload_rank (GpJoin _ _) = 3"
| "payload_rank (GpLeave _) = 3"
| "payload_rank (GpKickMember _ _) = 3"
| "payload_rank (GpUpdateMemberRole _ _ _) = 3"
| "payload_rank (GpInviteMember _ _) = 3"
| "payload_rank (GpSync _ _) = 2"
| "payload_rank (GpMemberJoined _ _) = 2"
| "payload_rank (GpMemberLeft _ _ _ _) = 2"
| "payload_rank (GpSenderKeyDistribution _ _ _ _) = 1"
| "payload_rank (GpMessage _) = 1"
| "payload_rank _ = 0"

fun action_rank :: "node_id \<Rightarrow> group_action \<Rightarrow> nat" where
  "action_rank self (GaSend to p) = (if to = self then Suc (payload_rank p) else 0)"
| "action_rank self (GaBroadcast to p) = (if self \<in> set to then Suc (payload_rank p) else 0)"
| "action_rank self _ = 0"

abbreviation ranked :: "node_id \<Rightarrow> nat \<Rightarrow> group_action list \<Rightarrow> bool" where
  "ranked self k \<equiv> list_all (\<lambda>a. action_rank self a \<le> k)"

lemma ranked_mono: "ranked self j acts \<Longrightarrow> j \<le> k \<Longrightarrow> ranked self k acts"
  by (auto simp: list_all_iff)

lemma fst_on_hub [simp]:
  "fst (on_hub api c p from st) =
     fst (hub_handle_payload (ap_crypto api) (with_uuid api c (st_draws st)) p from (st_group_hub st))"
  by (simp add: on_hub_def split: prod.split)

lemma fst_on_manager [simp]:
  "fst (on_manager api f st) = fst (f (ap_rand api (st_draws st)) (st_group_manager st))"
  by (simp add: on_manager_def split: prod.split)

lemma shadow_sync_rank: "ranked self 3 (shadow_sync_actions h gid)"
  by (simp add: shadow_sync_actions_def build_shadow_sync_def split: option.split)

lemma key_replay_rank: "ranked self 3 (sender_key_replay gid latest target)"
  by (auto simp: list_all_iff sender_key_replay_def List.map_filter_def split: option.splits)

lemmas request_ranks = shadow_sync_rank key_replay_rank

lemma hub_request_rank:
  "payload_rank p = 3 \<Longrightarrow> ranked self 3 (fst (hub_handle_payload api c p from h))"
proof (induction p)
  case (GpCreate name username members invite_only)
  show ?case by (simp add: handle_create_def Let_def list_all_iff)
next
  case (GpJoin gid username)
  show ?case by (simp add: handle_join_def Let_def request_ranks split: option.split)
next
  case (GpLeave gid)
  show ?case by (simp add: handle_leave_def Let_def request_ranks split: option.split)
next
  case (GpKickMember gid target)
  show ?case by (simp add: kick_member_def Let_def split: option.split)
next
  case (GpUpdateMemberRole gid target role)
  show ?case by (simp add: update_member_role_def Let_def request_ranks split: option.split)
next
  case (GpInviteMember gid target)
  show ?case by (simp add: invite_member_def Let_def split: option.split)
qed simp_all

lemma key_fanout_rank:
  "ranked self 0 (fst (handle_sender_key_distribution c from gid epoch (filter (\<lambda>ek. esk_recipient_id ek \<noteq> self) eks) h))"
  by (auto simp: list_all_iff handle_sender_key_distribution_def Let_def violation_def split: option.splits)

lemma deliver_rank:
  "ranked self 0 (fst (deliver_message c msg m))"
  "ranked self 0 (fst (deliver_decrypted_message api cp c msg key m))"
  by (auto simp: deliver_decrypted_message_def deliver_message_def Let_def violation_def
      split: option.splits sum.splits)

lemma try_decrypt_rank: "ranked self 1 (fst (try_decrypt_and_deliver api cp c msg m))"
  by (auto simp: try_decrypt_and_deliver_def Let_def build_epoch_resync_actions_def
      intro: ranked_mono [OF deliver_rank(1)] ranked_mono [OF deliver_rank(2)] split: option.split)

lemma retry_pending_rank: "ranked self 1 (fst (retry_pending api cp c from msgs m))"
proof (induction msgs arbitrary: m)
  case (Cons msg msgs)
  show ?case
    using Cons [of m] Cons [of "snd (try_decrypt_and_deliver api cp c msg m)"] try_decrypt_rank [of self api cp c msg m]
    by (simp add: case_prod_beta Let_def)
qed simp

lemma manager_key_rank:
  "ranked self 1 (fst (mgr_handle_sender_key_distribution api cp c gid from epoch eks seed m))"
  using retry_pending_rank [of self api cp c "from"]
  by (simp add: mgr_handle_sender_key_distribution_def Let_def case_prod_beta split: option.split sum.split)

lemma distribution_rank: "ranked self 2 (build_sender_key_distribution api rnd gid m)"
  by (simp add: build_sender_key_distribution_def Let_def split: option.split)

text \<open>Local processing of a payload makes only actions of a lower rank.\<close>

lemma local_payload_ranked: "ranked self (payload_rank p) (fst (handle_local_group_payload api c self p st))"
proof (cases "payload_rank p = 3")
  case True
  then have "handle_local_group_payload api c self p st = on_hub api c p self st"
    by (cases p) simp_all
  with hub_request_rank [OF True] True show ?thesis by simp
next
  case False
  show ?thesis
  proof (cases p)
    case (GpSenderKeyDistribution gid n epoch eks)
    then show ?thesis
      using ranked_mono [OF key_fanout_rank [of self], of 1] manager_key_rank [of self]
      by (simp add: local_sender_key_def case_prod_beta Let_def)
  next
    case (GpMessage msg)
    then show ?thesis
      using try_decrypt_rank [of self] by (simp add: local_message_def mgr_handle_message_def)
  next
    case (GpSync info recent)
    then show ?thesis
      using distribution_rank [of self] by (simp add: member_payload_def handle_group_sync_def Let_def)
  next
    case (GpMemberJoined gid member)
    then show ?thesis
      using distribution_rank [of self]
      by (simp add: member_payload_def handle_member_joined_def Let_def split: option.split)
  next
    case (GpMemberLeft gid n username reason)
    then show ?thesis
      using distribution_rank [of self]
      by (simp add: member_payload_def handle_member_left_def rotate_sender_key_def Let_def split: option.split)
  next
    case (GpCreated info)
    then show ?thesis by (simp add: member_payload_def handle_group_created_def Let_def)
  next
    case (GpInvite gid name inviter username)
    then show ?thesis by (simp add: member_payload_def handle_invite_def Let_def)
  next
    case (GpMemberRoleChanged gid n role)
    then show ?thesis by (simp add: member_payload_def handle_member_role_changed_def Let_def split: option.split)
  next
    case (GpDeliveryAck gid mid)
    then show ?thesis by (simp add: handle_delivery_ack_def)
  qed (use False in \<open>simp_all add: member_payload_def\<close>)
qed

function intercept_loop ::
  "('c, 'b) runtime_api \<Rightarrow> ctx \<Rightarrow> node_id \<Rightarrow> group_action list \<Rightarrow> ('c, 'b) runtime_state
     \<Rightarrow> group_action list \<times> ('c, 'b) runtime_state" where
  "intercept_loop api c self [] st = ([], st)"
| "intercept_loop api c self (GaSend to p # acts) st =
     (if to = self
      then (let (new, st) = handle_local_group_payload api c self p st;
                (done, st) = intercept_loop api c self new st;
                (rest, st) = intercept_loop api c self acts st
            in (done @ rest, st))
      else (let (rest, st) = intercept_loop api c self acts st in (GaSend to p # rest, st)))"
| "intercept_loop api c self (GaBroadcast to p # acts) st =
     (if self \<in> set to
      then (let (new, st) = handle_local_group_payload api c self p st;
                (done, st) = intercept_loop api c self new st;
                remote = filter (\<lambda>t. t \<noteq> self) to;
                (rest, st) = intercept_loop api c self acts st
            in (done @ (if remote \<noteq> [] then [GaBroadcast remote p] else []) @ rest, st))
      else (let (rest, st) = intercept_loop api c self acts st in (GaBroadcast to p # rest, st)))"
| "intercept_loop api c self (GaEvent e # acts) st =
     (let (rest, st) = intercept_loop api c self acts st in (GaEvent e # rest, st))"
| "intercept_loop api c self (GaNone # acts) st =
     (let (rest, st) = intercept_loop api c self acts st in (GaNone # rest, st))"
  by pat_completeness auto

text \<open>The actions still to be processed decrease in the multiset order of their ranks.\<close>

definition pending_ranks :: "node_id \<Rightarrow> group_action list \<Rightarrow> nat multiset" where
  "pending_ranks self acts = mset (map (action_rank self) acts)"

lemma pending_ranks_tail: "(pending_ranks self acts, pending_ranks self (a # acts)) \<in> mult less_than"
  by (simp add: pending_ranks_def subset_implies_mult)

lemma pending_ranks_local:
  assumes "ranked self k new" and "action_rank self a = Suc k"
  shows "(pending_ranks self new, pending_ranks self (a # acts)) \<in> mult less_than"
proof -
  have "(mset (map (action_rank self) acts) + pending_ranks self new,
         mset (map (action_rank self) acts) + {#action_rank self a#}) \<in> mult less_than"
    by (rule one_step_implies_mult) (use assms in \<open>auto simp: pending_ranks_def list_all_iff less_Suc_eq_le\<close>)
  moreover have "(pending_ranks self new, mset (map (action_rank self) acts) + pending_ranks self new) \<in> (mult less_than)\<^sup>="
    by (cases acts) (simp_all add: subset_implies_mult pending_ranks_def subset_mset.less_le)
  ultimately show ?thesis
    by (auto simp: pending_ranks_def intro: transD [OF trans_mult])
qed

lemma pending_ranks_send:
  "(pending_ranks self (fst (handle_local_group_payload api c self p st)), pending_ranks self (GaSend self p # acts))
     \<in> mult less_than"
  by (rule pending_ranks_local [OF local_payload_ranked]) simp

lemma pending_ranks_broadcast:
  "self \<in> set to \<Longrightarrow>
     (pending_ranks self (fst (handle_local_group_payload api c self p st)), pending_ranks self (GaBroadcast to p # acts))
     \<in> mult less_than"
  by (rule pending_ranks_local [OF local_payload_ranked]) simp

termination intercept_loop
proof (relation "inv_image (mult less_than) (\<lambda>(_, _, self, acts, _). pending_ranks self acts)")
  show "wf (inv_image (mult less_than) (\<lambda>(_ :: ('c, 'b) runtime_api, _ :: ctx, self, acts, _ :: ('c, 'b) runtime_state).
      pending_ranks self acts))"
    by (intro wf_inv_image wf_mult) simp
qed (simp_all add: in_inv_image case_prod_beta pending_ranks_tail pending_ranks_send pending_ranks_broadcast
    del: handle_local_group_payload.simps)

definition intercept_self_group_actions ::
  "('c, 'b) runtime_api \<Rightarrow> ctx \<Rightarrow> group_action list \<Rightarrow> ('c, 'b) runtime_state
     \<Rightarrow> group_action list \<times> ('c, 'b) runtime_state" where
  "intercept_self_group_actions api c acts st = intercept_loop api c (st_local_id st) acts st"

definition process_group_actions ::
  "('c, 'b) runtime_api \<Rightarrow> ctx \<Rightarrow> group_action list \<times> ('c, 'b) runtime_state
     \<Rightarrow> runtime_effect list \<times> ('c, 'b) runtime_state" where
  "process_group_actions api c =
     (\<lambda>(acts, st). let (acts, st) = intercept_self_group_actions api c acts st in group_actions_to_effects api c acts st)"

subsection \<open>Periodic ticks\<close>

definition tick_cache_cleanup :: "ctx \<Rightarrow> ('c, 'b) runtime_state \<Rightarrow> ('c, 'b) runtime_state" where
  "tick_cache_cleanup c st = st\<lparr>st_router := cleanup_caches c (st_router st)\<rparr>"

definition tick_tracker_cleanup :: "ctx \<Rightarrow> ('c, 'b) runtime_state \<Rightarrow> ('c, 'b) runtime_state" where
  "tick_tracker_cleanup c st =
     (let t = evict_expired c (st_tracker st)
      in st\<lparr>st_tracker := t, st_pending_envelopes := hm_retain (\<lambda>mid _. tr_status mid t \<noteq> None) (st_pending_envelopes st)\<rparr>)"

definition status_effects :: "status_change option \<Rightarrow> runtime_effect list" where
  "status_effects change = (case change of None \<Rightarrow> [] | Some ch \<Rightarrow> [NotifyStatus ch])"

definition retry_or_fail ::
  "ctx \<Rightarrow> string \<times> node_id \<times> u8 \<Rightarrow> ('c, 'b) runtime_state \<Rightarrow> runtime_effect list \<times> ('c, 'b) runtime_state" where
  "retry_or_fail c = (\<lambda>(mid, to, retries) st.
     if 0 < retries
     then (case hm_get (st_pending_envelopes st) mid of
             None \<Rightarrow> ([], st)
           | Some e \<Rightarrow>
               ([SendEnvelope e, Emit (PeDeliveryRetry mid to (DEFAULT_MAX_RETRIES - retries + 1))],
                st\<lparr>st_tracker := reset_deadline c mid (st_tracker st)\<rparr>))
     else (let last_status = (case tr_status mid (st_tracker st) of None \<Rightarrow> Pending | Some s \<Rightarrow> s);
               (change, t) = mark_failed mid (st_tracker st)
           in (status_effects change @ [Emit (PeDeliveryTimeout mid to last_status)],
               st\<lparr>st_tracker := t, st_pending_envelopes := hm_remove mid (st_pending_envelopes st)\<rparr>)))"

text \<open>Run a step for every element, in order, and collect the effects.\<close>

fun for_each :: "('x \<Rightarrow> 's \<Rightarrow> 'e list \<times> 's) \<Rightarrow> 'x list \<Rightarrow> 's \<Rightarrow> 'e list \<times> 's" where
  "for_each f [] s = ([], s)"
| "for_each f (x # xs) s = (let (es, s) = f x s; (es', s) = for_each f xs s in (es @ es', s))"

definition tick_delivery_deadlines ::
  "ctx \<Rightarrow> ('c, 'b) runtime_state \<Rightarrow> runtime_effect list \<times> ('c, 'b) runtime_state" where
  "tick_delivery_deadlines c st = for_each (retry_or_fail c) (expired_deadlines c (st_tracker st)) st"

text \<open>A chat envelope to a peer, encrypted if the node is configured so.\<close>

definition chat_envelope ::
  "('c, 'b) runtime_api \<Rightarrow> ctx \<Rightarrow> node_id \<Rightarrow> bytes \<Rightarrow> ('c, 'b) runtime_state \<Rightarrow> tom_protocol_error + envelope" where
  "chat_envelope api c to payload st =
     (let n = st_draws st;
          b = builder_via (path_to st to) (builder_new (st_local_id st) to Chat payload)
      in if cf_encryption (st_config st)
         then encrypt_and_sign (ap_crypto api) (ap_wire api) (ap_uuid api n) (now_ms c)
                (fst (ap_entropy api n)) (snd (ap_entropy api n)) (st_secret_seed st) (as_bytes to) b
         else Inr (builder_sign (ap_crypto api) (ap_wire api) (ap_uuid api n) (now_ms c) (st_secret_seed st) b))"

definition redeliver ::
  "('c, 'b) runtime_api \<Rightarrow> ctx \<Rightarrow> node_id \<Rightarrow> backup_entry \<Rightarrow> ('c, 'b) runtime_state
     \<Rightarrow> runtime_effect list \<times> ('c, 'b) runtime_state" where
  "redeliver api c peer entry st =
     (case chat_envelope api c peer (be_payload entry) st of
        Inl _ \<Rightarrow> []
      | Inr e \<Rightarrow> [SendWithBackupFallback e [Emit (PeBackupDelivered (be_message_id entry) peer)] []],
      st\<lparr>st_draws := Suc (st_draws st)\<rparr>)"

definition prepare_backup_delivery ::
  "('c, 'b) runtime_api \<Rightarrow> ctx \<Rightarrow> node_id \<Rightarrow> ('c, 'b) runtime_state \<Rightarrow> runtime_effect list \<times> ('c, 'b) runtime_state" where
  "prepare_backup_delivery api c peer st =
     for_each (redeliver api c peer) (get_for_recipient peer (bc_store (st_backup st))) st"

fun handle_discovery ::
  "('c, 'b) runtime_api \<Rightarrow> ctx \<Rightarrow> discovery_event \<Rightarrow> ('c, 'b) runtime_state
     \<Rightarrow> runtime_effect list \<times> ('c, 'b) runtime_state" where
  "handle_discovery api c (DePeerDiscovered n username source) st = ([Emit (PePeerDiscovered n username source)], st)"
| "handle_discovery api c (DePeerStale n) st = ([Emit (PePeerStale n)], st)"
| "handle_discovery api c (DePeerOffline n) st =
     (let (evs, subnets) = subnet_remove_node n (st_subnets st)
      in (concat (map surface_subnet_event evs) @ [Emit (PePeerOffline n)],
          st\<lparr>st_subnets := subnets, st_role_manager := rm_remove_node n (st_role_manager st)\<rparr>))"
| "handle_discovery api c (DePeerOnline n) st =
     (let (effs, st) = prepare_backup_delivery api c n st in (Emit (PePeerOnline n) # effs, st))"

definition tick_heartbeat ::
  "('c, 'b) runtime_api \<Rightarrow> ctx \<Rightarrow> ('c, 'b) runtime_state \<Rightarrow> runtime_effect list \<times> ('c, 'b) runtime_state" where
  "tick_heartbeat api c st =
     (let (evs, h, t) = check_all c (st_heartbeat st) (st_topology st);
          (effs, st) = for_each (handle_discovery api c) evs (st\<lparr>st_heartbeat := h, st_topology := t\<rparr>)
      in (effs, st\<lparr>st_heartbeat := snd (cleanup_departed c (st_heartbeat st))\<rparr>))"

definition tick_subnets :: "ctx \<Rightarrow> ('c, 'b) runtime_state \<Rightarrow> runtime_effect list \<times> ('c, 'b) runtime_state" where
  "tick_subnets c st =
     (let (evs, subnets) = subnet_evaluate (now_ms c) (st_subnets st)
      in (concat (map surface_subnet_event evs), st\<lparr>st_subnets := subnets\<rparr>))"

definition own_role_announce ::
  "('c, 'b) runtime_api \<Rightarrow> ctx \<Rightarrow> node_id \<Rightarrow> peer_role \<Rightarrow> real \<Rightarrow> ('c, 'b) runtime_state \<Rightarrow> runtime_effect" where
  "own_role_announce api c n role score st =
     BroadcastRoleChange (role_change_announce_new (ap_crypto api) n role score (now_ms c) (st_secret_seed st))"

fun surface_role_action ::
  "('c, 'b) runtime_api \<Rightarrow> ctx \<Rightarrow> role_action \<Rightarrow> ('c, 'b) runtime_state
     \<Rightarrow> runtime_effect list \<times> ('c, 'b) runtime_state" where
  "surface_role_action api c (RoPromoted n score) st =
     (Emit (PeRolePromoted n score) #
        (if n = st_local_id st then [own_role_announce api c n Relay score st] else []), st)"
| "surface_role_action api c (RoDemoted n score) st =
     (Emit (PeRoleDemoted n score) #
        (if n = st_local_id st then [own_role_announce api c n Peer score st] else []), st)"
| "surface_role_action api c (RoLocalRoleChanged role) st =
     (let score = rm_score (ap_exp api) (st_local_id st) (now_ms c) (st_role_manager st)
      in ([Emit (PeLocalRoleChanged role), own_role_announce api c (st_local_id st) role score st],
          st\<lparr>st_local_roles := [role]\<rparr>))"

definition tick_roles ::
  "('c, 'b) runtime_api \<Rightarrow> ctx \<Rightarrow> ('c, 'b) runtime_state \<Rightarrow> runtime_effect list \<times> ('c, 'b) runtime_state" where
  "tick_roles api c st =
     (let (acts, t) = evaluate (ap_exp api) (st_topology st) (now_ms c) (st_role_manager st)
      in for_each (surface_role_action api c) acts (st\<lparr>st_topology := t\<rparr>))"

definition tick_backup ::
  "('c, 'b) runtime_api \<Rightarrow> ctx \<Rightarrow> ('c, 'b) runtime_state \<Rightarrow> runtime_effect list \<times> ('c, 'b) runtime_state" where
  "tick_backup api c st =
     (let (acts, st) = on_backup (backup_tick (now_ms c)) st in backup_actions_to_effects api c acts st)"

definition tick_group_hub_heartbeat ::
  "('c, 'b) runtime_api \<Rightarrow> ctx \<Rightarrow> ('c, 'b) runtime_state \<Rightarrow> runtime_effect list \<times> ('c, 'b) runtime_state" where
  "tick_group_hub_heartbeat api c st = process_group_actions api c (heartbeat_actions (st_group_hub st), st)"

definition tick_shadow_ping ::
  "('c, 'b) runtime_api \<Rightarrow> ctx \<Rightarrow> ('c, 'b) runtime_state \<Rightarrow> runtime_effect list \<times> ('c, 'b) runtime_state" where
  "tick_shadow_ping api c st =
     for_each (\<lambda>(gid, hub) st.
         envelopes_to api c GroupHubPing (pack_vec (ap_group_payload api) (GpHubPing gid)) (path_to st) [hub] st)
       (shadow_groups (st_group_manager st)) st"

definition HUB_MESSAGE_TTL_MS :: u64 where "HUB_MESSAGE_TTL_MS = 24 * 60 * 60 * 1000"

definition tick_hub_cleanup :: "ctx \<Rightarrow> ('c, 'b) runtime_state \<Rightarrow> ('c, 'b) runtime_state" where
  "tick_hub_cleanup c st =
     (let now = now_ms c;
          h = snd (cleanup_expired_messages now HUB_MESSAGE_TTL_MS (st_group_hub st));
          store = map_option (\<lambda>db. snd (cleanup_hub_messages HUB_MESSAGE_TTL_MS db)) (st_store st);
          m = snd (mgr_purge_expired_sender_keys now SENDER_KEY_PURGE_MAX_AGE_MS (st_group_manager st));
          h = snd (purge_expired_sender_keys now SENDER_KEY_PURGE_MAX_AGE_MS h)
      in st\<lparr>st_group_hub := h, st_store := store, st_group_manager := m\<rparr>)"

definition build_gossip_announce :: "('c, 'b) runtime_api \<Rightarrow> ctx \<Rightarrow> ('c, 'b) runtime_state \<Rightarrow> bytes option" where
  "build_gossip_announce api c st =
     (case to_vec (ap_announce api) (peer_announce_new c (st_local_id st) (cf_username (st_config st)) (st_local_roles st)) of
        Inl _ \<Rightarrow> None
      | Inr b \<Rightarrow> Some b)"

definition build_rejoin_effects ::
  "('c, 'b) runtime_api \<Rightarrow> ctx \<Rightarrow> ('c, 'b) runtime_state \<Rightarrow> runtime_effect list \<times> ('c, 'b) runtime_state" where
  "build_rejoin_effects api c st =
     (let acts = rejoin_groups (st_group_manager st)
      in if acts = [] then ([], st) else process_group_actions api c (acts, st))"

subsection \<open>Incoming envelopes\<close>

definition ROLE_ANNOUNCE_THROTTLE_MS :: u64 where "ROLE_ANNOUNCE_THROTTLE_MS = 30000"

definition handle_role_announce ::
  "('c, 'b) runtime_api \<Rightarrow> ctx \<Rightarrow> role_change_announce \<Rightarrow> ('c, 'b) runtime_state
     \<Rightarrow> runtime_effect list \<times> ('c, 'b) runtime_state" where
  "handle_role_announce api c a st =
     (let now = now_ms c; n = ra_node_id a
      in if (case hm_get (st_role_announce_throttle st) n of
               None \<Rightarrow> False | Some last_announce \<Rightarrow> saturating_sub now last_announce < ROLE_ANNOUNCE_THROTTLE_MS)
         then ([], st)
         else if \<not> ra_verify_signature (ap_crypto api) a
         then ([Emit (PeError (''Invalid signature on role announce from '' @ node_to_string n))], st)
         else
           (let info = (case tp_get n (st_topology st) of
                          Some peer \<Rightarrow> peer\<lparr>pi_role := ra_new_role a, pi_last_seen := ra_timestamp a\<rparr>
                        | None \<Rightarrow> \<lparr>pi_node_id = n, pi_role = ra_new_role a, pi_status = Online,
                                    pi_last_seen = ra_timestamp a\<rparr>)
            in ([Emit (case ra_new_role a of Relay \<Rightarrow> PeRolePromoted n (ra_score a) | Peer \<Rightarrow> PeRoleDemoted n (ra_score a))],
                st\<lparr>st_topology := snd (upsert info (st_topology st)),
                   st_role_announce_throttle := hm_insert n now (st_role_announce_throttle st)\<rparr>)))"

definition handle_incoming_chat ::
  "('c, 'b) runtime_api \<Rightarrow> ctx \<Rightarrow> envelope \<Rightarrow> bool \<Rightarrow> ('c, 'b) runtime_state
     \<Rightarrow> runtime_effect list \<times> ('c, 'b) runtime_state" where
  "handle_incoming_chat api c e signature_valid st =
     (let (act, r) = route (ap_router api) (with_uuid api c (st_draws st)) e (st_router st);
          st = st\<lparr>st_router := r, st_draws := Suc (st_draws st)\<rparr>
      in case act of
           RaDeliver e response \<Rightarrow>
             (case (if env_encrypted e then decrypt_payload (ap_crypto api) (ap_wire api) (st_secret_seed st) e else Inr e) of
                Inl err \<Rightarrow>
                  ([Emit (PeError (''decrypt failed from '' @ node_to_string (env_from e) @ '': '' @ error_to_string err))], st)
              | Inr opened \<Rightarrow>
                  ([DeliverMessage \<lparr>dm_from = env_from opened, dm_payload = env_payload opened, dm_envelope_id = env_id opened,
                                   dm_timestamp = env_timestamp opened, dm_signature_valid = signature_valid,
                                   dm_was_encrypted = env_encrypted e\<rparr>,
                    SendEnvelope (sign (ap_crypto api) (ap_wire api) (st_secret_seed st) response)], st))
         | RaForward e next_hop relay_ack \<Rightarrow>
             (let sender = env_from e; now = now_ms c;
                  rm = rm_record_relay sender now (st_role_manager st);
                  len = (case envelope_to_bytes (ap_wire api) e of Inl _ \<Rightarrow> 0 | Inr b \<Rightarrow> of_nat (length b));
                  rm = (if 0 < len then record_bytes_relayed sender len now rm else rm)
              in ([SendEnvelopeTo next_hop e,
                   SendEnvelopeTo sender (sign (ap_crypto api) (ap_wire api) (st_secret_seed st) relay_ack),
                   Emit (PeForwarded (env_id e) next_hop)],
                  st\<lparr>st_role_manager := rm\<rparr>))
         | RaAck mid kind _ \<Rightarrow>
             (case kind of
                RelayForwarded \<Rightarrow>
                  (let (change, t) = mark_relayed mid (st_tracker st) in (status_effects change, st\<lparr>st_tracker := t\<rparr>))
              | RecipientReceived \<Rightarrow>
                  (let (change, t) = mark_delivered mid (st_tracker st)
                   in (status_effects change,
                       st\<lparr>st_tracker := t, st_pending_envelopes := hm_remove mid (st_pending_envelopes st)\<rparr>)))
         | RaReadReceipt mid _ _ \<Rightarrow>
             (let (change, t) = mark_read mid (st_tracker st) in (status_effects change, st\<lparr>st_tracker := t\<rparr>))
         | RaReject reason \<Rightarrow> ([Emit (PeMessageRejected reason)], st)
         | RaDrop \<Rightarrow> ([], st))"

definition MAX_SYNC_RESPONSE :: nat where "MAX_SYNC_RESPONSE = 500"

definition add_missed :: "u64 \<Rightarrow> group_message list \<times> u64 \<Rightarrow> group_message \<Rightarrow> group_message list \<times> u64" where
  "add_missed seq = (\<lambda>(msgs, latest) msg. (msgs @ [msg], if latest < seq then seq else latest))"

definition handle_sync_request ::
  "('c, 'b) runtime_api \<Rightarrow> node_id \<Rightarrow> group_id \<Rightarrow> u64 \<Rightarrow> ('c, 'b) runtime_state \<Rightarrow> group_action list" where
  "handle_sync_request api from gid since_seq st =
     (if get_group (st_group_hub st) gid = None then []
      else
        (let stored = (case st_store st of
                         None \<Rightarrow> ([], since_seq)
                       | Some db \<Rightarrow>
                           fold (\<lambda>(seq, data) acc. case from_slice (ap_group_message api) data of
                                   Inl _ \<Rightarrow> acc | Inr msg \<Rightarrow> add_missed seq acc msg)
                             (load_hub_messages_since gid since_seq MAX_SYNC_RESPONSE db) ([], since_seq));
             (msgs, latest) =
               (case message_history (st_group_hub st) gid of
                  None \<Rightarrow> stored
                | Some history \<Rightarrow>
                    let (msgs, latest) =
                      fold (\<lambda>msg acc. if since_seq < msg_seq msg \<and> msg_message_id msg \<notin> msg_message_id ` set (fst acc)
                              then add_missed (msg_seq msg) acc msg else acc) history stored
                    in (sort_key msg_seq msgs, latest))
         in if msgs = [] then [] else [GaSend from (GpSyncResponse gid msgs latest)]))"

definition handle_sync_response ::
  "('c, 'b) runtime_api \<Rightarrow> ctx \<Rightarrow> group_id \<Rightarrow> group_message list \<Rightarrow> u64 \<Rightarrow> ('c, 'b) runtime_state
     \<Rightarrow> group_action list \<times> ('c, 'b) runtime_state" where
  "handle_sync_response api c gid msgs latest st =
     (let (acts, st) = for_each (local_message api c) msgs st;
          m = st_group_manager st
      in (acts, st\<lparr>st_group_manager := if last_seq m gid < latest then set_last_seq gid latest m else m\<rparr>))"

text \<open>The group that a request to the hub is about; for a creation, the group that was made.\<close>

definition affected_group :: "group_payload \<Rightarrow> group_action list \<Rightarrow> group_id option" where
  "affected_group p acts =
     (case p of
        GpJoin gid _ \<Rightarrow> Some gid
      | GpLeave gid \<Rightarrow> Some gid
      | GpKickMember gid _ \<Rightarrow> Some gid
      | GpUpdateMemberRole gid _ _ \<Rightarrow> Some gid
      | GpInviteMember gid _ \<Rightarrow> Some gid
      | _ \<Rightarrow> (case List.map_filter (\<lambda>a. case a of GaSend _ (GpCreated info) \<Rightarrow> Some (gi_group_id info) | _ \<Rightarrow> None) acts of
                [] \<Rightarrow> None | gid # _ \<Rightarrow> Some gid))"

definition hub_request ::
  "('c, 'b) runtime_api \<Rightarrow> ctx \<Rightarrow> group_payload \<Rightarrow> node_id \<Rightarrow> ('c, 'b) runtime_state
     \<Rightarrow> group_action list \<times> ('c, 'b) runtime_state" where
  "hub_request api c p from st =
     (let (acts, st) = on_hub api c p from st
      in case affected_group p acts of
           None \<Rightarrow> (acts, st)
         | Some gid \<Rightarrow>
             if get_group (st_group_hub st) gid = None then (acts, st)
             else (let (shadow, h) = assign_shadow gid (st_group_hub st) in (acts @ shadow, st\<lparr>st_group_hub := h\<rparr>)))"

definition hub_bound :: "group_payload \<Rightarrow> bool" where
  "hub_bound p \<longleftrightarrow>
     (case p of
        GpCreate _ _ _ _ \<Rightarrow> True | GpJoin _ _ \<Rightarrow> True | GpLeave _ \<Rightarrow> True | GpKickMember _ _ \<Rightarrow> True
      | GpUpdateMemberRole _ _ _ \<Rightarrow> True | GpInviteMember _ _ \<Rightarrow> True | _ \<Rightarrow> False)"

definition hosts :: "('c, 'b) runtime_state \<Rightarrow> group_id \<Rightarrow> bool" where
  "hosts st gid \<longleftrightarrow> get_group (st_group_hub st) gid \<noteq> None"

fun dispatch_group ::
  "('c, 'b) runtime_api \<Rightarrow> ctx \<Rightarrow> node_id \<Rightarrow> group_payload \<Rightarrow> ('c, 'b) runtime_state
     \<Rightarrow> group_action list \<times> ('c, 'b) runtime_state" where
  "dispatch_group api c from (GpMessage msg) st =
     (if hosts st (msg_group_id msg) then on_hub api c (GpMessage msg) from st else local_message api c msg st)"
| "dispatch_group api c from (GpDeliveryAck gid mid) st =
     (if hosts st gid then on_hub api c (GpDeliveryAck gid mid) from st else ([], st))"
| "dispatch_group api c from (GpHubMigration gid new_hub old_hub) st =
     on_manager api (\<lambda>_. handle_hub_migration c gid new_hub) st"
| "dispatch_group api c from (GpHubHeartbeat gid n) st = ([], st)"
| "dispatch_group api c from (GpHubPong gid) st =
     ([], st\<lparr>st_group_manager := reset_ping_failures gid (st_group_manager st)\<rparr>)"
| "dispatch_group api c from (GpHubShadowSync gid members candidate version) st =
     on_manager api (\<lambda>_. handle_shadow_sync gid members candidate version) st"
| "dispatch_group api c from (GpHubUnreachable gid) st = on_manager api (\<lambda>_. handle_hub_unreachable gid from) st"
| "dispatch_group api c from (GpSenderKeyDistribution gid n epoch eks) st =
     (if hosts st gid then on_hub api c (GpSenderKeyDistribution gid n epoch eks) from st
      else local_sender_key api c gid n epoch eks st)"
| "dispatch_group api c from (GpSyncRequest gid since_seq) st = (handle_sync_request api from gid since_seq st, st)"
| "dispatch_group api c from (GpSyncResponse gid msgs latest) st = handle_sync_response api c gid msgs latest st"
| "dispatch_group api c from p st = (if hub_bound p then hub_request api c p from st else member_payload api c from p st)"

text \<open>A ping and a candidate's assignment are answered without local processing.\<close>

definition handle_group_payload ::
  "('c, 'b) runtime_api \<Rightarrow> ctx \<Rightarrow> node_id \<Rightarrow> group_payload \<Rightarrow> ('c, 'b) runtime_state
     \<Rightarrow> runtime_effect list \<times> ('c, 'b) runtime_state" where
  "handle_group_payload api c from p st =
     (case p of
        GpHubPing gid \<Rightarrow>
          if hosts st gid then group_actions_to_effects api c (handle_hub_ping gid from (st_group_hub st)) st
          else ([], st)
      | GpCandidateAssigned gid \<Rightarrow> ([Emit (PeGroupCandidateAssigned gid)], st)
      | _ \<Rightarrow> process_group_actions api c (dispatch_group api c from p st))"

definition handle_incoming_group ::
  "('c, 'b) runtime_api \<Rightarrow> ctx \<Rightarrow> envelope \<Rightarrow> ('c, 'b) runtime_state
     \<Rightarrow> runtime_effect list \<times> ('c, 'b) runtime_state" where
  "handle_incoming_group api c e st =
     (case (if env_encrypted e then decrypt_payload (ap_crypto api) (ap_wire api) (st_secret_seed st) e else Inr e) of
        Inl err \<Rightarrow> ([Emit (PeError (''group decrypt failed: '' @ error_to_string err))], st)
      | Inr e \<Rightarrow>
          (case unpack_slice (ap_group_payload api) (env_payload e) of
             Inl _ \<Rightarrow> ([], st)
           | Inr p \<Rightarrow> handle_group_payload api c (env_from e) p st))"

definition handle_incoming_backup ::
  "('c, 'b) runtime_api \<Rightarrow> ctx \<Rightarrow> envelope \<Rightarrow> ('c, 'b) runtime_state
     \<Rightarrow> runtime_effect list \<times> ('c, 'b) runtime_state" where
  "handle_incoming_backup api c e st =
     (let now = now_ms c; b = env_payload e;
          run = (\<lambda>f. let (acts, st) = on_backup f st in backup_actions_to_effects api c acts st)
      in if env_msg_type e \<in> {BackupReplicate, BackupStore, BackupDeliver}
         then (case unpack_slice (ap_replication api) b of
                 Inl _ \<Rightarrow> ([], st)
               | Inr payload \<Rightarrow> run (handle_replication payload (env_from e) now))
         else if env_msg_type e = BackupReplicateAck
         then (case unpack_slice (ap_id api) b of
                 Inl _ \<Rightarrow> ([], st)
               | Inr mid \<Rightarrow> run (handle_replication_ack mid (env_from e)))
         else if env_msg_type e = BackupQuery
         then (case unpack_slice (ap_node api) b of
                 Inl _ \<Rightarrow> ([], st)
               | Inr recipient \<Rightarrow>
                   let entries = get_for_recipient recipient (bc_store (st_backup st))
                   in if entries = [] then ([], st)
                      else envelopes_to api c BackupQueryResponse (pack_vec (ap_ids api) (map be_message_id entries))
                             (\<lambda>_. []) [env_from e] st)
         else if env_msg_type e = BackupQueryResponse
         then (case unpack_slice (ap_ids api) b of
                 Inl _ \<Rightarrow> ([], st)
               | Inr mids \<Rightarrow> ([], st\<lparr>st_backup := snd (handle_query_response (env_from e) mids now (st_backup st))\<rparr>))
         else if env_msg_type e = BackupConfirmDelivery
         then (case unpack_slice (ap_ids api) b of
                 Inl _ \<Rightarrow> ([], st)
               | Inr mids \<Rightarrow> run (handle_delivery_confirmation mids))
         else ([], st))"

definition handle_peer_announce ::
  "('c, 'b) runtime_api \<Rightarrow> ctx \<Rightarrow> envelope \<Rightarrow> ('c, 'b) runtime_state
     \<Rightarrow> runtime_effect list \<times> ('c, 'b) runtime_state" where
  "handle_peer_announce api c e st =
     ([], case from_slice (ap_announce api) (env_payload e) of
            Inl _ \<Rightarrow> st
          | Inr a \<Rightarrow>
              if is_timestamp_valid a (now_ms c)
              then note_peer c (pa_node_id a) Direct (pa_username a) (online_peer c Peer (pa_node_id a)) st
              else st)"

datatype message_class = ChatClass | GroupClass | BackupClass | AnnounceClass

fun class_of :: "message_type \<Rightarrow> message_class" where
  "class_of Chat = ChatClass"
| "class_of Ack = ChatClass"
| "class_of ReadReceipt = ChatClass"
| "class_of Heartbeat = ChatClass"
| "class_of BackupStore = BackupClass"
| "class_of BackupDeliver = BackupClass"
| "class_of BackupReplicate = BackupClass"
| "class_of BackupReplicateAck = BackupClass"
| "class_of BackupQuery = BackupClass"
| "class_of BackupQueryResponse = BackupClass"
| "class_of BackupConfirmDelivery = BackupClass"
| "class_of PeerAnnounce = AnnounceClass"
| "class_of _ = GroupClass"

definition size_rejection :: "anti_spam_error \<Rightarrow> string" where
  "size_rejection err =
     (case err of
        EnvelopeTooLarge len limit \<Rightarrow>
          ''Envelope size '' @ show_nat len @ '' exceeds limit '' @ show_nat limit @ '' bytes''
      | RateLimited _ _ \<Rightarrow> [])"

text \<open>What happens to every envelope that passes the limits, before it is dispatched.\<close>

definition register_sender ::
  "ctx \<Rightarrow> envelope \<Rightarrow> nat \<Rightarrow> ('c, 'b) runtime_state \<Rightarrow> ('c, 'b) runtime_state" where
  "register_sender c e len st =
     (let n = env_from e;
          st = st\<lparr>st_role_manager := record_bytes_received n (of_nat len) (now_ms c) (st_role_manager st),
                  st_heartbeat := record_heartbeat c n (st_heartbeat st)\<rparr>
      in if tp_get n (st_topology st) = None
         then st\<lparr>st_topology := snd (upsert (online_peer c Peer n) (st_topology st))\<rparr> else st)"

definition signature_valid :: "('c, 'b) runtime_api \<Rightarrow> envelope \<Rightarrow> bool" where
  "signature_valid api e \<longleftrightarrow> is_signed e \<and> verify_signature (ap_crypto api) (ap_wire api) e = Inr ()"

definition dispatch_envelope ::
  "('c, 'b) runtime_api \<Rightarrow> ctx \<Rightarrow> envelope \<Rightarrow> ('c, 'b) runtime_state
     \<Rightarrow> runtime_effect list \<times> ('c, 'b) runtime_state" where
  "dispatch_envelope api c e st =
     (case class_of (env_msg_type e) of
        ChatClass \<Rightarrow>
          handle_incoming_chat api c e (signature_valid api e)
            (if env_msg_type e = Chat
             then st\<lparr>st_subnets := record_communication (env_from e) (st_local_id st) (now_ms c) (st_subnets st)\<rparr>
             else st)
      | GroupClass \<Rightarrow> handle_incoming_group api c e st
      | BackupClass \<Rightarrow> handle_incoming_backup api c e st
      | AnnounceClass \<Rightarrow> handle_peer_announce api c e st)"

definition rate_exempt :: "message_type \<Rightarrow> bool" where
  "rate_exempt t \<longleftrightarrow> t = Ack \<or> t = Heartbeat \<or> t = ReadReceipt"

definition handle_incoming ::
  "('c, 'b) runtime_api \<Rightarrow> ctx \<Rightarrow> bytes \<Rightarrow> ('c, 'b) runtime_state
     \<Rightarrow> (runtime_effect list \<times> ('c, 'b) runtime_state) option" where
  "handle_incoming api c raw st =
     (case validate_size raw (ac_max_envelope_size (cf_antispam_config (st_config st))) of
        Inl err \<Rightarrow> Some ([Emit (PeMessageRejected (size_rejection err))], st)
      | Inr _ \<Rightarrow>
          (case envelope_from_bytes (ap_wire api) raw of
             Inl _ \<Rightarrow> Some ([], st)
           | Inr e \<Rightarrow>
               let accept = (\<lambda>st. dispatch_envelope api c e (register_sender c e (length raw) st))
               in if rate_exempt (env_msg_type e) then Some (accept st)
                  else
                    (let score = rm_score (ap_exp api) (env_from e) (now_ms c) (st_role_manager st)
                     in case check_rate (ap_buckets api) (env_from e) score (now_ms c) (st_antispam st) of
                          None \<Rightarrow> None
                        | Some (Inl _, limiter) \<Rightarrow>
                            Some ([Emit (PeSenderThrottled (env_from e) score (compute_rate (as_config limiter) score))],
                                  st\<lparr>st_antispam := limiter\<rparr>)
                        | Some (Inr _, limiter) \<Rightarrow> Some (accept (st\<lparr>st_antispam := limiter\<rparr>)))))"

subsection \<open>Commands\<close>

definition handle_send_message ::
  "('c, 'b) runtime_api \<Rightarrow> ctx \<Rightarrow> node_id \<Rightarrow> bytes \<Rightarrow> ('c, 'b) runtime_state
     \<Rightarrow> runtime_effect list \<times> ('c, 'b) runtime_state" where
  "handle_send_message api c to payload st =
     (case chat_envelope api c to payload st of
        Inl err \<Rightarrow>
          ([Emit (PeError (''encrypt failed for '' @ node_to_string to @ '': '' @ error_to_string err))],
           st\<lparr>st_draws := Suc (st_draws st)\<rparr>)
      | Inr e \<Rightarrow>
          (let mid = env_id e;
               (tracked, t) = track c mid to (st_tracker st);
               (sent, t) = mark_sent mid t;
               st = st\<lparr>st_tracker := t, st_draws := Suc (st_draws st)\<rparr>;
               (acts, st) = on_backup (bc_store_message mid payload to (st_local_id st) (now_ms c) None) st;
               (on_failure, st) = backup_actions_to_effects api c acts st;
               failed = Emit (PeError (''send to '' @ node_to_string (first_hop e) @ '' failed (backed up)''))
           in ([SendWithBackupFallback e (status_effects tracked @ status_effects sent) (on_failure @ [failed])],
               st\<lparr>st_pending_envelopes := hm_insert mid e (st_pending_envelopes st)\<rparr>)))"

definition own_group_message ::
  "('c, 'b) runtime_api \<Rightarrow> ctx \<Rightarrow> group_id \<Rightarrow> string \<Rightarrow> ('c, 'b) runtime_state \<Rightarrow> group_message option" where
  "own_group_message api c gid txt st =
     (let n = st_draws st; c = with_uuid api c n; username = cf_username (st_config st)
      in case hm_get (mgr_local_sender_keys (st_group_manager st)) gid of
           Some k \<Rightarrow>
             group_message_new_encrypted (ap_crypto api) (ap_content api) c (snd (ap_entropy api n)) gid (st_local_id st)
               username txt (ske_key k) (ske_epoch k)
         | None \<Rightarrow> Some (group_message_new c gid (st_local_id st) username txt))"

definition rotate_before_send ::
  "('c, 'b) runtime_api \<Rightarrow> ctx \<Rightarrow> group_id \<Rightarrow> ('c, 'b) runtime_state
     \<Rightarrow> runtime_effect list \<times> ('c, 'b) runtime_state" where
  "rotate_before_send api c gid st =
     (let (acts, st) = on_manager api (\<lambda>rnd. maybe_rotate_local_sender_key (ap_crypto api) c rnd gid) st
      in if acts = [] then ([], st) else process_group_actions api c (acts, st))"

definition handle_send_group_message ::
  "('c, 'b) runtime_api \<Rightarrow> ctx \<Rightarrow> group_id \<Rightarrow> string \<Rightarrow> ('c, 'b) runtime_state
     \<Rightarrow> (runtime_effect list \<times> ('c, 'b) runtime_state) option" where
  "handle_send_group_message api c gid txt st =
     (let (pre, st) = rotate_before_send api c gid st
      in case hm_get (mgr_groups (st_group_manager st)) gid of
           None \<Rightarrow> Some ([Emit (PeError (''not a member of group '' @ gid_string gid))], st)
         | Some grp \<Rightarrow>
             (case own_group_message api c gid txt st of
                None \<Rightarrow> None
              | Some msg \<Rightarrow>
                  (let payload = GpMessage (msg_sign (ap_crypto api) (st_secret_seed st) msg);
                       hub = gi_hub_relay_id grp;
                       st = st\<lparr>st_group_manager := note_local_message_sent gid (st_group_manager st),
                               st_draws := Suc (st_draws st)\<rparr>;
                       (effs, st) =
                         (if hub = st_local_id st
                          then process_group_actions api c (on_hub api c payload (st_local_id st) st)
                          else envelopes_to api c GroupMessage (pack_vec (ap_group_payload api) payload) (path_to st) [hub] st)
                   in Some (pre @ effs, st))))"

definition handle_send_read_receipt ::
  "('c, 'b) runtime_api \<Rightarrow> ctx \<Rightarrow> node_id \<Rightarrow> string \<Rightarrow> ('c, 'b) runtime_state
     \<Rightarrow> runtime_effect list \<times> ('c, 'b) runtime_state" where
  "handle_send_read_receipt api c to mid st =
     envelopes_to api c ReadReceipt
       (pack_vec (api_read_receipt (ap_router api)) \<lparr>rr_original_message_id = mid, rr_read_at = now_ms c\<rparr>)
       (path_to st) [to] st"

definition admin_command ::
  "('c, 'b) runtime_api \<Rightarrow> ctx \<Rightarrow> group_id \<Rightarrow> group_payload \<Rightarrow> ('c, 'b) runtime_state
     \<Rightarrow> runtime_effect list \<times> ('c, 'b) runtime_state" where
  "admin_command api c gid payload st =
     (case hm_get (mgr_groups (st_group_manager st)) gid of
        None \<Rightarrow> ([], st)
      | Some grp \<Rightarrow>
          if gi_hub_relay_id grp = st_local_id st
          then process_group_actions api c (on_hub api c payload (st_local_id st) st)
          else group_actions_to_effects api c [GaSend (gi_hub_relay_id grp) payload] st)"

definition create_group_command ::
  "('c, 'b) runtime_api \<Rightarrow> ctx \<Rightarrow> string \<Rightarrow> node_id \<Rightarrow> node_id list \<Rightarrow> bool \<Rightarrow> ('c, 'b) runtime_state
     \<Rightarrow> runtime_effect list \<times> ('c, 'b) runtime_state" where
  "create_group_command api c name hub members invite_only st =
     (if hub = st_local_id st
      then process_group_actions api c
             (on_hub api c (GpCreate name (cf_username (st_config st)) members invite_only) (st_local_id st) st)
      else group_actions_to_effects api c
             (create_group_with_options name hub members invite_only (st_group_manager st)) st)"

text \<open>The effects and new state of a command that asks for no answer.\<close>

fun run_command ::
  "('c, 'b) runtime_api \<Rightarrow> ctx \<Rightarrow> runtime_command \<Rightarrow> ('c, 'b) runtime_state
     \<Rightarrow> (runtime_effect list \<times> ('c, 'b) runtime_state) option" where
  "run_command api c (CmdSendMessage to payload) st =
     Some (handle_send_message api c to payload
       (st\<lparr>st_subnets := record_communication (st_local_id st) to (now_ms c) (st_subnets st)\<rparr>))"
| "run_command api c (CmdSendGroupMessage gid txt) st = handle_send_group_message api c gid txt st"
| "run_command api c (CmdSendReadReceipt to mid) st = Some (handle_send_read_receipt api c to mid st)"
| "run_command api c (CmdAddPeer n) st = Some ([], note_peer c n Direct [] (online_peer c Peer n) st)"
| "run_command api c (CmdUpsertPeer info) st = Some ([], note_peer c (pi_node_id info) Direct [] info st)"
| "run_command api c (CmdRemovePeer n) st =
     Some ([], st\<lparr>st_topology := tp_remove n (st_topology st), st_heartbeat := untrack_peer n (st_heartbeat st)\<rparr>)"
| "run_command api c (CmdCreateGroup name hub members invite_only) st =
     Some (create_group_command api c name hub members invite_only st)"
| "run_command api c (CmdAcceptInvite gid) st =
     Some (process_group_actions api c (on_manager api (\<lambda>_. accept_invite c gid) st))"
| "run_command api c (CmdDeclineInvite gid) st =
     Some ([], st\<lparr>st_group_manager := snd (decline_invite gid (st_group_manager st))\<rparr>)"
| "run_command api c (CmdLeaveGroup gid) st =
     Some (process_group_actions api c (on_manager api (\<lambda>_. leave_group gid) st))"
| "run_command api c (CmdKickMember gid target) st = Some (admin_command api c gid (GpKickMember gid target) st)"
| "run_command api c (CmdUpdateMemberRole gid target role) st =
     Some (admin_command api c gid (GpUpdateMemberRole gid target role) st)"
| "run_command api c (CmdInviteMember gid target) st = Some (admin_command api c gid (GpInviteMember gid target) st)"
| "run_command api c (CmdDhtLookupResult name) st =
     Some ([], case parse_node (ap_json api) name of
                 None \<Rightarrow> st
               | Some n \<Rightarrow> note_peer c n Dht [] (online_peer c Peer n) st)"
| "run_command api c _ st = Some ([], st)"

fun command_reply ::
  "('c, 'b) runtime_api \<Rightarrow> ctx \<Rightarrow> runtime_command \<Rightarrow> ('c, 'b) runtime_state \<Rightarrow> runtime_reply option" where
  "command_reply api c CmdGetGroups st = Some (RepGroups (hm_values (mgr_groups (st_group_manager st))))"
| "command_reply api c CmdGetPendingInvites st =
     Some (RepPendingInvites (hm_values (mgr_pending_invites (st_group_manager st))))"
| "command_reply api c (CmdGetRoleMetrics n) st =
     Some (RepRoleMetrics (get_metrics (ap_exp api) n (st_topology st) (now_ms c) (st_role_manager st)))"
| "command_reply api c CmdGetAllRoleScores st =
     Some (RepAllRoleScores (get_all_scores (ap_exp api) (st_topology st) (now_ms c) (st_role_manager st)))"
| "command_reply api c _ st = None"

definition handle_command ::
  "('c, 'b) runtime_api \<Rightarrow> ctx \<Rightarrow> runtime_command \<Rightarrow> ('c, 'b) runtime_state
     \<Rightarrow> (runtime_reply option \<times> runtime_effect list \<times> ('c, 'b) runtime_state) option" where
  "handle_command api c cmd st = map_option (\<lambda>r. (command_reply api c cmd st, r)) (run_command api c cmd st)"

subsection \<open>Gossip\<close>

fun handle_gossip_event ::
  "('c, 'b) runtime_api \<Rightarrow> ctx \<Rightarrow> gossip_input \<Rightarrow> ('c, 'b) runtime_state
     \<Rightarrow> runtime_effect list \<times> ('c, 'b) runtime_state" where
  "handle_gossip_event api c (GiPeerAnnounce b) st =
     (case from_slice (ap_announce api) b of
        Inr a \<Rightarrow>
          if is_timestamp_valid a (now_ms c)
          then (let n = pa_node_id a; role = (if Relay \<in> set (pa_roles a) then Relay else Peer)
                in ([], note_peer c n Announce (pa_username a) (online_peer c role n) st))
          else (case from_slice (ap_role_announce api) b of
                  Inr ra \<Rightarrow> handle_role_announce api c ra st | Inl _ \<Rightarrow> ([], st))
      | Inl _ \<Rightarrow>
          (case from_slice (ap_role_announce api) b of
             Inr ra \<Rightarrow> handle_role_announce api c ra st | Inl _ \<Rightarrow> ([], st)))"
| "handle_gossip_event api c (GiNeighborUp n) st =
     ([Emit (PeGossipNeighborUp n)], note_peer c n Gossip [] (online_peer c Peer n) st)"
| "handle_gossip_event api c (GiNeighborDown n) st = ([Emit (PeGossipNeighborDown n)], st)"

end
