(* ===== verification/Tom_Executor.thy ===== *)
theory Tom_Executor
  imports Tom_Runtime
begin

section \<open>Executing effects, and the event loop\<close>

text \<open>
  Models \<^verbatim>\<open>tom-protocol/src/runtime/executor.rs\<close>, the counters of \<^verbatim>\<open>runtime/metrics.rs\<close> and the event loop of
  \<^verbatim>\<open>runtime/loop.rs\<close>.

  The transport is a parameter: a function that tries to send bytes to a node and may change its
  own state. The channels to the application hold what was sent on them and have some room
  left; \<open>try_send\<close> drops when there is none, an awaited \<open>send\<close> waits for room. The loop is a function of
  one input at a time, one input for each branch of its \<open>select!\<close>, in the order in which they become ready.
\<close>

subsection \<open>Channels, counters and the transport\<close>

record 'a channel =
  ch_items :: "'a list"
  ch_room :: nat

definition try_send :: "'a \<Rightarrow> 'a channel \<Rightarrow> bool \<times> 'a channel" where
  "try_send x ch =
     (if ch_room ch = 0 then (False, ch) else (True, \<lparr>ch_items = ch_items ch @ [x], ch_room = ch_room ch - 1\<rparr>))"

definition send_awaited :: "'a \<Rightarrow> 'a channel \<Rightarrow> 'a channel" where
  "send_awaited x ch = \<lparr>ch_items = ch_items ch @ [x], ch_room = ch_room ch - 1\<rparr>"

record protocol_metrics =
  pm_messages_sent :: u64
  pm_messages_received :: u64
  pm_messages_failed :: u64
  pm_messages_dropped :: u64
  pm_groups_count :: u64
  pm_peers_known :: u64

definition protocol_metrics_new :: protocol_metrics where
  "protocol_metrics_new =
     \<lparr>pm_messages_sent = 0, pm_messages_received = 0, pm_messages_failed = 0, pm_messages_dropped = 0,
      pm_groups_count = 0, pm_peers_known = 0\<rparr>"

definition inc_messages_sent :: "protocol_metrics \<Rightarrow> protocol_metrics" where
  "inc_messages_sent p = p\<lparr>pm_messages_sent := pm_messages_sent p + 1\<rparr>"

definition inc_messages_received :: "protocol_metrics \<Rightarrow> protocol_metrics" where
  "inc_messages_received p = p\<lparr>pm_messages_received := pm_messages_received p + 1\<rparr>"

definition inc_messages_failed :: "protocol_metrics \<Rightarrow> protocol_metrics" where
  "inc_messages_failed p = p\<lparr>pm_messages_failed := pm_messages_failed p + 1\<rparr>"

definition inc_messages_dropped :: "protocol_metrics \<Rightarrow> protocol_metrics" where
  "inc_messages_dropped p = p\<lparr>pm_messages_dropped := pm_messages_dropped p + 1\<rparr>"

text \<open>Calls of the loop to the transport and to gossip, in order.\<close>

datatype node_call =
    AddPeerAddr node_id
  | JoinPeers node_id
  | GossipBroadcast bytes
  | PublishToDht
  | LookupInDht node_id

record 't world =
  wd_transport :: 't
  wd_slept_ms :: nat
  wd_messages :: "delivered_message channel"
  wd_statuses :: "status_change channel"
  wd_events :: "protocol_event channel"
  wd_metrics :: protocol_metrics
  wd_calls :: "node_call list"

type_synonym 't send_raw = "node_id \<Rightarrow> bytes \<Rightarrow> 't \<Rightarrow> (string + unit) \<times> 't"

subsection \<open>The executor\<close>

definition RETRY_DELAYS :: "nat list" where "RETRY_DELAYS = [500, 1000]"

definition attempt :: "'t send_raw \<Rightarrow> node_id \<Rightarrow> bytes \<Rightarrow> 't world \<Rightarrow> (string + unit) \<times> 't world" where
  "attempt send target b w = (let (r, t) = send target b (wd_transport w) in (r, w\<lparr>wd_transport := t\<rparr>))"

fun retry_after ::
  "'t send_raw \<Rightarrow> node_id \<Rightarrow> bytes \<Rightarrow> nat list \<Rightarrow> string + unit \<Rightarrow> 't world \<Rightarrow> (string + unit) \<times> 't world" where
  "retry_after send target b _ (Inr _) w = (Inr (), w)"
| "retry_after send target b [] (Inl err) w = (Inl err, w)"
| "retry_after send target b (d # ds) (Inl err) w =
     (let (r, w) = attempt send target b (w\<lparr>wd_slept_ms := wd_slept_ms w + d\<rparr>) in retry_after send target b ds r w)"

text \<open>The first attempt and the retries, in \<open>send_envelope_to\<close> and in \<open>send_with_retry\<close>.\<close>

definition send_retrying :: "'t send_raw \<Rightarrow> node_id \<Rightarrow> bytes \<Rightarrow> 't world \<Rightarrow> (string + unit) \<times> 't world" where
  "send_retrying send target b w =
     (let (r, w) = attempt send target b w in retry_after send target b RETRY_DELAYS r w)"

definition send_envelope_to ::
  "wire_api \<Rightarrow> 't send_raw \<Rightarrow> node_id \<Rightarrow> envelope \<Rightarrow> 't world \<Rightarrow> 't world" where
  "send_envelope_to wire send target e w =
     (case envelope_to_bytes wire e of
        Inl err \<Rightarrow>
          w\<lparr>wd_metrics := inc_messages_failed (wd_metrics w),
            wd_events := send_awaited (PeError (''serialize envelope failed: '' @ error_to_string err)) (wd_events w)\<rparr>
      | Inr b \<Rightarrow>
          (let (r, w) = send_retrying send target b w
           in case r of
                Inr _ \<Rightarrow> w\<lparr>wd_metrics := inc_messages_sent (wd_metrics w)\<rparr>
              | Inl last_err \<Rightarrow>
                  w\<lparr>wd_metrics := inc_messages_failed (wd_metrics w),
                    wd_events := send_awaited (PeError (''send to '' @ node_to_string target @ '' failed after '' @
                      show_nat (1 + length RETRY_DELAYS) @ '' attempts: '' @ last_err)) (wd_events w)\<rparr>))"

definition send_envelope :: "wire_api \<Rightarrow> 't send_raw \<Rightarrow> envelope \<Rightarrow> 't world \<Rightarrow> 't world" where
  "send_envelope wire send e w = send_envelope_to wire send (first_hop e) e w"

definition send_with_retry ::
  "'t send_raw \<Rightarrow> node_id \<Rightarrow> bytes \<Rightarrow> 't world \<Rightarrow> bool \<times> 't world" where
  "send_with_retry send target b w = (let (r, w) = send_retrying send target b w in (r = Inr (), w))"

fun execute_effect :: "wire_api \<Rightarrow> 't send_raw \<Rightarrow> runtime_effect \<Rightarrow> 't world \<Rightarrow> 't world"
  and execute_effects :: "wire_api \<Rightarrow> 't send_raw \<Rightarrow> runtime_effect list \<Rightarrow> 't world \<Rightarrow> 't world" where
  "execute_effect wire send (SendEnvelope e) w = send_envelope wire send e w"
| "execute_effect wire send (SendEnvelopeTo target e) w = send_envelope_to wire send target e w"
| "execute_effect wire send (DeliverMessage msg) w =
     (let (ok, ch) = try_send msg (wd_messages w)
      in if ok then w\<lparr>wd_messages := ch\<rparr> else w\<lparr>wd_metrics := inc_messages_dropped (wd_metrics w)\<rparr>)"
| "execute_effect wire send (NotifyStatus change) w = w\<lparr>wd_statuses := snd (try_send change (wd_statuses w))\<rparr>"
| "execute_effect wire send (Emit event) w = w\<lparr>wd_events := snd (try_send event (wd_events w))\<rparr>"
| "execute_effect wire send (BroadcastRoleChange _) w = w"
| "execute_effect wire send (SendWithBackupFallback e on_success on_failure) w =
     (let (sent_ok, w) = (case envelope_to_bytes wire e of
                            Inl _ \<Rightarrow> (False, w)
                          | Inr b \<Rightarrow> send_with_retry send (first_hop e) b w)
      in if sent_ok
         then execute_effects wire send on_success (w\<lparr>wd_metrics := inc_messages_sent (wd_metrics w)\<rparr>)
         else execute_effects wire send on_failure (w\<lparr>wd_metrics := inc_messages_failed (wd_metrics w)\<rparr>))"
| "execute_effects wire send [] w = w"
| "execute_effects wire send (eff # effs) w = execute_effects wire send effs (execute_effect wire send eff w)"

subsection \<open>The event loop\<close>

datatype loop_input =
    InData bytes
  | InRecvError string
  | InCommand runtime_command
  | InPathEvent node_id
  | InPeerPresent node_id
  | InGossip gossip_input
  | InGossipLagged
  | TickCacheCleanup
  | TickTrackerCleanup
  | TickHeartbeat
  | TickHubHeartbeat
  | TickShadowPing
  | TickHubCleanup
  | TickBackup
  | TickSubnets
  | TickGossipAnnounce
  | TickRoles
  | TickStateSave
  | TickDhtRepublish
  | TickDeliveryDeadlines

record ('c, 'b, 't) loop_state =
  lp_state :: "('c, 'b) runtime_state"
  lp_world :: "'t world"

text \<open>What the node itself and gossip are asked to do, before the state sees the input.\<close>

definition gossip_calls ::
  "('c, 'b) runtime_api \<Rightarrow> bool \<Rightarrow> ctx \<Rightarrow> ('c, 'b) runtime_state \<Rightarrow> node_call list" where
  "gossip_calls api joined c st =
     (case build_gossip_announce api c st of Some b \<Rightarrow> if joined then [GossipBroadcast b] else [] | None \<Rightarrow> [])"

definition dial :: "bool \<Rightarrow> node_id \<Rightarrow> node_call list" where
  "dial joined n = AddPeerAddr n # (if joined then [JoinPeers n] else [])"

type_synonym ('c, 'b) outcome = "(node_call list \<times> runtime_effect list \<times> ('c, 'b) runtime_state) option"

fun loop_command ::
  "('c, 'b) runtime_api \<Rightarrow> bool \<Rightarrow> bool \<Rightarrow> ctx \<Rightarrow> runtime_command \<Rightarrow> ('c, 'b) runtime_state \<Rightarrow> ('c, 'b) outcome" where
  "loop_command api joined dht c CmdGetConnectedPeers st = Some ([], [], st)"
| "loop_command api joined dht c (CmdAddPeerAddr n) st =
     map_option (Pair (dial joined n)) (run_command api c (CmdAddPeer n) st)"
| "loop_command api joined dht c (CmdAddPeer n) st =
     map_option (Pair (if dht \<and> tp_get n (st_topology st) = None then [LookupInDht n] else []))
       (run_command api c (CmdAddPeer n) st)"
| "loop_command api joined dht c (CmdDhtLookupResult name) st =
     map_option (Pair (case parse_node (ap_json api) name of None \<Rightarrow> [] | Some n \<Rightarrow> dial joined n))
       (run_command api c (CmdDhtLookupResult name) st)"
| "loop_command api joined dht c cmd st = map_option (Pair []) (run_command api c cmd st)"

fun on_input ::
  "('c, 'b) runtime_api \<Rightarrow> bool \<Rightarrow> bool \<Rightarrow> ctx \<Rightarrow> loop_input \<Rightarrow> ('c, 'b) runtime_state \<Rightarrow> ('c, 'b) outcome" where
  "on_input api joined dht c (InData b) st = map_option (Pair []) (handle_incoming api c b st)"
| "on_input api joined dht c (InRecvError e) st = Some ([], [Emit (PeError (''recv error: '' @ e))], st)"
| "on_input api joined dht c (InCommand cmd) st = loop_command api joined dht c cmd st"
| "on_input api joined dht c (InPathEvent n) st = Some ([], [Emit (PePathChanged n)], st)"
| "on_input api joined dht c (InPeerPresent n) st =
     map_option (Pair (dial joined n)) (run_command api c (CmdAddPeer n) st)"
| "on_input api joined dht c (InGossip g) st =
     (let (effs, st) = handle_gossip_event api c g st
      in Some (case g of GiNeighborUp _ \<Rightarrow> gossip_calls api joined c st | _ \<Rightarrow> [], effs, st))"
| "on_input api joined dht c InGossipLagged st = Some ([], [], st)"
| "on_input api joined dht c TickCacheCleanup st = Some ([], [], tick_cache_cleanup c st)"
| "on_input api joined dht c TickTrackerCleanup st = Some ([], [], tick_tracker_cleanup c st)"
| "on_input api joined dht c TickHeartbeat st = Some ([], tick_heartbeat api c st)"
| "on_input api joined dht c TickHubHeartbeat st = Some ([], tick_group_hub_heartbeat api c st)"
| "on_input api joined dht c TickShadowPing st = Some ([], tick_shadow_ping api c st)"
| "on_input api joined dht c TickHubCleanup st = Some ([], [], tick_hub_cleanup c st)"
| "on_input api joined dht c TickBackup st = Some ([], tick_backup api c st)"
| "on_input api joined dht c TickSubnets st = Some ([], tick_subnets c st)"
| "on_input api joined dht c TickGossipAnnounce st = Some (gossip_calls api joined c st, [], st)"
| "on_input api joined dht c TickRoles st = Some ([], tick_roles api c st)"
| "on_input api joined dht c TickStateSave st = Some ([], [], save_state api c st)"
| "on_input api joined dht c TickDhtRepublish st = Some (if dht then [PublishToDht] else [], [], st)"
| "on_input api joined dht c TickDeliveryDeadlines st = Some ([], tick_delivery_deadlines c st)"

text \<open>Announcements of a role change go to gossip, all other effects to the executor.\<close>

definition role_broadcasts :: "('c, 'b) runtime_api \<Rightarrow> bool \<Rightarrow> runtime_effect list \<Rightarrow> node_call list" where
  "role_broadcasts api joined effs =
     List.map_filter (\<lambda>eff. case eff of
         BroadcastRoleChange a \<Rightarrow>
           (case to_vec (ap_role_announce api) a of Inr b \<Rightarrow> if joined then Some (GossipBroadcast b) else None | Inl _ \<Rightarrow> None)
       | _ \<Rightarrow> None) effs"

definition is_role_broadcast :: "runtime_effect \<Rightarrow> bool" where
  "is_role_broadcast eff = (case eff of BroadcastRoleChange _ \<Rightarrow> True | _ \<Rightarrow> False)"

definition count_input :: "loop_input \<Rightarrow> ('c, 'b) runtime_state \<Rightarrow> protocol_metrics \<Rightarrow> protocol_metrics" where
  "count_input inp st p =
     (case inp of
        InData _ \<Rightarrow> inc_messages_received p
      | TickStateSave \<Rightarrow>
          p\<lparr>pm_groups_count := of_nat (length (mgr_groups (st_group_manager st))),
            pm_peers_known := of_nat (tp_len (st_topology st))\<rparr>
      | _ \<Rightarrow> p)"

definition loop_step ::
  "('c, 'b) runtime_api \<Rightarrow> bool \<Rightarrow> bool \<Rightarrow> 't send_raw \<Rightarrow> ctx \<Rightarrow> loop_input \<Rightarrow> ('c, 'b, 't) loop_state
     \<Rightarrow> ('c, 'b, 't) loop_state option" where
  "loop_step api joined dht send c inp lp =
     (case on_input api joined dht c inp (lp_state lp) of
        None \<Rightarrow> None
      | Some (calls, effs, st) \<Rightarrow>
          let w = lp_world lp;
              w = w\<lparr>wd_metrics := count_input inp st (wd_metrics w),
                    wd_calls := wd_calls w @ calls @ role_broadcasts api joined effs\<rparr>
          in Some \<lparr>lp_state = st,
                   lp_world = execute_effects (ap_wire api) send (filter (\<lambda>eff. \<not> is_role_broadcast eff) effs) w\<rparr>)"

text \<open>
  The timers of the loop. Seven periods are configured (the other five are constants), and a
  timer of period zero panics.
\<close>

definition timers_ok :: "runtime_config \<Rightarrow> bool" where
  "timers_ok config \<longleftrightarrow>
     cf_cache_cleanup_interval config \<noteq> 0 \<and> cf_tracker_cleanup_interval config \<noteq> 0 \<and>
     cf_heartbeat_interval config \<noteq> 0 \<and> cf_group_hub_heartbeat_interval config \<noteq> 0 \<and>
     cf_backup_tick_interval config \<noteq> 0 \<and> cf_gossip_announce_interval config \<noteq> 0 \<and>
     cf_shadow_ping_interval config \<noteq> 0"

definition loop_start ::
  "('c, 'b) runtime_api \<Rightarrow> bool \<Rightarrow> 't send_raw \<Rightarrow> ctx \<Rightarrow> ('c, 'b, 't) loop_state
     \<Rightarrow> ('c, 'b, 't) loop_state option" where
  "loop_start api dht send c lp =
     (if \<not> timers_ok (st_config (lp_state lp)) then None
      else
        (let (effs, st) = build_rejoin_effects api c (lp_state lp);
             w = (lp_world lp)\<lparr>wd_calls := wd_calls (lp_world lp) @ (if dht then [PublishToDht] else [])\<rparr>
         in Some \<lparr>lp_state = st, lp_world = execute_effects (ap_wire api) send effs w\<rparr>))"

text \<open>The loop ends at the shutdown command, after saving the state.\<close>

fun runtime_loop ::
  "('c, 'b) runtime_api \<Rightarrow> bool \<Rightarrow> bool \<Rightarrow> 't send_raw \<Rightarrow> (ctx \<times> loop_input) list \<Rightarrow> ('c, 'b, 't) loop_state
     \<Rightarrow> ('c, 'b, 't) loop_state option" where
  "runtime_loop api joined dht send [] lp = Some lp"
| "runtime_loop api joined dht send ((c, inp) # inps) lp =
     (if inp = InCommand CmdShutdown then Some (lp\<lparr>lp_state := save_state api c (lp_state lp)\<rparr>)
      else (case loop_step api joined dht send c inp lp of
              None \<Rightarrow> None
            | Some lp \<Rightarrow> runtime_loop api joined dht send inps lp))"

subsection \<open>What sending achieves\<close>

text \<open>The states of the transport after one, two, \<dots> attempts.\<close>

fun after_attempts :: "'t send_raw \<Rightarrow> node_id \<Rightarrow> bytes \<Rightarrow> nat \<Rightarrow> 't \<Rightarrow> 't" where
  "after_attempts send target b 0 t = t"
| "after_attempts send target b (Suc n) t = after_attempts send target b n (snd (send target b t))"

definition succeeds_at :: "'t send_raw \<Rightarrow> node_id \<Rightarrow> bytes \<Rightarrow> 't \<Rightarrow> nat \<Rightarrow> bool" where
  "succeeds_at send target b t n \<longleftrightarrow> fst (send target b (after_attempts send target b n t)) = Inr ()"

end
