(* ===== verification/Tom_RuntimeSafety.thy ===== *)
theory Tom_RuntimeSafety
  imports Tom_Executor Tom_HubBounds Tom_MemberSafety Tom_BackupSafety Tom_SubnetSafety
begin

section \<open>The runtime as a composition of its components\<close>

text \<open>
  Every handler, tick and command acts on each component only through the operations of that
  component. A run of the whole node is therefore a run of each of its components, and the
  invariants proved for the components hold in every state the node can reach.
\<close>

subsection \<open>Runs of a component\<close>

definition reaches :: "('e \<Rightarrow> 's \<Rightarrow> 's) \<Rightarrow> ('e \<Rightarrow> bool) \<Rightarrow> 's \<Rightarrow> 's \<Rightarrow> bool" where
  "reaches step allowed s s' \<longleftrightarrow> (\<exists>evs. list_all allowed evs \<and> s' = fold step evs s)"

lemma reaches_refl [simp]: "reaches step allowed s s"
  unfolding reaches_def by (rule exI [of _ "[]"]) simp

lemma reaches_trans: "reaches step allowed s t \<Longrightarrow> reaches step allowed t u \<Longrightarrow> reaches step allowed s u"
  unfolding reaches_def by (metis fold_append comp_apply list_all_append)

lemma reaches_step: "allowed e \<Longrightarrow> reaches step allowed s (step e s)"
  unfolding reaches_def by (rule exI [of _ "[e]"]) simp

text \<open>A machine's invariant holds wherever its runs lead.\<close>

context event_machine
begin

lemma reaches_invar: "reaches step allowed s s' \<Longrightarrow> invar s \<Longrightarrow> invar s'"
  by (auto simp: reaches_def intro: run_invar)

end

text \<open>The state \<open>st'\<close> is reached from \<open>st\<close> by operations of the components; the identity of the node is fixed.\<close>

abbreviation any :: "'e \<Rightarrow> bool" where "any \<equiv> \<lambda>_. True"

definition evolves :: "('c, 'b) runtime_api \<Rightarrow> ('c, 'b) runtime_state \<Rightarrow> ('c, 'b) runtime_state \<Rightarrow> bool" where
  "evolves api st st' \<longleftrightarrow>
     st_local_id st' = st_local_id st \<and> st_secret_seed st' = st_secret_seed st \<and> st_config st' = st_config st \<and>
     reaches (router_step (ap_router api)) any (st_router st) (st_router st') \<and>
     reaches topology_step any (st_topology st) (st_topology st') \<and>
     reaches tracker_step not_restore (st_tracker st) (st_tracker st') \<and>
     reaches (hub_step (ap_crypto api)) internal_event (st_group_hub st) (st_group_hub st') \<and>
     reaches (mgr_step (ap_crypto api) (ap_content api)) any (st_group_manager st) (st_group_manager st') \<and>
     reaches bk_step any (bc_store (st_backup st)) (bc_store (st_backup st')) \<and>
     reaches subnet_step any (st_subnets st) (st_subnets st') \<and>
     reaches (limiter_step (ap_buckets api)) any (st_antispam st) (st_antispam st') \<and>
     (heartbeat_wf (st_heartbeat st) \<longrightarrow> heartbeat_wf (st_heartbeat st')) \<and>
     (\<forall>self. roles_wf self (st_role_manager st) \<longrightarrow> roles_wf self (st_role_manager st')) \<and>
     (hm_wf (st_pending_envelopes st) \<longrightarrow> hm_wf (st_pending_envelopes st'))"

named_theorems evolution \<open>steps of the runtime are steps of its components\<close>

lemma evolves_refl [simp, evolution]: "evolves api st st"
  by (simp add: evolves_def)

lemma evolves_trans:
  assumes "evolves api st st'" and "evolves api st' st''"
  shows "evolves api st st''"
  using assms unfolding evolves_def by (auto intro: reaches_trans)

text \<open>Fields outside the components may change freely.\<close>

lemma evolves_free [simp]:
  "evolves api st (st'\<lparr>st_draws := n\<rparr>) \<longleftrightarrow> evolves api st st'"
  "evolves api st (st'\<lparr>st_store := s\<rparr>) \<longleftrightarrow> evolves api st st'"
  "evolves api st (st'\<lparr>st_local_roles := l\<rparr>) \<longleftrightarrow> evolves api st st'"
  "evolves api st (st'\<lparr>st_role_announce_throttle := th\<rparr>) \<longleftrightarrow> evolves api st st'"
  by (simp_all add: evolves_def)

lemma evolves_router:
  "evolves api st st' \<Longrightarrow> reaches (router_step (ap_router api)) any (st_router st') r \<Longrightarrow>
   evolves api st (st'\<lparr>st_router := r\<rparr>)"
  by (auto simp: evolves_def intro: reaches_trans)

lemma evolves_topology:
  "evolves api st st' \<Longrightarrow> reaches topology_step any (st_topology st') t \<Longrightarrow> evolves api st (st'\<lparr>st_topology := t\<rparr>)"
  by (auto simp: evolves_def intro: reaches_trans)

lemma evolves_tracker:
  "evolves api st st' \<Longrightarrow> reaches tracker_step not_restore (st_tracker st') t \<Longrightarrow> evolves api st (st'\<lparr>st_tracker := t\<rparr>)"
  by (auto simp: evolves_def intro: reaches_trans)

lemma evolves_hub:
  "evolves api st st' \<Longrightarrow> reaches (hub_step (ap_crypto api)) internal_event (st_group_hub st') h \<Longrightarrow>
   evolves api st (st'\<lparr>st_group_hub := h\<rparr>)"
  by (auto simp: evolves_def intro: reaches_trans)

lemma evolves_manager:
  "evolves api st st' \<Longrightarrow> reaches (mgr_step (ap_crypto api) (ap_content api)) any (st_group_manager st') m \<Longrightarrow>
   evolves api st (st'\<lparr>st_group_manager := m\<rparr>)"
  by (auto simp: evolves_def intro: reaches_trans)

lemma evolves_backup:
  "evolves api st st' \<Longrightarrow> reaches bk_step any (bc_store (st_backup st')) (bc_store b) \<Longrightarrow>
   evolves api st (st'\<lparr>st_backup := b\<rparr>)"
  by (auto simp: evolves_def intro: reaches_trans)

lemma evolves_subnets:
  "evolves api st st' \<Longrightarrow> reaches subnet_step any (st_subnets st') m \<Longrightarrow> evolves api st (st'\<lparr>st_subnets := m\<rparr>)"
  by (auto simp: evolves_def intro: reaches_trans)

lemma evolves_limiter:
  "evolves api st st' \<Longrightarrow> reaches (limiter_step (ap_buckets api)) any (st_antispam st') a \<Longrightarrow>
   evolves api st (st'\<lparr>st_antispam := a\<rparr>)"
  by (auto simp: evolves_def intro: reaches_trans)

lemma evolves_heartbeat:
  assumes "evolves api st st'" and "st_heartbeat st' = h"
  shows "evolves api st (st'\<lparr>st_heartbeat := record_heartbeat c n h\<rparr>)"
    and "evolves api st (st'\<lparr>st_heartbeat := record_heartbeat_with_source c n src u h\<rparr>)"
    and "evolves api st (st'\<lparr>st_heartbeat := untrack_peer n h\<rparr>)"
    and "evolves api st (st'\<lparr>st_heartbeat := fst (snd (check_all c h t))\<rparr>)"
    and "evolves api st (st'\<lparr>st_heartbeat := snd (cleanup_departed c h)\<rparr>)"
  using assms by (auto simp: evolves_def heartbeat_ops_wf)

lemma evolves_roles:
  assumes "evolves api st st'" and "st_role_manager st' = r"
  shows "evolves api st (st'\<lparr>st_role_manager := rm_record_relay n now r\<rparr>)"
    and "evolves api st (st'\<lparr>st_role_manager := record_bytes_relayed n k now (rm_record_relay n now r)\<rparr>)"
    and "evolves api st (st'\<lparr>st_role_manager := record_bytes_received n k now r\<rparr>)"
    and "evolves api st (st'\<lparr>st_role_manager := rm_remove_node n r\<rparr>)"
  using assms by (auto simp: evolves_def roles_ops_wf)

lemma evolves_pending:
  "evolves api st st' \<Longrightarrow> (hm_wf (st_pending_envelopes st') \<Longrightarrow> hm_wf p) \<Longrightarrow> evolves api st (st'\<lparr>st_pending_envelopes := p\<rparr>)"
  by (auto simp: evolves_def)

lemma evolves_pending_ops:
  assumes "evolves api st st'" and "st_pending_envelopes st' = p"
  shows "evolves api st (st'\<lparr>st_pending_envelopes := hm_insert mid e p\<rparr>)"
    and "evolves api st (st'\<lparr>st_pending_envelopes := hm_remove mid p\<rparr>)"
    and "evolves api st (st'\<lparr>st_pending_envelopes := hm_retain P p\<rparr>)"
  using assms by (auto intro!: evolves_pending hm_wfs)

lemmas evolves_fields =
  evolves_router evolves_topology evolves_tracker evolves_hub evolves_manager evolves_backup evolves_subnets
  evolves_heartbeat evolves_roles evolves_pending_ops

subsection \<open>Operations of the components as events\<close>

lemma topology_reaches:
  "reaches topology_step any t (snd (upsert p t))"
  "reaches topology_step any t (tp_remove n t)"
  "reaches topology_step any t (tp_modify n (\<lambda>p. p\<lparr>pi_role := r\<rparr>) t)"
  "reaches topology_step any t (tp_modify n (\<lambda>p. p\<lparr>pi_status := s\<rparr>) t)"
  using reaches_step [of any "TpUpsert p" topology_step t] reaches_step [of any "TpRemove n" topology_step t]
    reaches_step [of any "TpRole n r" topology_step t] reaches_step [of any "TpStatus n s" topology_step t]
  by simp_all

lemma check_peer_reaches: "reaches topology_step any t (snd (snd (check_peer now x h t)))"
proof -
  have "reaches topology_step any t (set_peer_status n s t)" for n s
    by (simp add: set_peer_status_def topology_reaches split: option.split)
  then show ?thesis by (simp add: check_peer_def Let_def split: prod.split)
qed

lemma check_loop_reaches: "reaches topology_step any t (snd (snd (check_loop now xs h t)))"
proof (induction xs arbitrary: h t)
  case (Cons x xs)
  show ?case
    using reaches_trans [OF check_peer_reaches Cons] by (simp add: case_prod_beta Let_def)
qed simp

lemma evaluate_loop_reaches: "reaches topology_step any t (snd (evaluate_loop ex self now xs t))"
proof (induction xs arbitrary: t)
  case (Cons x xs)
  have "reaches topology_step any t (snd (evaluate_node ex self now x t))"
    by (auto simp: evaluate_node_def Let_def topology_reaches split: prod.split option.split peer_role.split)
  from reaches_trans [OF this Cons] show ?case by (simp add: case_prod_beta Let_def)
qed simp

lemma tracker_reaches:
  "reaches tracker_step not_restore t (snd (track c mid to t))"
  "reaches tracker_step not_restore t (snd (mark_sent mid t))"
  "reaches tracker_step not_restore t (snd (mark_relayed mid t))"
  "reaches tracker_step not_restore t (snd (mark_delivered mid t))"
  "reaches tracker_step not_restore t (snd (mark_read mid t))"
  "reaches tracker_step not_restore t (snd (mark_failed mid t))"
  "reaches tracker_step not_restore t (reset_deadline c mid t)"
  "reaches tracker_step not_restore t (evict_expired c t)"
  using reaches_step [of not_restore "TeTrack c mid to" tracker_step t] reaches_step [of not_restore "TeSent mid" tracker_step t]
    reaches_step [of not_restore "TeRelayed mid" tracker_step t] reaches_step [of not_restore "TeDelivered mid" tracker_step t]
    reaches_step [of not_restore "TeRead mid" tracker_step t] reaches_step [of not_restore "TeFailed mid" tracker_step t]
    reaches_step [of not_restore "TeResetDeadline c mid" tracker_step t] reaches_step [of not_restore "TeEvict c" tracker_step t]
  by simp_all

lemma hub_reaches:
  "reaches (hub_step api) internal_event h (snd (hub_handle_payload api c p src h))"
  "reaches (hub_step api) internal_event h (snd (assign_shadow gid h))"
  "reaches (hub_step api) internal_event h (snd (cleanup_expired_messages now age h))"
  "reaches (hub_step api) internal_event h (snd (purge_expired_sender_keys now age h))"
  using reaches_step [of internal_event "HePayload c p src" "hub_step api" h] reaches_step [of internal_event "HeAssignShadow gid" "hub_step api" h]
    reaches_step [of internal_event "HeCleanupMessages now age" "hub_step api" h]
    reaches_step [of internal_event "HePurgeSenderKeys now age" "hub_step api" h]
  by simp_all

lemma manager_reaches: "reaches (mgr_step api cp) any m (mgr_step api cp ev m)"
  by (rule reaches_step) simp

lemma subnet_reaches:
  "reaches subnet_step any m (record_communication a b now m)"
  "reaches subnet_step any m (snd (subnet_evaluate now m))"
  "reaches subnet_step any m (snd (subnet_remove_node n m))"
  using reaches_step [of any "SnRecord a b now" subnet_step m] reaches_step [of any "SnEvaluate now" subnet_step m]
    reaches_step [of any "SnRemove n" subnet_step m]
  by simp_all

lemma store_reaches:
  "reaches bk_step any s (snd (bs_store mid pl r sd now ttl s))"
  "reaches bk_step any s (snd (store_replica p now s))"
  "reaches bk_step any s (snd (mark_delivered_batch mids s))"
  "reaches bk_step any s (record_replication mid n s)"
  "reaches bk_step any s (snd (cleanup_expired now s))"
  using reaches_step [of any "BkStore mid pl r sd now ttl" bk_step s] reaches_step [of any "BkReplica p now" bk_step s]
    reaches_step [of any "BkDelivered mids" bk_step s] reaches_step [of any "BkRecord mid n" bk_step s]
    reaches_step [of any "BkCleanup now" bk_step s]
  by simp_all

lemma coordinator_reaches:
  "reaches bk_step any (bc_store b) (bc_store (snd (bc_store_message mid pl r sd now ttl b)))"
  "reaches bk_step any (bc_store b) (bc_store (snd (handle_replication p src now b)))"
  "reaches bk_step any (bc_store b) (bc_store (snd (handle_replication_ack mid src b)))"
  "reaches bk_step any (bc_store b) (bc_store (snd (handle_query_response r mids now b)))"
  "reaches bk_step any (bc_store b) (bc_store (snd (handle_delivery_confirmation mids b)))"
  "reaches bk_step any (bc_store b) (bc_store (snd (backup_tick now b)))"
  by (auto simp: bc_store_message_def handle_replication_def handle_replication_ack_def handle_query_response_def
      handle_delivery_confirmation_def backup_tick_def cleanup_queries_def Let_def case_prod_beta
      intro: store_reaches reaches_trans [OF store_reaches(2) reaches_trans [OF store_reaches(4) store_reaches(4)]]
      split: option.split)

subsection \<open>Group actions\<close>

lemma on_hub_evolves [evolution]: "evolves api st (snd (on_hub api c p src st))"
  by (simp add: on_hub_def case_prod_beta Let_def evolves_hub hub_reaches)

lemma on_manager_evolves:
  assumes "snd (f (ap_rand api (st_draws st)) (st_group_manager st)) =
    mgr_step (ap_crypto api) (ap_content api) ev (st_group_manager st)"
  shows "evolves api st (snd (on_manager api f st))"
  by (simp add: on_manager_def case_prod_beta Let_def assms evolves_manager manager_reaches)

lemma local_message_evolves [evolution]: "evolves api st (snd (local_message api c msg st))"
  unfolding local_message_def by (rule on_manager_evolves [where ev = "MgrMessage c msg"]) simp

lemma local_sender_key_evolves [evolution]: "evolves api st (snd (local_sender_key api c gid n ep eks st))"
  unfolding local_sender_key_def
  by (rule on_manager_evolves [where ev = "MgrDistribution c gid n ep eks (st_secret_seed st)"]) simp

lemma member_payload_evolves [evolution]: "evolves api st (snd (member_payload api c src p st))"
proof (cases p)
  case (GpCreated info)
  then show ?thesis
    by (simp add: member_payload_def on_manager_evolves [where ev = "MgrGroupCreated c (ap_rand api (st_draws st)) info"])
next
  case (GpInvite gid name i iu)
  then show ?thesis
    by (simp add: member_payload_def on_manager_evolves [where ev = "MgrInvite c gid name i iu src"])
next
  case (GpSync info recent)
  then show ?thesis
    by (simp add: member_payload_def on_manager_evolves [where ev = "MgrSync c (ap_rand api (st_draws st)) info recent"])
next
  case (GpMemberJoined gid mem)
  then show ?thesis
    by (simp add: member_payload_def
        on_manager_evolves [where ev = "MgrMemberJoined c (ap_rand api (st_draws st)) gid mem"])
next
  case (GpMemberLeft gid n u r)
  then show ?thesis
    by (simp add: member_payload_def
        on_manager_evolves [where ev = "MgrMemberLeft c (ap_rand api (st_draws st)) gid n u r"])
next
  case (GpMemberRoleChanged gid n r)
  then show ?thesis
    by (simp add: member_payload_def on_manager_evolves [where ev = "MgrRoleChanged c gid n r"])
qed (simp_all add: member_payload_def)

lemma local_payload_evolves [evolution]: "evolves api st (snd (handle_local_group_payload api c self p st))"
proof (cases p)
  case (GpSenderKeyDistribution gid n ep eks)
  let ?st = "snd (local_sender_key api c gid n ep eks st)"
  have "evolves api st (snd (on_hub api c q self ?st))" for q
    by (rule evolves_trans [OF local_sender_key_evolves on_hub_evolves])
  with GpSenderKeyDistribution show ?thesis
    by (simp add: case_prod_beta Let_def local_sender_key_evolves)
qed (simp_all add: evolution)

lemma intercept_evolves: "evolves api st (snd (intercept_loop api c self acts st))"
proof (induction api c self acts st rule: intercept_loop.induct)
  case (2 api c self to p acts st)
  let ?new = "handle_local_group_payload api c self p st"
  let ?done = "intercept_loop api c self (fst ?new) (snd ?new)"
  show ?case
  proof (cases "to = self")
    case True
    have "evolves api (snd ?new) (snd ?done)"
      using 2(1) [OF True, of ?new "fst ?new" "snd ?new"] by simp
    moreover have "evolves api (snd ?done) (snd (intercept_loop api c self acts (snd ?done)))"
      using 2(2) [OF True, of ?new "fst ?new" "snd ?new" ?done "fst ?done" "snd ?done"] by simp
    ultimately show ?thesis
      using True evolves_trans [OF local_payload_evolves evolves_trans]
      by (simp add: case_prod_beta Let_def del: handle_local_group_payload.simps)
  qed (use 2(3) in \<open>simp add: case_prod_beta Let_def\<close>)
next
  case (3 api c self to p acts st)
  let ?new = "handle_local_group_payload api c self p st"
  let ?done = "intercept_loop api c self (fst ?new) (snd ?new)"
  show ?case
  proof (cases "self \<in> set to")
    case True
    have "evolves api (snd ?new) (snd ?done)"
      using 3(1) [OF True, of ?new "fst ?new" "snd ?new"] by simp
    moreover have "evolves api (snd ?done) (snd (intercept_loop api c self acts (snd ?done)))"
      using 3(2) [OF True, of ?new "fst ?new" "snd ?new" ?done "fst ?done" "snd ?done"] by simp
    ultimately show ?thesis
      using True evolves_trans [OF local_payload_evolves evolves_trans]
      by (simp add: case_prod_beta Let_def del: handle_local_group_payload.simps)
  qed (use 3(3) in \<open>simp add: case_prod_beta Let_def\<close>)
qed (simp_all add: case_prod_beta Let_def)

lemma envelopes_to_evolves [evolution]: "evolves api st (snd (envelopes_to api' c mt pl via targets st))"
  by (simp add: envelopes_to_def)

lemma group_effects_evolves [evolution]: "evolves api st (snd (group_actions_to_effects api' c acts st))"
proof (induction acts arbitrary: st)
  case (Cons a acts)
  have stored: "evolves api st (snd (envelopes_to api' c mt pl via targets (st\<lparr>st_store := s\<rparr>)))" for mt pl via targets s
    by (simp add: envelopes_to_def)
  have "evolves api st (snd (group_actions_to_effects api' c [a] st))"
    by (cases a) (auto simp: case_prod_beta Let_def evolution stored split: group_payload.split option.split)
  with Cons show ?case
    using evolves_trans by (simp add: case_prod_beta Let_def) blast
qed simp

lemma process_evolves: "evolves api st (snd (process_group_actions api c (acts, st)))"
  unfolding process_group_actions_def intercept_self_group_actions_def
  using evolves_trans [OF intercept_evolves group_effects_evolves] by (simp add: case_prod_beta Let_def)

lemma process_after: "evolves api st (snd r) \<Longrightarrow> evolves api st (snd (process_group_actions api c r))"
  using evolves_trans [OF _ process_evolves] by (metis prod.collapse)

subsection \<open>Ticks, envelopes, commands and gossip\<close>

lemma for_each_evolves:
  assumes "\<And>x st. evolves api st (snd (f x st))"
  shows "evolves api st (snd (for_each f xs st))"
proof (induction xs arbitrary: st)
  case (Cons x xs)
  show ?case using evolves_trans [OF assms Cons] by (simp add: case_prod_beta Let_def)
qed simp

lemma backup_effects_evolves [evolution]: "evolves api st (snd (backup_actions_to_effects api' c acts st))"
proof (induction acts arbitrary: st)
  case (Cons a acts)
  have "evolves api st (snd (backup_actions_to_effects api' c [a] st))"
    by (cases a) (simp_all add: case_prod_beta Let_def evolution)
  with Cons show ?case
    using evolves_trans by (simp add: case_prod_beta Let_def) blast
qed simp

lemma on_backup_evolves:
  assumes "reaches bk_step any (bc_store (st_backup st)) (bc_store (snd (f (st_backup st))))"
  shows "evolves api st (snd (on_backup f st))"
    and "evolves api st (snd (case on_backup f st of (acts, st) \<Rightarrow> backup_actions_to_effects api c acts st))"
proof -
  show *: "evolves api st (snd (on_backup f st))"
    by (simp add: on_backup_def case_prod_beta Let_def assms evolves_backup)
  show "evolves api st (snd (case on_backup f st of (acts, st) \<Rightarrow> backup_actions_to_effects api c acts st))"
    using evolves_trans [OF * backup_effects_evolves] by (simp add: case_prod_beta)
qed

lemma note_peer_evolves [evolution]: "evolves api st (note_peer c n src u info st)"
  by (simp add: note_peer_def evolves_fields topology_reaches)

lemma deadlines_evolve: "evolves api st (snd (tick_delivery_deadlines c st))"
proof -
  have "evolves api st (snd (retry_or_fail c x st))" for x st
    by (cases x)
      (auto simp: retry_or_fail_def case_prod_beta Let_def tracker_reaches
        intro!: evolves_fields split: option.split)
  then show ?thesis unfolding tick_delivery_deadlines_def by (rule for_each_evolves)
qed

lemma redelivery_evolves: "evolves api st (snd (prepare_backup_delivery api' c n st))"
  unfolding prepare_backup_delivery_def by (rule for_each_evolves) (simp add: redeliver_def)

lemma heartbeat_evolves: "evolves api st (snd (tick_heartbeat api' c st))"
proof -
  have disc: "evolves api st (snd (handle_discovery api' c ev st))" for ev st
    by (cases ev)
      (simp_all add: case_prod_beta Let_def redelivery_evolves evolves_fields subnet_reaches)
  let ?chk = "check_all c (st_heartbeat st) (st_topology st)"
  let ?st = "st\<lparr>st_heartbeat := fst (snd ?chk), st_topology := snd (snd ?chk)\<rparr>"
  have "reaches topology_step any (st_topology st) (snd (snd ?chk))"
    by (simp add: check_all_def case_prod_beta Let_def check_loop_reaches)
  then have "evolves api st ?st" by (simp add: evolves_fields)
  then have "evolves api st (snd (for_each (handle_discovery api' c) (fst ?chk) ?st))"
    by (rule evolves_trans [OF _ for_each_evolves [OF disc]])
  then show ?thesis by (simp add: tick_heartbeat_def case_prod_beta Let_def evolves_heartbeat)
qed

lemma roles_evolve: "evolves api st (snd (tick_roles api' c st))"
proof -
  have act: "evolves api st (snd (surface_role_action api' c a st))" for a st
    by (cases a) (simp_all add: Let_def)
  have "evolves api st (st\<lparr>st_topology := snd (evaluate (ap_exp api') (st_topology st) (now_ms c) (st_role_manager st))\<rparr>)"
    by (simp add: evolves_topology evaluate_def evaluate_loop_reaches)
  from evolves_trans [OF this for_each_evolves [OF act]] show ?thesis
    by (simp add: tick_roles_def case_prod_beta Let_def)
qed

lemma shadow_ping_evolves: "evolves api st (snd (tick_shadow_ping api' c st))"
  unfolding tick_shadow_ping_def by (rule for_each_evolves) (simp add: case_prod_beta evolution)

lemma cleanup_evolves:
  "evolves api st (tick_cache_cleanup c st)" "evolves api st (tick_tracker_cleanup c st)"
  "evolves api st (tick_hub_cleanup c st)"
proof -
  show "evolves api st (tick_cache_cleanup c st)"
    using reaches_step [of any "EvCleanup c" "router_step (ap_router api)" "st_router st"]
    by (simp add: tick_cache_cleanup_def evolves_router)
  show "evolves api st (tick_tracker_cleanup c st)"
    by (simp add: tick_tracker_cleanup_def Let_def evolves_fields tracker_reaches)
  have "reaches (hub_step (ap_crypto api)) internal_event (st_group_hub st)
      (snd (purge_expired_sender_keys now age (snd (cleanup_expired_messages now age' (st_group_hub st)))))" for now age age'
    by (rule reaches_trans [OF hub_reaches(3) hub_reaches(4)])
  moreover have "reaches (mgr_step (ap_crypto api) (ap_content api)) any (st_group_manager st)
      (snd (mgr_purge_expired_sender_keys now age (st_group_manager st)))" for now age
    using manager_reaches [of _ _ _ "MgrPurge now age"] by simp
  ultimately show "evolves api st (tick_hub_cleanup c st)"
    by (simp add: tick_hub_cleanup_def Let_def evolves_manager evolves_hub)
qed

lemma save_evolves: "evolves api st (save_state api' c st)"
  by (simp add: save_state_def Let_def split: option.split)

lemma tick_evolves:
  "evolves api st (snd (tick_subnets c st))"
  "evolves api st (snd (tick_backup api c st))"
  "evolves api st (snd (tick_group_hub_heartbeat api c st))"
  "evolves api st (snd (build_rejoin_effects api c st))"
  by (simp_all add: tick_subnets_def case_prod_beta Let_def evolves_subnets subnet_reaches
      tick_backup_def on_backup_evolves(2) [unfolded case_prod_beta] coordinator_reaches
      tick_group_hub_heartbeat_def build_rejoin_effects_def process_evolves)

lemma role_announce_evolves: "evolves api st (snd (handle_role_announce api' c a st))"
  by (simp add: handle_role_announce_def Let_def evolves_topology topology_reaches)

lemma chat_evolves: "evolves api st (snd (handle_incoming_chat api c e v st))"
proof -
  have r: "reaches (router_step (ap_router api)) any (st_router st) (snd (route (ap_router api) c' e (st_router st)))" for c'
    using reaches_step [of any "EvRoute c' e" "router_step (ap_router api)"] by simp
  show ?thesis
    by (simp add: handle_incoming_chat_def case_prod_beta Let_def evolves_fields r tracker_reaches
        split: routing_action.split ack_type.split sum.split)
qed

lemma sync_response_evolves: "evolves api st (snd (handle_sync_response api c gid msgs latest st))"
proof -
  let ?st = "snd (for_each (local_message api c) msgs st)"
  have "evolves api st ?st" by (rule for_each_evolves [OF local_message_evolves])
  moreover have "reaches (mgr_step (ap_crypto api) (ap_content api)) any (st_group_manager ?st)
      (set_last_seq gid latest (st_group_manager ?st))"
    using manager_reaches [of _ _ _ "MgrSetLastSeq gid latest"] by simp
  ultimately show ?thesis
    by (simp add: handle_sync_response_def case_prod_beta Let_def evolves_manager)
qed

lemma hub_request_evolves: "evolves api st (snd (hub_request api c p src st))"
  by (simp add: hub_request_def case_prod_beta Let_def on_hub_evolves evolves_hub hub_reaches split: option.split)

lemma dispatch_group_evolves: "evolves api st (snd (dispatch_group api c src p st))"
proof (cases p)
  case (GpHubMigration gid new old)
  then show ?thesis by (simp add: on_manager_evolves [where ev = "MgrHubMigration c gid new"])
next
  case (GpHubShadowSync gid ms cand v)
  then show ?thesis by (simp add: on_manager_evolves [where ev = "MgrShadowSync gid ms cand v"])
next
  case (GpHubUnreachable gid)
  then show ?thesis by (simp add: on_manager_evolves [where ev = "MgrUnreachable gid src"])
next
  case (GpHubPong gid)
  then show ?thesis using manager_reaches [of _ _ _ "MgrResetPings gid"] by (simp add: evolves_manager)
qed (simp_all add: hub_request_evolves sync_response_evolves evolution)

lemma group_payload_evolves [evolution]: "evolves api st (snd (handle_group_payload api c src p st))"
  using process_after [OF dispatch_group_evolves [of api st c src p]]
  by (cases p) (simp_all add: handle_group_payload_def evolution del: dispatch_group.simps)

lemma incoming_group_evolves: "evolves api st (snd (handle_incoming_group api c e st))"
  by (simp add: handle_incoming_group_def evolution split: sum.split)

lemma incoming_backup_evolves: "evolves api st (snd (handle_incoming_backup api c e st))"
proof -
  have run: "evolves api st (snd (case on_backup f st of (acts, st) \<Rightarrow> backup_actions_to_effects api c acts st))"
    if "\<And>b. reaches bk_step any (bc_store b) (bc_store (snd (f b)))" for f
    using that by (rule on_backup_evolves(2))
  note ops = run [OF coordinator_reaches(2)] run [OF coordinator_reaches(3)] run [OF coordinator_reaches(5)]
    evolves_backup [OF evolves_refl coordinator_reaches(4)]
  show ?thesis
    by (simp only: handle_incoming_backup_def Let_def split: if_split sum.split)
      (simp add: ops evolution)
qed

lemma dispatch_evolves: "evolves api st (snd (dispatch_envelope api c e st))"
proof -
  have "evolves api st (st\<lparr>st_subnets := record_communication a b now (st_subnets st)\<rparr>)" for a b now
    by (simp add: evolves_subnets subnet_reaches)
  from evolves_trans [OF this chat_evolves]
  show ?thesis
    by (simp add: dispatch_envelope_def chat_evolves incoming_group_evolves incoming_backup_evolves
        handle_peer_announce_def note_peer_evolves split: message_class.split sum.split)
qed

lemma incoming_evolves:
  assumes "handle_incoming api c raw st = Some r"
  shows "evolves api st (snd r)"
proof -
  have checked: "evolves api st (st\<lparr>st_antispam := a\<rparr>)"
    if "check_rate (ap_buckets api) n score (now_ms c) (st_antispam st) = Some (v, a)" for n score v a
    using reaches_step [of any "(n, score, now_ms c)" "limiter_step (ap_buckets api)" "st_antispam st"] that
    by (simp add: evolves_limiter limiter_step_def)
  have "evolves api st' (register_sender c e len st')" for st' :: "('a, 'b) runtime_state" and e len
    by (simp add: register_sender_def Let_def evolves_fields topology_reaches)
  then have accept: "evolves api st (snd (dispatch_envelope api c e (register_sender c e len st')))"
    if "evolves api st st'" for st' e len
    using evolves_trans [OF evolves_trans [OF that] dispatch_evolves] by blast
  from assms show ?thesis
    by (auto simp: accept checked handle_incoming_def Let_def split: sum.splits if_splits option.splits prod.splits)
qed

lemma send_message_evolves: "evolves api st (snd (handle_send_message api c to pl st))"
proof (cases "chat_envelope api c to pl st")
  case (Inr e)
  let ?t = "snd (mark_sent (env_id e) (snd (track c (env_id e) to (st_tracker st))))"
  let ?st = "st\<lparr>st_tracker := ?t, st_draws := Suc (st_draws st)\<rparr>"
  let ?b = "on_backup (bc_store_message (env_id e) pl to (st_local_id st) (now_ms c) None) ?st"
  have "evolves api st ?st"
    by (simp add: evolves_tracker reaches_trans [OF tracker_reaches(1) tracker_reaches(2)])
  moreover have "evolves api ?st (snd ?b)"
    by (rule on_backup_evolves(1)) (rule coordinator_reaches)
  ultimately have "evolves api st (snd (backup_actions_to_effects api c (fst ?b) (snd ?b)))"
    using evolves_trans [OF evolves_trans backup_effects_evolves] by blast
  with Inr show ?thesis
    by (simp add: handle_send_message_def case_prod_beta Let_def evolves_fields)
qed (simp add: handle_send_message_def)

lemma rotate_before_send_evolves: "evolves api st (snd (rotate_before_send api c gid st))"
proof -
  let ?r = "on_manager api (\<lambda>rnd. maybe_rotate_local_sender_key (ap_crypto api) c rnd gid) st"
  have "evolves api st (snd ?r)"
    by (rule on_manager_evolves [where ev = "MgrMaybeRotate c (ap_rand api (st_draws st)) gid"]) simp
  with process_after [OF this, of c] show ?thesis
    by (simp add: rotate_before_send_def case_prod_beta Let_def del: fst_on_manager)
qed

lemma send_group_message_evolves:
  assumes "handle_send_group_message api c gid txt st = Some r"
  shows "evolves api st (snd r)"
proof -
  let ?st = "snd (rotate_before_send api c gid st)"
  let ?noted = "?st\<lparr>st_group_manager := note_local_message_sent gid (st_group_manager ?st), st_draws := Suc (st_draws ?st)\<rparr>"
  have "evolves api ?st ?noted"
    using manager_reaches [of _ _ _ "MgrNoteSent gid"] by (simp add: evolves_manager)
  then have noted: "evolves api st ?noted" by (rule evolves_trans [OF rotate_before_send_evolves])
  have "evolves api st (snd (process_group_actions api c (on_hub api c p n ?noted)))" for p n
    by (rule evolves_trans [OF noted process_after [OF on_hub_evolves]])
  moreover have "evolves api st (snd (envelopes_to api c mt pl via ts ?noted))" for mt pl via ts
    by (rule evolves_trans [OF noted envelopes_to_evolves])
  ultimately show ?thesis
    using assms rotate_before_send_evolves [of api st c gid]
    by (auto simp: handle_send_group_message_def case_prod_beta Let_def split: option.splits if_splits)
qed

lemma group_commands_evolve:
  "evolves api st (snd (admin_command api c gid p st))"
  "evolves api st (snd (create_group_command api c name hub ms io st))"
  "evolves api st (snd (process_group_actions api c (on_manager api (\<lambda>_. accept_invite c gid) st)))"
  "evolves api st (snd (process_group_actions api c (on_manager api (\<lambda>_. leave_group gid) st)))"
  by (simp_all add: admin_command_def create_group_command_def process_after evolution
      on_manager_evolves [where ev = "MgrAccept c gid"] on_manager_evolves [where ev = "MgrLeave gid"]
      del: group_actions_to_effects.simps split: option.split)

lemma command_evolves:
  assumes "run_command api c cmd st = Some r"
  shows "evolves api st (snd r)"
proof (cases cmd)
  case (CmdSendMessage to pl)
  have "evolves api st (st\<lparr>st_subnets := record_communication (st_local_id st) to (now_ms c) (st_subnets st)\<rparr>)"
    by (simp add: evolves_subnets subnet_reaches)
  from evolves_trans [OF this send_message_evolves] CmdSendMessage assms show ?thesis by auto
next
  case (CmdSendGroupMessage gid body)
  with assms show ?thesis by (auto intro: send_group_message_evolves)
next
  case (CmdDeclineInvite gid)
  with assms show ?thesis
    using manager_reaches [of _ _ _ "MgrDecline gid"] by (auto intro!: evolves_manager)
next
  case (CmdRemovePeer n)
  with assms show ?thesis by (auto simp: evolves_fields topology_reaches)
next
  case (CmdDhtLookupResult name)
  with assms show ?thesis by (auto simp: note_peer_evolves split: option.split)
qed (use assms in \<open>auto simp: handle_send_read_receipt_def group_commands_evolve note_peer_evolves evolution\<close>)

lemma gossip_evolves: "evolves api st (snd (handle_gossip_event api c g st))"
  by (cases g) (simp_all add: Let_def note_peer_evolves role_announce_evolves split: sum.split)

lemma input_evolves:
  assumes "on_input api joined dht c inp st = Some (calls, effs, st')"
  shows "evolves api st st'"
proof (cases inp)
  case (InCommand cmd)
  have "\<exists>cmd'. run_command api c cmd' st = Some (effs, st')"
  proof (cases cmd)
    case (CmdAddPeerAddr n)
    with assms InCommand show ?thesis by (intro exI [of _ "CmdAddPeer n"]) auto
  qed (use assms InCommand in \<open>auto intro!: exI [of _ cmd]\<close>)
  then show ?thesis using command_evolves by fastforce
next
  case (InPeerPresent n)
  with assms show ?thesis by (auto simp: note_peer_evolves)
next
  case (InData b)
  with assms show ?thesis using incoming_evolves by fastforce
next
  case (InGossip g)
  with assms gossip_evolves [of api st c g] show ?thesis by (auto simp: case_prod_beta Let_def)
qed (use assms cleanup_evolves [of api st c] heartbeat_evolves [of api st api c] shadow_ping_evolves [of api st api c]
    roles_evolve [of api st api c] deadlines_evolve [of api st c] save_evolves [of api st api c] tick_evolves [of api st c]
    in \<open>auto simp: eq_snd_iff\<close>)

lemma step_evolves:
  assumes "loop_step api joined dht send c inp lp = Some lp'"
  shows "evolves api (lp_state lp) (lp_state lp')"
  using assms by (auto simp: loop_step_def Let_def intro: input_evolves split: option.splits)

lemma loop_evolves:
  "runtime_loop api joined dht send inps lp = Some lp' \<Longrightarrow> evolves api (lp_state lp) (lp_state lp')"
proof (induction inps arbitrary: lp)
  case (Cons x inps)
  obtain c inp where x: "x = (c, inp)" by fastforce
  show ?case
  proof (cases "inp = InCommand CmdShutdown")
    case True
    with Cons.prems x show ?thesis by (auto simp: save_evolves)
  next
    case False
    with Cons.prems x obtain lp1 where "loop_step api joined dht send c inp lp = Some lp1"
      and "runtime_loop api joined dht send inps lp1 = Some lp'"
      by (auto split: option.splits)
    with Cons.IH show ?thesis by (auto intro: evolves_trans step_evolves)
  qed
qed simp

subsection \<open>Invariants of a node\<close>

definition node_wf :: "('c, 'b) runtime_state \<Rightarrow> bool" where
  "node_wf st \<longleftrightarrow>
     router_wf (st_router st) \<and> topology_wf (st_topology st) \<and> tracker_bounded (st_tracker st) \<and>
     hub_wf (st_group_hub st) \<and> memory_ok (st_group_hub st) \<and> mgr_wf (st_group_manager st) \<and>
     store_wf (bc_store (st_backup st)) \<and> hm_wf (st_pending_envelopes st) \<and>
     heartbeat_wf (st_heartbeat st) \<and> roles_wf (st_local_id st) (st_role_manager st) \<and>
     as_config (st_antispam st) = cf_antispam_config (st_config st)"

lemma internal_event_ok: "internal_event ev \<Longrightarrow> hub_event_ok ev"
  by (cases ev) simp_all

lemma reaches_mono: "reaches step P s s' \<Longrightarrow> (\<And>e. P e \<Longrightarrow> Q e) \<Longrightarrow> reaches step Q s s'"
  unfolding reaches_def by (auto simp: list_all_iff)

lemma node_wf_evolves:
  assumes "evolves api st st'" and "node_wf st"
  shows "node_wf st'"
proof -
  have hub: "reaches (hub_step (ap_crypto api)) hub_event_ok (st_group_hub st) (st_group_hub st')"
    using assms(1) reaches_mono [OF _ internal_event_ok] by (auto simp: evolves_def)
  show ?thesis
    using assms hub_machine.reaches_invar [OF hub]
    by (auto simp: node_wf_def evolves_def dest: router_machine.reaches_invar topology_machine.reaches_invar
        tracker_size.reaches_invar hub_storage.reaches_invar manager_machine.reaches_invar backup_machine.reaches_invar
        limiter_machine.reaches_invar)
qed

end
