(* ===== verification/Tom_RuntimeDelivery.thy ===== *)
theory Tom_RuntimeDelivery
  imports Tom_RuntimeSafety
begin

section \<open>Messages from node to node\<close>

text \<open>
  Follows a chat message through the runtimes of the nodes involved: the sender builds, tracks
  and caches it, a relay forwards it, the recipient opens and delivers it and acknowledges, and
  the acknowledgement completes it at the sender; and what happens when no acknowledgement
  comes.
\<close>

subsection \<open>Admission\<close>

text \<open>The size limit and the rate limit of the node let the envelope pass.\<close>

definition admits :: "('c, 'b) runtime_api \<Rightarrow> ctx \<Rightarrow> bytes \<Rightarrow> envelope \<Rightarrow> ('c, 'b) runtime_state \<Rightarrow> bool" where
  "admits api c raw e st \<longleftrightarrow>
     envelope_to_bytes (ap_wire api) e = Inr raw \<and>
     length raw \<le> ac_max_envelope_size (cf_antispam_config (st_config st)) \<and>
     (rate_exempt (env_msg_type e) \<or>
      (\<exists>l. check_rate (ap_buckets api) (env_from e)
             (rm_score (ap_exp api) (env_from e) (now_ms c) (st_role_manager st)) (now_ms c) (st_antispam st)
           = Some (Inr (), l)))"

lemma register_sender_keeps [simp]:
  "st_router (register_sender c e len st) = st_router st"
  "st_secret_seed (register_sender c e len st) = st_secret_seed st"
  "st_local_id (register_sender c e len st) = st_local_id st"
  "st_config (register_sender c e len st) = st_config st"
  "st_tracker (register_sender c e len st) = st_tracker st"
  "st_pending_envelopes (register_sender c e len st) = st_pending_envelopes st"
  "st_draws (register_sender c e len st) = st_draws st"
  by (simp_all add: register_sender_def Let_def)

lemma admitted_dispatch:
  assumes "admits api c raw e st" and "codec_ok (wire_envelope (ap_wire api))"
  obtains l where "handle_incoming api c raw st =
    Some (dispatch_envelope api c e (register_sender c e (length raw) (st\<lparr>st_antispam := l\<rparr>)))"
proof -
  have raw: "envelope_from_bytes (ap_wire api) raw = Inr e"
    using assms by (auto simp: admits_def envelope_to_bytes_def envelope_from_bytes_def codec_ok_def split: sum.splits)
  have fits: "validate_size raw (ac_max_envelope_size (cf_antispam_config (st_config st))) = Inr ()"
    using assms(1) by (simp add: admits_def validate_size_def)
  show thesis
  proof (cases "rate_exempt (env_msg_type e)")
    case True
    then show thesis
      using that [of "st_antispam st"] raw fits by (simp add: handle_incoming_def Let_def)
  next
    case False
    with assms(1) obtain l where "check_rate (ap_buckets api) (env_from e)
        (rm_score (ap_exp api) (env_from e) (now_ms c) (st_role_manager st)) (now_ms c) (st_antispam st) = Some (Inr (), l)"
      by (auto simp: admits_def)
    then show thesis
      using that [of l] raw fits False by (simp add: handle_incoming_def Let_def)
  qed
qed

subsection \<open>A chat message\<close>

definition crypto_laws :: "('c, 'b) runtime_api \<Rightarrow> bool" where
  "crypto_laws api \<longleftrightarrow>
     ed_correct (ap_crypto api) \<and> aead_correct (ap_crypto api) \<and> dh_symmetric (ap_crypto api) \<and>
     key_conversion (ap_crypto api) \<and> codec_ok (wire_encrypted (ap_wire api)) \<and>
     codec_ok (wire_envelope (ap_wire api)) \<and> pack_ok (api_ack (ap_router api))"

text \<open>The node's identity is the public key of its seed, and its router has that identity.\<close>

definition node_at :: "('c, 'b) runtime_api \<Rightarrow> node_id \<Rightarrow> ('c, 'b) runtime_state \<Rightarrow> bool" where
  "node_at api n st \<longleftrightarrow>
     st_local_id st = n \<and> rt_local_id (st_router st) = n \<and> as_bytes n = ed_public (ap_crypto api) (st_secret_seed st)"

definition opened :: "('c, 'b) runtime_api \<Rightarrow> bytes \<Rightarrow> envelope \<Rightarrow> tom_protocol_error + envelope" where
  "opened api seed e = (if env_encrypted e then decrypt_payload (ap_crypto api) (ap_wire api) seed e else Inr e)"

lemma decrypt_payload_ttl [simp]:
  "decrypt_payload api w seed (e\<lparr>env_ttl := t\<rparr>) =
     (case decrypt_payload api w seed e of Inl err \<Rightarrow> Inl err | Inr e' \<Rightarrow> Inr (e'\<lparr>env_ttl := t\<rparr>))"
  by (simp add: decrypt_payload_def split: sum.split)

lemma encrypt_payload_keeps:
  "encrypt_payload api w eph nonce pk e = Inr e' \<Longrightarrow>
     env_encrypted e' \<and> env_id e' = env_id e \<and> env_from e' = env_from e \<and> env_to e' = env_to e \<and> env_via e' = env_via e \<and>
     env_msg_type e' = env_msg_type e \<and> env_timestamp e' = env_timestamp e \<and> env_ttl e' = env_ttl e"
  by (auto simp: encrypt_payload_def split: sum.splits)

lemma chat_envelope_fields:
  assumes "chat_envelope api c to pl st = Inr e"
  shows "env_id e = ap_uuid api (st_draws st)" and "env_from e = st_local_id st" and "env_to e = to"
    and "env_via e = path_to st to" and "env_msg_type e = Chat" and "env_timestamp e = now_ms c"
    and "env_encrypted e = cf_encryption (st_config st)" and "env_ttl e = DEFAULT_TTL"
  using assms
  by (auto simp: chat_envelope_def Let_def encrypt_and_sign_def builder_sign_def sign_def build_def builder_via_def
      builder_new_def dest!: encrypt_payload_keeps split: if_splits sum.splits)

lemma chat_envelope_opens:
  assumes "crypto_laws api" and "node_at api a st" and "as_bytes to = ed_public (ap_crypto api) seed"
    and "chat_envelope api c to pl st = Inr e"
  shows "signature_valid api (e\<lparr>env_ttl := t\<rparr>)"
    and "\<exists>e'. opened api seed (e\<lparr>env_ttl := t\<rparr>) = Inr e' \<and> env_payload e' = pl \<and> env_from e' = env_from e \<and>
           env_id e' = env_id e \<and> env_timestamp e' = env_timestamp e"
proof -
  let ?b = "builder_via (path_to st to) (builder_new (st_local_id st) to Chat pl)"
  let ?e0 = "build (ap_uuid api (st_draws st)) (now_ms c) ?b"
  obtain e1 where e: "e = sign (ap_crypto api) (ap_wire api) (st_secret_seed st) e1"
    and e1: "e1 = ?e0 \<and> \<not> cf_encryption (st_config st) \<or>
      cf_encryption (st_config st) \<and> encrypt_payload (ap_crypto api) (ap_wire api) (fst (ap_entropy api (st_draws st)))
        (snd (ap_entropy api (st_draws st))) (as_bytes to) ?e0 = Inr e1"
    using assms(4)
    by (auto simp: chat_envelope_def Let_def encrypt_and_sign_def builder_sign_def split: if_splits sum.splits)
  have "env_from e1 = st_local_id st"
    using e1 by (auto simp: build_def builder_via_def builder_new_def dest: encrypt_payload_keeps)
  then have v: "verify_signature (ap_crypto api) (ap_wire api) e = Inr ()"
    using assms(1,2) unfolding e by (intro sign_verifies) (simp_all add: crypto_laws_def node_at_def)
  have "length (env_signature e) = 64"
    using assms(1) by (simp add: e sign_def crypto_laws_def ed_correct_def)
  with v show "signature_valid api (e\<lparr>env_ttl := t\<rparr>)"
    by (auto simp: signature_valid_def is_signed_def)
  show "\<exists>e'. opened api seed (e\<lparr>env_ttl := t\<rparr>) = Inr e' \<and> env_payload e' = pl \<and> env_from e' = env_from e \<and>
      env_id e' = env_id e \<and> env_timestamp e' = env_timestamp e"
  proof (cases "cf_encryption (st_config st)")
    case True
    then have enc: "encrypt_payload (ap_crypto api) (ap_wire api) (fst (ap_entropy api (st_draws st)))
        (snd (ap_entropy api (st_draws st))) (ed_public (ap_crypto api) seed) ?e0 = Inr e1"
      using e1 assms(3) by simp
    then have "decrypt_payload (ap_crypto api) (ap_wire api) seed e1 = Inr (?e0\<lparr>env_encrypted := False\<rparr>)"
      using assms(1) encrypt_payload_decrypts by (auto simp: crypto_laws_def)
    with encrypt_payload_keeps [OF enc] show ?thesis
      by (simp add: opened_def e sign_def) (simp add: build_def builder_via_def builder_new_def)
  next
    case False
    with e1 have "e1 = ?e0" by simp
    then show ?thesis
      by (simp add: opened_def e sign_def build_def builder_via_def builder_new_def)
  qed
qed

lemma recipient_delivers:
  assumes "crypto_laws api" and "node_at api b B" and "env_to e = b" and "env_msg_type e = Chat"
    and "length (env_via e) \<le> MAX_RELAY_DEPTH" and "accepts (ap_router api) e (st_router B)"
    and "opened api (st_secret_seed B) e = Inr e'" and "admits api c raw e B"
  obtains B' ack where
    "handle_incoming api c raw B =
       Some ([DeliverMessage \<lparr>dm_from = env_from e', dm_payload = env_payload e', dm_envelope_id = env_id e',
                dm_timestamp = env_timestamp e', dm_signature_valid = signature_valid api e,
                dm_was_encrypted = env_encrypted e\<rparr>, SendEnvelope ack], B')"
    and "env_from ack = b" and "env_to ack = env_from e" and "env_via ack = rev (env_via e)" and "env_msg_type ack = Ack"
    and "env_payload ack =
      pack_vec (api_ack (ap_router api)) \<lparr>ack_original_message_id = env_id e, ack_ack_type = RecipientReceived\<rparr>"
proof -
  obtain l where inc: "handle_incoming api c raw B =
      Some (dispatch_envelope api c e (register_sender c e (length raw) (B\<lparr>st_antispam := l\<rparr>)))"
    using admitted_dispatch [OF assms(8)] assms(1) by (auto simp: crypto_laws_def)
  let ?c = "with_uuid api c (st_draws B)"
  let ?ack = "create_delivery_ack (ap_router api) ?c (st_router B) e"
  have act: "fst (route (ap_router api) ?c e (st_router B)) = RaDeliver e ?ack"
    using assms(2,3,5,6) by (intro route_accepts) (simp_all add: node_at_def)
  have "fst (dispatch_envelope api c e (register_sender c e (length raw) (B\<lparr>st_antispam := l\<rparr>))) =
      [DeliverMessage \<lparr>dm_from = env_from e', dm_payload = env_payload e', dm_envelope_id = env_id e',
         dm_timestamp = env_timestamp e', dm_signature_valid = signature_valid api e, dm_was_encrypted = env_encrypted e\<rparr>,
       SendEnvelope (sign (ap_crypto api) (ap_wire api) (st_secret_seed B) ?ack)]"
    using assms(4,7) act
    by (cases "env_encrypted e")
      (simp_all add: dispatch_envelope_def handle_incoming_chat_def case_prod_beta Let_def opened_def)
  with inc assms(2) show thesis
    by (intro that [of "sign (ap_crypto api) (ap_wire api) (st_secret_seed B) ?ack"])
      (auto simp: prod_eq_iff sign_def create_delivery_ack_def envelope_new_via_def node_at_def)
qed

text \<open>The status that the acknowledgement finds: under way.\<close>

definition under_way :: "string \<Rightarrow> message_status \<Rightarrow> ('c, 'b) runtime_state \<Rightarrow> bool" where
  "under_way mid s st \<longleftrightarrow> tr_status mid (st_tracker st) = Some s \<and> s < Delivered"

lemma delivered_entry:
  assumes "under_way mid s st"
  shows "fst (mark_delivered mid (st_tracker st)) =
      Some \<lparr>sc_message_id = mid, sc_previous = s, sc_current = Delivered\<rparr>"
    and "tr_status mid (snd (mark_delivered mid (st_tracker st))) = Some Delivered"
  using assms
  by (auto simp: under_way_def tr_status_def mark_delivered_def advance_def status_order hm_simps split: if_splits)

lemma sender_completes:
  assumes "crypto_laws api" and "node_at api a A" and "env_to ack = a" and "env_msg_type ack = Ack"
    and "length (env_via ack) \<le> MAX_RELAY_DEPTH"
    and "env_payload ack =
      pack_vec (api_ack (ap_router api)) \<lparr>ack_original_message_id = mid, ack_ack_type = RecipientReceived\<rparr>"
    and "\<not> hm_contains (ack_cache (st_router A)) (ack_key mid (env_from ack) RecipientReceived)"
    and "under_way mid s A" and "admits api c raw ack A"
  obtains A' where
    "handle_incoming api c raw A =
       Some ([NotifyStatus \<lparr>sc_message_id = mid, sc_previous = s, sc_current = Delivered\<rparr>], A')"
    and "tr_status mid (st_tracker A') = Some Delivered" and "hm_get (st_pending_envelopes A') mid = None"
proof -
  obtain l where inc: "handle_incoming api c raw A =
      Some (dispatch_envelope api c ack (register_sender c ack (length raw) (A\<lparr>st_antispam := l\<rparr>)))"
    using admitted_dispatch [OF assms(9)] assms(1) by (auto simp: crypto_laws_def)
  let ?c = "with_uuid api c (st_draws A)"
  have "unpack_slice (api_ack (ap_router api)) (env_payload ack) =
      Inr \<lparr>ack_original_message_id = mid, ack_ack_type = RecipientReceived\<rparr>"
    using assms(1,6) by (simp add: crypto_laws_def pack_ok_def)
  then have act: "fst (route (ap_router api) ?c ack (st_router A)) = RaAck mid RecipientReceived (env_from ack)"
    using assms(2-5,7) by (simp add: route_def handle_local_def handle_ack_def Let_def node_at_def)
  let ?A = "dispatch_envelope api c ack (register_sender c ack (length raw) (A\<lparr>st_antispam := l\<rparr>))"
  have "fst ?A = [NotifyStatus \<lparr>sc_message_id = mid, sc_previous = s, sc_current = Delivered\<rparr>]"
    and "st_tracker (snd ?A) = snd (mark_delivered mid (st_tracker A))"
    and "st_pending_envelopes (snd ?A) = hm_remove mid (st_pending_envelopes A)"
    using assms(4) delivered_entry(1) [OF assms(8)]
    by (simp_all add: dispatch_envelope_def handle_incoming_chat_def case_prod_beta Let_def act status_effects_def)
  with inc delivered_entry(2) [OF assms(8)] show thesis
    by (intro that [of "snd ?A"]) (simp_all add: prod_eq_iff hm_simps)
qed

lemma relay_forwards:
  assumes "crypto_laws api" and "node_at api r R" and "env_via e = [r]" and "env_to e \<noteq> r" and "env_msg_type e = Chat"
    and "env_ttl e \<noteq> 0" and "admits api c raw e R"
  obtains effs R' where "handle_incoming api c raw R = Some (effs, R')"
    and "SendEnvelopeTo (env_to e) (e\<lparr>env_ttl := env_ttl e - 1\<rparr>) \<in> set effs"
proof -
  obtain l where inc: "handle_incoming api c raw R =
      Some (dispatch_envelope api c e (register_sender c e (length raw) (R\<lparr>st_antispam := l\<rparr>)))"
    using admitted_dispatch [OF assms(7)] assms(1) by (auto simp: crypto_laws_def)
  let ?c = "with_uuid api c (st_draws R)"
  have act: "fst (route (ap_router api) ?c e (st_router R)) =
      RaForward (e\<lparr>env_ttl := env_ttl e - 1\<rparr>) (env_to e)
        (create_relay_ack (ap_router api) ?c (st_router R) (e\<lparr>env_ttl := env_ttl e - 1\<rparr>))"
    using assms(2-4,6) route_at_relay [of "st_router R" e 0]
    by (auto simp: node_at_def MAX_RELAY_DEPTH_def)
  let ?R = "dispatch_envelope api c e (register_sender c e (length raw) (R\<lparr>st_antispam := l\<rparr>))"
  have "SendEnvelopeTo (env_to e) (e\<lparr>env_ttl := env_ttl e - 1\<rparr>) \<in> set (fst ?R)"
    using assms(5) by (simp add: dispatch_envelope_def handle_incoming_chat_def case_prod_beta Let_def act)
  with inc show thesis by (intro that [of "fst ?R" "snd ?R"]) simp_all
qed

lemma sent_under_way:
  assumes "tr_len (st_tracker st) < MAX_TRACKED"
    and "handle_send_message api c to pl st = ([SendWithBackupFallback e ok fail], st')"
  shows "chat_envelope api c to pl st = Inr e" and "under_way (env_id e) Sent st'"
    and "hm_get (st_pending_envelopes st') (env_id e) = Some e"
proof -
  show e: "chat_envelope api c to pl st = Inr e"
    using assms(2) by (auto simp: handle_send_message_def case_prod_beta Let_def split: sum.splits)
  have frame: "st_tracker (snd (backup_actions_to_effects api c acts x)) = st_tracker x" for acts x
    by (induction acts arbitrary: x)
      (auto simp: case_prod_beta Let_def envelopes_to_def split: backup_action.split)
  have "st' = snd (handle_send_message api c to pl st)" using assms(2) by simp
  moreover have "status_code Sent < status_code Delivered" by simp
  ultimately show "under_way (env_id e) Sent st'" and "hm_get (st_pending_envelopes st') (env_id e) = Some e"
    using assms(1) e
    by (simp_all add: handle_send_message_def case_prod_beta Let_def under_way_def tr_status_def frame on_backup_def
        track_def mark_sent_def advance_def tr_len_def status_order hm_simps)
qed

text \<open>The three stages of a chat message: at a relay, at the recipient, and back at the sender.\<close>

lemma chat_relayed:
  assumes "crypto_laws api" and "chat_envelope api c b pl A = Inr e"
  shows "first_hop e = b \<and> env_via e = [] \<or>
    (\<forall>R cR raw. node_at api (first_hop e) R \<and> first_hop e \<noteq> b \<and> admits api cR raw e R \<longrightarrow>
       (\<exists>effs R'. handle_incoming api cR raw R = Some (effs, R') \<and>
          SendEnvelopeTo b (e\<lparr>env_ttl := env_ttl e - 1\<rparr>) \<in> set effs))"
proof (cases "path_to A b = []")
  case True
  then show ?thesis by (simp add: first_hop_def chat_envelope_fields [OF assms(2)])
next
  case False
  note fields = chat_envelope_fields [OF assms(2)]
  obtain r where r: "env_via e = [r]"
    using False by (auto simp: fields path_to_def select_path_def split: option.splits)
  have ttl: "env_ttl e \<noteq> 0" by (simp add: fields DEFAULT_TTL_def)
  show ?thesis
  proof (intro disjI2 allI impI)
    fix R cR raw
    assume "node_at api (first_hop e) R \<and> first_hop e \<noteq> b \<and> admits api cR raw e R"
    with r have "node_at api r R" "env_to e \<noteq> r" "admits api cR raw e R" by (auto simp: first_hop_def fields)
    then obtain effs R' where "handle_incoming api cR raw R = Some (effs, R')"
      and "SendEnvelopeTo (env_to e) (e\<lparr>env_ttl := env_ttl e - 1\<rparr>) \<in> set effs"
      using relay_forwards [OF assms(1) _ r _ fields(5) ttl] by blast
    then show "\<exists>effs R'. handle_incoming api cR raw R = Some (effs, R') \<and>
        SendEnvelopeTo b (e\<lparr>env_ttl := env_ttl e - 1\<rparr>) \<in> set effs"
      by (auto simp: fields(3))
  qed
qed

lemma chat_received:
  assumes "crypto_laws api" and "node_at api a A" and "node_at api b B" and "chat_envelope api c b pl A = Inr e"
    and "accepts (ap_router api) e (st_router B)" and "admits api cB raw (e\<lparr>env_ttl := ttl\<rparr>) B"
  obtains ack B' where "handle_incoming api cB raw B =
      Some ([DeliverMessage \<lparr>dm_from = a, dm_payload = pl, dm_envelope_id = env_id e, dm_timestamp = now_ms c,
               dm_signature_valid = True, dm_was_encrypted = cf_encryption (st_config A)\<rparr>, SendEnvelope ack], B')"
    and "env_from ack = b" "env_to ack = a" "env_via ack = rev (env_via e)" "env_msg_type ack = Ack"
      "env_payload ack = pack_vec (api_ack (ap_router api))
         \<lparr>ack_original_message_id = env_id e, ack_ack_type = RecipientReceived\<rparr>"
proof -
  note fields = chat_envelope_fields [OF assms(4)]
  have a: "st_local_id A = a" using assms(2) by (simp add: node_at_def)
  have seed: "as_bytes b = ed_public (ap_crypto api) (st_secret_seed B)" using assms(3) by (simp add: node_at_def)
  have depth: "length (env_via e) \<le> MAX_RELAY_DEPTH"
    by (simp add: fields path_to_def select_path_def MAX_RELAY_DEPTH_def split: option.split)
  obtain e' where e': "opened api (st_secret_seed B) (e\<lparr>env_ttl := ttl\<rparr>) = Inr e'" and pl: "env_payload e' = pl"
    and fr: "env_from e' = env_from e" "env_id e' = env_id e" "env_timestamp e' = env_timestamp e"
    using chat_envelope_opens(2) [OF assms(1,2) seed assms(4)] by blast
  note valid = chat_envelope_opens(1) [OF assms(1,2) seed assms(4), of ttl]
  show thesis
  proof (rule recipient_delivers [OF assms(1,3) _ _ _ _ e', where raw = raw and c = cB])
    fix B' ack
    assume inc: "handle_incoming api cB raw B =
         Some ([DeliverMessage \<lparr>dm_from = env_from e', dm_payload = env_payload e', dm_envelope_id = env_id e',
                  dm_timestamp = env_timestamp e', dm_signature_valid = signature_valid api (e\<lparr>env_ttl := ttl\<rparr>),
                  dm_was_encrypted = env_encrypted (e\<lparr>env_ttl := ttl\<rparr>)\<rparr>, SendEnvelope ack], B')"
      and ack: "env_from ack = b" "env_to ack = env_from (e\<lparr>env_ttl := ttl\<rparr>)"
        "env_via ack = rev (env_via (e\<lparr>env_ttl := ttl\<rparr>))" "env_msg_type ack = Ack"
        "env_payload ack = pack_vec (api_ack (ap_router api))
           \<lparr>ack_original_message_id = env_id (e\<lparr>env_ttl := ttl\<rparr>), ack_ack_type = RecipientReceived\<rparr>"
    show thesis by (rule that [of ack B']) (use inc ack valid in \<open>simp_all add: fr pl fields a\<close>)
  qed (use assms(5,6) depth in \<open>simp_all add: fields\<close>)
qed

text \<open>
  C1. A chat message reaches its recipient and the sender learns it. If the sender's runtime
  accepts the command to send, it keeps the envelope for retries, tracks the message as sent,
  and addresses the envelope either to the recipient or to one relay. A relay that admits it
  passes it on to the recipient with the hop count lowered. A recipient that admits it and has not seen it,
  whatever hop count it arrives with, delivers exactly the payload the sender was given, from
  the sender, with a valid signature, and answers with an acknowledgement to the sender. When
  that acknowledgement is admitted by the sender while the message is under way, the sender
  reports it as delivered and drops the envelope from its retry cache.
\<close>

theorem chat_end_to_end:
  assumes "crypto_laws api" and "node_at api a A" and "node_at api b B" and "tr_len (st_tracker A) < MAX_TRACKED"
    and "handle_send_message api c b pl A = ([SendWithBackupFallback e ok fail], A')"
  shows "under_way (env_id e) Sent A' \<and> hm_get (st_pending_envelopes A') (env_id e) = Some e \<and>
    (first_hop e = b \<and> env_via e = [] \<or>
     (\<forall>R cR raw. node_at api (first_hop e) R \<and> first_hop e \<noteq> b \<and> admits api cR raw e R \<longrightarrow>
        (\<exists>effs R'. handle_incoming api cR raw R = Some (effs, R') \<and>
           SendEnvelopeTo b (e\<lparr>env_ttl := env_ttl e - 1\<rparr>) \<in> set effs))) \<and>
    (\<forall>hops cB raw. accepts (ap_router api) e (st_router B) \<and> admits api cB raw (e\<lparr>env_ttl := hops\<rparr>) B \<longrightarrow>
       (\<exists>ack B'. handle_incoming api cB raw B =
          Some ([DeliverMessage \<lparr>dm_from = a, dm_payload = pl, dm_envelope_id = env_id e, dm_timestamp = now_ms c,
                   dm_signature_valid = True, dm_was_encrypted = cf_encryption (st_config A)\<rparr>, SendEnvelope ack], B') \<and>
          env_to ack = a \<and>
          (\<forall>hops cA rawA A1 s. node_at api a A1 \<and> under_way (env_id e) s A1 \<and>
             \<not> hm_contains (ack_cache (st_router A1)) (ack_key (env_id e) b RecipientReceived) \<and>
             admits api cA rawA (ack\<lparr>env_ttl := hops\<rparr>) A1 \<longrightarrow>
             (\<exists>A2. handle_incoming api cA rawA A1 =
                Some ([NotifyStatus \<lparr>sc_message_id = env_id e, sc_previous = s, sc_current = Delivered\<rparr>], A2) \<and>
                tr_status (env_id e) (st_tracker A2) = Some Delivered \<and>
                hm_get (st_pending_envelopes A2) (env_id e) = None))))"
proof (intro conjI allI impI)
  note e = sent_under_way(1) [OF assms(4,5)]
  show "under_way (env_id e) Sent A'" and "hm_get (st_pending_envelopes A') (env_id e) = Some e"
    using sent_under_way [OF assms(4,5)] by simp_all
  show "first_hop e = b \<and> env_via e = [] \<or>
     (\<forall>R cR raw. node_at api (first_hop e) R \<and> first_hop e \<noteq> b \<and> admits api cR raw e R \<longrightarrow>
        (\<exists>effs R'. handle_incoming api cR raw R = Some (effs, R') \<and>
           SendEnvelopeTo b (e\<lparr>env_ttl := env_ttl e - 1\<rparr>) \<in> set effs))"
    by (rule chat_relayed [OF assms(1) e])
  have depth: "length (env_via e) \<le> MAX_RELAY_DEPTH"
    by (simp add: chat_envelope_fields [OF e] path_to_def select_path_def MAX_RELAY_DEPTH_def split: option.split)
  fix hops cB raw
  assume "accepts (ap_router api) e (st_router B) \<and> admits api cB raw (e\<lparr>env_ttl := hops\<rparr>) B"
  then obtain ack B' where inc: "handle_incoming api cB raw B =
      Some ([DeliverMessage \<lparr>dm_from = a, dm_payload = pl, dm_envelope_id = env_id e, dm_timestamp = now_ms c,
               dm_signature_valid = True, dm_was_encrypted = cf_encryption (st_config A)\<rparr>, SendEnvelope ack], B')"
    and ack: "env_from ack = b" "env_to ack = a" "env_via ack = rev (env_via e)" "env_msg_type ack = Ack"
      "env_payload ack = pack_vec (api_ack (ap_router api))
         \<lparr>ack_original_message_id = env_id e, ack_ack_type = RecipientReceived\<rparr>"
    using chat_received [OF assms(1-3) e] by blast
  have "\<exists>A2. handle_incoming api cA rawA A1 =
      Some ([NotifyStatus \<lparr>sc_message_id = env_id e, sc_previous = s, sc_current = Delivered\<rparr>], A2) \<and>
      tr_status (env_id e) (st_tracker A2) = Some Delivered \<and> hm_get (st_pending_envelopes A2) (env_id e) = None"
    if A1: "node_at api a A1 \<and> under_way (env_id e) s A1 \<and>
       \<not> hm_contains (ack_cache (st_router A1)) (ack_key (env_id e) b RecipientReceived) \<and>
       admits api cA rawA (ack\<lparr>env_ttl := hops\<rparr>) A1" for hops cA rawA A1 s
    by (rule sender_completes [OF assms(1), of a A1 "ack\<lparr>env_ttl := hops\<rparr>" "env_id e" s cA rawA])
      (use A1 ack depth in simp_all)
  with inc ack(2) show "\<exists>ack B'. handle_incoming api cB raw B =
      Some ([DeliverMessage \<lparr>dm_from = a, dm_payload = pl, dm_envelope_id = env_id e, dm_timestamp = now_ms c,
               dm_signature_valid = True, dm_was_encrypted = cf_encryption (st_config A)\<rparr>, SendEnvelope ack], B') \<and>
      env_to ack = a \<and>
      (\<forall>hops cA rawA A1 s. node_at api a A1 \<and> under_way (env_id e) s A1 \<and>
         \<not> hm_contains (ack_cache (st_router A1)) (ack_key (env_id e) b RecipientReceived) \<and>
         admits api cA rawA (ack\<lparr>env_ttl := hops\<rparr>) A1 \<longrightarrow>
         (\<exists>A2. handle_incoming api cA rawA A1 =
            Some ([NotifyStatus \<lparr>sc_message_id = env_id e, sc_previous = s, sc_current = Delivered\<rparr>], A2) \<and>
            tr_status (env_id e) (st_tracker A2) = Some Delivered \<and>
            hm_get (st_pending_envelopes A2) (env_id e) = None))"
    by - (rule exI [of _ ack], rule exI [of _ B'], intro conjI allI impI, assumption+)
qed

text \<open>
  Two nodes over the demonstration functions, which know each other only by their identities.
  The announcement serialisers fail, which their callers handle.
\<close>

definition demo_api :: "(bytes list, nat \<times> (node_id, token_bucket) hmap) runtime_api" where
  "demo_api =
     \<lparr>ap_crypto = demo_crypto, ap_wire = demo_wire counting_codec, ap_router = demo_router_api, ap_buckets = list_lru,
      ap_exp = (\<lambda>_. 1), ap_content = counting_pack, ap_group_payload = counting_pack,
      ap_group_message = counting_codec, ap_replication = counting_pack, ap_id = counting_pack,
      ap_ids = counting_pack, ap_node = counting_pack,
      ap_announce = \<lparr>to_vec = (\<lambda>_. Inl ''unsupported''), from_slice = (\<lambda>_. Inl ''unsupported'')\<rparr>,
      ap_role_announce = \<lparr>to_vec = (\<lambda>_. Inl ''unsupported''), from_slice = (\<lambda>_. Inl ''unsupported'')\<rparr>,
      ap_json = demo_json, ap_uuid = (\<lambda>n. replicate (Suc n) CHR ''u''),
      ap_rand = (\<lambda>n. \<lparr>rnd_key = [of_nat n], rnd_ephemeral = (\<lambda>_. [1]), rnd_nonce = (\<lambda>_. [2])\<rparr>), ap_entropy = (\<lambda>n. ([3], [of_nat n]))\<rparr>"

text \<open>A fresh node that accepts envelopes of up to the given size.\<close>

definition demo_node :: "node_id \<Rightarrow> bytes \<Rightarrow> nat
    \<Rightarrow> (bytes list, nat \<times> (node_id, token_bucket) hmap) runtime_state" where
  "demo_node self seed limit =
     (let st = the (runtime_state_new demo_api demo_ctx self seed runtime_config_default None)
      in st\<lparr>st_config := (st_config st)\<lparr>cf_antispam_config := anti_spam_config_default\<lparr>ac_max_envelope_size := limit\<rparr>\<rparr>\<rparr>)"

definition demo_seed :: bytes where
  "demo_seed = replicate 30 0 @ [1]"

lemma digits_be_pad: "n < b ^ k \<Longrightarrow> 1 < b \<Longrightarrow> digits_be b (m + k) n = replicate m 0 @ digits_be b k n"
proof (induction m)
  case (Suc m)
  have "b ^ k \<le> b ^ (m + k)" using Suc.prems(2) by (simp add: power_increasing)
  with Suc.prems(1) have "n < b ^ (m + k)" by linarith
  with Suc show ?case by simp
qed simp

lemma demo_node_320: "as_bytes (NodeId 320) = ed_public demo_crypto demo_seed"
proof -
  have "digits_be 256 2 320 = [1, 64]" by (simp add: numeral_2_eq_2)
  then have "digits_be 256 32 320 = replicate 30 0 @ [1, 64]" using digits_be_pad [of 320 256 2 30] by simp
  then have "as_bytes (NodeId 320) = replicate 30 0 @ [1, 64]" by (simp add: as_bytes_def)
  also have "\<dots> = ed_public demo_crypto demo_seed"
    by (rule nth_equalityI)
      (auto simp: demo_crypto_def demo_secret_def demo_seed_def nth_append nth_list_update nth_Cons' less_Suc_eq_le)
  finally show ?thesis .
qed

lemma demo_crypto_laws: "crypto_laws demo_api"
  by (simp add: crypto_laws_def demo_api_def demo_wire_def demo_router_api_def demo_ed_correct demo_aead_correct
      demo_dh_symmetric demo_key_conversion demo_enc_codec_ok demo_ack_pack_ok)

lemma demo_node_fields:
  "st_local_id (demo_node self seed limit) = self"
  "st_secret_seed (demo_node self seed limit) = seed"
  "st_router (demo_node self seed limit) = router_new demo_router_api self"
  "st_tracker (demo_node self seed limit) = tracker_new"
  "cf_encryption (st_config (demo_node self seed limit)) = cf_encryption runtime_config_default"
  "ac_max_envelope_size (cf_antispam_config (st_config (demo_node self seed limit))) = limit"
  "Some (st_antispam (demo_node self seed limit)) = anti_spam_new list_lru anti_spam_config_default"
  by (simp_all add: demo_node_def demo_api_def runtime_state_new_def runtime_config_default_def anti_spam_new_def
      anti_spam_config_default_def Let_def)

lemma demo_admits:
  assumes "Some (st_antispam st) = anti_spam_new list_lru anti_spam_config_default"
    and "envelope_to_bytes (ap_wire demo_api) e = Inr raw"
    and "length raw \<le> ac_max_envelope_size (cf_antispam_config (st_config st))"
  shows "admits demo_api c raw e st"
proof -
  have "limiter_ok lru_contents [] (st_antispam st)"
    using assms(1) recent_senders.new_empty by (auto simp: anti_spam_new_def limiter_ok_def split: if_splits)
  from recent_senders.quiet_sender_admitted [OF this] assms(2,3) show ?thesis
    by (simp add: admits_def demo_api_def)
qed

lemma handle_send_message_config:
  "st_config (snd (handle_send_message api c to pl st)) = st_config st \<and>
   st_local_id (snd (handle_send_message api c to pl st)) = st_local_id st \<and>
   st_secret_seed (snd (handle_send_message api c to pl st)) = st_secret_seed st \<and>
   st_router (snd (handle_send_message api c to pl st)) = st_router st \<and>
   st_antispam (snd (handle_send_message api c to pl st)) = st_antispam st"
proof -
  have "st_config (snd (backup_actions_to_effects api c acts x)) = st_config x \<and>
     st_local_id (snd (backup_actions_to_effects api c acts x)) = st_local_id x \<and>
     st_secret_seed (snd (backup_actions_to_effects api c acts x)) = st_secret_seed x \<and>
     st_router (snd (backup_actions_to_effects api c acts x)) = st_router x \<and>
     st_antispam (snd (backup_actions_to_effects api c acts x)) = st_antispam x" for acts and x :: "('a, 'b) runtime_state"
    by (induction acts arbitrary: x)
      (auto simp: case_prod_beta Let_def envelopes_to_def split: backup_action.split)
  then show ?thesis
    by (simp add: handle_send_message_def case_prod_beta Let_def on_backup_def split: sum.split)
qed

lemma demo_sends:
  obtains e ok fail A' where "handle_send_message demo_api demo_ctx (NodeId 320) [1, 2, 3] (demo_node (NodeId 64) [] limit) =
    ([SendWithBackupFallback e ok fail], A')"
proof -
  have "\<exists>e. chat_envelope demo_api demo_ctx (NodeId 320) [1, 2, 3] (demo_node (NodeId 64) [] limit) = Inr e"
    using demo_encrypt_and_sign by (simp add: chat_envelope_def demo_api_def Let_def)
  then show thesis using that by (auto simp: handle_send_message_def Let_def case_prod_beta)
qed

theorem chat_end_to_end_witness:
  "\<exists>e ok fail A' raw ack B' rawA A1 A2.
     handle_send_message demo_api demo_ctx (NodeId 320) [1, 2, 3] (demo_node (NodeId 64) [] 0) =
       ([SendWithBackupFallback e ok fail], A') \<and>
     handle_incoming demo_api demo_ctx raw (demo_node (NodeId 320) demo_seed (length raw)) =
       Some ([DeliverMessage \<lparr>dm_from = NodeId 64, dm_payload = [1, 2, 3], dm_envelope_id = env_id e,
         dm_timestamp = now_ms demo_ctx, dm_signature_valid = True, dm_was_encrypted = True\<rparr>, SendEnvelope ack], B') \<and>
     handle_incoming demo_api demo_ctx rawA A1 =
       Some ([NotifyStatus \<lparr>sc_message_id = env_id e, sc_previous = Sent, sc_current = Delivered\<rparr>], A2)"
proof -
  let ?A = "demo_node (NodeId 64) [] 0"
  obtain e ok fail A' where send: "handle_send_message demo_api demo_ctx (NodeId 320) [1, 2, 3] ?A =
      ([SendWithBackupFallback e ok fail], A')"
    by (rule demo_sends)
  have bytes: "\<exists>raw. envelope_to_bytes (ap_wire demo_api) x = Inr raw" for x
    by (simp add: demo_api_def demo_wire_def envelope_to_bytes_def counting_codec_def)
  then obtain raw where raw: "envelope_to_bytes (ap_wire demo_api) e = Inr raw" by blast
  let ?B = "demo_node (NodeId 320) demo_seed (length raw)"
  have at: "node_at demo_api (NodeId 64) ?A" "node_at demo_api (NodeId 320) ?B"
    by (simp_all add: node_at_def demo_node_fields router_new_def demo_api_def demo_node_64 demo_node_320)
  have room: "tr_len (st_tracker ?A) < MAX_TRACKED"
    by (simp add: demo_node_fields tracker_new_def tr_len_def MAX_TRACKED_def)
  note all = chat_end_to_end [OF demo_crypto_laws at room send]
  have e: "chat_envelope demo_api demo_ctx (NodeId 320) [1, 2, 3] ?A = Inr e" by (rule sent_under_way(1) [OF room send])
  have acc: "accepts (ap_router demo_api) e (st_router ?B)"
    using chat_envelope_fields [OF e]
    by (simp add: accepts_def demo_node_fields router_new_def demo_api_def demo_router_api_def split: sum.split)
  have adm: "admits demo_api demo_ctx raw (e\<lparr>env_ttl := env_ttl e\<rparr>) ?B"
    by (rule demo_admits) (simp_all add: demo_node_fields raw)
  obtain ack B' where rcv: "handle_incoming demo_api demo_ctx raw ?B =
       Some ([DeliverMessage \<lparr>dm_from = NodeId 64, dm_payload = [1, 2, 3], dm_envelope_id = env_id e,
         dm_timestamp = now_ms demo_ctx, dm_signature_valid = True, dm_was_encrypted = cf_encryption (st_config ?A)\<rparr>, SendEnvelope ack], B')"
    and completes: "\<And>hops cA rawA A1 s. node_at demo_api (NodeId 64) A1 \<Longrightarrow> under_way (env_id e) s A1 \<Longrightarrow>
       \<not> hm_contains (ack_cache (st_router A1)) (ack_key (env_id e) (NodeId 320) RecipientReceived) \<Longrightarrow>
       admits demo_api cA rawA (ack\<lparr>env_ttl := hops\<rparr>) A1 \<Longrightarrow>
       \<exists>A2. handle_incoming demo_api cA rawA A1 =
         Some ([NotifyStatus \<lparr>sc_message_id = env_id e, sc_previous = s, sc_current = Delivered\<rparr>], A2)"
    using all [THEN conjunct2, THEN conjunct2, THEN conjunct2, THEN spec, THEN spec, THEN spec, THEN mp, OF conjI, OF acc adm]
    by (elim exE conjE) (rule that, assumption, blast)
  obtain rawA where rawA: "envelope_to_bytes (ap_wire demo_api) (ack\<lparr>env_ttl := env_ttl ack\<rparr>) = Inr rawA" using bytes by blast
  let ?A1 = "A'\<lparr>st_config := (st_config A')\<lparr>cf_antispam_config := anti_spam_config_default\<lparr>ac_max_envelope_size := length rawA\<rparr>\<rparr>\<rparr>"
  have A': "A' = snd (handle_send_message demo_api demo_ctx (NodeId 320) [1, 2, 3] ?A)" using send by simp
  note keeps = handle_send_message_config [of demo_api demo_ctx "NodeId 320" "[1, 2, 3]" ?A, folded A']
  have "\<exists>A2. handle_incoming demo_api demo_ctx rawA ?A1 =
      Some ([NotifyStatus \<lparr>sc_message_id = env_id e, sc_previous = Sent, sc_current = Delivered\<rparr>], A2)"
  proof (rule completes)
    show "node_at demo_api (NodeId 64) ?A1" using at(1) keeps by (simp add: node_at_def)
    show "under_way (env_id e) Sent ?A1" using all by (simp add: under_way_def)
    show "\<not> hm_contains (ack_cache (st_router ?A1)) (ack_key (env_id e) (NodeId 320) RecipientReceived)"
      using keeps by (simp add: demo_node_fields router_new_def)
    show "admits demo_api demo_ctx rawA (ack\<lparr>env_ttl := env_ttl ack\<rparr>) ?A1"
      by (rule demo_admits) (use keeps rawA in \<open>simp_all add: demo_node_fields\<close>)
  qed
  with send rcv show ?thesis by (auto simp: demo_node_fields runtime_config_default_def)
qed

end
