(* ===== verification/Tom_NodeRuns.thy ===== *)
theory Tom_NodeRuns
  imports Tom_RuntimeDelivery
begin

section \<open>Runs of a whole node\<close>

text \<open>
  The event loop of a node (\<open>runtime/loop.rs\<close>) over any sequence of inputs: started without a
  database and with timers of non-zero period, it does not panic, and the invariants of its
  components (\<open>node_wf\<close>, the subnets, the buckets of the rate limiter) hold together in every state it
  reaches. Then what the
  runtime guarantees of the envelopes it sends for groups, of its retries, and of the
  interception of actions a node addresses to itself.
\<close>

subsection \<open>The loop does not panic\<close>

lemma incoming_total:
  assumes "lru_cache (ap_buckets api) contents"
  shows "\<exists>r. handle_incoming api c raw st = Some r"
proof -
  have "\<exists>r. check_rate (ap_buckets api) s x n a = Some r" for s x n a
    by (rule lru_cache.check_rate_bucket [OF assms]) blast
  then show ?thesis
    by (auto simp: handle_incoming_def Let_def split: sum.split option.split prod.split)
      (metis option.distinct(1))
qed

text \<open>The authenticated cipher encrypts every message (\<open>chacha20poly1305\<close> limits only its length).\<close>

definition aead_total :: "crypto_api \<Rightarrow> bool" where
  "aead_total api \<longleftrightarrow> (\<forall>k n m. \<exists>c. aead_encrypt api k n m = Inr c)"

lemma send_group_message_total:
  assumes "aead_total (ap_crypto api)"
  shows "\<exists>r. handle_send_group_message api c gid body st = Some r"
proof -
  have [simp]: "encrypt_group_message (ap_crypto api) n m k = None \<longleftrightarrow> False" for n m k
    using assms [unfolded aead_total_def, THEN spec [of _ k], THEN spec [of _ n], THEN spec [of _ m]]
    by (auto simp: encrypt_group_message_def)
  have [simp]: "own_group_message api c gid body x = None \<longleftrightarrow> False" for x
    by (simp add: own_group_message_def group_message_new_encrypted_def Let_def split: option.split prod.split)
  show ?thesis
    by (simp add: handle_send_group_message_def case_prod_beta Let_def split: option.split)
qed

lemma command_total:
  assumes "aead_total (ap_crypto api)"
  shows "\<exists>r. loop_command api joined dht c cmd st = Some r"
proof (cases cmd)
  case (CmdSendGroupMessage gid body)
  then show ?thesis using send_group_message_total [OF assms, of c gid body st] by auto
qed simp_all

lemma input_total:
  assumes "lru_cache (ap_buckets api) contents" and "aead_total (ap_crypto api)"
  shows "\<exists>r. on_input api joined dht c inp st = Some r"
proof (cases inp)
  case (InData b)
  then show ?thesis using incoming_total [OF assms(1), of c b st] by auto
next
  case (InCommand cmd)
  then show ?thesis using command_total [OF assms(2)] by simp
qed (auto simp: case_prod_beta Let_def)

lemma loop_total:
  assumes "lru_cache (ap_buckets api) contents" and "aead_total (ap_crypto api)"
  shows "\<exists>lp'. runtime_loop api joined dht send inps lp = Some lp'"
proof (induction inps arbitrary: lp)
  case (Cons x inps)
  obtain c inp where x: "x = (c, inp)" by fastforce
  show ?case
  proof (cases "inp = InCommand CmdShutdown")
    case False
    obtain r where "on_input api joined dht c inp (lp_state lp) = Some r" using input_total [OF assms] by blast
    then obtain lp1 where "loop_step api joined dht send c inp lp = Some lp1"
      by (cases r) (auto simp: loop_step_def Let_def)
    with Cons.IH [of lp1] False x show ?thesis by simp
  qed (simp add: x)
qed simp

subsection \<open>The components' invariants together\<close>

lemma fresh_node_wf:
  assumes "runtime_state_new api c self seed config None = Some st"
  shows "node_wf st" and "st_local_id st = self" and "st_secret_seed st = seed" and "st_config st = config"
    and "st_subnets st = subnet_manager_new self"
  using assms
  by (auto simp: runtime_state_new_def node_wf_def router_new_wf hub_new_wf hub_new_memory new_store_wf
      new_manager_wf tracker_wf_def heartbeat_new_wf roles_wf_def role_manager_new_def anti_spam_new_def
      topology_new_def topology_wf_def tracker_new_def tracker_bounded_def tr_len_def backup_coordinator_new_def Let_def
      split: option.splits if_splits)

lemma fresh_limiter:
  assumes "lru_cache (ap_buckets api) contents" and "runtime_state_new api c self seed config None = Some st"
    and "cf_antispam_config config = anti_spam_config_default"
  shows "limiter_ok contents [] (st_antispam st)"
  using assms(2,3) lru_cache.new_empty [OF assms(1)]
  by (auto simp: runtime_state_new_def anti_spam_new_def limiter_ok_def Let_def split: option.splits if_splits)

text \<open>A loop that starts reaches its states by operations of the components.\<close>

lemma node_evolves:
  assumes "lru_cache (ap_buckets api) contents" and "aead_total (ap_crypto api)" and "timers_ok (st_config st)"
  obtains lp0 lp where "loop_start api dht send c \<lparr>lp_state = st, lp_world = w\<rparr> = Some lp0"
    and "runtime_loop api joined dht send inps lp0 = Some lp" and "evolves api st (lp_state lp)"
proof -
  obtain lp0 where lp0: "loop_start api dht send c \<lparr>lp_state = st, lp_world = w\<rparr> = Some lp0"
    and start: "evolves api st (lp_state lp0)"
    using assms(3) by (simp add: loop_start_def case_prod_beta Let_def tick_evolves(4))
  obtain lp where lp: "runtime_loop api joined dht send inps lp0 = Some lp" using loop_total [OF assms(1,2)] by blast
  from lp0 lp evolves_trans [OF start loop_evolves [OF lp]] show thesis by (rule that)
qed

text \<open>
  C6. A node keeps running. Started without a database, with any configuration the rate
  limiter accepts and in which the periods of the timers are not zero, and driven by any
  sequence of envelopes, commands, gossip events and timer ticks in any order, with any
  behaviour of the transport, its event loop never panics; its identity, key and configuration
  never change; and the invariants of the router, the peer table, the tracker, the hub, the
  group manager, the backup store, the heartbeat tracker, the role manager and the table of
  pending envelopes hold together in the state it reaches. The subnets of that state come from
  some sequence of calls of the subnet manager, and are disjoint clusters with an exact index
  if there were at most \<open>2 ^ 31\<close> calls; with the default limits, every bucket of the rate
  limiter is within its bounds.
\<close>

theorem node_runs:
  assumes "lru_cache (ap_buckets api) contents" and "aead_total (ap_crypto api)" and "timers_ok config"
    and "runtime_state_new api c self seed config None = Some st"
  shows "\<exists>lp0 lp calls. loop_start api dht send c \<lparr>lp_state = st, lp_world = w\<rparr> = Some lp0 \<and>
    runtime_loop api joined dht send inps lp0 = Some lp \<and>
    node_wf (lp_state lp) \<and> st_local_id (lp_state lp) = self \<and> st_secret_seed (lp_state lp) = seed \<and>
    st_config (lp_state lp) = config \<and>
    st_subnets (lp_state lp) = fold subnet_step calls (subnet_manager_new self) \<and>
    (length calls \<le> 2 ^ 31 \<longrightarrow> subnets_wf (st_subnets (lp_state lp))) \<and>
    (cf_antispam_config config = anti_spam_config_default \<longrightarrow>
      (\<forall>n b. contents (as_buckets (st_antispam (lp_state lp))) n = Some b \<longrightarrow> bucket_ok b))"
proof -
  note fresh = fresh_node_wf [OF assms(4)]
  have t: "timers_ok (st_config st)" using assms(3) fresh(4) by simp
  obtain lp0 lp where lp0: "loop_start api dht send c \<lparr>lp_state = st, lp_world = w\<rparr> = Some lp0"
    and lp: "runtime_loop api joined dht send inps lp0 = Some lp" and run: "evolves api st (lp_state lp)"
    by (rule node_evolves [OF assms(1,2) t])
  obtain calls where calls: "st_subnets (lp_state lp) = fold subnet_step calls (subnet_manager_new self)"
    using run fresh(5) by (auto simp: evolves_def reaches_def)
  obtain checks where checks: "st_antispam (lp_state lp) = fold (limiter_step (ap_buckets api)) checks (st_antispam st)"
    using run by (auto simp: evolves_def reaches_def)
  have buckets: "bucket_ok b" if "cf_antispam_config config = anti_spam_config_default"
    and b: "contents (as_buckets (st_antispam (lp_state lp))) n = Some b" for n b
    using lru_cache.limiter_run_ok [OF assms(1) fresh_limiter [OF assms(1,4) that(1)], of checks] b
    by (simp add: limiter_ok_def checks)
  have ids: "st_local_id (lp_state lp) = self" "st_secret_seed (lp_state lp) = seed" "st_config (lp_state lp) = config"
    using run fresh(2,3,4) by (simp_all add: evolves_def)
  have subnets: "length calls \<le> 2 ^ 31 \<longrightarrow> subnets_wf (st_subnets (lp_state lp))"
    by (simp add: calls subnets_run_wf)
  from lp0 lp node_wf_evolves [OF run fresh(1)] ids calls subnets buckets show ?thesis by blast
qed

lemma demo_aead_total: "aead_total (ap_crypto demo_api)"
  by (simp add: aead_total_def demo_api_def demo_crypto_def)

text \<open>A transport that always succeeds, and channels with room for one item each.\<close>

definition demo_world :: "unit world" where
  "demo_world =
     \<lparr>wd_transport = (), wd_slept_ms = 0, wd_messages = \<lparr>ch_items = [], ch_room = 1\<rparr>,
      wd_statuses = \<lparr>ch_items = [], ch_room = 1\<rparr>, wd_events = \<lparr>ch_items = [], ch_room = 1\<rparr>,
      wd_metrics = protocol_metrics_new, wd_calls = []\<rparr>"

theorem node_runs_witness:
  "\<exists>st lp0 lp. runtime_state_new demo_api demo_ctx (NodeId 64) [] runtime_config_default None = Some st \<and>
     loop_start demo_api True (\<lambda>_ _ t. (Inr (), t)) demo_ctx \<lparr>lp_state = st, lp_world = demo_world\<rparr> = Some lp0 \<and>
     runtime_loop demo_api True True (\<lambda>_ _ t. (Inr (), t))
       [(demo_ctx, InCommand (CmdCreateGroup ''team'' (NodeId 64) [NodeId 320] False)), (demo_ctx, InData [1, 2, 3]),
        (demo_ctx, InCommand (CmdSendMessage (NodeId 320) [4])), (demo_ctx, TickHeartbeat), (demo_ctx, TickRoles)] lp0 = Some lp \<and>
     node_wf (lp_state lp) \<and> st_local_id (lp_state lp) = NodeId 64"
proof -
  have "lru_cache (ap_buckets demo_api) lru_contents" by (simp add: demo_api_def recent_senders.lru_cache_axioms)
  moreover obtain st where st: "runtime_state_new demo_api demo_ctx (NodeId 64) [] runtime_config_default None = Some st"
    by (simp add: runtime_state_new_def anti_spam_new_def demo_api_def runtime_config_default_def
        anti_spam_config_default_def Let_def)
  moreover have "timers_ok runtime_config_default" by (simp add: timers_ok_def runtime_config_default_def)
  ultimately show ?thesis using node_runs [OF _ demo_aead_total _ st] st by blast
qed

subsection \<open>Interception of a node's own actions\<close>

text \<open>Interception that gives up when local handling nests deeper than \<open>d\<close>.\<close>

fun intercept_within ::
  "('c, 'b) runtime_api \<Rightarrow> ctx \<Rightarrow> node_id \<Rightarrow> nat \<Rightarrow> group_action list \<Rightarrow> ('c, 'b) runtime_state
     \<Rightarrow> (group_action list \<times> ('c, 'b) runtime_state) option"
and intercept_own ::
  "('c, 'b) runtime_api \<Rightarrow> ctx \<Rightarrow> node_id \<Rightarrow> nat \<Rightarrow> group_payload \<Rightarrow> ('c, 'b) runtime_state
     \<Rightarrow> (group_action list \<times> ('c, 'b) runtime_state) option" where
  "intercept_within api c self d [] st = Some ([], st)"
| "intercept_within api c self d (GaSend to p # acts) st =
     (if to = self
      then Option.bind (intercept_own api c self d p st) (\<lambda>(new, st).
             map_option (\<lambda>(rest, st). (new @ rest, st)) (intercept_within api c self d acts st))
      else map_option (\<lambda>(rest, st). (GaSend to p # rest, st)) (intercept_within api c self d acts st))"
| "intercept_within api c self d (GaBroadcast to p # acts) st =
     (if self \<in> set to
      then Option.bind (intercept_own api c self d p st) (\<lambda>(new, st).
             map_option (\<lambda>(rest, st).
                 (new @ (if filter (\<lambda>t. t \<noteq> self) to \<noteq> [] then [GaBroadcast (filter (\<lambda>t. t \<noteq> self) to) p] else []) @ rest, st))
               (intercept_within api c self d acts st))
      else map_option (\<lambda>(rest, st). (GaBroadcast to p # rest, st)) (intercept_within api c self d acts st))"
| "intercept_within api c self d (GaEvent e # acts) st =
     map_option (\<lambda>(rest, st). (GaEvent e # rest, st)) (intercept_within api c self d acts st)"
| "intercept_within api c self d (GaNone # acts) st =
     map_option (\<lambda>(rest, st). (GaNone # rest, st)) (intercept_within api c self d acts st)"
| "intercept_own api c self 0 p st = None"
| "intercept_own api c self (Suc d) p st =
     (let (new, st) = handle_local_group_payload api c self p st in intercept_within api c self d new st)"

lemma enough_depth:
  "ranked self d acts \<Longrightarrow> intercept_within api c self d acts st = Some (intercept_loop api c self acts st)"
proof (induction api c self acts st arbitrary: d rule: intercept_loop.induct)
  case (2 api c self to p acts st)
  show ?case
  proof (cases "to = self")
    case True
    with "2.prems" obtain k where d: "d = Suc k" and k: "payload_rank p \<le> k" by (cases d) auto
    have "ranked self k (fst (handle_local_group_payload api c self p st))"
      by (rule ranked_mono [OF local_payload_ranked k])
    with "2.IH"(1) [OF True refl prod.collapse] "2.IH"(2) [OF True refl prod.collapse refl prod.collapse] "2.prems"
    show ?thesis by (simp add: True d case_prod_beta Let_def del: handle_local_group_payload.simps)
  qed (use "2.IH"(3) "2.prems" in \<open>simp add: case_prod_beta Let_def\<close>)
next
  case (3 api c self to p acts st)
  show ?case
  proof (cases "self \<in> set to")
    case True
    with "3.prems" obtain k where d: "d = Suc k" and k: "payload_rank p \<le> k" by (cases d) auto
    have "ranked self k (fst (handle_local_group_payload api c self p st))"
      by (rule ranked_mono [OF local_payload_ranked k])
    with "3.IH"(1) [OF True refl prod.collapse] "3.IH"(2) [OF True refl prod.collapse refl prod.collapse refl] "3.prems"
    show ?thesis by (simp add: True d case_prod_beta Let_def del: handle_local_group_payload.simps)
  qed (use "3.IH"(3) "3.prems" in \<open>simp add: case_prod_beta Let_def\<close>)
qed (simp_all add: case_prod_beta Let_def)

lemma action_rank_bound: "action_rank self a \<le> 4"
proof -
  have "payload_rank p \<le> 3" for p by (cases p) simp_all
  then show ?thesis by (cases a) simp_all
qed

lemma nothing_own_left: "ranked self 0 (fst (intercept_loop api c self acts st))"
proof (induction api c self acts st rule: intercept_loop.induct)
  case (2 api c self to p acts st)
  then show ?case
    using "2.IH"(1) [OF _ refl prod.collapse] "2.IH"(2) [OF _ refl prod.collapse refl prod.collapse]
    by (cases "to = self") (simp_all add: case_prod_beta Let_def del: handle_local_group_payload.simps)
next
  case (3 api c self to p acts st)
  then show ?case
    using "3.IH"(1) [OF _ refl prod.collapse] "3.IH"(2) [OF _ refl prod.collapse refl prod.collapse refl]
    by (cases "self \<in> set to") (simp_all add: case_prod_beta Let_def del: handle_local_group_payload.simps)
qed (simp_all add: case_prod_beta Let_def)

definition addressed_to :: "node_id \<Rightarrow> group_action \<Rightarrow> bool" where
  "addressed_to n a = (case a of GaSend to _ \<Rightarrow> to = n | GaBroadcast to _ \<Rightarrow> n \<in> set to | _ \<Rightarrow> False)"

lemma addressed_to_rank: "addressed_to n a \<longleftrightarrow> action_rank n a \<noteq> 0"
  by (cases a) (simp_all add: addressed_to_def)

text \<open>
  C8. A node that is hub and member of a group handles what it sends to itself at once, and what
  that makes it send to itself in turn. This always ends: the handling never nests deeper than
  four levels, whatever the actions and the state of the node; and no action it leaves for the
  network is addressed to the node itself.
\<close>

theorem interception_ends:
  "intercept_within api c (st_local_id st) 4 acts st = Some (intercept_self_group_actions api c acts st) \<and>
   \<not> list_ex (addressed_to (st_local_id st)) (fst (intercept_self_group_actions api c acts st))"
  using enough_depth [of "st_local_id st" 4 acts api c st] nothing_own_left [of "st_local_id st" api c acts st] action_rank_bound
  by (simp add: intercept_self_group_actions_def list_all_iff list_ex_iff addressed_to_rank)

subsection \<open>Group payloads on the wire\<close>

text \<open>What an action puts on the wire: payloads and the nodes they go to.\<close>

fun deliveries :: "group_action \<Rightarrow> (node_id \<times> group_payload) list" where
  "deliveries (GaSend to p) = [(to, p)]"
| "deliveries (GaBroadcast to p) = map (\<lambda>t. (t, p)) to"
| "deliveries _ = []"

text \<open>An envelope that carries the payload for the target, from the node that signs with the seed.\<close>

definition carries ::
  "('c, 'b) runtime_api \<Rightarrow> node_id \<Rightarrow> bytes \<Rightarrow> node_id \<times> group_payload \<Rightarrow> runtime_effect \<Rightarrow> bool" where
  "carries api self seed d eff =
     (case eff of
        SendEnvelope e \<Rightarrow>
          (\<exists>uuid now via. e = builder_sign (ap_crypto api) (ap_wire api) uuid now seed
             (builder_via via (builder_new self (fst d) (group_payload_to_message_type (snd d))
                (pack_vec (ap_group_payload api) (snd d)))))
      | _ \<Rightarrow> False)"

definition is_send :: "runtime_effect \<Rightarrow> bool" where
  "is_send eff = (case eff of SendEnvelope _ \<Rightarrow> True | _ \<Rightarrow> False)"

lemma envelopes_to_carry:
  "list_all2 (carries api (st_local_id st) (st_secret_seed st)) (map (\<lambda>t. (t, p)) targets)
     (fst (envelopes_to api c (group_payload_to_message_type p) (pack_vec (ap_group_payload api) p) via targets st))"
  by (auto simp: envelopes_to_def own_envelope_def carries_def list_all2_conv_all_nth nth_enumerate_eq)

lemma envelopes_to_sends: "filter is_send (fst (envelopes_to api c mt pl via targets st)) = fst (envelopes_to api c mt pl via targets st)"
  by (auto simp: envelopes_to_def is_send_def filter_id_conv)

lemma envelopes_to_self [simp]:
  "st_local_id (snd (envelopes_to api c mt pl via targets st)) = st_local_id st"
  "st_secret_seed (snd (envelopes_to api c mt pl via targets st)) = st_secret_seed st"
  by (simp_all add: envelopes_to_def)

lemma surfaced_events: "filter is_send (surface_group_event ev) = []"
  by (cases ev) (simp_all add: is_send_def)

lemma effects_carry:
  "list_all2 (carries api (st_local_id st) (st_secret_seed st)) (concat (map deliveries acts))
     (filter is_send (fst (group_actions_to_effects api c acts st)))"
proof (induction acts arbitrary: st)
  case (Cons act acts)
  show ?case
  proof (cases act)
    case (GaSend to p)
    then show ?thesis
      using Cons [of "snd (envelopes_to api c (group_payload_to_message_type p) (pack_vec (ap_group_payload api) p) (path_to st) [to] st)"]
        envelopes_to_carry [of api st p "[to]" c "path_to st"]
      by (simp add: case_prod_beta Let_def envelopes_to_sends list_all2_appendI [of _ "[_]", simplified])
  next
    case (GaBroadcast to p)
    define st' where "st' = (case p of GpMessage msg \<Rightarrow>
        (case st_store st of None \<Rightarrow> st | Some db \<Rightarrow>
           let data = (case to_vec (ap_group_message api) msg of Inl _ \<Rightarrow> [] | Inr b \<Rightarrow> b)
           in st\<lparr>st_store := Some (save_hub_message (msg_group_id msg) (msg_seq msg) data (now_ms c) db)\<rparr>) | _ \<Rightarrow> st)"
    have self: "st_local_id st' = st_local_id st" "st_secret_seed st' = st_secret_seed st"
      by (simp_all add: st'_def Let_def split: group_payload.split option.split)
    show ?thesis
      using Cons [of "snd (envelopes_to api c (group_payload_to_message_type p) (pack_vec (ap_group_payload api) p) (path_to st') to st')"]
        envelopes_to_carry [of api st' p to c "path_to st'"]
      by (simp add: GaBroadcast case_prod_beta Let_def [where s = "case act of _ \<Rightarrow> _"] envelopes_to_sends
          list_all2_appendI self flip: st'_def)
  qed (use Cons [of st] surfaced_events in \<open>simp_all add: case_prod_beta Let_def\<close>)
qed simp

lemma group_message_class: "class_of (group_payload_to_message_type p) = GroupClass"
  by (cases p) simp_all

text \<open>
  C7. What a node sends for its groups is understood as it was meant. The envelopes made from a
  list of group actions are, in order, one for each recipient of each action; every one is from
  the node, to that recipient, of the message type of its payload, with a valid signature; and
  the runtime of any node that processes it, with whatever hop count, takes it to the group
  handler, with the sender and exactly the payload of the action. (Any node: also a relay on
  the way to the recipient, see the findings.)
\<close>

theorem group_envelopes_understood:
  assumes "ed_correct (ap_crypto api)" and "pack_ok (ap_group_payload api)" and "node_at api a st"
  shows "list_all2 (\<lambda>(to, p) eff. \<exists>e. eff = SendEnvelope e \<and> env_from e = a \<and> env_to e = to \<and>
      env_msg_type e = group_payload_to_message_type p \<and> signature_valid api e \<and>
      (\<forall>hops c' R. dispatch_envelope api c' (e\<lparr>env_ttl := hops\<rparr>) R = handle_group_payload api c' a p R))
    (concat (map deliveries acts)) (filter is_send (fst (group_actions_to_effects api c acts st)))"
proof (rule list_all2_mono [OF effects_carry], clarify)
  fix to p eff
  assume "carries api (st_local_id st) (st_secret_seed st) (to, p) eff"
  then obtain uuid now via where eff: "eff = SendEnvelope (builder_sign (ap_crypto api) (ap_wire api) uuid now (st_secret_seed st)
      (builder_via via (builder_new (st_local_id st) to (group_payload_to_message_type p) (pack_vec (ap_group_payload api) p))))"
    (is "eff = SendEnvelope ?e")
    by (auto simp: carries_def split: runtime_effect.splits)
  have a: "st_local_id st = a" "as_bytes a = ed_public (ap_crypto api) (st_secret_seed st)"
    using assms(3) by (simp_all add: node_at_def)
  have fields: "env_from ?e = a" "env_to ?e = to" "env_msg_type ?e = group_payload_to_message_type p"
    "env_payload ?e = pack_vec (ap_group_payload api) p" "\<not> env_encrypted ?e"
    by (simp_all add: builder_sign_def sign_def build_def builder_via_def builder_new_def a)
  have "verify_signature (ap_crypto api) (ap_wire api) ?e = Inr ()"
    unfolding builder_sign_def using assms(1) a
    by (intro sign_verifies) (simp_all add: build_def builder_via_def builder_new_def)
  moreover have "length (env_signature ?e) = 64" using assms(1) by (simp add: builder_sign_def sign_def ed_correct_def)
  then have "is_signed ?e" by (auto simp: is_signed_def)
  moreover
  have "dispatch_envelope api c' (?e\<lparr>env_ttl := hops\<rparr>) R = handle_group_payload api c' a p R" for hops c' R
    using assms(2) by (simp add: dispatch_envelope_def fields group_message_class handle_incoming_group_def pack_ok_def)
  ultimately show "\<exists>e. eff = SendEnvelope e \<and> env_from e = a \<and> env_to e = to \<and>
      env_msg_type e = group_payload_to_message_type p \<and> signature_valid api e \<and>
      (\<forall>hops c' R. dispatch_envelope api c' (e\<lparr>env_ttl := hops\<rparr>) R = handle_group_payload api c' a p R)"
    using eff fields by (simp add: signature_valid_def)
qed

theorem group_envelopes_understood_witness:
  "\<exists>e. filter is_send (fst (group_actions_to_effects demo_api demo_ctx
       [GaNone, GaSend (NodeId 320) (GpJoin (GroupId ''g'') ''ann'')] (demo_node (NodeId 64) [] 0))) = [SendEnvelope e] \<and>
     signature_valid demo_api e \<and> env_msg_type e = GroupJoin \<and>
     dispatch_envelope demo_api demo_ctx (e\<lparr>env_ttl := 1\<rparr>) (demo_node (NodeId 9) [5] 0) =
       handle_group_payload demo_api demo_ctx (NodeId 64) (GpJoin (GroupId ''g'') ''ann'') (demo_node (NodeId 9) [5] 0)"
proof -
  have laws: "ed_correct (ap_crypto demo_api)" "pack_ok (ap_group_payload demo_api)"
    "node_at demo_api (NodeId 64) (demo_node (NodeId 64) [] 0)"
    by (simp_all add: node_at_def demo_node_fields router_new_def demo_api_def demo_ed_correct demo_node_64)
  from group_envelopes_understood [OF laws, of "[GaNone, GaSend (NodeId 320) (GpJoin (GroupId ''g'') ''ann'')]" demo_ctx]
  show ?thesis by (auto simp: list_all2_Cons1)
qed

subsection \<open>Messages nobody acknowledges\<close>

text \<open>The effects that concern one message.\<close>

definition about :: "string \<Rightarrow> runtime_effect \<Rightarrow> bool" where
  "about mid eff =
     (case eff of
        SendEnvelope e \<Rightarrow> env_id e = mid
      | NotifyStatus ch \<Rightarrow> sc_message_id ch = mid
      | Emit (PeDeliveryRetry k _ _) \<Rightarrow> k = mid
      | Emit (PeDeliveryTimeout k _ _) \<Rightarrow> k = mid
      | _ \<Rightarrow> False)"

text \<open>The retry cache holds every envelope under its own identifier.\<close>

definition cache_keyed :: "('c, 'b) runtime_state \<Rightarrow> bool" where
  "cache_keyed st \<longleftrightarrow> tracker_wf (st_tracker st) \<and>
     (\<forall>k e. hm_get (st_pending_envelopes st) k = Some e \<longrightarrow> env_id e = k)"

definition same_message :: "string \<Rightarrow> ('c, 'b) runtime_state \<Rightarrow> ('c, 'b) runtime_state \<Rightarrow> bool" where
  "same_message mid st st' \<longleftrightarrow>
     hm_get (tr_messages (st_tracker st')) mid = hm_get (tr_messages (st_tracker st)) mid \<and>
     hm_get (st_pending_envelopes st') mid = hm_get (st_pending_envelopes st) mid"

lemma status_effects_about: "(\<forall>ch. c = Some ch \<longrightarrow> sc_message_id ch \<noteq> mid) \<Longrightarrow> filter (about mid) (status_effects c) = []"
  by (simp add: status_effects_def about_def split: option.split)

lemma retry_or_fail_keyed: "cache_keyed st \<Longrightarrow> cache_keyed (snd (retry_or_fail c x st))"
  by (cases x)
    (auto simp: cache_keyed_def retry_or_fail_def reset_deadline_def mark_failed_def tracker_wf_def case_prod_beta Let_def
      hm_simps intro: hm_wfs split: option.splits if_splits)

lemma retry_or_fail_other:
  assumes "cache_keyed st" and "fst x \<noteq> mid"
  shows "filter (about mid) (fst (retry_or_fail c x st)) = []" and "same_message mid st (snd (retry_or_fail c x st))"
proof -
  obtain k to r where x: "x = (k, to, r)" by (metis prod_cases3)
  show "filter (about mid) (fst (retry_or_fail c x st)) = []"
    using assms by (auto simp: x retry_or_fail_def cache_keyed_def about_def mark_failed_def status_effects_def
        case_prod_beta Let_def split: option.splits)
  show "same_message mid st (snd (retry_or_fail c x st))"
    using assms by (auto simp: x retry_or_fail_def same_message_def reset_deadline_def mark_failed_def case_prod_beta
        Let_def hm_simps split: option.splits)
qed

lemma for_each_others:
  assumes "cache_keyed st" and "mid \<notin> fst ` set xs"
  shows "filter (about mid) (fst (for_each (retry_or_fail c) xs st)) = [] \<and>
    same_message mid st (snd (for_each (retry_or_fail c) xs st)) \<and> cache_keyed (snd (for_each (retry_or_fail c) xs st))"
  using assms
proof (induction xs arbitrary: st)
  case (Cons x xs)
  have x: "fst x \<noteq> mid" using Cons.prems by auto
  have k: "cache_keyed (snd (retry_or_fail c x st))" by (rule retry_or_fail_keyed [OF Cons.prems(1)])
  with Cons.IH [OF k] Cons.prems retry_or_fail_other [OF Cons.prems(1) x] show ?case
    by (simp add: case_prod_beta Let_def same_message_def)
qed (simp add: same_message_def)

lemma for_each_append:
  "for_each f (xs @ ys) s =
     (fst (for_each f xs s) @ fst (for_each f ys (snd (for_each f xs s))), snd (for_each f ys (snd (for_each f xs s))))"
  by (induction xs arbitrary: s) (simp_all add: case_prod_beta Let_def)

text \<open>One tick, seen from one message.\<close>

lemma tick_message:
  fixes c :: ctx
  assumes "cache_keyed st" and "hm_get (tr_messages (st_tracker st)) mid = Some m"
  defines "x \<equiv> (mid, tm_to m, tm_retries_remaining m)" and "r \<equiv> tick_delivery_deadlines c st"
  shows "cache_keyed (snd r)"
    and "\<not> deadline_expired c m \<Longrightarrow> filter (about mid) (fst r) = [] \<and> same_message mid st (snd r)"
    and "deadline_expired c m \<Longrightarrow> \<exists>st1. cache_keyed st1 \<and> same_message mid st st1 \<and>
      filter (about mid) (fst r) = filter (about mid) (fst (retry_or_fail c x st1)) \<and>
      same_message mid (snd (retry_or_fail c x st1)) (snd r)"
proof -
  let ?ms = "tr_messages (st_tracker st)" and ?f = "\<lambda>(k, m). (k, tm_to m, tm_retries_remaining m)"
  have "distinct (map fst ?ms)" using assms(1) by (simp add: cache_keyed_def tracker_wf_def)
  moreover have "(mid, m) \<in> set ?ms" using assms(2) by (rule map_of_SomeD)
  then obtain pre post where ms: "?ms = pre @ (mid, m) # post" by (meson split_list)
  ultimately have out: "mid \<notin> fst ` set pre" "mid \<notin> fst ` set post" by auto
  define P where "P = map ?f (filter (\<lambda>(_, m). deadline_expired c m) pre)"
  define Q where "Q = map ?f (filter (\<lambda>(_, m). deadline_expired c m) post)"
  have P: "mid \<notin> fst ` set P" and Q: "mid \<notin> fst ` set Q" using out by (auto simp: P_def Q_def image_iff)
  have r: "r = for_each (retry_or_fail c) (P @ (if deadline_expired c m then [x] else []) @ Q) st"
    by (simp add: r_def tick_delivery_deadlines_def expired_deadlines_def ms P_def Q_def x_def)
  let ?s1 = "snd (for_each (retry_or_fail c) P st)"
  note p = for_each_others [OF assms(1) P, of c]
  note q = for_each_others [OF _ Q, of _ c]
  show "cache_keyed (snd r)"
    using p q [of ?s1] q [OF retry_or_fail_keyed, of ?s1 c x] by (simp add: r for_each_append case_prod_beta Let_def)
  show "filter (about mid) (fst r) = [] \<and> same_message mid st (snd r)" if "\<not> deadline_expired c m"
    using p q [of ?s1] that by (simp add: r for_each_append same_message_def)
  show "\<exists>st1. cache_keyed st1 \<and> same_message mid st st1 \<and>
      filter (about mid) (fst r) = filter (about mid) (fst (retry_or_fail c x st1)) \<and>
      same_message mid (snd (retry_or_fail c x st1)) (snd r)" if "deadline_expired c m"
    using p q [of "snd (retry_or_fail c x ?s1)"] retry_or_fail_keyed [of ?s1 c x] that
    by (intro exI [of _ ?s1]) (simp add: r for_each_append case_prod_beta Let_def)
qed

text \<open>A message that is under way, with its envelope in the cache.\<close>

definition waiting :: "string \<Rightarrow> tracked_message \<Rightarrow> envelope \<Rightarrow> ('c, 'b) runtime_state \<Rightarrow> bool" where
  "waiting mid m e st \<longleftrightarrow> cache_keyed st \<and>
     hm_get (tr_messages (st_tracker st)) mid = Some m \<and> hm_get (st_pending_envelopes st) mid = Some e \<and>
     tm_status m < Delivered \<and> tm_status m \<noteq> Failed"

lemma early_tick:
  assumes "waiting mid m e st" and "tm_deadline m = Some d" and "now_instant c < d"
  shows "filter (about mid) (fst (tick_delivery_deadlines c st)) = []" and "waiting mid m e (snd (tick_delivery_deadlines c st))"
proof -
  have "\<not> deadline_expired c m" using assms by (simp add: deadline_expired_def)
  with assms(1) tick_message(1,2) [of st mid m c]
  show "filter (about mid) (fst (tick_delivery_deadlines c st)) = []" and "waiting mid m e (snd (tick_delivery_deadlines c st))"
    by (simp_all add: waiting_def same_message_def)
qed

lemma early_ticks:
  assumes "waiting mid m e st" and "tm_deadline m = Some d" and "list_all (\<lambda>c. now_instant c < d) cs"
  shows "filter (about mid) (fst (for_each tick_delivery_deadlines cs st)) = [] \<and>
    waiting mid m e (snd (for_each tick_delivery_deadlines cs st))"
  using assms(1,3) by (induction cs arbitrary: st) (simp_all add: case_prod_beta Let_def early_tick [OF _ assms(2)])

lemma retry_tick:
  assumes "waiting mid m e st" and "tm_deadline m = Some d" and "d \<le> now_instant c" and "0 < tm_retries_remaining m"
  shows "filter (about mid) (fst (tick_delivery_deadlines c st)) =
      [SendEnvelope e, Emit (PeDeliveryRetry mid (tm_to m) (DEFAULT_MAX_RETRIES - tm_retries_remaining m + 1))]"
    and "waiting mid (m\<lparr>tm_deadline := Some (now_instant c + DEFAULT_ACK_DEADLINE),
      tm_retries_remaining := saturating_sub (tm_retries_remaining m) 1\<rparr>) e (snd (tick_delivery_deadlines c st))"
proof -
  let ?x = "(mid, tm_to m, tm_retries_remaining m)"
  have "deadline_expired c m" using assms by (simp add: deadline_expired_def waiting_def)
  with assms(1) tick_message(1,3) [of st mid m c] obtain st1
    where k: "cache_keyed (snd (tick_delivery_deadlines c st))" and st1: "cache_keyed st1" "same_message mid st st1"
      and f: "filter (about mid) (fst (tick_delivery_deadlines c st)) = filter (about mid) (fst (retry_or_fail c ?x st1))"
      and s: "same_message mid (snd (retry_or_fail c ?x st1)) (snd (tick_delivery_deadlines c st))"
    by (auto simp: waiting_def)
  have e: "hm_get (st_pending_envelopes st1) mid = Some e" "hm_get (tr_messages (st_tracker st1)) mid = Some m" "env_id e = mid"
    using st1 assms(1) by (auto simp: same_message_def waiting_def cache_keyed_def)
  show "filter (about mid) (fst (tick_delivery_deadlines c st)) =
      [SendEnvelope e, Emit (PeDeliveryRetry mid (tm_to m) (DEFAULT_MAX_RETRIES - tm_retries_remaining m + 1))]"
    using assms(4) e unfolding f by (simp add: retry_or_fail_def about_def)
  show "waiting mid (m\<lparr>tm_deadline := Some (now_instant c + DEFAULT_ACK_DEADLINE),
      tm_retries_remaining := saturating_sub (tm_retries_remaining m) 1\<rparr>) e (snd (tick_delivery_deadlines c st))"
    using k s e assms(1,4) by (simp add: waiting_def same_message_def retry_or_fail_def reset_deadline_def hm_simps)
qed

lemma fail_tick:
  assumes "waiting mid m e st" and "tm_deadline m = Some d" and "d \<le> now_instant c" and "tm_retries_remaining m = 0"
  shows "filter (about mid) (fst (tick_delivery_deadlines c st)) =
      [NotifyStatus \<lparr>sc_message_id = mid, sc_previous = tm_status m, sc_current = Failed\<rparr>,
       Emit (PeDeliveryTimeout mid (tm_to m) (tm_status m))]"
    and "tr_status mid (st_tracker (snd (tick_delivery_deadlines c st))) = Some Failed"
    and "hm_get (st_pending_envelopes (snd (tick_delivery_deadlines c st))) mid = None"
proof -
  let ?x = "(mid, tm_to m, tm_retries_remaining m)"
  have "deadline_expired c m" using assms by (simp add: deadline_expired_def waiting_def)
  with assms(1) tick_message(3) [of st mid m c] obtain st1
    where st1: "cache_keyed st1" "same_message mid st st1"
      and f: "filter (about mid) (fst (tick_delivery_deadlines c st)) = filter (about mid) (fst (retry_or_fail c ?x st1))"
      and s: "same_message mid (snd (retry_or_fail c ?x st1)) (snd (tick_delivery_deadlines c st))"
    by (auto simp: waiting_def)
  have e: "hm_get (tr_messages (st_tracker st1)) mid = Some m" using st1 assms(1) by (auto simp: same_message_def waiting_def)
  have m: "\<not> Delivered \<le> tm_status m" using assms(1) by (simp add: waiting_def status_order)
  show "filter (about mid) (fst (tick_delivery_deadlines c st)) =
      [NotifyStatus \<lparr>sc_message_id = mid, sc_previous = tm_status m, sc_current = Failed\<rparr>,
       Emit (PeDeliveryTimeout mid (tm_to m) (tm_status m))]"
    using assms(4) e m unfolding f by (simp add: retry_or_fail_def about_def mark_failed_def status_effects_def tr_status_def)
  show "tr_status mid (st_tracker (snd (tick_delivery_deadlines c st))) = Some Failed"
    and "hm_get (st_pending_envelopes (snd (tick_delivery_deadlines c st))) mid = None"
    using s e m assms(4) by (simp_all add: same_message_def retry_or_fail_def mark_failed_def tr_status_def hm_simps)
qed

text \<open>
  C9. A message nobody acknowledges is sent again exactly twice and then reported as failed.
  From the moment it is tracked with its deadline and its two retries, take any sequence of
  deadline ticks of which \<open>c1\<close> is the first not before the deadline, \<open>c2\<close> the first not
  before thirty seconds after \<open>c1\<close>, and \<open>c3\<close> the first not before thirty seconds after \<open>c2\<close>. Among
  the effects, those about this message are: its envelope and the report of the first retry, its envelope
  and the report of the second, the change of its status to failed and the report of the timeout; whatever other
  messages are tracked. Then it is tracked as failed and its envelope is no longer cached.
\<close>

theorem unacknowledged_message_fails:
  assumes "waiting mid m e st" and "tm_deadline m = Some d" and "tm_retries_remaining m = DEFAULT_MAX_RETRIES"
    and "list_all (\<lambda>c. now_instant c < d) cs1" and "d \<le> now_instant c1"
    and "list_all (\<lambda>c. now_instant c < now_instant c1 + DEFAULT_ACK_DEADLINE) cs2"
    and "now_instant c1 + DEFAULT_ACK_DEADLINE \<le> now_instant c2"
    and "list_all (\<lambda>c. now_instant c < now_instant c2 + DEFAULT_ACK_DEADLINE) cs3"
    and "now_instant c2 + DEFAULT_ACK_DEADLINE \<le> now_instant c3"
  shows "case for_each tick_delivery_deadlines (cs1 @ [c1] @ cs2 @ [c2] @ cs3 @ [c3]) st of (effs, st') \<Rightarrow>
    filter (about mid) effs =
      [SendEnvelope e, Emit (PeDeliveryRetry mid (tm_to m) 1), SendEnvelope e, Emit (PeDeliveryRetry mid (tm_to m) 2),
       NotifyStatus \<lparr>sc_message_id = mid, sc_previous = tm_status m, sc_current = Failed\<rparr>,
       Emit (PeDeliveryTimeout mid (tm_to m) (tm_status m))] \<and>
    tr_status mid (st_tracker st') = Some Failed \<and> hm_get (st_pending_envelopes st') mid = None"
proof -
  let ?tick = "\<lambda>c s. snd (tick_delivery_deadlines c s)" and ?ticks = "\<lambda>cs s. snd (for_each tick_delivery_deadlines cs s)"
  define m1 where "m1 = m\<lparr>tm_deadline := Some (now_instant c1 + DEFAULT_ACK_DEADLINE), tm_retries_remaining := 1\<rparr>"
  define m2 where "m2 = m\<lparr>tm_deadline := Some (now_instant c2 + DEFAULT_ACK_DEADLINE), tm_retries_remaining := 0\<rparr>"
  note w1 = early_ticks [OF assms(1,2,4)]
  note t1 = retry_tick [OF w1 [THEN conjunct2] assms(2,5)]
  have m1: "waiting mid m1 e (?tick c1 (?ticks cs1 st))"
    using t1(2) assms(3) by (simp add: m1_def DEFAULT_MAX_RETRIES_def saturating_sub_def)
  note w2 = early_ticks [OF m1 _ assms(6)]
  note t2 = retry_tick [OF w2 [THEN conjunct2] _ assms(7)]
  have m2: "waiting mid m2 e (?tick c2 (?ticks cs2 (?tick c1 (?ticks cs1 st))))"
    using t2(2) by (simp add: m1_def m2_def saturating_sub_def)
  note w3 = early_ticks [OF m2 _ assms(8)]
  note t3 = fail_tick [OF w3 [THEN conjunct2] _ assms(9)]
  show ?thesis
    using w1 t1(1) w2 t2(1) w3 t3 assms(3)
    by (simp add: for_each_append case_prod_beta Let_def m1_def m2_def DEFAULT_MAX_RETRIES_def)
qed

definition waiting_node :: "(bytes list, nat \<times> (node_id, token_bucket) hmap) runtime_state" where
  "waiting_node = (demo_node (NodeId 64) [] 0)\<lparr>
     st_tracker := snd (mark_sent ''m'' (snd (track demo_ctx ''m'' (NodeId 320) tracker_new))),
     st_pending_envelopes := [(''m'', demo_env)]\<rparr>"

definition demo_at :: "nat \<Rightarrow> ctx" where
  "demo_at s = demo_ctx\<lparr>now_instant := secs s\<rparr>"

theorem unacknowledged_message_fails_witness:
  "\<exists>m. waiting ''m'' m demo_env waiting_node \<and>
     (case for_each tick_delivery_deadlines [demo_at 34, demo_at 35, demo_at 70, demo_at 90, demo_at 100] waiting_node of
        (effs, st') \<Rightarrow>
          filter (about ''m'') effs =
            [SendEnvelope demo_env, Emit (PeDeliveryRetry ''m'' (NodeId 320) 1),
             SendEnvelope demo_env, Emit (PeDeliveryRetry ''m'' (NodeId 320) 2),
             NotifyStatus \<lparr>sc_message_id = ''m'', sc_previous = Sent, sc_current = Failed\<rparr>,
             Emit (PeDeliveryTimeout ''m'' (NodeId 320) Sent)] \<and>
          tr_status ''m'' (st_tracker st') = Some Failed \<and> hm_get (st_pending_envelopes st') ''m'' = None)"
proof -
  define m where "m = \<lparr>tm_status = Sent, tm_to = NodeId 320, tm_created = secs 5,
    tm_deadline = Some (secs 5 + DEFAULT_ACK_DEADLINE), tm_retries_remaining = DEFAULT_MAX_RETRIES\<rparr>"
  have w: "waiting ''m'' m demo_env waiting_node"
    by (simp add: waiting_def cache_keyed_def waiting_node_def m_def track_def mark_sent_def advance_def tracker_new_def
        tracker_wf_def MAX_TRACKED_def demo_ctx_def status_order demo_env_simps hm_modify_def)
  have "case for_each tick_delivery_deadlines ([demo_at 34] @ [demo_at 35] @ [] @ [demo_at 70] @ [demo_at 90] @ [demo_at 100])
      waiting_node of (effs, st') \<Rightarrow>
    filter (about ''m'') effs =
      [SendEnvelope demo_env, Emit (PeDeliveryRetry ''m'' (tm_to m) 1), SendEnvelope demo_env, Emit (PeDeliveryRetry ''m'' (tm_to m) 2),
       NotifyStatus \<lparr>sc_message_id = ''m'', sc_previous = tm_status m, sc_current = Failed\<rparr>,
       Emit (PeDeliveryTimeout ''m'' (tm_to m) (tm_status m))] \<and>
    tr_status ''m'' (st_tracker st') = Some Failed \<and> hm_get (st_pending_envelopes st') ''m'' = None"
    by (rule unacknowledged_message_fails [OF w, where d = "secs 35"]) (simp_all add: m_def demo_at_def DEFAULT_ACK_DEADLINE_def)
  then have "case for_each tick_delivery_deadlines [demo_at 34, demo_at 35, demo_at 70, demo_at 90, demo_at 100] waiting_node of
      (effs, st') \<Rightarrow>
    filter (about ''m'') effs =
      [SendEnvelope demo_env, Emit (PeDeliveryRetry ''m'' (NodeId 320) 1), SendEnvelope demo_env, Emit (PeDeliveryRetry ''m'' (NodeId 320) 2),
       NotifyStatus \<lparr>sc_message_id = ''m'', sc_previous = Sent, sc_current = Failed\<rparr>,
       Emit (PeDeliveryTimeout ''m'' (NodeId 320) Sent)] \<and>
    tr_status ''m'' (st_tracker st') = Some Failed \<and> hm_get (st_pending_envelopes st') ''m'' = None"
    by (simp only: m_def tracked_message.simps append.simps)
  with w show ?thesis by (intro exI conjI)
qed

end
