(* ===== verification/Quic_Coding.thy ===== *)
theory Quic_Coding
  imports Tom_Prelude
begin

section \<open>QUIC: integers on the wire\<close>

text \<open>
  Models \<^verbatim>\<open>tom-quinn-proto/src/varint.rs\<close> and \<^verbatim>\<open>tom-quinn-proto/src/coding.rs\<close>: the encoding of fixed-width
  integers and of QUIC's variable-length integers, which take one, two, four or eight bytes and
  keep the length in the two highest bits.

  An encoder returns the bytes it appends to the buffer, \<open>None\<close> where the code panics. A
  decoder takes the buffer and returns the value and the rest of the buffer, \<open>None\<close> for
  \<open>UnexpectedEnd\<close>.
\<close>

unbundle bit_operations_syntax

type_synonym u16 = "16 word"
type_synonym 'a decoder = "bytes \<Rightarrow> ('a \<times> bytes) option"

subsection \<open>Fixed-width integers\<close>

text \<open>Big-endian bytes of a word of the \<open>bytes\<close> crate, and the word they make.\<close>

definition put_be :: "nat \<Rightarrow> 'a::len word \<Rightarrow> bytes" where
  "put_be n x = map of_nat (digits_be 256 n (unat x))"

definition from_be :: "bytes \<Rightarrow> 'a::len word" where
  "from_be b = of_nat (foldl (\<lambda>a d. a * 256 + unat d) 0 b)"

definition copy_to_slice :: "nat \<Rightarrow> bytes decoder" where
  "copy_to_slice n buf = (if length buf < n then None else Some (take n buf, drop n buf))"

definition u8_encode :: "u8 \<Rightarrow> bytes" where "u8_encode x = put_be 1 x"

definition u8_decode :: "u8 decoder" where
  "u8_decode buf = map_option (\<lambda>(b, r). (from_be b, r)) (copy_to_slice 1 buf)"

definition u16_encode :: "u16 \<Rightarrow> bytes" where "u16_encode x = put_be 2 x"

definition u16_decode :: "u16 decoder" where
  "u16_decode buf = map_option (\<lambda>(b, r). (from_be b, r)) (copy_to_slice 2 buf)"

definition u32_encode :: "u32 \<Rightarrow> bytes" where "u32_encode x = put_be 4 x"

definition u32_decode :: "u32 decoder" where
  "u32_decode buf = map_option (\<lambda>(b, r). (from_be b, r)) (copy_to_slice 4 buf)"

definition u64_encode :: "u64 \<Rightarrow> bytes" where "u64_encode x = put_be 8 x"

definition u64_decode :: "u64 decoder" where
  "u64_decode buf = map_option (\<lambda>(b, r). (from_be b, r)) (copy_to_slice 8 buf)"

text \<open>The octets of an IP address.\<close>

definition ipv4_encode :: "bytes \<Rightarrow> bytes" where "ipv4_encode octets = octets"

definition ipv4_decode :: "bytes decoder" where "ipv4_decode = copy_to_slice 4"

definition ipv6_encode :: "bytes \<Rightarrow> bytes" where "ipv6_encode octets = octets"

definition ipv6_decode :: "bytes decoder" where "ipv6_decode = copy_to_slice 16"

subsection \<open>Variable-length integers\<close>

definition VARINT_MAX :: u64 where "VARINT_MAX = 2 ^ 62 - 1"

definition varint_from_u64 :: "u64 \<Rightarrow> u64 option" where
  "varint_from_u64 x = (if x < 2 ^ 62 then Some x else None)"

definition varint_saturating_add :: "u64 \<Rightarrow> u64 \<Rightarrow> u64" where
  "varint_saturating_add a b = min (saturating_add a b) VARINT_MAX"

definition varint_size :: "u64 \<Rightarrow> nat option" where
  "varint_size x =
     (if x < 2 ^ 6 then Some 1 else if x < 2 ^ 14 then Some 2 else if x < 2 ^ 30 then Some 4
      else if x < 2 ^ 62 then Some 8 else None)"

definition varint_encode :: "u64 \<Rightarrow> bytes option" where
  "varint_encode x =
     (if x < 2 ^ 6 then Some (u8_encode (ucast x))
      else if x < 2 ^ 14 then Some (u16_encode (push_bit 14 1 OR ucast x))
      else if x < 2 ^ 30 then Some (u32_encode (push_bit 30 2 OR ucast x))
      else if x < 2 ^ 62 then Some (u64_encode (push_bit 62 3 OR x))
      else None)"

definition varint_decode :: "u64 decoder" where
  "varint_decode r =
     (case r of
        [] \<Rightarrow> None
      | b # r \<Rightarrow>
          let tag = drop_bit 6 b; b = b AND 63;
              more = (if tag = 0 then 0 else if tag = 1 then 1 else if tag = 2 then 3 else 7)
          in if length r < more then None else Some (from_be (b # take more r), drop more r))"

definition write_var :: "u64 \<Rightarrow> bytes option" where
  "write_var x = (case varint_from_u64 x of None \<Rightarrow> None | Some v \<Rightarrow> varint_encode v)"

definition get_var :: "u64 decoder" where
  "get_var = varint_decode"

subsection \<open>Lemmas on bytes\<close>

lemma length_put_be [simp]: "length (put_be n x) = n"
  by (simp add: put_be_def)

lemma foldl_bytes:
  assumes "v < 256 ^ n"
  shows "foldl (\<lambda>a d. a * 256 + unat d) a (map of_nat (digits_be 256 n v) :: bytes) = a * 256 ^ n + v"
proof -
  have "d < 256" if "d \<in> set (digits_be 256 n v)" for d
    using digits_be_bound [of 256 v n d] assms that by simp
  then have "foldl (\<lambda>a d. a * 256 + unat (of_nat d :: u8)) a (digits_be 256 n v) =
      foldl (\<lambda>a d. a * 256 + d) a (digits_be 256 n v)"
    by (intro foldl_cong) (auto simp: unat_of_nat)
  then show ?thesis using assms foldl_digits [of 256 v n a] by (simp add: foldl_map)
qed

lemma from_be_put_be: "unat x < 256 ^ n \<Longrightarrow> from_be (put_be n x) = x"
  by (simp add: from_be_def put_be_def foldl_bytes)

lemma copy_to_slice_append [simp]: "length b = n \<Longrightarrow> copy_to_slice n (b @ r) = Some (b, r)"
  by (simp add: copy_to_slice_def)

lemma unat_bound: "unat (x :: 'a::len word) < 2 ^ LENGTH('a)"
  by (rule unsigned_less)

lemma fixed_width_roundtrip [simp]:
  "u8_decode (u8_encode a @ r) = Some (a, r)"
  "u16_decode (u16_encode b @ r) = Some (b, r)"
  "u32_decode (u32_encode c @ r) = Some (c, r)"
  "u64_decode (u64_encode d @ r) = Some (d, r)"
  using unat_bound [of a] unat_bound [of b] unat_bound [of c] unat_bound [of d]
  by (simp_all add: u8_decode_def u8_encode_def u16_decode_def u16_encode_def u32_decode_def u32_encode_def
      u64_decode_def u64_encode_def from_be_put_be)

lemma ip_roundtrip [simp]:
  "length a = 4 \<Longrightarrow> ipv4_decode (ipv4_encode a @ r) = Some (a, r)"
  "length a = 16 \<Longrightarrow> ipv6_decode (ipv6_encode a @ r) = Some (a, r)"
  by (simp_all add: ipv4_decode_def ipv4_encode_def ipv6_decode_def ipv6_encode_def)

subsection \<open>Variable-length integers are read back\<close>

lemma tag_byte:
  assumes "n = t * 64 + y" and "t < 4" and "y < 64"
  shows "drop_bit 6 (of_nat n :: u8) = of_nat t" and "(of_nat n :: u8) AND 63 = of_nat y"
proof -
  have "n < 256" using assms by simp
  then have v: "unat (of_nat n :: u8) = n" by (simp add: unat_of_nat)
  have "unat (drop_bit 6 (of_nat n :: u8)) = n div 64" by (subst unat_drop_bit_eq) (simp add: v drop_bit_eq_div)
  then show "drop_bit 6 (of_nat n :: u8) = of_nat t"
    using assms by (simp add: word_unat_eq_iff unat_of_nat)
  have "(63 :: u8) = mask 6" by (simp add: mask_eq_exp_minus_1)
  then have "(of_nat n :: u8) AND 63 = take_bit 6 (of_nat n)" by (simp add: take_bit_eq_mask)
  then have "unat ((of_nat n :: u8) AND 63) = n mod 64" by (simp only: unsigned_take_bit_eq v) (simp add: take_bit_eq_mod)
  then show "(of_nat n :: u8) AND 63 = of_nat y" using assms by (simp add: word_unat_eq_iff unat_of_nat)
qed

lemma varint_decode_tagged:
  fixes w :: "'a::len word"
  assumes "unat w = t * (64 * 256 ^ m) + x" and "x < 64 * 256 ^ m" and "t < 4"
    and "m = (if t = 0 then 0 else if t = 1 then 1 else if t = 2 then 3 else 7)"
  shows "varint_decode (put_be (Suc m) w @ r) = Some (of_nat x, r)"
proof -
  let ?y = "x div 256 ^ m" and ?ds = "map of_nat (digits_be 256 m (x mod 256 ^ m)) :: bytes"
  have y: "?y < 64" using assms(2) by (simp add: less_mult_imp_div_less)
  have w: "unat w div 256 ^ m = t * 64 + ?y" "unat w mod 256 ^ m = x mod 256 ^ m"
    using assms(1) by (simp_all add: mult.assoc [symmetric])
  obtain n where n: "n = t * 64 + ?y" by blast
  have bytes: "put_be (Suc m) w = of_nat n # ?ds" by (simp add: put_be_def w n)
  have more: "(if (of_nat t :: u8) = 0 then 0 else if (of_nat t :: u8) = 1 then 1 else if (of_nat t :: u8) = 2 then 3 else 7) = m"
    using assms(3,4) by (auto simp: word_unat_eq_iff unat_of_nat)
  have "foldl (\<lambda>a d. a * 256 + unat d) (unat (of_nat ?y :: u8)) ?ds = ?y * 256 ^ m + x mod 256 ^ m"
    using y by (simp add: foldl_bytes unat_of_nat)
  also have "\<dots> = x" by (rule div_mult_mod_eq)
  finally have "from_be (of_nat ?y # ?ds) = (of_nat x :: u64)" by (simp add: from_be_def)
  then show ?thesis
    unfolding bytes varint_decode_def using tag_byte [OF n assms(3) y] more by (simp add: Let_def)
qed

lemma push_or:
  fixes x :: "'a::len word"
  assumes "unat x < 2 ^ k" and "k < LENGTH('a)" and "unat t < 2 ^ (LENGTH('a) - k)"
  shows "unat (push_bit k t OR x) = unat t * 2 ^ k + unat x"
proof -
  have "push_bit k t AND x = 0"
  proof (rule bit_word_eqI)
    fix n
    have "\<not> bit x n" if "k \<le> n"
      using assms(1) that by (metis bit_take_bit_iff linorder_not_le nat_take_bit_eq take_bit_nat_eq_self unsigned_take_bit_eq word_eq_iff_unsigned)
    then show "bit (push_bit k t AND x) n = bit (0 :: 'a word) n" by (auto simp: bit_simps)
  qed
  then have "push_bit k t OR x = push_bit k t + x" by (metis add.left_neutral word_plus_and_or)
  also have "\<dots> = of_nat (unat t * 2 ^ k + unat x)" by (simp add: push_bit_eq_mult)
  finally have "unat (push_bit k t OR x) = (unat t * 2 ^ k + unat x) mod 2 ^ LENGTH('a)" by (simp only: unat_of_nat)
  moreover have "unat t * 2 ^ k + unat x < 2 ^ LENGTH('a)"
  proof -
    have "unat t * 2 ^ k + unat x < Suc (unat t) * 2 ^ k" using assms(1) by simp
    also have "\<dots> \<le> 2 ^ (LENGTH('a) - k) * 2 ^ k" using assms(3) by (intro mult_right_mono) simp_all
    also have "\<dots> = 2 ^ LENGTH('a)" using assms(2) by (simp flip: power_add)
    finally show ?thesis .
  qed
  ultimately show ?thesis by simp
qed

lemma less_power_unat: "k < 64 \<Longrightarrow> (x :: u64) < 2 ^ k \<longleftrightarrow> unat x < 2 ^ k"
proof -
  assume "k < 64"
  then have "(2 :: nat) ^ k < 2 ^ 64" by (intro power_strict_increasing) simp_all
  then have "unat (of_nat (2 ^ k) :: u64) = 2 ^ k" by (simp only: unat_of_nat) simp
  then show ?thesis by (simp add: word_less_nat_alt)
qed

text \<open>The encoding of a number in range.\<close>

definition varint_bytes :: "u64 \<Rightarrow> bytes" where
  "varint_bytes x = (case varint_encode x of None \<Rightarrow> [] | Some b \<Rightarrow> b)"

lemma varint_encodes [simp]:
  assumes "x < 2 ^ 62"
  shows "varint_encode x = Some (varint_bytes x)" and "write_var x = Some (varint_bytes x)"
    and "varint_size x = Some (length (varint_bytes x))"
  using assms
  by (simp_all add: varint_bytes_def varint_encode_def write_var_def varint_from_u64_def varint_size_def u8_encode_def
      u16_encode_def u32_encode_def u64_encode_def)

lemma varint_roundtrip [simp]:
  assumes "x < 2 ^ 62"
  shows "varint_decode (varint_bytes x @ r) = Some (x, r)"
proof -
  note lt = less_power_unat [of _ x]
  have u: "unat x < 2 ^ 62" using assms lt [of 62] by simp
  consider "unat x < 2 ^ 6" | "2 ^ 6 \<le> unat x" "unat x < 2 ^ 14" | "2 ^ 14 \<le> unat x" "unat x < 2 ^ 30" | "2 ^ 30 \<le> unat x"
    by linarith
  then show ?thesis
  proof cases
    case 1
    then have "varint_bytes x = put_be (Suc 0) (ucast x :: u8)"
      using lt [of 6] by (simp add: varint_bytes_def varint_encode_def u8_encode_def)
    moreover have "unat (ucast x :: u8) = 0 * (64 * 256 ^ 0) + unat x" using 1 by (simp add: unsigned_ucast_eq take_bit_eq_mod)
    ultimately show ?thesis using varint_decode_tagged [of "ucast x :: u8" 0 0 "unat x" r] 1 by simp
  next
    case 2
    let ?w = "push_bit 14 1 OR ucast x :: u16"
    have "varint_bytes x = put_be (Suc 1) ?w"
      using 2 lt [of 6] lt [of 14] by (simp add: varint_bytes_def varint_encode_def u16_encode_def numeral_2_eq_2)
    moreover have "unat ?w = 1 * (64 * 256 ^ 1) + unat x" using 2 by (subst push_or) (simp_all add: unsigned_ucast_eq take_bit_eq_mod)
    ultimately show ?thesis using varint_decode_tagged [of ?w 1 1 "unat x" r] 2 by simp
  next
    case 3
    let ?w = "push_bit 30 2 OR ucast x :: u32"
    have "varint_bytes x = put_be (Suc 3) ?w"
      using 3 lt [of 6] lt [of 14] lt [of 30] by (simp add: varint_bytes_def varint_encode_def u32_encode_def)
    moreover have "unat ?w = 2 * (64 * 256 ^ 3) + unat x" using 3 by (subst push_or) (simp_all add: unsigned_ucast_eq take_bit_eq_mod)
    ultimately show ?thesis using varint_decode_tagged [of ?w 2 3 "unat x" r] 3 by simp
  next
    case 4
    let ?w = "push_bit 62 3 OR x :: u64"
    have "varint_bytes x = put_be (Suc 7) ?w"
      using 4 u lt [of 6] lt [of 14] lt [of 30] lt [of 62] by (simp add: varint_bytes_def varint_encode_def u64_encode_def)
    moreover have "unat ?w = 3 * (64 * 256 ^ 7) + unat x" using u by (subst push_or) simp_all
    ultimately show ?thesis using varint_decode_tagged [of ?w 3 7 "unat x" r] u by simp
  qed
qed

subsection \<open>What a decoder can return\<close>

lemma foldl_bytes_bound: "foldl (\<lambda>a d. a * 256 + unat d) a (b :: bytes) < Suc a * 256 ^ length b"
proof (induction b arbitrary: a)
  case (Cons d b)
  have "foldl (\<lambda>a d. a * 256 + unat d) (a * 256 + unat d) b < Suc (a * 256 + unat d) * 256 ^ length b" by (rule Cons)
  also have "\<dots> \<le> (Suc a * 256) * 256 ^ length b" using unat_bound [of d] by (intro mult_right_mono) simp_all
  also have "\<dots> = Suc a * 256 ^ length (d # b)" by (simp add: algebra_simps)
  finally show ?case by simp
qed simp

lemma varint_decode_range:
  assumes "varint_decode b = Some (x, r)"
  obtains m where "b = take (Suc m) b @ r" "m < length b" "m \<in> {0, 1, 3, 7}" "unat x < 64 * 256 ^ m"
proof -
  obtain d b' where b: "b = d # b'" using assms by (cases b) (auto simp: varint_decode_def)
  let ?tag = "drop_bit 6 d"
  define m where "m = (if ?tag = 0 then 0 else if ?tag = 1 then 1 else if ?tag = 2 then 3 else 7 :: nat)"
  have m: "m \<in> {0, 1, 3, 7}" by (simp add: m_def)
  have len: "m \<le> length b'" and x: "x = from_be ((d AND 63) # take m b')" and r: "r = drop m b'"
    using assms unfolding b varint_decode_def by (auto simp: Let_def m_def Suc_le_eq split: if_splits)
  have "(63 :: u8) = mask 6" by (simp add: mask_eq_exp_minus_1)
  then have "d AND 63 = take_bit 6 d" by (simp add: take_bit_eq_mask)
  then have d: "unat (d AND 63) < 64" by (simp only: unsigned_take_bit_eq) (simp add: take_bit_eq_mod)
  let ?v = "foldl (\<lambda>a d. a * 256 + unat d) (unat (d AND 63)) (take m b')"
  have "?v < Suc (unat (d AND 63)) * 256 ^ m"
    using foldl_bytes_bound [of "unat (d AND 63)" "take m b'"] len by (simp add: min_absorb2)
  also have "\<dots> \<le> 64 * 256 ^ m" using d by (intro mult_right_mono) simp_all
  finally have v: "?v < 64 * 256 ^ m" .
  have "(256 :: nat) ^ m \<le> 256 ^ 7" using m by (intro power_increasing) auto
  with v have "?v < 2 ^ 64" by simp
  then have "unat x = ?v" by (simp add: x from_be_def unat_of_nat)
  with v show thesis using that [of m] len m r b by simp
qed

lemma varint_decode_less: "varint_decode b = Some (x, r) \<Longrightarrow> length r < length b"
  by (erule varint_decode_range) (metis add_diff_cancel_left' append_take_drop_id length_drop length_append less_add_same_cancel2
      length_greater_0_conv list.size(3) not_less_zero take_eq_Nil2 zero_less_Suc not_gr_zero)

lemma varint_decode_ok: "varint_decode b = Some (x, r) \<Longrightarrow> x < 2 ^ 62"
proof (erule varint_decode_range)
  fix m :: nat
  assume "m \<in> {0, 1, 3, 7}" and "unat x < 64 * 256 ^ m"
  moreover from this have "(256 :: nat) ^ m \<le> 256 ^ 7" by (intro power_increasing) auto
  ultimately have "unat x < 2 ^ 62" by simp
  then show "x < 2 ^ 62" using less_power_unat [of 62 x] by simp
qed

text \<open>
  Variable-length integers. Every number below \<open>2 ^ 62\<close> has an encoding, of the length the
  code computes for it, and reading it gives the number back and leaves what follows. Whatever
  bytes are read, a number they yield is below \<open>2 ^ 62\<close>, and its own encoding is not longer than
  what was read for it.
\<close>

theorem varint_codec:
  "(x < 2 ^ 62 \<longrightarrow> (\<exists>b. write_var x = Some b \<and> varint_size x = Some (length b) \<and> get_var (b @ rest) = Some (x, rest))) \<and>
   (\<forall>buf y r. get_var buf = Some (y, r) \<longrightarrow>
      (\<exists>read b. buf = read @ r \<and> write_var y = Some b \<and> length b \<le> length read))"
proof (intro conjI impI allI)
  assume "x < 2 ^ 62"
  then show "\<exists>b. write_var x = Some b \<and> varint_size x = Some (length b) \<and> get_var (b @ rest) = Some (x, rest)"
    by (simp add: get_var_def)
next
  fix buf y r
  assume "get_var buf = Some (y, r)"
  then have dec: "varint_decode buf = Some (y, r)" by (simp add: get_var_def)
  from dec obtain m where m: "buf = take (Suc m) buf @ r" "m < length buf" "m \<in> {0, 1, 3, 7}" "unat y < 64 * 256 ^ m"
    by (rule varint_decode_range)
  have "length (varint_bytes y) \<le> Suc m"
    using m(3,4) by (auto simp: varint_bytes_def varint_encode_def word_less_nat_alt u8_encode_def u16_encode_def u32_encode_def
        u64_encode_def)
  then have "length (varint_bytes y) \<le> length (take (Suc m) buf)" using m(2) by simp
  with m(1) varint_decode_ok [OF dec] show "\<exists>read b. buf = read @ r \<and> write_var y = Some b \<and> length b \<le> length read"
    by (metis varint_encodes(2))
qed

theorem varint_codec_witness:
  "(\<exists>b. write_var 15293 = Some b \<and> varint_size 15293 = Some (length b) \<and> get_var (b @ [9]) = Some (15293, [9])) \<and>
   get_var [123, 189, 9] = Some (15293, [9])"
proof -
  have "(15293 :: u64) < 2 ^ 62" by simp
  moreover have "get_var [123, 189, 9] = Some (15293, [9])" by code_simp
  ultimately show ?thesis using varint_codec [of 15293 "[9]"] by blast
qed

end
