(* ===== verification/Quic_RangeSet.thy ===== *)
theory Quic_RangeSet
  imports Tom_Prelude
begin

section \<open>QUIC: sets of numbers as lists of ranges\<close>

text \<open>
  Models \<^verbatim>\<open>tom-quinn-proto/src/range_set/array_range_set.rs\<close>: a set of 64-bit numbers as an array of half-open
  ranges, used for acknowledged and received packet numbers. The abstract contract of an operation
  is what it does to the set of numbers; the invariant is that the ranges are non-empty, in
  order, and apart from one another, so that every set has only one representation.
\<close>

record u64_range =
  rg_start :: u64
  rg_end :: u64

abbreviation rng :: "u64 \<Rightarrow> u64 \<Rightarrow> u64_range" where
  "rng a b \<equiv> \<lparr>rg_start = a, rg_end = b\<rparr>"

type_synonym array_range_set = "u64_range list"

subsection \<open>Operations\<close>

definition rg_is_empty :: "u64_range \<Rightarrow> bool" where
  "rg_is_empty x \<longleftrightarrow> \<not> rg_start x < rg_end x"

definition ars_new :: array_range_set where "ars_new = []"

definition ars_len :: "array_range_set \<Rightarrow> nat" where "ars_len s = length s"

definition ars_is_empty :: "array_range_set \<Rightarrow> bool" where "ars_is_empty s \<longleftrightarrow> s = []"

fun ars_contains :: "array_range_set \<Rightarrow> u64 \<Rightarrow> bool" where
  "ars_contains [] x = False"
| "ars_contains (r # rs) x =
     (if rg_start r > x then False else if rg_start r \<le> x \<and> x < rg_end r then True else ars_contains rs x)"

definition ars_iter_range :: "array_range_set \<Rightarrow> u64_range \<Rightarrow> u64_range list" where
  "ars_iter_range s x =
     List.map_filter (\<lambda>r. if rg_end r > rg_start x \<and> rg_start r < rg_end x
        then Some (rng (max (rg_start r) (rg_start x)) (min (rg_end r) (rg_end x))) else None) s"

text \<open>Merge the ranges that follow into the range in front of them, as far as they reach.\<close>

fun merge_following :: "u64_range \<Rightarrow> u64_range list \<Rightarrow> u64_range list" where
  "merge_following cur [] = [cur]"
| "merge_following cur (nxt # rs) =
     (if rg_end cur \<ge> rg_start nxt
      then merge_following (cur\<lparr>rg_end := max (rg_end nxt) (rg_end cur)\<rparr>) rs
      else cur # nxt # rs)"

text \<open>The loop of \<open>insert\<close> over the ranges from the current index on.\<close>

fun insert_from :: "u64_range list \<Rightarrow> u64_range \<Rightarrow> bool \<times> u64_range list" where
  "insert_from [] x = (True, [x])"
| "insert_from (r # rs) x =
     (if rg_start r > rg_end x then (True, x # r # rs)
      else
        let result = rg_start r > rg_start x;
            r = (if result then r\<lparr>rg_start := rg_start x\<rparr> else r)
        in if rg_end x \<le> rg_end r then (result, r # rs)
           else if rg_start x \<le> rg_end r then (True, merge_following (r\<lparr>rg_end := rg_end x\<rparr>) rs)
           else (let (changed, rs) = insert_from rs x in (changed, r # rs)))"

definition ars_insert :: "u64_range \<Rightarrow> array_range_set \<Rightarrow> bool \<times> array_range_set" where
  "ars_insert x s = (if rg_is_empty x then (False, s) else insert_from s x)"

text \<open>A single number; in an optimised build \<open>x + 1\<close> wraps around, and the range is then empty.\<close>

definition ars_insert_one :: "u64 \<Rightarrow> array_range_set \<Rightarrow> bool \<times> array_range_set" where
  "ars_insert_one x s = ars_insert (rng x (x + 1)) s"

fun remove_from :: "u64_range list \<Rightarrow> u64_range \<Rightarrow> bool \<times> u64_range list" where
  "remove_from [] x = (False, [])"
| "remove_from (r # rs) x =
     (if rg_end x \<le> rg_start r then (False, r # rs)
      else if rg_start x \<ge> rg_end r then (let (changed, rs) = remove_from rs x in (changed, r # rs))
      else
        let left = rng (rg_start r) (rg_start x); right = rng (rg_end x) (rg_end r);
            (changed, rs) = remove_from rs x
        in (True,
            if rg_is_empty left \<and> rg_is_empty right then rs
            else if rg_is_empty left then right # rs
            else if rg_is_empty right then left # rs
            else left # right # rs))"

definition ars_remove :: "u64_range \<Rightarrow> array_range_set \<Rightarrow> bool \<times> array_range_set" where
  "ars_remove x s = (if rg_is_empty x then (False, s) else remove_from s x)"

definition ars_pop_min :: "array_range_set \<Rightarrow> u64_range option \<times> array_range_set" where
  "ars_pop_min s = (case s of [] \<Rightarrow> (None, []) | r # rs \<Rightarrow> (Some r, rs))"

definition ars_min :: "array_range_set \<Rightarrow> u64 option" where
  "ars_min s = (case s of [] \<Rightarrow> None | r # _ \<Rightarrow> Some (rg_start r))"

definition ars_max :: "array_range_set \<Rightarrow> u64 option" where
  "ars_max s = (if s = [] then None else Some (rg_end (last s) - 1))"

definition ars_elts :: "array_range_set \<Rightarrow> u64 list" where
  "ars_elts s = concat (map (\<lambda>r. map of_nat [unat (rg_start r)..<unat (rg_end r)]) s)"

subsection \<open>The set, and the invariant\<close>

definition range_elems :: "u64_range \<Rightarrow> u64 set" where
  "range_elems r = {rg_start r..<rg_end r}"

definition elems :: "array_range_set \<Rightarrow> u64 set" where
  "elems s = (\<Union>r \<in> set s. range_elems r)"

fun ars_wf :: "array_range_set \<Rightarrow> bool" where
  "ars_wf [] = True"
| "ars_wf [r] = (rg_start r < rg_end r)"
| "ars_wf (r # r' # rs) = (rg_start r < rg_end r \<and> rg_end r < rg_start r' \<and> ars_wf (r' # rs))"

lemma elems_simps [simp]: "elems [] = {}" "elems (r # rs) = range_elems r \<union> elems rs"
  by (simp_all add: elems_def)

lemma ars_wf_Cons: "ars_wf (r # rs) \<longleftrightarrow> rg_start r < rg_end r \<and> (rs \<noteq> [] \<longrightarrow> rg_end r < rg_start (hd rs)) \<and> ars_wf rs"
  by (cases rs) auto

lemma elems_after: "ars_wf (r # rs) \<Longrightarrow> x \<in> elems rs \<Longrightarrow> rg_end r < x"
proof (induction rs arbitrary: r)
  case (Cons r' rs)
  from Cons.prems(2) consider "x \<in> range_elems r'" | "x \<in> elems rs" by auto
  then show ?case
    using Cons.prems(1) Cons.IH [of r'] by cases (auto simp: range_elems_def ars_wf_Cons)
qed simp

lemma merge_two:
  assumes "rg_start a < rg_end a" and "rg_start a < rg_start b" and "rg_start b < rg_end b" and "rg_start b \<le> rg_end a"
  shows "range_elems (a\<lparr>rg_end := max (rg_end b) (rg_end a)\<rparr>) = range_elems a \<union> range_elems b"
proof (rule set_eqI)
  fix x
  show "x \<in> range_elems (a\<lparr>rg_end := max (rg_end b) (rg_end a)\<rparr>) \<longleftrightarrow> x \<in> range_elems a \<union> range_elems b"
    using assms by (cases "x < rg_end a"; cases "x < rg_end b") (auto simp: range_elems_def max_def)
qed

lemma merge_following_elems:
  assumes "rg_start cur < rg_end cur" and "ars_wf rs" and "rs \<noteq> [] \<longrightarrow> rg_start cur < rg_start (hd rs)"
  shows "elems (merge_following cur rs) = range_elems cur \<union> elems rs \<and> ars_wf (merge_following cur rs) \<and>
    merge_following cur rs \<noteq> [] \<and> rg_start (hd (merge_following cur rs)) = rg_start cur"
  using assms
proof (induction cur rs rule: merge_following.induct)
  case (2 cur nxt rs)
  let ?m = "cur\<lparr>rg_end := max (rg_end nxt) (rg_end cur)\<rparr>"
  have wf: "rg_start nxt < rg_end nxt" "rs \<noteq> [] \<longrightarrow> rg_end nxt < rg_start (hd rs)" "ars_wf rs" "rg_start cur < rg_start nxt"
    using "2.prems" by (simp_all add: ars_wf_Cons)
  show ?case
  proof (cases "rg_start nxt \<le> rg_end cur")
    case True
    have "rg_start ?m < rg_end ?m" using "2.prems"(1) by (simp add: less_max_iff_disj)
    moreover have "rs \<noteq> [] \<longrightarrow> rg_start ?m < rg_start (hd rs)" using wf by (auto dest: less_trans)
    ultimately show ?thesis
      using "2.IH" [OF True _ wf(3)] merge_two [OF "2.prems"(1) wf(4,1) True] True by (simp add: Un_assoc)
  next
    case False
    then show ?thesis using "2.prems" by (simp add: ars_wf_Cons)
  qed
qed simp

lemma elems_from: "ars_wf (r # rs) \<Longrightarrow> x \<in> elems (r # rs) \<Longrightarrow> rg_start r \<le> x"
  using elems_after [of r rs x] by (auto simp: range_elems_def ars_wf_Cons)

text \<open>What inserting from some index on achieves: the set, the invariant, the first range, and whether it says that the set grew.\<close>

definition inserted :: "u64_range list \<Rightarrow> u64_range \<Rightarrow> bool \<times> u64_range list \<Rightarrow> bool" where
  "inserted s x res \<longleftrightarrow>
     elems (snd res) = elems s \<union> range_elems x \<and> ars_wf (snd res) \<and> snd res \<noteq> [] \<and>
     (rg_start (hd (snd res)) = rg_start x \<or> s \<noteq> [] \<and> rg_start (hd (snd res)) = rg_start (hd s)) \<and>
     (fst res \<longleftrightarrow> \<not> range_elems x \<subseteq> elems s)"

lemma insert_before:
  assumes "ars_wf (r # rs)" and "rg_start x < rg_end x" and "rg_end x < rg_start r"
  shows "inserted (r # rs) x (True, x # r # rs)"
proof -
  have "rg_start x \<notin> elems (r # rs)" using elems_from [OF assms(1), of "rg_start x"] assms(2,3) by (auto dest: less_trans)
  moreover have "rg_start x \<in> range_elems x" using assms(2) by (simp add: range_elems_def)
  ultimately have "\<not> range_elems x \<subseteq> elems (r # rs)" by blast
  then show ?thesis using assms by (auto simp: inserted_def)
qed

lemma insert_within:
  assumes "ars_wf (r # rs)" and "rg_start x < rg_end x" and "rg_start r \<le> rg_end x" and "rg_end x \<le> rg_end r"
  shows "inserted (r # rs) x
    (rg_start r > rg_start x, (if rg_start r > rg_start x then r\<lparr>rg_start := rg_start x\<rparr> else r) # rs)"
proof (cases "rg_start x < rg_start r")
  case True
  have "range_elems (r\<lparr>rg_start := rg_start x\<rparr>) = range_elems r \<union> range_elems x"
    using assms True by (auto simp: range_elems_def)
  moreover have "rg_start x \<notin> elems (r # rs)" using elems_from [OF assms(1), of "rg_start x"] True by auto
  then have "\<not> range_elems x \<subseteq> elems (r # rs)" using assms(2) by (auto simp: range_elems_def)
  moreover have "rg_start x < rg_end r" using assms(2,4) by (rule less_le_trans)
  ultimately show ?thesis using True assms(1) by (auto simp: inserted_def ars_wf_Cons)
next
  case False
  then have "range_elems x \<subseteq> range_elems r" using assms(4) by (auto simp: range_elems_def)
  then show ?thesis using False assms(1) by (auto simp: inserted_def)
qed

lemma insert_extending:
  assumes "ars_wf (r # rs)" and "rg_start x < rg_end x" and "rg_start r \<le> rg_end x" and "rg_end r < rg_end x" and "rg_start x \<le> rg_end r"
  shows "inserted (r # rs) x
    (True, merge_following ((if rg_start r > rg_start x then r\<lparr>rg_start := rg_start x\<rparr> else r)\<lparr>rg_end := rg_end x\<rparr>) rs)"
proof -
  let ?m = "(if rg_start r > rg_start x then r\<lparr>rg_start := rg_start x\<rparr> else r)\<lparr>rg_end := rg_end x\<rparr>"
  have r: "rg_start r < rg_end r" "rs \<noteq> [] \<longrightarrow> rg_end r < rg_start (hd rs)" "ars_wf rs"
    using assms(1) by (simp_all add: ars_wf_Cons)
  have m: "range_elems ?m = range_elems r \<union> range_elems x"
    using assms r(1) by (auto simp: range_elems_def)
  have "rg_start ?m < rg_end ?m" using assms(2,4) r(1) by auto
  moreover have "rs \<noteq> [] \<longrightarrow> rg_start ?m < rg_start (hd rs)" using r(1,2) assms(5) by auto
  ultimately have merged: "elems (merge_following ?m rs) = range_elems ?m \<union> elems rs \<and> ars_wf (merge_following ?m rs) \<and>
      merge_following ?m rs \<noteq> [] \<and> rg_start (hd (merge_following ?m rs)) = rg_start ?m"
    using r(3) by (intro merge_following_elems) simp_all
  have "rg_end r \<notin> elems (r # rs)" using elems_after [OF assms(1), of "rg_end r"] by (auto simp: range_elems_def)
  moreover have "rg_end r \<in> range_elems x" using assms(4,5) by (simp add: range_elems_def)
  ultimately have "\<not> range_elems x \<subseteq> elems (r # rs)" by blast
  with merged m show ?thesis by (auto simp: inserted_def)
qed

lemma insert_from_correct:
  assumes "ars_wf s" and "rg_start x < rg_end x"
  shows "inserted s x (insert_from s x)"
  using assms
proof (induction s)
  case Nil
  then show ?case by (auto simp: inserted_def range_elems_def)
next
  case (Cons r rs)
  let ?r = "if rg_start r > rg_start x then r\<lparr>rg_start := rg_start x\<rparr> else r"
  have wf: "rg_start r < rg_end r" "rs \<noteq> [] \<longrightarrow> rg_end r < rg_start (hd rs)" "ars_wf rs"
    using Cons.prems(1) by (simp_all add: ars_wf_Cons)
  consider "rg_end x < rg_start r" | "rg_start r \<le> rg_end x" "rg_end x \<le> rg_end r"
    | "rg_start r \<le> rg_end x" "rg_end r < rg_end x" "rg_start x \<le> rg_end r"
    | "rg_start r \<le> rg_end x" "rg_end r < rg_end x" "rg_end r < rg_start x"
    by fastforce
  then show ?case
  proof cases
    case 1
    then show ?thesis using insert_before [OF Cons.prems 1] by simp
  next
    case 2
    then show ?thesis using insert_within [OF Cons.prems 2] by (auto simp: Let_def)
  next
    case 3
    then show ?thesis using insert_extending [OF Cons.prems 3] by (auto simp: Let_def)
  next
    case 4
    then have "\<not> rg_start x < rg_start r" using wf(1) by auto
    then have ins: "insert_from (r # rs) x = (fst (insert_from rs x), r # snd (insert_from rs x))"
      using 4 by (auto simp: Let_def case_prod_beta)
    have "range_elems x \<inter> range_elems r = {}" using 4 by (auto simp: range_elems_def)
    then have "range_elems x \<subseteq> elems (r # rs) \<longleftrightarrow> range_elems x \<subseteq> elems rs" by auto
    then show ?thesis
      using Cons.IH [OF wf(3) Cons.prems(2)] 4 wf unfolding ins by (auto simp: inserted_def ars_wf_Cons)
  qed
qed

subsection \<open>Removal\<close>

text \<open>What removing from some index on achieves.\<close>

definition removed :: "u64_range list \<Rightarrow> u64_range \<Rightarrow> bool \<times> u64_range list \<Rightarrow> bool" where
  "removed s x res \<longleftrightarrow>
     elems (snd res) = elems s - range_elems x \<and> ars_wf (snd res) \<and>
     (snd res \<noteq> [] \<longrightarrow> s \<noteq> [] \<and> rg_start (hd s) \<le> rg_start (hd (snd res))) \<and>
     (fst res \<longleftrightarrow> range_elems x \<inter> elems s \<noteq> {})"

text \<open>What is left of one range.\<close>

definition cut :: "u64_range \<Rightarrow> u64_range \<Rightarrow> u64_range list" where
  "cut r x =
     (let left = rng (rg_start r) (rg_start x); right = rng (rg_end x) (rg_end r)
      in if rg_is_empty left \<and> rg_is_empty right then [] else if rg_is_empty left then [right]
         else if rg_is_empty right then [left] else [left, right])"

lemma cut_correct:
  assumes "rg_start r < rg_end r" and "rg_start x < rg_end x" and "rg_start r < rg_end x" and "rg_start x < rg_end r"
  shows "elems (cut r x) = range_elems r - range_elems x" and "ars_wf (cut r x)"
    and "\<forall>q \<in> set (cut r x). rg_start r \<le> rg_start q \<and> rg_end q \<le> rg_end r"
proof -
  have "elems (cut r x) = range_elems r - range_elems x \<and> ars_wf (cut r x) \<and>
      (\<forall>q \<in> set (cut r x). rg_start r \<le> rg_start q \<and> rg_end q \<le> rg_end r)"
  proof (cases "rg_start r < rg_start x")
    case True
    with assms show ?thesis
      by (cases "rg_end x < rg_end r") (auto simp: cut_def rg_is_empty_def range_elems_def)
  next
    case False
    with assms show ?thesis
      by (cases "rg_end x < rg_end r") (auto simp: cut_def rg_is_empty_def range_elems_def)
  qed
  then show "elems (cut r x) = range_elems r - range_elems x" and "ars_wf (cut r x)"
    and "\<forall>q \<in> set (cut r x). rg_start r \<le> rg_start q \<and> rg_end q \<le> rg_end r"
    by simp_all
qed

lemma ars_wf_append:
  assumes "ars_wf a" and "ars_wf b" and "\<forall>q \<in> set a. rg_end q \<le> m" and "b \<noteq> [] \<longrightarrow> m < rg_start (hd b)"
  shows "ars_wf (a @ b)"
  using assms
proof (induction a rule: ars_wf.induct)
  case (2 r)
  then show ?case by (cases b) auto
qed simp_all

lemma remove_from_Cons:
  "remove_from (r # rs) x =
     (if rg_end x \<le> rg_start r then (False, r # rs)
      else if rg_end r \<le> rg_start x then (fst (remove_from rs x), r # snd (remove_from rs x))
      else (True, cut r x @ snd (remove_from rs x)))"
  by (simp add: cut_def Let_def case_prod_beta)

lemma remove_from_correct:
  assumes "ars_wf s" and "rg_start x < rg_end x"
  shows "removed s x (remove_from s x)"
  using assms
proof (induction s)
  case Nil
  then show ?case by (simp add: removed_def)
next
  case (Cons r rs)
  have wf: "rg_start r < rg_end r" "rs \<noteq> [] \<longrightarrow> rg_end r < rg_start (hd rs)" "ars_wf rs"
    using Cons.prems(1) by (simp_all add: ars_wf_Cons)
  note IH = Cons.IH [OF wf(3) Cons.prems(2)]
  have tl: "snd (remove_from rs x) \<noteq> [] \<longrightarrow> rg_end r < rg_start (hd (snd (remove_from rs x)))"
    using IH wf(2) unfolding removed_def by (metis less_le_trans)
  consider "rg_end x \<le> rg_start r" | "rg_start r < rg_end x" "rg_end r \<le> rg_start x" | "rg_start r < rg_end x" "rg_start x < rg_end r"
    by (meson not_le)
  then show ?case
  proof cases
    case 1
    have "range_elems x \<inter> elems (r # rs) = {}"
      using elems_from [OF Cons.prems(1)] 1 by (force simp: range_elems_def simp del: elems_simps)
    with 1 Cons.prems(1) show ?thesis by (auto simp: removed_def remove_from_Cons)
  next
    case 2
    then have disj: "range_elems x \<inter> range_elems r = {}" by (auto simp: range_elems_def)
    then have "elems (r # rs) - range_elems x = range_elems r \<union> (elems rs - range_elems x)"
      and "range_elems x \<inter> elems (r # rs) = range_elems x \<inter> elems rs"
      by auto
    moreover have "remove_from (r # rs) x = (fst (remove_from rs x), r # snd (remove_from rs x))"
      using 2 by (simp only: remove_from_Cons) auto
    ultimately show ?thesis using IH tl wf by (simp add: removed_def ars_wf_Cons del: remove_from.simps)
  next
    case 3
    note c = cut_correct [OF wf(1) Cons.prems(2) 3]
    have "rg_start r \<in> range_elems x \<or> rg_start x \<in> range_elems r" using 3 by (auto simp: range_elems_def)
    moreover have "rg_start r \<in> range_elems r" "rg_start x \<in> range_elems x"
      using wf(1) Cons.prems(2) by (simp_all add: range_elems_def)
    ultimately have meets: "range_elems x \<inter> elems (r # rs) \<noteq> {}" unfolding elems_simps by blast
    have "ars_wf (cut r x @ snd (remove_from rs x))"
      using c tl IH by (intro ars_wf_append [where m = "rg_end r"]) (auto simp: removed_def)
    moreover have "elems (cut r x @ snd (remove_from rs x)) = elems (r # rs) - range_elems x"
      using c(1) IH by (auto simp: removed_def elems_def)
    moreover have "rg_start r \<le> rg_start (hd (cut r x @ snd (remove_from rs x)))"
      if "cut r x @ snd (remove_from rs x) \<noteq> []"
      using c(3) tl that wf(1) by (cases "cut r x") auto
    moreover have "remove_from (r # rs) x = (True, cut r x @ snd (remove_from rs x))"
      using 3 by (simp only: remove_from_Cons) auto
    ultimately show ?thesis using meets by (simp add: removed_def del: remove_from.simps)
  qed
qed

subsection \<open>Queries\<close>

lemma contains_elems: "ars_wf s \<Longrightarrow> ars_contains s x \<longleftrightarrow> x \<in> elems s"
proof (induction s)
  case (Cons r rs)
  have "x \<notin> elems rs" if "x < rg_start r" using elems_from [OF Cons.prems, of x] that by auto
  with Cons show ?case by (auto simp: range_elems_def ars_wf_Cons)
qed simp

lemma elts_elems: "set (ars_elts s) = elems s"
proof -
  have "of_nat ` {unat a..<unat b} = {a..<b}" for a b :: u64
  proof (intro set_eqI iffI)
    fix x
    assume "x \<in> {a..<b}"
    then have "unat x \<in> {unat a..<unat b}" by (simp add: word_le_nat_alt word_less_nat_alt)
    then show "x \<in> of_nat ` {unat a..<unat b}" by (intro image_eqI [of _ _ "unat x"]) simp_all
  next
    fix x :: u64
    assume "x \<in> of_nat ` {unat a..<unat b}"
    then obtain n where n: "x = of_nat n" "unat a \<le> n" "n < unat b" by auto
    moreover have "unat b < 2 ^ LENGTH(64)" by (rule unsigned_less)
    ultimately have "n < 2 ^ 64" by simp
    then have "unat x = n" using n(1) by (simp add: unat_of_nat)
    with n show "x \<in> {a..<b}" by (simp add: word_le_nat_alt word_less_nat_alt)
  qed
  then show ?thesis by (simp add: ars_elts_def elems_def range_elems_def)
qed

lemma insert_correct:
  assumes "ars_wf s"
  shows "ars_wf (snd (ars_insert x s))" and "elems (snd (ars_insert x s)) = elems s \<union> range_elems x"
    and "fst (ars_insert x s) \<longleftrightarrow> \<not> range_elems x \<subseteq> elems s"
  using insert_from_correct [OF assms, of x] assms
  by (auto simp: ars_insert_def rg_is_empty_def inserted_def range_elems_def)

lemma remove_correct:
  assumes "ars_wf s"
  shows "ars_wf (snd (ars_remove x s))" and "elems (snd (ars_remove x s)) = elems s - range_elems x"
    and "fst (ars_remove x s) \<longleftrightarrow> range_elems x \<inter> elems s \<noteq> {}"
  using remove_from_correct [OF assms, of x] assms
  by (auto simp: ars_remove_def rg_is_empty_def removed_def range_elems_def)

lemma before_end: "(a :: u64) < b \<Longrightarrow> a \<le> b - 1 \<and> b - 1 < b"
proof -
  assume "a < b"
  then have "unat a < unat b" by (simp add: word_less_nat_alt)
  moreover from this have "unat (b - 1) = unat b - 1" by (simp add: unat_sub word_le_nat_alt)
  ultimately show ?thesis by (simp add: word_le_nat_alt word_less_nat_alt)
qed

lemma last_elem:
  "ars_wf s \<Longrightarrow> s \<noteq> [] \<Longrightarrow> rg_end (last s) - 1 \<in> elems s \<and> (\<forall>x \<in> elems s. x \<le> rg_end (last s) - 1)"
proof (induction s)
  case (Cons r rs)
  have r: "rg_start r < rg_end r" using Cons.prems by (simp add: ars_wf_Cons)
  show ?case
  proof (cases "rs = []")
    case True
    then show ?thesis using before_end r by (auto simp: range_elems_def)
  next
    case False
    then have IH: "rg_end (last rs) - 1 \<in> elems rs" "\<And>x. x \<in> elems rs \<Longrightarrow> x \<le> rg_end (last rs) - 1"
      using Cons by (simp_all add: ars_wf_Cons)
    have "x \<le> rg_end (last rs) - 1" if "x \<in> range_elems r" for x
      using elems_after [OF Cons.prems(1) IH(1)] that by (auto simp: range_elems_def)
    with IH False show ?thesis by auto
  qed
qed simp

lemma elems_empty: "ars_wf s \<Longrightarrow> elems s = {} \<longleftrightarrow> s = []"
  using last_elem [of s] by auto

lemma min_correct: "ars_wf s \<Longrightarrow> ars_min s = (if elems s = {} then None else Some (Min (elems s)))"
proof (cases s)
  case (Cons r rs)
  assume wf: "ars_wf s"
  then have "rg_start r \<in> elems s" by (simp add: Cons ars_wf_Cons range_elems_def)
  moreover have "\<And>x. x \<in> elems s \<Longrightarrow> rg_start r \<le> x" using elems_from wf Cons by blast
  ultimately have "Min (elems s) = rg_start r" by (intro Min_eqI) auto
  then show ?thesis using wf by (simp add: ars_min_def elems_empty) (simp add: Cons)
qed (simp add: ars_min_def)

lemma max_correct: "ars_wf s \<Longrightarrow> ars_max s = (if elems s = {} then None else Some (Max (elems s)))"
proof (cases "s = []")
  case False
  assume wf: "ars_wf s"
  have "Max (elems s) = rg_end (last s) - 1" using last_elem [OF wf False] by (intro Max_eqI) auto
  then show ?thesis using wf False by (simp add: ars_max_def elems_empty)
qed (simp add: ars_max_def)

text \<open>The lowest run of consecutive numbers of a set: nothing but members from the least one up to the number.\<close>

definition first_run :: "u64 set \<Rightarrow> u64 set" where
  "first_run A = {x \<in> A. \<forall>y \<le> x. y \<in> A \<or> (\<forall>a \<in> A. y < a)}"

lemma first_run_elems:
  assumes "ars_wf (r # rs)"
  shows "first_run (elems (r # rs)) = range_elems r"
proof (intro set_eqI iffI)
  have r: "rg_start r < rg_end r" using assms by (simp add: ars_wf_Cons)
  fix x
  show "x \<in> first_run (elems (r # rs))" if "x \<in> range_elems r"
    unfolding first_run_def
  proof (intro CollectI conjI allI impI)
    show "x \<in> elems (r # rs)" using that by simp
    fix y
    assume "y \<le> x"
    show "y \<in> elems (r # rs) \<or> (\<forall>a \<in> elems (r # rs). y < a)"
    proof (cases "rg_start r \<le> y")
      case True
      with \<open>y \<le> x\<close> that have "y \<in> range_elems r" by (auto simp: range_elems_def)
      then show ?thesis by simp
    next
      case False
      then have "y < a" if "a \<in> elems (r # rs)" for a using elems_from [OF assms that] by simp
      then show ?thesis by blast
    qed
  qed
  show "x \<in> range_elems r" if x: "x \<in> first_run (elems (r # rs))"
  proof (rule ccontr)
    assume "x \<notin> range_elems r"
    with x have "x \<in> elems rs" by (simp add: first_run_def)
    then have "rg_end r \<le> x" using elems_after [OF assms] by fastforce
    with x have "rg_end r \<in> elems (r # rs) \<or> (\<forall>a \<in> elems (r # rs). rg_end r < a)" by (simp add: first_run_def)
    moreover have "rg_end r \<notin> elems (r # rs)" using elems_after [OF assms, of "rg_end r"] by (auto simp: range_elems_def)
    moreover have "rg_start r \<in> elems (r # rs)" using r by (simp add: range_elems_def)
    ultimately show False using r by (meson less_asym)
  qed
qed

lemma first_run_empty [simp]: "first_run {} = {}"
  by (simp add: first_run_def)

lemma pop_min_correct:
  assumes "ars_wf s"
  shows "ars_wf (snd (ars_pop_min s))" and "elems (snd (ars_pop_min s)) = elems s - first_run (elems s)"
    and "map_option range_elems (fst (ars_pop_min s)) = (if elems s = {} then None else Some (first_run (elems s)))"
proof -
  have "elems rs = range_elems r \<union> elems rs - range_elems r" if "ars_wf (r # rs)" for r rs
    using elems_after [OF that] by (fastforce simp: range_elems_def)
  then show "elems (snd (ars_pop_min s)) = elems s - first_run (elems s)"
    using assms first_run_elems by (cases s) (simp_all add: ars_pop_min_def)
  show "ars_wf (snd (ars_pop_min s))" using assms by (cases s) (simp_all add: ars_pop_min_def ars_wf_Cons)
  show "map_option range_elems (fst (ars_pop_min s)) = (if elems s = {} then None else Some (first_run (elems s)))"
    using assms first_run_elems elems_empty [OF assms] by (cases s) (simp_all add: ars_pop_min_def)
qed

lemma iter_range_correct: "elems (ars_iter_range s x) = elems s \<inter> range_elems x"
  by (induction s) (auto simp: ars_iter_range_def List.map_filter_def range_elems_def elems_def)

lemma one_range: "range_elems (rng y (y + 1)) = (if y = - 1 then {} else {y})"
proof (cases "y = - 1")
  case False
  then have "unat (y + 1) \<noteq> 0" by (metis add.commute add_eq_0_iff unat_eq_0)
  moreover have "unat y < 2 ^ LENGTH(64)" by (rule unsigned_less)
  ultimately have s: "unat (y + 1) = Suc (unat y)" using unat_word_ariths(1) [of y 1] by (simp add: mod_Suc split: if_splits)
  have "x = y" if "y \<le> x" "x < y + 1" for x
  proof -
    have "unat x = unat y" using that s by (simp add: word_le_nat_alt word_less_nat_alt)
    then show ?thesis by (rule word_unat_eq_iff [THEN iffD2])
  qed
  moreover have "y < y + 1" using s by (simp add: word_less_nat_alt)
  ultimately show ?thesis using False by (auto simp: range_elems_def)
qed (simp add: range_elems_def)

subsection \<open>Any sequence of operations\<close>

datatype range_op = RInsert u64_range | RInsertOne u64 | RRemove u64_range | RPopMin

fun range_step :: "range_op \<Rightarrow> array_range_set \<Rightarrow> array_range_set" where
  "range_step (RInsert x) s = snd (ars_insert x s)"
| "range_step (RInsertOne y) s = snd (ars_insert_one y s)"
| "range_step (RRemove x) s = snd (ars_remove x s)"
| "range_step RPopMin s = snd (ars_pop_min s)"

text \<open>The same operations on sets of numbers. The largest number has no successor and cannot be inserted alone.\<close>

fun set_op :: "range_op \<Rightarrow> u64 set \<Rightarrow> u64 set" where
  "set_op (RInsert x) A = A \<union> range_elems x"
| "set_op (RInsertOne y) A = (if y = - 1 then A else insert y A)"
| "set_op (RRemove x) A = A - range_elems x"
| "set_op RPopMin A = A - first_run A"

interpretation range_sets: refined_machine range_step "\<lambda>_. True" ars_wf "\<lambda>e A B. B = set_op e A" elems
proof unfold_locales
  fix e and s :: array_range_set
  assume "ars_wf s"
  then show "ars_wf (range_step e s)" and "elems (range_step e s) = set_op e (elems s)"
    by (cases e; simp add: insert_correct remove_correct pop_min_correct ars_insert_one_def one_range)+
qed

lemma set_run: "run_of (\<lambda>e A B. B = set_op e A) es A B \<Longrightarrow> B = fold set_op es A"
  by (induction rule: run_of.induct) auto

lemma new_wf: "ars_wf ars_new" and elems_new: "elems ars_new = {}"
  by (simp_all add: ars_new_def)

lemma range_run: "ars_wf (fold range_step ops ars_new) \<and> elems (fold range_step ops ars_new) = fold set_op ops {}"
proof
  show "ars_wf (fold range_step ops ars_new)" by (rule range_sets.run_invar) (simp_all add: new_wf list_all_iff)
  have "run_of (\<lambda>e A B. B = set_op e A) ops (elems ars_new) (elems (fold range_step ops ars_new))"
    by (rule range_sets.run_refines) (simp_all add: new_wf list_all_iff)
  then show "elems (fold range_step ops ars_new) = fold set_op ops {}" by (metis set_run elems_new)
qed

text \<open>
  C30. The array of ranges is a set of numbers. Starting from the empty set, after any sequence of its operations
  (insertions and removals of ranges, insertions of single numbers, removals of the lowest range) the array keeps its
  invariant: its ranges are not empty, in increasing order, and no two of them touch. The set it
  stands for is the one the operations describe, and every query and result is exact for it: membership, emptiness,
  least and largest number, the numbers within a range, the listing of the members, whether an insertion
  adds or a removal takes away anything, and the range that is popped, which is the lowest run of consecutive numbers.
\<close>

theorem range_set_exact:
  "let s = fold range_step ops ars_new; A = fold set_op ops {}
   in ars_wf s \<and> elems s = A \<and> (ars_contains s y \<longleftrightarrow> y \<in> A) \<and> (ars_is_empty s \<longleftrightarrow> A = {}) \<and> set (ars_elts s) = A \<and>
      ars_min s = (if A = {} then None else Some (Min A)) \<and> ars_max s = (if A = {} then None else Some (Max A)) \<and>
      elems (ars_iter_range s x) = A \<inter> range_elems x \<and>
      (fst (ars_insert x s) \<longleftrightarrow> \<not> range_elems x \<subseteq> A) \<and> (fst (ars_insert_one y s) \<longleftrightarrow> y \<noteq> - 1 \<and> y \<notin> A) \<and>
      (fst (ars_remove x s) \<longleftrightarrow> range_elems x \<inter> A \<noteq> {}) \<and>
      map_option range_elems (fst (ars_pop_min s)) = (if A = {} then None else Some (first_run A))"
proof -
  define s where "s = fold range_step ops ars_new"
  define A where "A = fold set_op ops {}"
  have wf: "ars_wf s" and A: "elems s = A" using range_run [of ops] by (simp_all add: s_def A_def)
  have "fst (ars_insert_one y s) \<longleftrightarrow> y \<noteq> - 1 \<and> y \<notin> A"
    using A by (simp add: ars_insert_one_def insert_correct(3) [OF wf] one_range)
  moreover have "ars_is_empty s \<longleftrightarrow> A = {}" using elems_empty [OF wf] A by (simp add: ars_is_empty_def)
  ultimately show ?thesis
    unfolding Let_def s_def [symmetric] A_def [symmetric]
    by (simp only: wf A contains_elems elts_elems insert_correct(3) remove_correct(3) pop_min_correct(3) min_correct max_correct
        iter_range_correct simp_thms)
qed

end
