(* ===== verification/Quic_Frame.thy ===== *)
theory Quic_Frame
  imports Quic_Coding Quic_RangeSet
begin

section \<open>QUIC: frames\<close>

text \<open>
  Models \<^verbatim>\<open>tom-quinn-proto/src/frame.rs\<close>: the types of frames, the frames, their encoders, and the iterator that
  takes the payload of a packet apart; with the identifiers of streams, paths and connections
  (\<^verbatim>\<open>lib.rs\<close>, \<^verbatim>\<open>connection/paths.rs\<close>, \<^verbatim>\<open>shared.rs\<close>) and the error codes (\<^verbatim>\<open>transport_error.rs\<close>) as far as frames
  carry them.

  Encoders return the bytes, \<open>None\<close> where the code panics. The readers of the iterator return the
  value and the remaining bytes, or one of the three errors of \<open>IterErr\<close>.
\<close>

subsection \<open>Identifiers\<close>

datatype dir = Bi | Uni
datatype side = Client | Server

type_synonym stream_id = u64
type_synonym path_id = u32
type_synonym connection_id = bytes

definition MAX_CID_SIZE :: nat where "MAX_CID_SIZE = 20"
definition RESET_TOKEN_SIZE :: nat where "RESET_TOKEN_SIZE = 16"

definition stream_id_new :: "side \<Rightarrow> dir \<Rightarrow> u64 \<Rightarrow> stream_id" where
  "stream_id_new initiator d index =
     push_bit 2 index OR push_bit 1 (case d of Bi \<Rightarrow> 0 | Uni \<Rightarrow> 1) OR (case initiator of Client \<Rightarrow> 0 | Server \<Rightarrow> 1)"

definition stream_initiator :: "stream_id \<Rightarrow> side" where
  "stream_initiator s = (if s AND 1 = 0 then Client else Server)"

definition stream_dir :: "stream_id \<Rightarrow> dir" where
  "stream_dir s = (if s AND 2 = 0 then Bi else Uni)"

definition stream_index :: "stream_id \<Rightarrow> u64" where
  "stream_index s = drop_bit 2 s"

definition stream_id_encode :: "stream_id \<Rightarrow> bytes option" where
  "stream_id_encode s = (case varint_from_u64 s of None \<Rightarrow> None | Some v \<Rightarrow> varint_encode v)"

definition stream_id_decode :: "stream_id decoder" where
  "stream_id_decode = varint_decode"

definition path_id_encode :: "path_id \<Rightarrow> bytes option" where
  "path_id_encode p = varint_encode (ucast p)"

definition path_id_decode :: "path_id decoder" where
  "path_id_decode r =
     (case varint_decode r of
        None \<Rightarrow> None
      | Some (v, r) \<Rightarrow> if v < 2 ^ 32 then Some (ucast v, r) else None)"

text \<open>The code of a transport error, and its encoding.\<close>

definition error_code_encode :: "u64 \<Rightarrow> bytes option" where "error_code_encode c = write_var c"

definition error_code_decode :: "u64 decoder" where "error_code_decode = get_var"

datatype ip_addr = V4 bytes | V6 bytes

subsection \<open>Frame types\<close>

datatype frame_type =
    FtPadding | FtPing | FtAck | FtAckEcn | FtResetStream | FtStopSending | FtCrypto | FtNewToken
  | FtStream u8
  | FtMaxData | FtMaxStreamData | FtMaxStreamsBidi | FtMaxStreamsUni | FtDataBlocked | FtStreamDataBlocked
  | FtStreamsBlockedBidi | FtStreamsBlockedUni | FtNewConnectionId | FtRetireConnectionId | FtPathChallenge
  | FtPathResponse | FtConnectionClose | FtApplicationClose | FtHandshakeDone | FtAckFrequency | FtImmediateAck
  | FtDatagram u8
  | FtObservedIpv4Addr | FtObservedIpv6Addr | FtPathAck | FtPathAckEcn | FtPathAbandon | FtPathStatusBackup
  | FtPathStatusAvailable | FtPathNewConnectionId | FtPathRetireConnectionId | FtMaxPathId | FtPathsBlocked
  | FtPathCidsBlocked | FtAddIpv4Address | FtAddIpv6Address | FtReachOutAtIpv4 | FtReachOutAtIpv6 | FtRemoveAddress

fun frame_type_to_u64 :: "frame_type \<Rightarrow> u64" where
  "frame_type_to_u64 FtPadding = 0x00"
| "frame_type_to_u64 FtPing = 0x01"
| "frame_type_to_u64 FtAck = 0x02"
| "frame_type_to_u64 FtAckEcn = 0x03"
| "frame_type_to_u64 FtResetStream = 0x04"
| "frame_type_to_u64 FtStopSending = 0x05"
| "frame_type_to_u64 FtCrypto = 0x06"
| "frame_type_to_u64 FtNewToken = 0x07"
| "frame_type_to_u64 (FtStream s) = ucast s"
| "frame_type_to_u64 FtMaxData = 0x10"
| "frame_type_to_u64 FtMaxStreamData = 0x11"
| "frame_type_to_u64 FtMaxStreamsBidi = 0x12"
| "frame_type_to_u64 FtMaxStreamsUni = 0x13"
| "frame_type_to_u64 FtDataBlocked = 0x14"
| "frame_type_to_u64 FtStreamDataBlocked = 0x15"
| "frame_type_to_u64 FtStreamsBlockedBidi = 0x16"
| "frame_type_to_u64 FtStreamsBlockedUni = 0x17"
| "frame_type_to_u64 FtNewConnectionId = 0x18"
| "frame_type_to_u64 FtRetireConnectionId = 0x19"
| "frame_type_to_u64 FtPathChallenge = 0x1a"
| "frame_type_to_u64 FtPathResponse = 0x1b"
| "frame_type_to_u64 FtConnectionClose = 0x1c"
| "frame_type_to_u64 FtApplicationClose = 0x1d"
| "frame_type_to_u64 FtHandshakeDone = 0x1e"
| "frame_type_to_u64 FtAckFrequency = 0xaf"
| "frame_type_to_u64 FtImmediateAck = 0x1f"
| "frame_type_to_u64 (FtDatagram d) = ucast d"
| "frame_type_to_u64 FtObservedIpv4Addr = 0x9f81a6"
| "frame_type_to_u64 FtObservedIpv6Addr = 0x9f81a7"
| "frame_type_to_u64 FtPathAck = 0x3e"
| "frame_type_to_u64 FtPathAckEcn = 0x3f"
| "frame_type_to_u64 FtPathAbandon = 0x3e75"
| "frame_type_to_u64 FtPathStatusBackup = 0x3e76"
| "frame_type_to_u64 FtPathStatusAvailable = 0x3e77"
| "frame_type_to_u64 FtPathNewConnectionId = 0x3e78"
| "frame_type_to_u64 FtPathRetireConnectionId = 0x3e79"
| "frame_type_to_u64 FtMaxPathId = 0x3e7a"
| "frame_type_to_u64 FtPathsBlocked = 0x3e7b"
| "frame_type_to_u64 FtPathCidsBlocked = 0x3e7c"
| "frame_type_to_u64 FtAddIpv4Address = 0x3d7f90"
| "frame_type_to_u64 FtAddIpv6Address = 0x3d7f91"
| "frame_type_to_u64 FtReachOutAtIpv4 = 0x3d7f92"
| "frame_type_to_u64 FtReachOutAtIpv6 = 0x3d7f93"
| "frame_type_to_u64 FtRemoveAddress = 0x3d7f94"

text \<open>The types with one number each; the reverse table is generated from them.\<close>

definition plain_types :: "frame_type list" where
  "plain_types =
     [FtPadding, FtPing, FtAck, FtAckEcn, FtResetStream, FtStopSending, FtCrypto, FtNewToken, FtMaxData, FtMaxStreamData,
      FtMaxStreamsBidi, FtMaxStreamsUni, FtDataBlocked, FtStreamDataBlocked, FtStreamsBlockedBidi, FtStreamsBlockedUni,
      FtNewConnectionId, FtRetireConnectionId, FtPathChallenge, FtPathResponse, FtConnectionClose, FtApplicationClose,
      FtHandshakeDone, FtAckFrequency, FtImmediateAck, FtObservedIpv4Addr, FtObservedIpv6Addr, FtPathAck, FtPathAckEcn,
      FtPathAbandon, FtPathStatusBackup, FtPathStatusAvailable, FtPathNewConnectionId, FtPathRetireConnectionId, FtMaxPathId,
      FtPathsBlocked, FtPathCidsBlocked, FtAddIpv4Address, FtAddIpv6Address, FtReachOutAtIpv4, FtReachOutAtIpv6,
      FtRemoveAddress]"

definition frame_type_from_u64 :: "u64 \<Rightarrow> frame_type option" where
  "frame_type_from_u64 v = map_of (map (\<lambda>t. (frame_type_to_u64 t, t)) plain_types) v"

text \<open>\<open>Inl\<close> is \<open>InvalidFrameId\<close>.\<close>

definition frame_type_try_from :: "u64 \<Rightarrow> u64 + frame_type" where
  "frame_type_try_from v =
     (case frame_type_from_u64 v of
        Some t \<Rightarrow> Inr t
      | None \<Rightarrow>
          if 0x30 \<le> v \<and> v \<le> 0x31 then Inr (FtDatagram (ucast v))
          else if 0x08 \<le> v \<and> v \<le> 0x0f then Inr (FtStream (ucast v))
          else Inl v)"

definition frame_type_size :: "frame_type \<Rightarrow> nat option" where
  "frame_type_size t = varint_size (frame_type_to_u64 t)"

definition frame_type_encode :: "frame_type \<Rightarrow> bytes option" where
  "frame_type_encode t = write_var (frame_type_to_u64 t)"

definition frame_type_decode :: "frame_type decoder" where
  "frame_type_decode b =
     (case get_var b of
        None \<Rightarrow> None
      | Some (v, r) \<Rightarrow> (case frame_type_try_from v of Inl _ \<Rightarrow> None | Inr t \<Rightarrow> Some (t, r)))"

definition stream_fin :: "u8 \<Rightarrow> bool" where "stream_fin s \<longleftrightarrow> s AND 1 \<noteq> 0"
definition stream_len :: "u8 \<Rightarrow> bool" where "stream_len s \<longleftrightarrow> s AND 2 \<noteq> 0"
definition stream_off :: "u8 \<Rightarrow> bool" where "stream_off s \<longleftrightarrow> s AND 4 \<noteq> 0"
definition datagram_len :: "u8 \<Rightarrow> bool" where "datagram_len d \<longleftrightarrow> d AND 1 \<noteq> 0"

datatype maybe_frame = MfNone | MfUnknown u64 | MfKnown frame_type

definition maybe_frame_size :: "maybe_frame \<Rightarrow> nat option" where
  "maybe_frame_size m =
     (case m of MfNone \<Rightarrow> varint_size 0 | MfUnknown other \<Rightarrow> varint_size other | MfKnown t \<Rightarrow> frame_type_size t)"

definition maybe_frame_encode :: "maybe_frame \<Rightarrow> bytes option" where
  "maybe_frame_encode m =
     (case m of MfNone \<Rightarrow> write_var 0 | MfUnknown other \<Rightarrow> write_var other | MfKnown t \<Rightarrow> frame_type_encode t)"

definition maybe_frame_decode :: "maybe_frame decoder" where
  "maybe_frame_decode b =
     (case get_var b of
        None \<Rightarrow> None
      | Some (v, r) \<Rightarrow>
          (case frame_type_try_from v of
             Inl other \<Rightarrow> Some (MfUnknown other, r)
           | Inr t \<Rightarrow> Some (if t = FtPadding then MfNone else MfKnown t, r)))"

subsection \<open>Frames\<close>

record stream_data_blocked =
  sdb_id :: stream_id
  sdb_offset :: u64

record streams_blocked =
  stb_dir :: dir
  stb_limit :: u64

record max_stream_data =
  msd_id :: stream_id
  msd_offset :: u64

record max_streams =
  mxs_dir :: dir
  mxs_count :: u64

record retire_connection_id =
  rci_path_id :: "path_id option"
  rci_sequence :: u64

record connection_close =
  cc_error_code :: u64
  cc_frame_type :: maybe_frame
  cc_reason :: bytes

record application_close =
  apc_error_code :: u64
  apc_reason :: bytes

datatype close = CloseConnection connection_close | CloseApplication application_close

record ecn_counts =
  ecn_ect0 :: u64
  ecn_ect1 :: u64
  ecn_ce :: u64

record ack_frame =
  ak_largest :: u64
  ak_delay :: u64
  ak_ranges :: array_range_set
  ak_ecn :: "ecn_counts option"

record path_ack_frame =
  pak_path_id :: path_id
  pak_largest :: u64
  pak_delay :: u64
  pak_ranges :: array_range_set
  pak_ecn :: "ecn_counts option"

record stream_frame =
  stf_id :: stream_id
  stf_offset :: u64
  stf_fin :: bool
  stf_data :: bytes

record stream_meta =
  smt_id :: stream_id
  smt_offsets :: u64_range
  smt_fin :: bool

record crypto_frame =
  cry_offset :: u64
  cry_data :: bytes

record reset_stream =
  rst_id :: stream_id
  rst_error_code :: u64
  rst_final_offset :: u64

record stop_sending =
  sps_id :: stream_id
  sps_error_code :: u64

record new_connection_id =
  nci_path_id :: "path_id option"
  nci_sequence :: u64
  nci_retire_prior_to :: u64
  nci_id :: connection_id
  nci_reset_token :: bytes

record ack_frequency =
  afr_sequence :: u64
  afr_ack_eliciting_threshold :: u64
  afr_request_max_ack_delay :: u64
  afr_reordering_threshold :: u64

text \<open>\<open>ObservedAddr\<close>, \<open>AddAddress\<close> and \<open>ReachOut\<close> have the same fields: a number, an address and a port.\<close>

record address_frame =
  adf_number :: u64
  adf_ip :: ip_addr
  adf_port :: u16

record path_abandon =
  pab_path_id :: path_id
  pab_error_code :: u64

text \<open>\<open>PathStatusAvailable\<close>, \<open>PathStatusBackup\<close> and \<open>PathCidsBlocked\<close> have the same fields: a path and a number.\<close>

record path_number =
  pnm_path_id :: path_id
  pnm_number :: u64

datatype frame =
    FPadding
  | FPing
  | FAck ack_frame
  | FPathAck path_ack_frame
  | FResetStream reset_stream
  | FStopSending stop_sending
  | FCrypto crypto_frame
  | FNewToken bytes
  | FStream stream_frame
  | FMaxData u64
  | FMaxStreamData max_stream_data
  | FMaxStreams max_streams
  | FDataBlocked u64
  | FStreamDataBlocked stream_data_blocked
  | FStreamsBlocked streams_blocked
  | FNewConnectionId new_connection_id
  | FRetireConnectionId retire_connection_id
  | FPathChallenge u64
  | FPathResponse u64
  | FClose close
  | FDatagram bytes
  | FAckFrequency ack_frequency
  | FImmediateAck
  | FHandshakeDone
  | FObservedAddr address_frame
  | FPathAbandon path_abandon
  | FPathStatusAvailable path_number
  | FPathStatusBackup path_number
  | FMaxPathId path_id
  | FPathsBlocked path_id
  | FPathCidsBlocked path_number
  | FAddAddress address_frame
  | FReachOut address_frame
  | FRemoveAddress u64

subsection \<open>Classification\<close>

definition max_streams_type :: "max_streams \<Rightarrow> frame_type" where
  "max_streams_type m = (case mxs_dir m of Bi \<Rightarrow> FtMaxStreamsBidi | Uni \<Rightarrow> FtMaxStreamsUni)"

definition streams_blocked_type :: "streams_blocked \<Rightarrow> frame_type" where
  "streams_blocked_type m = (case stb_dir m of Bi \<Rightarrow> FtStreamsBlockedBidi | Uni \<Rightarrow> FtStreamsBlockedUni)"

definition retire_type :: "retire_connection_id \<Rightarrow> frame_type" where
  "retire_type f = (if rci_path_id f \<noteq> None then FtPathRetireConnectionId else FtRetireConnectionId)"

definition new_cid_type :: "new_connection_id \<Rightarrow> frame_type" where
  "new_cid_type f = (if nci_path_id f \<noteq> None then FtPathNewConnectionId else FtNewConnectionId)"

definition ack_type_of :: "ecn_counts option \<Rightarrow> frame_type" where
  "ack_type_of ecn = (if ecn \<noteq> None then FtAckEcn else FtAck)"

definition path_ack_type_of :: "ecn_counts option \<Rightarrow> frame_type" where
  "path_ack_type_of ecn = (if ecn \<noteq> None then FtPathAckEcn else FtPathAck)"

definition is_ipv6 :: "ip_addr \<Rightarrow> bool" where
  "is_ipv6 ip = (case ip of V6 _ \<Rightarrow> True | V4 _ \<Rightarrow> False)"

definition observed_addr_type :: "address_frame \<Rightarrow> frame_type" where
  "observed_addr_type f = (if is_ipv6 (adf_ip f) then FtObservedIpv6Addr else FtObservedIpv4Addr)"

definition add_address_type :: "address_frame \<Rightarrow> frame_type" where
  "add_address_type f = (if is_ipv6 (adf_ip f) then FtAddIpv6Address else FtAddIpv4Address)"

definition reach_out_type :: "address_frame \<Rightarrow> frame_type" where
  "reach_out_type f = (if is_ipv6 (adf_ip f) then FtReachOutAtIpv6 else FtReachOutAtIpv4)"

fun frame_ty :: "frame \<Rightarrow> frame_type" where
  "frame_ty FPadding = FtPadding"
| "frame_ty (FResetStream _) = FtResetStream"
| "frame_ty (FClose (CloseConnection _)) = FtConnectionClose"
| "frame_ty (FClose (CloseApplication _)) = FtConnectionClose"
| "frame_ty (FMaxData _) = FtMaxData"
| "frame_ty (FMaxStreamData _) = FtMaxStreamData"
| "frame_ty (FMaxStreams m) = max_streams_type m"
| "frame_ty FPing = FtPing"
| "frame_ty (FDataBlocked _) = FtDataBlocked"
| "frame_ty (FStreamDataBlocked _) = FtStreamDataBlocked"
| "frame_ty (FStreamsBlocked m) = streams_blocked_type m"
| "frame_ty (FStopSending _) = FtStopSending"
| "frame_ty (FRetireConnectionId f) = retire_type f"
| "frame_ty (FAck a) = ack_type_of (ak_ecn a)"
| "frame_ty (FPathAck a) = path_ack_type_of (pak_ecn a)"
| "frame_ty (FStream x) =
     FtStream (0x08 OR (if stf_fin x then 0x01 else 0) OR (if stf_offset x \<noteq> 0 then 0x04 else 0))"
| "frame_ty (FPathChallenge _) = FtPathChallenge"
| "frame_ty (FPathResponse _) = FtPathResponse"
| "frame_ty (FNewConnectionId f) = new_cid_type f"
| "frame_ty (FCrypto _) = FtCrypto"
| "frame_ty (FNewToken _) = FtNewToken"
| "frame_ty (FDatagram _) = FtDatagram 0x30"
| "frame_ty (FAckFrequency _) = FtAckFrequency"
| "frame_ty FImmediateAck = FtImmediateAck"
| "frame_ty FHandshakeDone = FtHandshakeDone"
| "frame_ty (FObservedAddr f) = observed_addr_type f"
| "frame_ty (FPathAbandon _) = FtPathAbandon"
| "frame_ty (FPathStatusAvailable _) = FtPathStatusAvailable"
| "frame_ty (FPathStatusBackup _) = FtPathStatusBackup"
| "frame_ty (FMaxPathId _) = FtMaxPathId"
| "frame_ty (FPathsBlocked _) = FtPathsBlocked"
| "frame_ty (FPathCidsBlocked _) = FtPathCidsBlocked"
| "frame_ty (FAddAddress f) = add_address_type f"
| "frame_ty (FReachOut f) = reach_out_type f"
| "frame_ty (FRemoveAddress _) = FtRemoveAddress"

definition is_ack_eliciting :: "frame \<Rightarrow> bool" where
  "is_ack_eliciting f =
     (case f of FAck _ \<Rightarrow> False | FPathAck _ \<Rightarrow> False | FPadding \<Rightarrow> False | FClose _ \<Rightarrow> False | _ \<Rightarrow> True)"

definition is_qad_frame :: "frame \<Rightarrow> bool" where
  "is_qad_frame f = (case f of FObservedAddr _ \<Rightarrow> True | _ \<Rightarrow> False)"

definition is_multipath_frame :: "frame \<Rightarrow> bool" where
  "is_multipath_frame f =
     (case f of
        FPathAck _ \<Rightarrow> True | FPathAbandon _ \<Rightarrow> True | FPathStatusBackup _ \<Rightarrow> True | FPathStatusAvailable _ \<Rightarrow> True
      | FMaxPathId _ \<Rightarrow> True | FPathsBlocked _ \<Rightarrow> True | FPathCidsBlocked _ \<Rightarrow> True
      | FNewConnectionId n \<Rightarrow> nci_path_id n \<noteq> None
      | FRetireConnectionId n \<Rightarrow> rci_path_id n \<noteq> None
      | _ \<Rightarrow> False)"

definition is_1rtt :: "frame \<Rightarrow> bool" where
  "is_1rtt f \<longleftrightarrow> is_multipath_frame f \<or> is_qad_frame f"

subsection \<open>Encoders\<close>

text \<open>One encoder after the other.\<close>

fun cat :: "bytes option list \<Rightarrow> bytes option" where
  "cat [] = Some []"
| "cat (x # xs) = (case x of None \<Rightarrow> None | Some a \<Rightarrow> map_option (\<lambda>b. a @ b) (cat xs))"

definition put_slice :: "bytes \<Rightarrow> bytes option" where "put_slice b = Some b"

definition ip_encode :: "ip_addr \<Rightarrow> bytes option" where
  "ip_encode ip = Some (case ip of V4 a \<Rightarrow> ipv4_encode a | V6 a \<Rightarrow> ipv6_encode a)"

definition path_challenge_encode :: "u64 \<Rightarrow> bytes option" where
  "path_challenge_encode x = cat [frame_type_encode FtPathChallenge, Some (u64_encode x)]"

definition path_response_encode :: "u64 \<Rightarrow> bytes option" where
  "path_response_encode x = cat [frame_type_encode FtPathResponse, Some (u64_encode x)]"

definition data_blocked_encode :: "u64 \<Rightarrow> bytes option" where
  "data_blocked_encode x = cat [frame_type_encode FtDataBlocked, write_var x]"

definition stream_data_blocked_encode :: "stream_data_blocked \<Rightarrow> bytes option" where
  "stream_data_blocked_encode f =
     cat [frame_type_encode FtStreamDataBlocked, stream_id_encode (sdb_id f), write_var (sdb_offset f)]"

definition streams_blocked_encode :: "streams_blocked \<Rightarrow> bytes option" where
  "streams_blocked_encode f = cat [frame_type_encode (streams_blocked_type f), write_var (stb_limit f)]"

definition max_data_encode :: "u64 \<Rightarrow> bytes option" where
  "max_data_encode x = cat [frame_type_encode FtMaxData, varint_encode x]"

definition max_stream_data_encode :: "max_stream_data \<Rightarrow> bytes option" where
  "max_stream_data_encode f =
     cat [frame_type_encode FtMaxStreamData, stream_id_encode (msd_id f), write_var (msd_offset f)]"

definition max_streams_encode :: "max_streams \<Rightarrow> bytes option" where
  "max_streams_encode f = cat [frame_type_encode (max_streams_type f), write_var (mxs_count f)]"

definition retire_connection_id_encode :: "retire_connection_id \<Rightarrow> bytes option" where
  "retire_connection_id_encode f =
     cat [frame_type_encode (retire_type f),
          case rci_path_id f of None \<Rightarrow> Some [] | Some p \<Rightarrow> path_id_encode p,
          write_var (rci_sequence f)]"

text \<open>Subtraction of lengths in an optimised build, which wraps around below zero.\<close>

definition usize_sub :: "nat \<Rightarrow> nat \<Rightarrow> nat" where
  "usize_sub a b = (if b \<le> a then a - b else 2 ^ 64 + a - b)"

text \<open>The reason of a close is cut to the space left.\<close>

definition connection_close_encode :: "nat \<Rightarrow> connection_close \<Rightarrow> bytes option" where
  "connection_close_encode max_len f =
     (case (maybe_frame_size (cc_frame_type f), varint_size (of_nat (length (cc_reason f)))) of
        (Some type_size, Some len_size) \<Rightarrow>
          let max_len = usize_sub (usize_sub (usize_sub max_len 3) type_size) len_size;
              actual_len = min (length (cc_reason f)) max_len
          in cat [frame_type_encode FtConnectionClose, error_code_encode (cc_error_code f),
                  maybe_frame_encode (cc_frame_type f), write_var (of_nat actual_len),
                  put_slice (take actual_len (cc_reason f))]
      | _ \<Rightarrow> None)"

definition application_close_encode :: "nat \<Rightarrow> application_close \<Rightarrow> bytes option" where
  "application_close_encode max_len f =
     (case varint_size (of_nat (length (apc_reason f))) of
        Some len_size \<Rightarrow>
          let max_len = usize_sub (usize_sub max_len 3) len_size; actual_len = min (length (apc_reason f)) max_len
          in cat [frame_type_encode FtApplicationClose, varint_encode (apc_error_code f), write_var (of_nat actual_len),
                  put_slice (take actual_len (apc_reason f))]
      | None \<Rightarrow> None)"

definition close_encode :: "nat \<Rightarrow> close \<Rightarrow> bytes option" where
  "close_encode max_len c =
     (case c of CloseConnection x \<Rightarrow> connection_close_encode max_len x | CloseApplication x \<Rightarrow> application_close_encode max_len x)"

definition ecn_counts_encode :: "ecn_counts \<Rightarrow> bytes option" where
  "ecn_counts_encode e = cat [write_var (ecn_ect0 e), write_var (ecn_ect1 e), write_var (ecn_ce e)]"

text \<open>The gaps and sizes of the ranges below \<open>prev\<close>, from high to low.\<close>

fun ack_blocks_encode :: "u64 \<Rightarrow> u64_range list \<Rightarrow> bytes option" where
  "ack_blocks_encode prev [] = Some []"
| "ack_blocks_encode prev (block # rest) =
     cat [write_var (prev - rg_end block - 1), write_var (rg_end block - rg_start block - 1),
          ack_blocks_encode (rg_start block) rest]"

definition ack_body_encode :: "u64 \<Rightarrow> array_range_set \<Rightarrow> ecn_counts option \<Rightarrow> bytes option" where
  "ack_body_encode delay ranges ecn =
     (case rev ranges of
        [] \<Rightarrow> None
      | first # rest \<Rightarrow>
          cat [write_var (rg_end first - 1), write_var delay, write_var (of_nat (ars_len ranges) - 1),
               write_var (rg_end first - rg_start first - 1), ack_blocks_encode (rg_start first) rest,
               case ecn of None \<Rightarrow> Some [] | Some x \<Rightarrow> ecn_counts_encode x])"

definition ack_encode :: "u64 \<Rightarrow> array_range_set \<Rightarrow> ecn_counts option \<Rightarrow> bytes option" where
  "ack_encode delay ranges ecn = cat [frame_type_encode (ack_type_of ecn), ack_body_encode delay ranges ecn]"

definition path_ack_encode :: "path_id \<Rightarrow> u64 \<Rightarrow> array_range_set \<Rightarrow> ecn_counts option \<Rightarrow> bytes option" where
  "path_ack_encode path_id delay ranges ecn =
     cat [frame_type_encode (path_ack_type_of ecn), path_id_encode path_id, ack_body_encode delay ranges ecn]"

definition stream_meta_type :: "bool \<Rightarrow> stream_meta \<Rightarrow> u8" where
  "stream_meta_type encode_length m =
     0x08 OR (if rg_start (smt_offsets m) \<noteq> 0 then 0x04 else 0) OR (if encode_length then 0x02 else 0) OR
     (if smt_fin m then 0x01 else 0)"

definition stream_meta_encode :: "bool \<Rightarrow> stream_meta \<Rightarrow> bytes option" where
  "stream_meta_encode encode_length m =
     cat [write_var (ucast (stream_meta_type encode_length m)), stream_id_encode (smt_id m),
          if rg_start (smt_offsets m) \<noteq> 0 then write_var (rg_start (smt_offsets m)) else Some [],
          if encode_length then write_var (rg_end (smt_offsets m) - rg_start (smt_offsets m)) else Some []]"

definition crypto_encode :: "crypto_frame \<Rightarrow> bytes option" where
  "crypto_encode f =
     cat [frame_type_encode FtCrypto, write_var (cry_offset f), write_var (of_nat (length (cry_data f))), put_slice (cry_data f)]"

definition new_token_encode :: "bytes \<Rightarrow> bytes option" where
  "new_token_encode token = cat [frame_type_encode FtNewToken, write_var (of_nat (length token)), put_slice token]"

definition max_path_id_encode :: "path_id \<Rightarrow> bytes option" where
  "max_path_id_encode p = cat [frame_type_encode FtMaxPathId, path_id_encode p]"

definition paths_blocked_encode :: "path_id \<Rightarrow> bytes option" where
  "paths_blocked_encode p = cat [frame_type_encode FtPathsBlocked, path_id_encode p]"

definition path_cids_blocked_encode :: "path_number \<Rightarrow> bytes option" where
  "path_cids_blocked_encode f =
     cat [frame_type_encode FtPathCidsBlocked, path_id_encode (pnm_path_id f), varint_encode (pnm_number f)]"

definition reset_stream_encode :: "reset_stream \<Rightarrow> bytes option" where
  "reset_stream_encode f =
     cat [frame_type_encode FtResetStream, stream_id_encode (rst_id f), varint_encode (rst_error_code f),
          varint_encode (rst_final_offset f)]"

definition stop_sending_encode :: "stop_sending \<Rightarrow> bytes option" where
  "stop_sending_encode f =
     cat [frame_type_encode FtStopSending, stream_id_encode (sps_id f), varint_encode (sps_error_code f)]"

definition new_connection_id_encode :: "new_connection_id \<Rightarrow> bytes option" where
  "new_connection_id_encode f =
     cat [frame_type_encode (new_cid_type f),
          case nci_path_id f of None \<Rightarrow> Some [] | Some p \<Rightarrow> path_id_encode p,
          write_var (nci_sequence f), write_var (nci_retire_prior_to f),
          Some (u8_encode (of_nat (length (nci_id f)))), put_slice (nci_id f), put_slice (nci_reset_token f)]"

definition datagram_encode :: "bytes \<Rightarrow> bytes option" where
  "datagram_encode data = cat [frame_type_encode (FtDatagram (0x30 OR 1)), write_var (of_nat (length data)), put_slice data]"

definition ack_frequency_encode :: "ack_frequency \<Rightarrow> bytes option" where
  "ack_frequency_encode f =
     cat [frame_type_encode FtAckFrequency, varint_encode (afr_sequence f), varint_encode (afr_ack_eliciting_threshold f),
          varint_encode (afr_request_max_ack_delay f), varint_encode (afr_reordering_threshold f)]"

definition observed_addr_encode :: "address_frame \<Rightarrow> bytes option" where
  "observed_addr_encode f =
     cat [frame_type_encode (observed_addr_type f), varint_encode (adf_number f), ip_encode (adf_ip f), Some (u16_encode (adf_port f))]"

definition add_address_encode :: "address_frame \<Rightarrow> bytes option" where
  "add_address_encode f =
     cat [frame_type_encode (add_address_type f), varint_encode (adf_number f), ip_encode (adf_ip f), Some (u16_encode (adf_port f))]"

definition reach_out_encode :: "address_frame \<Rightarrow> bytes option" where
  "reach_out_encode f =
     cat [frame_type_encode (reach_out_type f), varint_encode (adf_number f), ip_encode (adf_ip f), Some (u16_encode (adf_port f))]"

definition remove_address_encode :: "u64 \<Rightarrow> bytes option" where
  "remove_address_encode n = cat [frame_type_encode FtRemoveAddress, varint_encode n]"

definition path_abandon_encode :: "path_abandon \<Rightarrow> bytes option" where
  "path_abandon_encode f =
     cat [frame_type_encode FtPathAbandon, path_id_encode (pab_path_id f), error_code_encode (pab_error_code f)]"

definition path_status_available_encode :: "path_number \<Rightarrow> bytes option" where
  "path_status_available_encode f =
     cat [frame_type_encode FtPathStatusAvailable, path_id_encode (pnm_path_id f), varint_encode (pnm_number f)]"

definition path_status_backup_encode :: "path_number \<Rightarrow> bytes option" where
  "path_status_backup_encode f =
     cat [frame_type_encode FtPathStatusBackup, path_id_encode (pnm_path_id f), varint_encode (pnm_number f)]"

text \<open>
  The frames of \<open>EncodableFrame\<close>, and the frames for blocked senders, which have encoders too. A stream frame
  is the encoded metadata followed by the data, which the sender of streams appends; padding
  is zero bytes, which the packet builder writes.
\<close>

definition stream_encode :: "bool \<Rightarrow> stream_frame \<Rightarrow> bytes option" where
  "stream_encode encode_length f =
     cat [stream_meta_encode encode_length
            \<lparr>smt_id = stf_id f, smt_offsets = rng (stf_offset f) (stf_offset f + of_nat (length (stf_data f))), smt_fin = stf_fin f\<rparr>,
          put_slice (stf_data f)]"

fun frame_encode :: "nat \<Rightarrow> bool \<Rightarrow> frame \<Rightarrow> bytes option" where
  "frame_encode max_len el FPadding = Some [0]"
| "frame_encode max_len el FPing = frame_type_encode FtPing"
| "frame_encode max_len el (FAck a) = ack_encode (ak_delay a) (ak_ranges a) (ak_ecn a)"
| "frame_encode max_len el (FPathAck a) = path_ack_encode (pak_path_id a) (pak_delay a) (pak_ranges a) (pak_ecn a)"
| "frame_encode max_len el (FResetStream f) = reset_stream_encode f"
| "frame_encode max_len el (FStopSending f) = stop_sending_encode f"
| "frame_encode max_len el (FCrypto f) = crypto_encode f"
| "frame_encode max_len el (FNewToken t) = new_token_encode t"
| "frame_encode max_len el (FStream f) = stream_encode el f"
| "frame_encode max_len el (FMaxData x) = max_data_encode x"
| "frame_encode max_len el (FMaxStreamData f) = max_stream_data_encode f"
| "frame_encode max_len el (FMaxStreams f) = max_streams_encode f"
| "frame_encode max_len el (FDataBlocked x) = data_blocked_encode x"
| "frame_encode max_len el (FStreamDataBlocked f) = stream_data_blocked_encode f"
| "frame_encode max_len el (FStreamsBlocked f) = streams_blocked_encode f"
| "frame_encode max_len el (FNewConnectionId f) = new_connection_id_encode f"
| "frame_encode max_len el (FRetireConnectionId f) = retire_connection_id_encode f"
| "frame_encode max_len el (FPathChallenge x) = path_challenge_encode x"
| "frame_encode max_len el (FPathResponse x) = path_response_encode x"
| "frame_encode max_len el (FClose c) = close_encode max_len c"
| "frame_encode max_len el (FDatagram d) = datagram_encode d"
| "frame_encode max_len el (FAckFrequency f) = ack_frequency_encode f"
| "frame_encode max_len el FImmediateAck = frame_type_encode FtImmediateAck"
| "frame_encode max_len el FHandshakeDone = frame_type_encode FtHandshakeDone"
| "frame_encode max_len el (FObservedAddr f) = observed_addr_encode f"
| "frame_encode max_len el (FPathAbandon f) = path_abandon_encode f"
| "frame_encode max_len el (FPathStatusAvailable f) = path_status_available_encode f"
| "frame_encode max_len el (FPathStatusBackup f) = path_status_backup_encode f"
| "frame_encode max_len el (FMaxPathId p) = max_path_id_encode p"
| "frame_encode max_len el (FPathsBlocked p) = paths_blocked_encode p"
| "frame_encode max_len el (FPathCidsBlocked f) = path_cids_blocked_encode f"
| "frame_encode max_len el (FAddAddress f) = add_address_encode f"
| "frame_encode max_len el (FReachOut f) = reach_out_encode f"
| "frame_encode max_len el (FRemoveAddress n) = remove_address_encode n"

subsection \<open>Readers\<close>

datatype iter_err = UnexpectedEnd | InvalidFrameId | Malformed

type_synonym 'a reader = "bytes \<Rightarrow> iter_err + 'a \<times> bytes"

definition iter_err_reason :: "iter_err \<Rightarrow> string" where
  "iter_err_reason e =
     (case e of UnexpectedEnd \<Rightarrow> ''unexpected end'' | InvalidFrameId \<Rightarrow> ''invalid frame ID'' | Malformed \<Rightarrow> ''malformed'')"

text \<open>The \<open>?\<close> operator: a decoder as a reader, and one reader after another.\<close>

definition get :: "'a decoder \<Rightarrow> 'a reader" where
  "get d b = (case d b of None \<Rightarrow> Inl UnexpectedEnd | Some x \<Rightarrow> Inr x)"

definition and_then :: "'a reader \<Rightarrow> ('a \<Rightarrow> 'b reader) \<Rightarrow> 'b reader" where
  "and_then r f b = (case r b of Inl e \<Rightarrow> Inl e | Inr (x, b) \<Rightarrow> f x b)"

definition yield :: "'a \<Rightarrow> 'a reader" where
  "yield x b = Inr (x, b)"

definition take_len :: "bytes reader" where
  "take_len = and_then (get get_var) (\<lambda>len b.
     if unat len > length b then Inl UnexpectedEnd else Inr (take (unat len) b, drop (unat len) b))"

definition take_remaining :: "bytes reader" where
  "take_remaining b = Inr (b, [])"

text \<open>
  Read the ranges of an acknowledgement, \<open>n\<close> gaps still to come. The values read are below \<open>2 ^ 62\<close>, so the additions
  do not overflow.
\<close>

fun read_blocks :: "nat \<Rightarrow> u64 \<Rightarrow> array_range_set \<Rightarrow> array_range_set reader" where
  "read_blocks n largest out b =
     (case get get_var b of
        Inl e \<Rightarrow> Inl e
      | Inr (r, b) \<Rightarrow>
          let r = r + 1
          in if largest + 1 < r then Inl Malformed
             else
               (let out = (if 0 < r then snd (ars_insert (rng (largest + 1 - r) (largest + 1)) out) else out)
                in case n of
                     0 \<Rightarrow> Inr (out, b)
                   | Suc n \<Rightarrow>
                       (case get get_var b of
                          Inl e \<Rightarrow> Inl e
                        | Inr (gap, b) \<Rightarrow>
                            let block_to_block = gap + 1 + r
                            in if largest < block_to_block then Inl Malformed
                               else read_blocks n (largest - block_to_block) out b)))"

declare read_blocks.simps [simp del]

definition read_ack_blocks :: "u64 \<Rightarrow> array_range_set reader" where
  "read_ack_blocks largest = and_then (get get_var) (\<lambda>num_blocks. read_blocks (unat num_blocks) largest ars_new)"

definition ip_read :: "bool \<Rightarrow> ip_addr reader" where
  "ip_read v6 =
     (if v6 then and_then (get ipv6_decode) (\<lambda>a. yield (V6 a)) else and_then (get ipv4_decode) (\<lambda>a. yield (V4 a)))"

definition address_read :: "bool \<Rightarrow> address_frame reader" where
  "address_read v6 =
     and_then (get varint_decode) (\<lambda>n. and_then (ip_read v6) (\<lambda>ip. and_then (get u16_decode) (\<lambda>port.
       yield \<lparr>adf_number = n, adf_ip = ip, adf_port = port\<rparr>)))"

definition path_read :: "bool \<Rightarrow> path_id option reader" where
  "path_read read_path = (if read_path then and_then (get path_id_decode) (\<lambda>p. yield (Some p)) else yield None)"

definition retire_connection_id_decode :: "bool \<Rightarrow> retire_connection_id reader" where
  "retire_connection_id_decode rp =
     and_then (path_read rp) (\<lambda>p. and_then (get get_var) (\<lambda>s. yield \<lparr>rci_path_id = p, rci_sequence = s\<rparr>))"

definition new_connection_id_read :: "bool \<Rightarrow> new_connection_id reader" where
  "new_connection_id_read rp =
     and_then (path_read rp) (\<lambda>p. and_then (get get_var) (\<lambda>s. and_then (get get_var) (\<lambda>retire b.
       if retire > s then Inl Malformed
       else and_then (get u8_decode) (\<lambda>len b.
         if unat len > MAX_CID_SIZE \<or> unat len = 0 then Inl Malformed
         else and_then (get (copy_to_slice (unat len))) (\<lambda>cid. and_then (get (copy_to_slice RESET_TOKEN_SIZE)) (\<lambda>tok.
           yield \<lparr>nci_path_id = p, nci_sequence = s, nci_retire_prior_to = retire, nci_id = cid, nci_reset_token = tok\<rparr>)) b) b)))"

definition path_number_decode :: "path_number reader" where
  "path_number_decode =
     and_then (get path_id_decode) (\<lambda>p. and_then (get varint_decode) (\<lambda>n. yield \<lparr>pnm_path_id = p, pnm_number = n\<rparr>))"

definition path_abandon_decode :: "path_abandon reader" where
  "path_abandon_decode =
     and_then (get path_id_decode) (\<lambda>p. and_then (get error_code_decode) (\<lambda>c. yield \<lparr>pab_path_id = p, pab_error_code = c\<rparr>))"

definition max_stream_data_decode :: "max_stream_data reader" where
  "max_stream_data_decode =
     and_then (get stream_id_decode) (\<lambda>i. and_then (get get_var) (\<lambda>x. yield \<lparr>msd_id = i, msd_offset = x\<rparr>))"

definition ecn_counts_read :: "ecn_counts reader" where
  "ecn_counts_read =
     and_then (get get_var) (\<lambda>a. and_then (get get_var) (\<lambda>b. and_then (get get_var) (\<lambda>c.
       yield \<lparr>ecn_ect0 = a, ecn_ect1 = b, ecn_ce = c\<rparr>)))"

definition ecn_read :: "bool \<Rightarrow> ecn_counts option reader" where
  "ecn_read ecn = (if ecn then and_then ecn_counts_read (\<lambda>e. yield (Some e)) else yield None)"

definition ack_read :: "bool \<Rightarrow> ack_frame reader" where
  "ack_read ecn =
     and_then (get get_var) (\<lambda>largest. and_then (get get_var) (\<lambda>delay. and_then (read_ack_blocks largest) (\<lambda>ranges.
       and_then (ecn_read ecn) (\<lambda>e.
         yield \<lparr>ak_largest = largest, ak_delay = delay, ak_ranges = ranges, ak_ecn = e\<rparr>))))"

definition path_ack_read :: "bool \<Rightarrow> path_ack_frame reader" where
  "path_ack_read ecn =
     and_then (get path_id_decode) (\<lambda>p. and_then (get get_var) (\<lambda>largest. and_then (get get_var) (\<lambda>delay.
       and_then (read_ack_blocks largest) (\<lambda>ranges. and_then (ecn_read ecn) (\<lambda>e.
         yield \<lparr>pak_path_id = p, pak_largest = largest, pak_delay = delay, pak_ranges = ranges, pak_ecn = e\<rparr>)))))"

definition stream_read :: "u8 \<Rightarrow> stream_frame reader" where
  "stream_read s =
     and_then (get stream_id_decode) (\<lambda>i. and_then (if stream_off s then get get_var else yield 0) (\<lambda>x.
       and_then (if stream_len s then take_len else take_remaining) (\<lambda>d.
         yield \<lparr>stf_id = i, stf_offset = x, stf_fin = stream_fin s, stf_data = d\<rparr>)))"

definition close_read :: "close reader" where
  "close_read =
     and_then (get error_code_decode) (\<lambda>c. and_then (get maybe_frame_decode) (\<lambda>t. and_then take_len (\<lambda>r.
       yield (CloseConnection \<lparr>cc_error_code = c, cc_frame_type = t, cc_reason = r\<rparr>))))"

definition ack_frequency_read :: "ack_frequency reader" where
  "ack_frequency_read =
     and_then (get varint_decode) (\<lambda>s. and_then (get varint_decode) (\<lambda>t. and_then (get varint_decode) (\<lambda>d.
       and_then (get varint_decode) (\<lambda>r.
         yield \<lparr>afr_sequence = s, afr_ack_eliciting_threshold = t, afr_request_max_ack_delay = d, afr_reordering_threshold = r\<rparr>))))"

text \<open>The contents of a frame of the given type.\<close>

fun frame_read :: "frame_type \<Rightarrow> frame reader" where
  "frame_read FtPadding = yield FPadding"
| "frame_read FtResetStream =
     and_then (get stream_id_decode) (\<lambda>i. and_then (get varint_decode) (\<lambda>c. and_then (get varint_decode) (\<lambda>f.
       yield (FResetStream \<lparr>rst_id = i, rst_error_code = c, rst_final_offset = f\<rparr>))))"
| "frame_read FtConnectionClose = and_then close_read (\<lambda>c. yield (FClose c))"
| "frame_read FtApplicationClose =
     and_then (get varint_decode) (\<lambda>c. and_then take_len (\<lambda>r.
       yield (FClose (CloseApplication \<lparr>apc_error_code = c, apc_reason = r\<rparr>))))"
| "frame_read FtMaxData = and_then (get varint_decode) (\<lambda>x. yield (FMaxData x))"
| "frame_read FtMaxStreamData = and_then max_stream_data_decode (\<lambda>f. yield (FMaxStreamData f))"
| "frame_read FtMaxStreamsBidi = and_then (get get_var) (\<lambda>n. yield (FMaxStreams \<lparr>mxs_dir = Bi, mxs_count = n\<rparr>))"
| "frame_read FtMaxStreamsUni = and_then (get get_var) (\<lambda>n. yield (FMaxStreams \<lparr>mxs_dir = Uni, mxs_count = n\<rparr>))"
| "frame_read FtPing = yield FPing"
| "frame_read FtDataBlocked = and_then (get get_var) (\<lambda>x. yield (FDataBlocked x))"
| "frame_read FtStreamDataBlocked =
     and_then (get stream_id_decode) (\<lambda>i. and_then (get get_var) (\<lambda>x. yield (FStreamDataBlocked \<lparr>sdb_id = i, sdb_offset = x\<rparr>)))"
| "frame_read FtStreamsBlockedBidi = and_then (get get_var) (\<lambda>n. yield (FStreamsBlocked \<lparr>stb_dir = Bi, stb_limit = n\<rparr>))"
| "frame_read FtStreamsBlockedUni = and_then (get get_var) (\<lambda>n. yield (FStreamsBlocked \<lparr>stb_dir = Uni, stb_limit = n\<rparr>))"
| "frame_read FtStopSending =
     and_then (get stream_id_decode) (\<lambda>i. and_then (get varint_decode) (\<lambda>c.
       yield (FStopSending \<lparr>sps_id = i, sps_error_code = c\<rparr>)))"
| "frame_read FtRetireConnectionId = and_then (retire_connection_id_decode False) (\<lambda>f. yield (FRetireConnectionId f))"
| "frame_read FtPathRetireConnectionId = and_then (retire_connection_id_decode True) (\<lambda>f. yield (FRetireConnectionId f))"
| "frame_read FtAck = and_then (ack_read False) (\<lambda>a. yield (FAck a))"
| "frame_read FtAckEcn = and_then (ack_read True) (\<lambda>a. yield (FAck a))"
| "frame_read FtPathAck = and_then (path_ack_read False) (\<lambda>a. yield (FPathAck a))"
| "frame_read FtPathAckEcn = and_then (path_ack_read True) (\<lambda>a. yield (FPathAck a))"
| "frame_read FtPathChallenge = and_then (get u64_decode) (\<lambda>x. yield (FPathChallenge x))"
| "frame_read FtPathResponse = and_then (get u64_decode) (\<lambda>x. yield (FPathResponse x))"
| "frame_read FtNewConnectionId = and_then (new_connection_id_read False) (\<lambda>f. yield (FNewConnectionId f))"
| "frame_read FtPathNewConnectionId = and_then (new_connection_id_read True) (\<lambda>f. yield (FNewConnectionId f))"
| "frame_read FtCrypto =
     and_then (get get_var) (\<lambda>x. and_then take_len (\<lambda>d. yield (FCrypto \<lparr>cry_offset = x, cry_data = d\<rparr>)))"
| "frame_read FtNewToken = and_then take_len (\<lambda>t. yield (FNewToken t))"
| "frame_read FtHandshakeDone = yield FHandshakeDone"
| "frame_read FtAckFrequency = and_then ack_frequency_read (\<lambda>f. yield (FAckFrequency f))"
| "frame_read FtImmediateAck = yield FImmediateAck"
| "frame_read FtObservedIpv4Addr = and_then (address_read False) (\<lambda>f. yield (FObservedAddr f))"
| "frame_read FtObservedIpv6Addr = and_then (address_read True) (\<lambda>f. yield (FObservedAddr f))"
| "frame_read FtPathAbandon = and_then path_abandon_decode (\<lambda>f. yield (FPathAbandon f))"
| "frame_read FtPathStatusAvailable = and_then path_number_decode (\<lambda>f. yield (FPathStatusAvailable f))"
| "frame_read FtPathStatusBackup = and_then path_number_decode (\<lambda>f. yield (FPathStatusBackup f))"
| "frame_read FtMaxPathId = and_then (get path_id_decode) (\<lambda>p. yield (FMaxPathId p))"
| "frame_read FtPathsBlocked = and_then (get path_id_decode) (\<lambda>p. yield (FPathsBlocked p))"
| "frame_read FtPathCidsBlocked = and_then path_number_decode (\<lambda>f. yield (FPathCidsBlocked f))"
| "frame_read FtAddIpv4Address = and_then (address_read False) (\<lambda>f. yield (FAddAddress f))"
| "frame_read FtAddIpv6Address = and_then (address_read True) (\<lambda>f. yield (FAddAddress f))"
| "frame_read FtReachOutAtIpv4 = and_then (address_read False) (\<lambda>f. yield (FReachOut f))"
| "frame_read FtReachOutAtIpv6 = and_then (address_read True) (\<lambda>f. yield (FReachOut f))"
| "frame_read FtRemoveAddress = and_then (get varint_decode) (\<lambda>n. yield (FRemoveAddress n))"
| "frame_read (FtStream s) = and_then (stream_read s) (\<lambda>f. yield (FStream f))"
| "frame_read (FtDatagram d) =
     and_then (if datagram_len d then take_len else take_remaining) (\<lambda>x. yield (FDatagram x))"

subsection \<open>The iterator over a payload\<close>

record frame_iter =
  it_bytes :: bytes
  it_last_ty :: maybe_frame

text \<open>\<open>None\<close> is the protocol violation of an empty payload.\<close>

definition iter_new :: "bytes \<Rightarrow> frame_iter option" where
  "iter_new payload = (if payload = [] then None else Some \<lparr>it_bytes = payload, it_last_ty = MfNone\<rparr>)"

definition try_next :: "frame_iter \<Rightarrow> (iter_err + frame) \<times> frame_iter" where
  "try_next it =
     (case get maybe_frame_decode (it_bytes it) of
        Inl e \<Rightarrow> (Inl e, it)
      | Inr (last_ty, b) \<Rightarrow>
          let it = it\<lparr>it_last_ty := last_ty\<rparr>
          in (case last_ty of
                MfUnknown _ \<Rightarrow> (Inl InvalidFrameId, it)
              | _ \<Rightarrow>
                  (case frame_read (case last_ty of MfKnown t \<Rightarrow> t | _ \<Rightarrow> FtPadding) b of
                     Inl e \<Rightarrow> (Inl e, it)
                   | Inr (f, b) \<Rightarrow> (Inr f, it\<lparr>it_bytes := b\<rparr>))))"

record invalid_frame =
  inv_ty :: maybe_frame
  inv_reason :: string

definition iter_next :: "frame_iter \<Rightarrow> (invalid_frame + frame) option \<times> frame_iter" where
  "iter_next it =
     (if it_bytes it = [] then (None, it)
      else
        (case try_next it of
           (Inr x, it) \<Rightarrow> (Some (Inr x), it)
         | (Inl e, it) \<Rightarrow>
             (Some (Inl \<lparr>inv_ty = it_last_ty it, inv_reason = iter_err_reason e\<rparr>), it\<lparr>it_bytes := []\<rparr>)))"

end
