(* ===== verification/Quic_FrameSafety.thy ===== *)
theory Quic_FrameSafety
  imports Quic_Frame
begin

section \<open>QUIC: frames are read as they were written\<close>

text \<open>
  Every frame in range is encoded and read back unchanged, whatever follows it; a payload made of
  encoded frames is taken apart into exactly these frames; and whatever bytes arrive, the frames
  read from them are in range and the iterator ends.
\<close>

subsection \<open>Frames in range\<close>

definition is_varint :: "u64 \<Rightarrow> bool" where
  "is_varint x \<longleftrightarrow> x < 2 ^ 62"

definition type_ok :: "frame_type \<Rightarrow> bool" where
  "type_ok t = (case t of FtStream s \<Rightarrow> 8 \<le> s \<and> s \<le> 15 | FtDatagram d \<Rightarrow> 48 \<le> d \<and> d \<le> 49 | _ \<Rightarrow> True)"

definition maybe_frame_ok :: "maybe_frame \<Rightarrow> bool" where
  "maybe_frame_ok m =
     (case m of
        MfNone \<Rightarrow> True
      | MfUnknown v \<Rightarrow> is_varint v \<and> frame_type_try_from v = Inl v
      | MfKnown t \<Rightarrow> type_ok t \<and> t \<noteq> FtPadding)"

definition data_ok :: "bytes \<Rightarrow> bool" where
  "data_ok d \<longleftrightarrow> length d < 2 ^ 62"

definition ip_ok :: "ip_addr \<Rightarrow> bool" where
  "ip_ok ip = (case ip of V4 a \<Rightarrow> length a = 4 | V6 a \<Rightarrow> length a = 16)"

definition ecn_ok :: "ecn_counts option \<Rightarrow> bool" where
  "ecn_ok e = (case e of None \<Rightarrow> True | Some c \<Rightarrow> is_varint (ecn_ect0 c) \<and> is_varint (ecn_ect1 c) \<and> is_varint (ecn_ce c))"

text \<open>The ranges of an acknowledgement: at least one, and the highest number is the given one.\<close>

definition ranges_ok :: "array_range_set \<Rightarrow> u64 \<Rightarrow> bool" where
  "ranges_ok rs largest \<longleftrightarrow> ars_wf rs \<and> ars_max rs = Some largest \<and> is_varint largest"

fun frame_ok :: "frame \<Rightarrow> bool" where
  "frame_ok (FAck a) \<longleftrightarrow> ranges_ok (ak_ranges a) (ak_largest a) \<and> is_varint (ak_delay a) \<and> ecn_ok (ak_ecn a)"
| "frame_ok (FPathAck a) \<longleftrightarrow> ranges_ok (pak_ranges a) (pak_largest a) \<and> is_varint (pak_delay a) \<and> ecn_ok (pak_ecn a)"
| "frame_ok (FResetStream f) \<longleftrightarrow> is_varint (rst_id f) \<and> is_varint (rst_error_code f) \<and> is_varint (rst_final_offset f)"
| "frame_ok (FStopSending f) \<longleftrightarrow> is_varint (sps_id f) \<and> is_varint (sps_error_code f)"
| "frame_ok (FCrypto f) \<longleftrightarrow> is_varint (cry_offset f) \<and> data_ok (cry_data f)"
| "frame_ok (FNewToken t) \<longleftrightarrow> data_ok t"
| "frame_ok (FStream f) \<longleftrightarrow> is_varint (stf_id f) \<and> is_varint (stf_offset f) \<and> data_ok (stf_data f)"
| "frame_ok (FMaxData x) \<longleftrightarrow> is_varint x"
| "frame_ok (FMaxStreamData f) \<longleftrightarrow> is_varint (msd_id f) \<and> is_varint (msd_offset f)"
| "frame_ok (FMaxStreams f) \<longleftrightarrow> is_varint (mxs_count f)"
| "frame_ok (FDataBlocked x) \<longleftrightarrow> is_varint x"
| "frame_ok (FStreamDataBlocked f) \<longleftrightarrow> is_varint (sdb_id f) \<and> is_varint (sdb_offset f)"
| "frame_ok (FStreamsBlocked f) \<longleftrightarrow> is_varint (stb_limit f)"
| "frame_ok (FNewConnectionId f) \<longleftrightarrow> is_varint (nci_sequence f) \<and> nci_retire_prior_to f \<le> nci_sequence f \<and>
     0 < length (nci_id f) \<and> length (nci_id f) \<le> MAX_CID_SIZE \<and> length (nci_reset_token f) = RESET_TOKEN_SIZE"
| "frame_ok (FRetireConnectionId f) \<longleftrightarrow> is_varint (rci_sequence f)"
| "frame_ok (FClose (CloseConnection c)) \<longleftrightarrow>
     is_varint (cc_error_code c) \<and> maybe_frame_ok (cc_frame_type c) \<and> data_ok (cc_reason c)"
| "frame_ok (FClose (CloseApplication c)) \<longleftrightarrow> is_varint (apc_error_code c) \<and> data_ok (apc_reason c)"
| "frame_ok (FDatagram d) \<longleftrightarrow> data_ok d"
| "frame_ok (FAckFrequency f) \<longleftrightarrow> is_varint (afr_sequence f) \<and> is_varint (afr_ack_eliciting_threshold f) \<and>
     is_varint (afr_request_max_ack_delay f) \<and> is_varint (afr_reordering_threshold f)"
| "frame_ok (FObservedAddr f) \<longleftrightarrow> is_varint (adf_number f) \<and> ip_ok (adf_ip f)"
| "frame_ok (FAddAddress f) \<longleftrightarrow> is_varint (adf_number f) \<and> ip_ok (adf_ip f)"
| "frame_ok (FReachOut f) \<longleftrightarrow> is_varint (adf_number f) \<and> ip_ok (adf_ip f)"
| "frame_ok (FPathAbandon f) \<longleftrightarrow> is_varint (pab_error_code f)"
| "frame_ok (FPathStatusAvailable f) \<longleftrightarrow> is_varint (pnm_number f)"
| "frame_ok (FPathStatusBackup f) \<longleftrightarrow> is_varint (pnm_number f)"
| "frame_ok (FPathCidsBlocked f) \<longleftrightarrow> is_varint (pnm_number f)"
| "frame_ok (FRemoveAddress n) \<longleftrightarrow> is_varint n"
| "frame_ok _ \<longleftrightarrow> True"

subsection \<open>Primitive values\<close>

named_theorems wire \<open>encoders produce these bytes, readers read them back\<close>

lemma get_Some: "d b = Some p \<Longrightarrow> get d b = Inr p"
  by (simp add: get_def)

lemma and_then_Inr: "g b = Inr (x, b') \<Longrightarrow> and_then g f b = f x b'"
  by (simp add: and_then_def)

lemmas reader_simps [wire] = get_Some and_then_Inr yield_def

lemma varint_wire [wire]:
  "is_varint x \<Longrightarrow> varint_encode x = Some (varint_bytes x)"
  "is_varint x \<Longrightarrow> write_var x = Some (varint_bytes x)"
  "is_varint x \<Longrightarrow> stream_id_encode x = Some (varint_bytes x)"
  "is_varint x \<Longrightarrow> error_code_encode x = Some (varint_bytes x)"
  "is_varint x \<Longrightarrow> varint_decode (varint_bytes x @ r) = Some (x, r)"
  "is_varint x \<Longrightarrow> get_var (varint_bytes x @ r) = Some (x, r)"
  "is_varint x \<Longrightarrow> stream_id_decode (varint_bytes x @ r) = Some (x, r)"
  "is_varint x \<Longrightarrow> error_code_decode (varint_bytes x @ r) = Some (x, r)"
  by (simp_all add: is_varint_def stream_id_encode_def error_code_encode_def get_var_def stream_id_decode_def
      error_code_decode_def varint_from_u64_def)

lemma small_varint: "unat x < 2 ^ 62 \<Longrightarrow> is_varint x"
  using less_power_unat [of 62 x] by (simp add: is_varint_def)

lemma is_varint_unat: "is_varint x \<Longrightarrow> unat x < 2 ^ 62"
  using less_power_unat [of 62 x] by (simp add: is_varint_def)

lemma path_id_wire [wire]:
  "path_id_encode p = Some (varint_bytes (ucast p))"
  "path_id_decode (varint_bytes (ucast p) @ r) = Some (p, r)"
proof -
  have "unat (ucast p :: u64) = unat p" by (simp add: unsigned_ucast_eq take_bit_eq_mod) (use unat_bound [of p] in simp)
  then have p: "unat (ucast p :: u64) < 2 ^ 32" using unat_bound [of p] by simp
  then have v: "is_varint (ucast p)" by (intro small_varint) simp
  then show "path_id_encode p = Some (varint_bytes (ucast p))" by (simp add: path_id_encode_def varint_wire)
  have "(ucast p :: u64) < 2 ^ 32" using p less_power_unat [of 32 "ucast p"] by simp
  moreover have "ucast (ucast p :: u64) = p"
    by (simp add: ucast_up_ucast_id is_up)
  ultimately show "path_id_decode (varint_bytes (ucast p) @ r) = Some (p, r)" by (simp add: path_id_decode_def varint_wire(5) [OF v])
qed

lemma data_wire [wire]:
  assumes "data_ok d"
  shows "write_var (of_nat (length d)) = Some (varint_bytes (of_nat (length d)))"
    and "take_len (varint_bytes (of_nat (length d)) @ d @ r) = Inr (d, r)"
proof -
  have u: "unat (of_nat (length d) :: u64) = length d" using assms by (simp add: data_ok_def unat_of_nat)
  then have v: "is_varint (of_nat (length d))" using assms by (intro small_varint) (simp add: data_ok_def)
  then show "write_var (of_nat (length d)) = Some (varint_bytes (of_nat (length d)))" by (simp add: wire)
  show "take_len (varint_bytes (of_nat (length d)) @ d @ r) = Inr (d, r)"
    by (simp add: take_len_def wire v u)
qed

subsection \<open>Frame types\<close>

lemma small_type: "type_ok t \<Longrightarrow> is_varint (frame_type_to_u64 t)"
proof -
  have "unat (ucast s :: u64) = unat s" for s :: u8
    by (simp add: unsigned_ucast_eq take_bit_eq_mod) (use unat_bound [of s] in simp)
  then have "is_varint (ucast s)" for s :: u8 using unat_bound [of s] by (intro small_varint) simp
  then show ?thesis by (cases t) (simp_all add: is_varint_def)
qed

lemma stream_types: "8 \<le> s \<Longrightarrow> s \<le> 15 \<Longrightarrow> s \<in> {8, 9, 10, 11, 12, 13, 14, 15 :: u8}"
proof -
  assume "8 \<le> s" "s \<le> 15"
  then have "unat s \<in> {8..15}" by (simp add: word_le_nat_alt)
  then have "unat s \<in> {8, 9, 10, 11, 12, 13, 14, 15}" by auto
  then show ?thesis by (auto simp: word_unat_eq_iff)
qed

lemma datagram_types: "48 \<le> s \<Longrightarrow> s \<le> 49 \<Longrightarrow> s \<in> {48, 49 :: u8}"
proof -
  assume "48 \<le> s" "s \<le> 49"
  then have "unat s \<in> {48..49}" by (simp add: word_le_nat_alt)
  then have "unat s \<in> {48, 49}" by auto
  then show ?thesis by (auto simp: word_unat_eq_iff)
qed

lemma types_read_back:
  "list_all (\<lambda>t. frame_type_try_from (frame_type_to_u64 t) = Inr t)
     (plain_types @ map FtStream [8, 9, 10, 11, 12, 13, 14, 15] @ map FtDatagram [48, 49])"
  by code_simp

lemma type_roundtrip: "type_ok t \<Longrightarrow> frame_type_try_from (frame_type_to_u64 t) = Inr t"
proof -
  assume "type_ok t"
  then have "t \<in> set plain_types \<or> t \<in> FtStream ` {8, 9, 10, 11, 12, 13, 14, 15} \<or> t \<in> FtDatagram ` {48, 49}"
    using stream_types datagram_types by (cases t) (simp_all add: plain_types_def type_ok_def)
  then have "t \<in> set (plain_types @ map FtStream [8, 9, 10, 11, 12, 13, 14, 15] @ map FtDatagram [48, 49])"
    by (simp only: set_append set_map list.set Un_iff)
  then show ?thesis using types_read_back by (simp only: list_all_iff)
qed

lemma type_wire [wire]:
  assumes "type_ok t"
  shows "frame_type_encode t = Some (varint_bytes (frame_type_to_u64 t))"
    and "t \<noteq> FtPadding \<Longrightarrow> maybe_frame_decode (varint_bytes (frame_type_to_u64 t) @ r) = Some (MfKnown t, r)"
  using small_type [OF assms] type_roundtrip [OF assms]
  by (simp_all add: frame_type_encode_def maybe_frame_decode_def varint_wire)

lemma padding_wire: "maybe_frame_decode (0 # r) = Some (MfNone, r)"
proof -
  have "varint_bytes 0 = [0]" by (simp add: varint_bytes_def varint_encode_def u8_encode_def put_be_def)
  then have "get_var (0 # r) = Some (0, r)" using varint_wire(6) [of 0 r] by (simp add: is_varint_def)
  moreover have "frame_type_try_from 0 = Inr FtPadding" using type_roundtrip [of FtPadding] by (simp add: type_ok_def)
  ultimately show ?thesis by (simp add: maybe_frame_decode_def)
qed

lemma maybe_frame_wire:
  assumes "maybe_frame_ok m"
  obtains b where "maybe_frame_encode m = Some b" and "\<And>r. maybe_frame_decode (b @ r) = Some (m, r)" and "maybe_frame_size m = Some (length b)"
proof (cases m)
  case MfNone
  have z: "is_varint 0" by (simp add: is_varint_def)
  moreover have "frame_type_try_from 0 = Inr FtPadding" using type_roundtrip [of FtPadding] by (simp add: type_ok_def)
  ultimately show ?thesis
    using that [of "varint_bytes 0"] varint_encodes(3) [of 0]
    by (simp add: MfNone maybe_frame_encode_def maybe_frame_decode_def maybe_frame_size_def varint_wire)
next
  case (MfUnknown v)
  with assms have "is_varint v" "frame_type_try_from v = Inl v" by (simp_all add: maybe_frame_ok_def)
  then show ?thesis
    using that [of "varint_bytes v"] varint_encodes(3) [of v]
    by (simp add: MfUnknown maybe_frame_encode_def maybe_frame_decode_def maybe_frame_size_def varint_wire is_varint_def)
next
  case (MfKnown t)
  with assms have "type_ok t" "t \<noteq> FtPadding" by (simp_all add: maybe_frame_ok_def)
  then show ?thesis
    using that [of "varint_bytes (frame_type_to_u64 t)"] varint_encodes(3) [of "frame_type_to_u64 t"] small_type [of t]
    by (simp add: MfKnown maybe_frame_encode_def maybe_frame_size_def frame_type_size_def type_wire is_varint_def)
qed

subsection \<open>The ranges of an acknowledgement\<close>

lemma gap_varint:
  assumes "a < b" and "unat b \<le> 2 ^ 62"
  shows "is_varint (b - a - 1)"
proof -
  have "unat (b - a) = unat b - unat a" using assms(1) by (intro unat_sub) simp
  moreover have "unat a < unat b" using assms(1) by (simp add: word_less_nat_alt)
  moreover have "unat (b - a - 1) = unat (b - a) - 1"
    using calculation by (subst unat_sub) (simp_all add: word_le_nat_alt)
  ultimately show ?thesis using assms(2) by (intro small_varint) simp
qed

lemma diff_le_self_word: "(a :: u64) \<le> b \<Longrightarrow> b - a \<le> b"
  by (simp add: word_le_nat_alt unat_sub)

lemma rng_eta [simp]: "rng (rg_start x) (rg_end x) = x"
  by simp

lemma insert_front:
  assumes "rg_start x < rg_end x" and "out \<noteq> [] \<longrightarrow> rg_end x < rg_start (hd out)"
  shows "snd (ars_insert x out) = x # out"
  using assms by (cases out) (auto simp: ars_insert_def rg_is_empty_def)

lemma read_one_block:
  assumes "a < b" and "unat b \<le> 2 ^ 62" and "out \<noteq> [] \<longrightarrow> b < rg_start (hd out)"
  shows "read_blocks n (b - 1) out (varint_bytes (b - a - 1) @ r) =
    (case n of
       0 \<Rightarrow> Inr (rng a b # out, r)
     | Suc n \<Rightarrow>
         (case get get_var r of
            Inl e \<Rightarrow> Inl e
          | Inr (gap, r) \<Rightarrow>
              if b - 1 < gap + 1 + (b - a) then Inl Malformed
              else read_blocks n (b - 1 - (gap + 1 + (b - a))) (rng a b # out) r))"
proof -
  have g: "get get_var (varint_bytes (b - a - 1) @ r) = Inr (b - a - 1, r)"
    using gap_varint [OF assms(1,2)] by (simp add: wire)
  have le: "\<not> b < b - a" using diff_le_self_word [of a b] assms(1) by (simp add: not_less)
  have pos: "0 < b - a" using assms(1) by (simp add: word_gt_0)
  have ins: "snd (ars_insert (rng a b) out) = rng a b # out" using assms(1,3) by (intro insert_front) simp_all
  show ?thesis by (subst read_blocks.simps) (simp add: g le pos ins Let_def split: nat.split sum.split)
qed

lemma ars_wf_suffix: "ars_wf (a @ b) \<Longrightarrow> ars_wf b"
  by (induction a) (auto simp: ars_wf_Cons)

text \<open>Blocks from high to low, below what was read before.\<close>

lemma read_blocks_encoded:
  assumes "ars_wf (rev (x # rest) @ out)" and "unat (rg_end x) \<le> 2 ^ 62"
  obtains body where "ack_blocks_encode (rg_start x) rest = Some body"
    and "\<And>r. read_blocks (length rest) (rg_end x - 1) out (varint_bytes (rg_end x - rg_start x - 1) @ body @ r) =
      Inr (rev (x # rest) @ out, r)"
  using assms
proof (induction rest arbitrary: x out thesis)
  case Nil
  then have "rg_start x < rg_end x" "out \<noteq> [] \<longrightarrow> rg_end x < rg_start (hd out)" by (simp_all add: ars_wf_Cons)
  then show ?case using Nil read_one_block [of "rg_start x" "rg_end x" out 0] by simp
next
  case (Cons y rest)
  have wf: "ars_wf (rev (y # rest) @ x # out)" using Cons.prems(2) by simp
  have mid: "ars_wf (y # x # out)" using ars_wf_suffix [of "rev rest" "y # x # out"] wf by simp
  then have x: "rg_start x < rg_end x" "out \<noteq> [] \<longrightarrow> rg_end x < rg_start (hd out)" and yx: "rg_end y < rg_start x"
    and y: "rg_start y < rg_end y"
    by (simp_all add: ars_wf_Cons)
  have xu: "unat (rg_start x) \<le> 2 ^ 62" using x(1) Cons.prems(3) by (simp add: word_less_nat_alt)
  moreover have "unat (rg_end y) \<le> 2 ^ 62" using yx xu by (simp add: word_less_nat_alt)
  ultimately obtain body where body: "ack_blocks_encode (rg_start y) rest = Some body"
    and read: "\<And>r. read_blocks (length rest) (rg_end y - 1) (x # out) (varint_bytes (rg_end y - rg_start y - 1) @ body @ r) =
      Inr (rev (y # rest) @ x # out, r)"
    using Cons.IH [of y "x # out"] wf by blast
  let ?gap = "rg_start x - rg_end y - 1"
  have gap: "is_varint ?gap" by (rule gap_varint [OF yx xu])
  have size: "is_varint (rg_end y - rg_start y - 1)" by (rule gap_varint [OF y]) fact
  have "?gap + 1 + (rg_end x - rg_start x) = rg_end x - rg_end y" by simp
  moreover have "\<not> rg_end x - 1 < rg_end x - rg_end y"
  proof -
    have "0 < unat (rg_end y)" "unat (rg_end y) < unat (rg_end x)"
      using y yx x(1) by (auto simp: word_less_nat_alt)
    then show ?thesis by (simp add: word_less_nat_alt unat_sub word_le_nat_alt)
  qed
  moreover have "rg_end x - 1 - (rg_end x - rg_end y) = rg_end y - 1" by simp
  ultimately have "read_blocks (length (y # rest)) (rg_end x - 1) out
      (varint_bytes (rg_end x - rg_start x - 1) @ (varint_bytes ?gap @ varint_bytes (rg_end y - rg_start y - 1) @ body) @ r) =
      Inr (rev (x # y # rest) @ out, r)" for r
    using read_one_block [OF x(1) Cons.prems(3) x(2), of "Suc (length rest)"] gap read by (simp add: wire)
  with Cons.prems(1) show ?case using body gap size by (simp add: wire)
qed

lemma ranges_count: "ars_wf (r # rs) \<Longrightarrow> unat (rg_start r) + length (r # rs) \<le> unat (rg_end (last (r # rs)))"
proof (induction rs arbitrary: r)
  case Nil
  then show ?case by (simp add: word_less_nat_alt)
next
  case (Cons r' rs)
  from Cons.prems have "unat (rg_start r) < unat (rg_start r')" and "ars_wf (r' # rs)" by (auto simp: word_less_nat_alt)
  with Cons.IH [of r'] show ?case by simp
qed

lemma ecn_wire:
  assumes "ecn_ok ecn"
  obtains b where "(case ecn of None \<Rightarrow> Some [] | Some x \<Rightarrow> ecn_counts_encode x) = Some b"
    and "\<And>r. ecn_read (ecn \<noteq> None) (b @ r) = Inr (ecn, r)"
proof (cases ecn)
  case None
  then show ?thesis using that [of "[]"] by (simp add: ecn_read_def yield_def)
next
  case (Some e)
  with assms show ?thesis
    using that [of "varint_bytes (ecn_ect0 e) @ varint_bytes (ecn_ect1 e) @ varint_bytes (ecn_ce e)"]
    by (simp add: ecn_ok_def ecn_counts_encode_def ecn_read_def ecn_counts_read_def wire)
qed

lemma ack_body_wire:
  assumes "ranges_ok rs largest" and "is_varint delay" and "ecn_ok ecn"
  obtains blk eb where "ack_body_encode delay rs ecn = Some (varint_bytes largest @ varint_bytes delay @ blk @ eb)"
    and "\<And>r. read_ack_blocks largest (blk @ r) = Inr (rs, r)"
    and "\<And>r. ecn_read (ecn \<noteq> None) (eb @ r) = Inr (ecn, r)"
proof -
  have wf: "ars_wf rs" and ne: "rs \<noteq> []" and big: "largest = rg_end (last rs) - 1" and lv: "is_varint largest"
    using assms(1) by (auto simp: ranges_ok_def ars_max_def split: if_splits)
  obtain x rest where rev: "rev rs = x # rest" using ne by (cases "rev rs") auto
  then have rs: "rs = rev rest @ [x]" by (metis rev.simps(2) rev_rev_ident)
  then have last: "last rs = x" by simp
  have xwf: "rg_start x < rg_end x" using wf ars_wf_suffix [of "rev rest" "[x]"] rs by simp
  then have pos: "0 < unat (rg_end x)" by (auto simp: word_less_nat_alt)
  have "unat (rg_end x - 1) = unat (rg_end x) - 1" using pos by (subst unat_sub) (simp_all add: word_le_nat_alt)
  with is_varint_unat [OF lv] big last have top: "unat (rg_end x) \<le> 2 ^ 62" by simp
  obtain body where body: "ack_blocks_encode (rg_start x) rest = Some body"
    and read: "\<And>r. read_blocks (length rest) (rg_end x - 1) ars_new (varint_bytes (rg_end x - rg_start x - 1) @ body @ r) = Inr (rs, r)"
    using read_blocks_encoded [of x rest ars_new] wf top rs by (auto simp: ars_new_def)
  obtain eb where eb: "(case ecn of None \<Rightarrow> Some [] | Some x \<Rightarrow> ecn_counts_encode x) = Some eb"
    and eread: "\<And>r. ecn_read (ecn \<noteq> None) (eb @ r) = Inr (ecn, r)"
    by (rule ecn_wire [OF assms(3)]) (rule that)
  have len: "length rs \<le> 2 ^ 62"
    using ranges_count [of "hd rs" "tl rs"] wf ne top last by simp
  have "of_nat (length rs) - 1 = (of_nat (length rest) :: u64)" by (simp add: rs)
  moreover have lr: "unat (of_nat (length rest) :: u64) = length rest" using len by (simp add: rs unat_of_nat)
  then have "is_varint (of_nat (length rest))" using len by (intro small_varint) (simp add: rs)
  moreover have "is_varint (rg_end x - rg_start x - 1)" by (rule gap_varint [OF xwf top])
  ultimately show ?thesis
    using that [of "varint_bytes (of_nat (length rest)) @ varint_bytes (rg_end x - rg_start x - 1) @ body" eb] lv assms(2) read lr eread
    by (simp add: ack_body_encode_def rev body eb big last wire ars_len_def read_ack_blocks_def)
qed

lemma ack_wire:
  assumes "frame_ok (FAck a)"
  obtains b where "ack_encode (ak_delay a) (ak_ranges a) (ak_ecn a) = Some (varint_bytes (frame_type_to_u64 (ack_type_of (ak_ecn a))) @ b)"
    and "\<And>r. frame_read (ack_type_of (ak_ecn a)) (b @ r) = Inr (FAck a, r)"
proof -
  have ok: "ranges_ok (ak_ranges a) (ak_largest a)" "is_varint (ak_delay a)" "ecn_ok (ak_ecn a)" using assms by simp_all
  obtain blk eb where enc: "ack_body_encode (ak_delay a) (ak_ranges a) (ak_ecn a) =
      Some (varint_bytes (ak_largest a) @ varint_bytes (ak_delay a) @ blk @ eb)"
    and blk: "\<And>r. read_ack_blocks (ak_largest a) (blk @ r) = Inr (ak_ranges a, r)"
    and eb: "\<And>r. ecn_read (ak_ecn a \<noteq> None) (eb @ r) = Inr (ak_ecn a, r)"
    by (rule ack_body_wire [OF ok]) (rule that)
  have lv: "is_varint (ak_largest a)" using ok(1) by (simp add: ranges_ok_def)
  have "ack_read (ak_ecn a \<noteq> None) ((varint_bytes (ak_largest a) @ varint_bytes (ak_delay a) @ blk @ eb) @ r) = Inr (a, r)" for r
    unfolding ack_read_def using lv ok(2) blk eb by (simp only: wire append_assoc) simp
  then have "frame_read (ack_type_of (ak_ecn a)) ((varint_bytes (ak_largest a) @ varint_bytes (ak_delay a) @ blk @ eb) @ r) =
      Inr (FAck a, r)" for r
    by (cases "ak_ecn a") (simp_all add: ack_type_of_def wire)
  then show thesis
    using that [of "varint_bytes (ak_largest a) @ varint_bytes (ak_delay a) @ blk @ eb"]
    by (simp add: ack_encode_def enc wire ack_type_of_def type_ok_def split: if_splits)
qed

lemma path_ack_wire:
  assumes "frame_ok (FPathAck a)"
  obtains b where "path_ack_encode (pak_path_id a) (pak_delay a) (pak_ranges a) (pak_ecn a) =
      Some (varint_bytes (frame_type_to_u64 (path_ack_type_of (pak_ecn a))) @ b)"
    and "\<And>r. frame_read (path_ack_type_of (pak_ecn a)) (b @ r) = Inr (FPathAck a, r)"
proof -
  have ok: "ranges_ok (pak_ranges a) (pak_largest a)" "is_varint (pak_delay a)" "ecn_ok (pak_ecn a)" using assms by simp_all
  obtain blk eb where enc: "ack_body_encode (pak_delay a) (pak_ranges a) (pak_ecn a) =
      Some (varint_bytes (pak_largest a) @ varint_bytes (pak_delay a) @ blk @ eb)"
    and blk: "\<And>r. read_ack_blocks (pak_largest a) (blk @ r) = Inr (pak_ranges a, r)"
    and eb: "\<And>r. ecn_read (pak_ecn a \<noteq> None) (eb @ r) = Inr (pak_ecn a, r)"
    by (rule ack_body_wire [OF ok]) (rule that)
  let ?b = "varint_bytes (ucast (pak_path_id a)) @ varint_bytes (pak_largest a) @ varint_bytes (pak_delay a) @ blk @ eb"
  have lv: "is_varint (pak_largest a)" using ok(1) by (simp add: ranges_ok_def)
  have "path_ack_read (pak_ecn a \<noteq> None) (?b @ r) = Inr (a, r)" for r
    unfolding path_ack_read_def using lv ok(2) blk eb by (simp only: wire append_assoc) simp
  then have "frame_read (path_ack_type_of (pak_ecn a)) (?b @ r) = Inr (FPathAck a, r)" for r
    by (cases "pak_ecn a") (simp_all add: path_ack_type_of_def wire)
  then show thesis
    using that [of ?b] by (simp add: path_ack_encode_def enc wire path_ack_type_of_def type_ok_def split: if_splits)
qed

subsection \<open>Every frame\<close>

text \<open>The type a frame has on the wire.\<close>

fun wire_type :: "bool \<Rightarrow> frame \<Rightarrow> frame_type" where
  "wire_type el (FStream f) =
     FtStream (stream_meta_type el \<lparr>smt_id = stf_id f,
       smt_offsets = rng (stf_offset f) (stf_offset f + of_nat (length (stf_data f))), smt_fin = stf_fin f\<rparr>)"
| "wire_type el (FDatagram d) = FtDatagram 49"
| "wire_type el (FClose (CloseApplication c)) = FtApplicationClose"
| "wire_type el f = frame_ty f"

text \<open>The space for a close frame is enough for its whole reason.\<close>

definition close_fits :: "nat \<Rightarrow> frame \<Rightarrow> bool" where
  "close_fits max_len f =
     (case f of
        FClose (CloseConnection c) \<Rightarrow>
          (case (maybe_frame_size (cc_frame_type c), varint_size (of_nat (length (cc_reason c)))) of
             (Some t, Some l) \<Rightarrow> 3 + t + l + length (cc_reason c) \<le> max_len | _ \<Rightarrow> False)
      | FClose (CloseApplication c) \<Rightarrow>
          (case varint_size (of_nat (length (apc_reason c))) of Some l \<Rightarrow> 3 + l + length (apc_reason c) \<le> max_len | None \<Rightarrow> False)
      | _ \<Rightarrow> True)"

definition carried :: "nat \<Rightarrow> bool \<Rightarrow> frame \<Rightarrow> bool" where
  "carried max_len el f \<longleftrightarrow>
     (\<exists>b. frame_encode max_len el f = Some (varint_bytes (frame_type_to_u64 (wire_type el f)) @ b) \<and>
        (\<forall>r. frame_read (wire_type el f) (b @ r) = Inr (f, r)))"

lemma stream_type_bits:
  "stream_off (stream_meta_type el m) \<longleftrightarrow> rg_start (smt_offsets m) \<noteq> 0"
  "stream_len (stream_meta_type el m) \<longleftrightarrow> el"
  "stream_fin (stream_meta_type el m) \<longleftrightarrow> smt_fin m"
  "type_ok (FtStream (stream_meta_type el m))"
  by (auto simp: stream_meta_type_def stream_off_def stream_len_def stream_fin_def type_ok_def)

lemma simple_frames_carried:
  "frame_ok (FResetStream f1) \<Longrightarrow> carried ml el (FResetStream f1)"
  "frame_ok (FStopSending f2) \<Longrightarrow> carried ml el (FStopSending f2)"
  "frame_ok (FCrypto f3) \<Longrightarrow> carried ml el (FCrypto f3)"
  "frame_ok (FNewToken t) \<Longrightarrow> carried ml el (FNewToken t)"
  "frame_ok (FMaxData x) \<Longrightarrow> carried ml el (FMaxData x)"
  "frame_ok (FMaxStreamData f4) \<Longrightarrow> carried ml el (FMaxStreamData f4)"
  "frame_ok (FDataBlocked x) \<Longrightarrow> carried ml el (FDataBlocked x)"
  "frame_ok (FStreamDataBlocked f5) \<Longrightarrow> carried ml el (FStreamDataBlocked f5)"
  "carried ml el (FPathChallenge y)" "carried ml el (FPathResponse y)"
  "frame_ok (FAckFrequency f6) \<Longrightarrow> carried ml el (FAckFrequency f6)"
  "carried ml el FPing" "carried ml el FImmediateAck" "carried ml el FHandshakeDone"
  by (simp_all add: carried_def wire type_ok_def reset_stream_encode_def stop_sending_encode_def crypto_encode_def put_slice_def
      new_token_encode_def max_data_encode_def max_stream_data_encode_def max_stream_data_decode_def data_blocked_encode_def
      stream_data_blocked_encode_def path_challenge_encode_def path_response_encode_def ack_frequency_encode_def
      ack_frequency_read_def)

lemma path_frames_carried:
  "frame_ok (FPathAbandon f1) \<Longrightarrow> carried ml el (FPathAbandon f1)"
  "frame_ok (FPathStatusAvailable f2) \<Longrightarrow> carried ml el (FPathStatusAvailable f2)"
  "frame_ok (FPathStatusBackup f2) \<Longrightarrow> carried ml el (FPathStatusBackup f2)"
  "frame_ok (FPathCidsBlocked f2) \<Longrightarrow> carried ml el (FPathCidsBlocked f2)"
  "carried ml el (FMaxPathId p)" "carried ml el (FPathsBlocked p)"
  "frame_ok (FRemoveAddress n) \<Longrightarrow> carried ml el (FRemoveAddress n)"
  by (simp_all add: carried_def wire type_ok_def path_abandon_encode_def path_abandon_decode_def path_status_available_encode_def
      path_status_backup_encode_def path_cids_blocked_encode_def path_number_decode_def max_path_id_encode_def
      paths_blocked_encode_def remove_address_encode_def)

lemma ip_wire [wire]:
  "ip_ok i \<Longrightarrow> \<exists>b. ip_encode i = Some b \<and> (\<forall>r. ip_read (is_ipv6 i) (b @ r) = Inr (i, r))"
  by (cases i) (simp_all add: ip_ok_def ip_encode_def ip_read_def is_ipv6_def wire)

lemma address_wire:
  assumes "is_varint (adf_number f)" "ip_ok (adf_ip f)"
  obtains b where "ip_encode (adf_ip f) = Some b"
    and "\<And>r. address_read (is_ipv6 (adf_ip f)) (varint_bytes (adf_number f) @ b @ u16_encode (adf_port f) @ r) = Inr (f, r)"
proof -
  obtain b where b: "ip_encode (adf_ip f) = Some b" "\<And>r. ip_read (is_ipv6 (adf_ip f)) (b @ r) = Inr (adf_ip f, r)"
    using ip_wire [OF assms(2)] by blast
  show thesis by (rule that [OF b(1)]) (simp add: address_read_def wire assms b(2))
qed

lemma address_frames_carried:
  "frame_ok (FObservedAddr f) \<Longrightarrow> carried ml el (FObservedAddr f)"
  "frame_ok (FAddAddress f) \<Longrightarrow> carried ml el (FAddAddress f)"
  "frame_ok (FReachOut f) \<Longrightarrow> carried ml el (FReachOut f)"
proof -
  assume "frame_ok (FObservedAddr f)"
  then show "carried ml el (FObservedAddr f)"
    by (auto elim!: address_wire simp: carried_def wire type_ok_def observed_addr_encode_def observed_addr_type_def)
next
  assume "frame_ok (FAddAddress f)"
  then show "carried ml el (FAddAddress f)"
    by (auto elim!: address_wire simp: carried_def wire type_ok_def add_address_encode_def add_address_type_def)
next
  assume "frame_ok (FReachOut f)"
  then show "carried ml el (FReachOut f)"
    by (auto elim!: address_wire simp: carried_def wire type_ok_def reach_out_encode_def reach_out_type_def)
qed

lemma limit_frames_carried:
  "frame_ok (FMaxStreams f1) \<Longrightarrow> carried ml el (FMaxStreams f1)"
  "frame_ok (FStreamsBlocked f2) \<Longrightarrow> carried ml el (FStreamsBlocked f2)"
  by (cases "mxs_dir f1"; simp add: carried_def wire type_ok_def max_streams_encode_def max_streams_type_def)
    (cases "stb_dir f2"; simp add: carried_def wire type_ok_def streams_blocked_encode_def streams_blocked_type_def)

lemma cid_frames_carried:
  "frame_ok (FRetireConnectionId f1) \<Longrightarrow> carried ml el (FRetireConnectionId f1)"
  "frame_ok (FNewConnectionId f2) \<Longrightarrow> carried ml el (FNewConnectionId f2)"
proof -
  assume "frame_ok (FRetireConnectionId f1)"
  then show "carried ml el (FRetireConnectionId f1)"
    by (cases "rci_path_id f1") (simp_all add: carried_def wire type_ok_def retire_connection_id_encode_def retire_type_def
        retire_connection_id_decode_def path_read_def)
next
  assume ok: "frame_ok (FNewConnectionId f2)"
  then have u: "unat (of_nat (length (nci_id f2)) :: u8) = length (nci_id f2)" by (simp add: MAX_CID_SIZE_def unat_of_nat)
  moreover have "length (nci_id f2) \<noteq> 0" using ok by simp
  ultimately have nz: "(of_nat (length (nci_id f2)) :: u8) \<noteq> 0" by (metis unat_0)
  have nl: "\<not> nci_sequence f2 < nci_retire_prior_to f2" using ok by (simp add: not_less)
  have rv: "is_varint (nci_retire_prior_to f2)" using ok by (auto simp: is_varint_def)
  show "carried ml el (FNewConnectionId f2)"
    using ok rv by (cases "nci_path_id f2") (simp_all add: carried_def wire type_ok_def new_connection_id_encode_def new_cid_type_def
        new_connection_id_read_def path_read_def put_slice_def u nz nl)
qed

lemma datagram_carried: "frame_ok (FDatagram d) \<Longrightarrow> carried ml el (FDatagram d)"
  by (simp add: carried_def wire type_ok_def datagram_encode_def put_slice_def datagram_len_def)

lemma ack_frames_carried:
  "frame_ok (FAck a) \<Longrightarrow> carried ml el (FAck a)" "frame_ok (FPathAck p) \<Longrightarrow> carried ml el (FPathAck p)"
proof -
  assume "frame_ok (FAck a)"
  then show "carried ml el (FAck a)" by (rule ack_wire) (auto simp: carried_def)
next
  assume "frame_ok (FPathAck p)"
  then show "carried ml el (FPathAck p)" by (rule path_ack_wire) (auto simp: carried_def)
qed

lemma close_space:
  "3 + t + l + n \<le> ml \<Longrightarrow> min n (usize_sub (usize_sub (usize_sub ml 3) t) l) = n"
  "3 + l + n \<le> ml \<Longrightarrow> min n (usize_sub (usize_sub ml 3) l) = n"
  by (auto simp: usize_sub_def)

lemma close_carried:
  assumes "frame_ok (FClose c)" "close_fits ml (FClose c)"
  shows "carried ml el (FClose c)"
proof (cases c)
  case (CloseConnection x)
  have "maybe_frame_ok (cc_frame_type x)" using assms CloseConnection by simp
  then obtain b where "maybe_frame_encode (cc_frame_type x) = Some b" "\<And>r. maybe_frame_decode (b @ r) = Some (cc_frame_type x, r)"
    "maybe_frame_size (cc_frame_type x) = Some (length b)"
    by (rule maybe_frame_wire) (rule that)
  then show ?thesis
    using assms unfolding CloseConnection by (auto simp: carried_def close_fits_def wire type_ok_def close_encode_def
        connection_close_encode_def close_space close_read_def put_slice_def Let_def split: option.splits)
next
  case (CloseApplication x)
  show ?thesis
    using assms unfolding CloseApplication by (auto simp: carried_def close_fits_def wire type_ok_def close_encode_def application_close_encode_def
        close_space put_slice_def Let_def split: option.splits)
qed

lemma stream_wire:
  assumes "frame_ok (FStream f)" and r: "el \<or> r = []"
  obtains b where "frame_encode ml el (FStream f) = Some (varint_bytes (frame_type_to_u64 (wire_type el (FStream f))) @ b)"
    and "frame_read (wire_type el (FStream f)) (b @ r) = Inr (FStream f, r)"
proof -
  let ?m = "\<lparr>smt_id = stf_id f, smt_offsets = rng (stf_offset f) (stf_offset f + of_nat (length (stf_data f))), smt_fin = stf_fin f\<rparr>"
  let ?t = "stream_meta_type el ?m"
  let ?b = "varint_bytes (stf_id f) @ (if stf_offset f \<noteq> 0 then varint_bytes (stf_offset f) else []) @
    (if el then varint_bytes (of_nat (length (stf_data f))) else []) @ stf_data f"
  have tv: "is_varint (ucast ?t)" using small_type [OF stream_type_bits(4), of el ?m] by simp
  have "frame_encode ml el (FStream f) = Some (varint_bytes (frame_type_to_u64 (FtStream ?t)) @ ?b)"
    using assms by (simp add: stream_encode_def stream_meta_encode_def tv wire put_slice_def)
  moreover have "stream_read ?t (?b @ r) = Inr (f, r)"
    using assms by (auto simp: stream_read_def wire stream_type_bits take_remaining_def)
  then have "frame_read (FtStream ?t) (?b @ r) = Inr (FStream f, r)" by (simp add: wire)
  ultimately show thesis using that [of ?b] by simp
qed

lemma stream_carried: "frame_ok (FStream f) \<Longrightarrow> carried ml True (FStream f)"
  unfolding carried_def by (metis stream_wire option.inject same_append_eq)

theorem frame_carried:
  assumes "frame_ok f" "close_fits ml f" "f \<noteq> FPadding"
  shows "carried ml True f"
  using assms
  by (cases f) (blast, simp_all only: simple_frames_carried path_frames_carried address_frames_carried limit_frames_carried
      cid_frames_carried datagram_carried ack_frames_carried close_carried stream_carried)

subsection \<open>The iterator\<close>

lemma maybe_frame_decode_shorter: "maybe_frame_decode b = Some (m, b') \<Longrightarrow> length b' < length b"
  by (auto simp: maybe_frame_decode_def get_var_def split: option.splits if_splits sum.splits dest!: varint_decode_less)

lemma try_next_encoded:
  assumes "frame_encode ml el f = Some (varint_bytes (frame_type_to_u64 (wire_type el f)) @ b)"
    and "frame_read (wire_type el f) (b @ r) = Inr (f, r)" and "type_ok (wire_type el f)" "wire_type el f \<noteq> FtPadding"
  shows "try_next \<lparr>it_bytes = the (frame_encode ml el f) @ r, it_last_ty = t\<rparr> =
      (Inr f, \<lparr>it_bytes = r, it_last_ty = MfKnown (wire_type el f)\<rparr>)"
  using assms by (simp add: try_next_def wire)

subsection \<open>What is read from any bytes\<close>

definition reads :: "nat \<Rightarrow> 'a reader \<Rightarrow> ('a \<Rightarrow> bool) \<Rightarrow> bool" where
  "reads N g P \<longleftrightarrow> (\<forall>b x b'. length b < N \<longrightarrow> g b = Inr (x, b') \<longrightarrow> length b' \<le> length b \<and> P x)"

named_theorems readers \<open>what the readers return\<close>

lemma reads_and_then [readers]:
  assumes "reads N g P" and "\<And>x. P x \<Longrightarrow> reads N (f x) Q"
  shows "reads N (and_then g f) Q"
  unfolding reads_def
proof (intro allI impI)
  fix b y b'
  assume b: "length b < N" and "and_then g f b = Inr (y, b')"
  then obtain x c where x: "g b = Inr (x, c)" "f x c = Inr (y, b')" by (auto simp: and_then_def split: sum.splits)
  then have "length c \<le> length b" "P x" using assms(1) b unfolding reads_def by blast+
  moreover from this have "length b' \<le> length c \<and> Q y" using assms(2) [of x] b x(2) unfolding reads_def by (meson le_less_trans)
  ultimately show "length b' \<le> length b \<and> Q y" by simp
qed

lemma reads_yield [readers]: "P x \<Longrightarrow> reads N (yield x) P"
  by (simp add: reads_def yield_def)

lemma reads_if [readers]: "(c \<Longrightarrow> reads N g P) \<Longrightarrow> (\<not> c \<Longrightarrow> reads N h P) \<Longrightarrow> reads N (if c then g else h) P"
  by simp

lemma reads_varint [readers]:
  "reads N (get varint_decode) is_varint" "reads N (get get_var) is_varint" "reads N (get stream_id_decode) is_varint"
  "reads N (get error_code_decode) is_varint"
  by (auto simp: reads_def get_def get_var_def stream_id_decode_def error_code_decode_def is_varint_def split: option.splits
      dest: varint_decode_less varint_decode_ok)

lemma reads_path_id [readers]: "reads N (get path_id_decode) (\<lambda>_. True)"
  by (auto simp: reads_def get_def path_id_decode_def split: option.splits if_splits dest: varint_decode_less)

lemma reads_fixed [readers]:
  "reads N (get u8_decode) (\<lambda>_. True)" "reads N (get u16_decode) (\<lambda>_. True)" "reads N (get u64_decode) (\<lambda>_. True)"
  "reads N (get (copy_to_slice n)) (\<lambda>x. length x = n)" "reads N (get ipv4_decode) (\<lambda>x. length x = 4)"
  "reads N (get ipv6_decode) (\<lambda>x. length x = 16)"
  by (auto simp: reads_def get_def u8_decode_def u16_decode_def u64_decode_def copy_to_slice_def ipv4_decode_def ipv6_decode_def
      split: option.splits if_splits)

lemma reads_data [readers]: "reads N take_len data_ok"
  unfolding take_len_def
proof (rule reads_and_then [OF reads_varint(2)])
  fix x
  assume "is_varint x"
  then have "unat x < 2 ^ 62" by (rule is_varint_unat)
  then show "reads N (\<lambda>b. if length b < unat x then Inl UnexpectedEnd else Inr (take (unat x) b, drop (unat x) b)) data_ok"
    by (auto simp: reads_def data_ok_def split: if_splits)
qed

lemma reads_rest: "reads N (if c then take_len else take_remaining) (\<lambda>d. N \<le> 2 ^ 62 \<longrightarrow> data_ok d)"
  using reads_data [of N] by (auto simp: reads_def take_remaining_def data_ok_def)

lemma small_ucast: "unat (v :: u64) < 256 \<Longrightarrow> unat (ucast v :: u8) = unat v"
  by (simp add: unsigned_ucast_eq take_bit_eq_mod)

lemma plain_types_ok: "list_all type_ok plain_types"
  by (simp add: plain_types_def type_ok_def)

lemma try_from_sound:
  "frame_type_try_from v = Inr t \<Longrightarrow> type_ok t" "frame_type_try_from v = Inl w \<Longrightarrow> w = v"
proof -
  have plain: "frame_type_from_u64 v = Some t \<Longrightarrow> type_ok t" for t
    using plain_types_ok by (auto simp: frame_type_from_u64_def list_all_iff dest!: map_of_SomeD)
  have d: "48 \<le> (ucast v :: u8) \<and> (ucast v :: u8) \<le> 49" if "48 \<le> v" "v \<le> 49"
    using that small_ucast [of v] by (simp add: word_le_nat_alt)
  have st: "8 \<le> (ucast v :: u8) \<and> (ucast v :: u8) \<le> 15" if "8 \<le> v" "v \<le> 15"
    using that small_ucast [of v] by (simp add: word_le_nat_alt)
  show "frame_type_try_from v = Inr t \<Longrightarrow> type_ok t"
    unfolding frame_type_try_from_def using plain d st
    by (cases "frame_type_from_u64 v") (auto simp: type_ok_def split: if_splits)
  show "frame_type_try_from v = Inl w \<Longrightarrow> w = v"
    by (cases "frame_type_from_u64 v") (auto simp: frame_type_try_from_def split: if_splits)
qed

lemma reads_maybe_frame [readers]: "reads N (get maybe_frame_decode) maybe_frame_ok"
proof -
  have "length b' \<le> length b \<and> maybe_frame_ok m" if "maybe_frame_decode b = Some (m, b')" for b m b'
  proof -
    obtain v where v: "get_var b = Some (v, b')"
      "m = (case frame_type_try_from v of Inl x \<Rightarrow> MfUnknown x | Inr t \<Rightarrow> if t = FtPadding then MfNone else MfKnown t)"
      using \<open>maybe_frame_decode b = Some (m, b')\<close>
      by (auto simp: maybe_frame_decode_def split: option.splits sum.splits if_splits)
    have "is_varint v" using v(1) varint_decode_ok [of b v] by (auto simp: get_var_def is_varint_def split: option.splits)
    then have "maybe_frame_ok m"
      using v(2) try_from_sound [of v] by (auto simp: maybe_frame_ok_def split: sum.splits)
    then show ?thesis using maybe_frame_decode_shorter [OF \<open>maybe_frame_decode b = Some (m, b')\<close>] by simp
  qed
  then show ?thesis by (auto simp: reads_def get_def split: option.splits)
qed

lemma get_varD:
  assumes "get get_var b = Inr (v, c)"
  shows "unat v < 2 ^ 62" "length c < length b"
  using assms varint_decode_less [of b v c] varint_decode_ok [of b v c] less_power_unat [of 62 v]
  by (auto simp: get_def get_var_def split: option.splits)

lemma unat_Suc: "unat (x :: u64) < 2 ^ 63 \<Longrightarrow> unat (x + 1) = Suc (unat x)"
  by (simp add: unat_word_ariths)

lemma read_block_step:
  assumes "read_blocks n largest out b = Inr (rs, b')" and "unat largest < 2 ^ 62" and "ars_wf out"
    and "out \<noteq> [] \<longrightarrow> largest + 1 < rg_start (hd out)"
  obtains v c where "get get_var b = Inr (v, c)" "unat v \<le> unat largest" "ars_wf (rng (largest - v) (largest + 1) # out)"
    and "(case n of
        0 \<Rightarrow> Inr (rng (largest - v) (largest + 1) # out, c)
      | Suc n \<Rightarrow>
          (case get get_var c of
             Inl e \<Rightarrow> Inl e
           | Inr (gap, d) \<Rightarrow>
               if largest < gap + 1 + (v + 1) then Inl Malformed
               else read_blocks n (largest - (gap + 1 + (v + 1))) (rng (largest - v) (largest + 1) # out) d)) = Inr (rs, b')"
proof -
  obtain v c where g: "get get_var b = Inr (v, c)"
    using assms(1) by (subst (asm) read_blocks.simps) (auto split: sum.splits)
  note v = get_varD(1) [OF g]
  have le: "\<not> largest + 1 < v + 1" using assms(1) by (subst (asm) read_blocks.simps) (auto simp: g Let_def split: if_splits)
  have sv: "unat (v + 1) = Suc (unat v)" using v by (intro unat_Suc) simp
  have sl: "unat (largest + 1) = Suc (unat largest)" using assms(2) by (intro unat_Suc) simp
  have vl: "unat v \<le> unat largest" using le sv sl by (simp add: word_less_nat_alt)
  have pos: "0 < v + 1" using sv by (simp add: word_less_nat_alt)
  have d: "largest + 1 - (v + 1) = largest - v" by simp
  have "unat (largest - v) = unat largest - unat v" using vl by (simp add: unat_sub word_le_nat_alt)
  then have lt: "largest - v < largest + 1" using sl by (simp add: word_less_nat_alt)
  have ins: "snd (ars_insert (rng (largest - v) (largest + 1)) out) = rng (largest - v) (largest + 1) # out"
    using lt assms(4) by (intro insert_front) simp_all
  have wf: "ars_wf (rng (largest - v) (largest + 1) # out)" using lt assms(3,4) by (simp add: ars_wf_Cons)
  show thesis
    using assms(1) by (intro that [OF g vl wf], subst (asm) read_blocks.simps)
      (auto simp add: g le pos d ins Let_def split: nat.splits sum.splits)
qed

lemma read_blocks_sound:
  assumes "read_blocks n largest out b = Inr (rs, b')" and "unat largest < 2 ^ 62" and "ars_wf out"
    and "out \<noteq> [] \<longrightarrow> largest + 1 < rg_start (hd out)"
  shows "ars_wf rs \<and> length b' \<le> length b \<and> (\<exists>p. rs = p @ out \<and> p \<noteq> [] \<and> rg_end (last p) = largest + 1)"
  using assms
proof (induction n arbitrary: largest out b)
  case 0
  from 0 obtain v c where "get get_var b = Inr (v, c)" "ars_wf (rng (largest - v) (largest + 1) # out)"
    "rng (largest - v) (largest + 1) # out = rs" "c = b'"
    by (rule read_block_step) auto
  then show ?case using get_varD(2) [of b v c] by (intro conjI exI [of _ "[rng (largest - v) (largest + 1)]"]) auto
next
  case (Suc n)
  from Suc.prems obtain v c where g: "get get_var b = Inr (v, c)" and vl: "unat v \<le> unat largest"
    and wf: "ars_wf (rng (largest - v) (largest + 1) # out)"
    and step: "(case get get_var c of
             Inl e \<Rightarrow> Inl e
           | Inr (gap, d) \<Rightarrow>
               if largest < gap + 1 + (v + 1) then Inl Malformed
               else read_blocks n (largest - (gap + 1 + (v + 1))) (rng (largest - v) (largest + 1) # out) d) = Inr (rs, b')"
    by (rule read_block_step) (simp only: nat.case)
  from step obtain gap d where g': "get get_var c = Inr (gap, d)" and le: "\<not> largest < gap + 1 + (v + 1)"
    and rest: "read_blocks n (largest - (gap + 1 + (v + 1))) (rng (largest - v) (largest + 1) # out) d = Inr (rs, b')"
    by (auto split: sum.splits if_splits)
  let ?l = "largest - (gap + 1 + (v + 1))"
  have btb: "unat (gap + 1 + (v + 1)) = unat gap + unat v + 2"
    using get_varD(1) [OF g] get_varD(1) [OF g'] by (simp add: unat_word_ariths)
  then have l: "unat ?l = unat largest - (unat gap + unat v + 2)" "unat gap + unat v + 2 \<le> unat largest"
    using le by (simp_all add: unat_sub word_le_nat_alt word_less_nat_alt)
  have "unat (largest - v) = unat largest - unat v" using vl by (simp add: unat_sub word_le_nat_alt)
  moreover have "unat (?l + 1) = Suc (unat ?l)" using l Suc.prems(2) by (intro unat_Suc) simp
  ultimately have "?l + 1 < largest - v" using l by (simp add: word_less_nat_alt)
  then have "ars_wf rs \<and> length b' \<le> length d \<and> (\<exists>p. rs = p @ rng (largest - v) (largest + 1) # out \<and> p \<noteq> [] \<and> rg_end (last p) = ?l + 1)"
    using l Suc.prems(2) wf by (intro Suc.IH [OF rest]) simp_all
  then obtain p where "ars_wf rs" "length b' \<le> length d" "rs = (p @ [rng (largest - v) (largest + 1)]) @ out" by auto
  then show ?case using get_varD(2) [OF g] get_varD(2) [OF g'] by (intro conjI exI [of _ "p @ [rng (largest - v) (largest + 1)]"]) auto
qed

lemma reads_ranges [readers]:
  assumes "is_varint largest"
  shows "reads N (read_ack_blocks largest) (\<lambda>rs. ranges_ok rs largest)"
  unfolding read_ack_blocks_def
proof (rule reads_and_then [OF reads_varint(2)])
  fix n :: u64
  note l = is_varint_unat [OF assms]
  show "reads N (read_blocks (unat n) largest ars_new) (\<lambda>rs. ranges_ok rs largest)"
    unfolding reads_def using read_blocks_sound [OF _ l, of "unat n" ars_new] assms
    by (fastforce simp: ranges_ok_def ars_max_def ars_new_def)
qed

lemma reads_ecn_counts [readers]: "reads N ecn_counts_read (\<lambda>c. ecn_ok (Some c))"
  unfolding ecn_counts_read_def by (rule readers | simp add: ecn_ok_def)+

lemma reads_ecn [readers]: "reads N (ecn_read e) ecn_ok"
  unfolding ecn_read_def by (rule readers | simp add: ecn_ok_def)+

lemma reads_ip [readers]: "reads N (ip_read v6) ip_ok"
  unfolding ip_read_def by (rule readers | simp add: ip_ok_def)+

lemma reads_address [readers]: "reads N (address_read v6) (\<lambda>f. is_varint (adf_number f) \<and> ip_ok (adf_ip f))"
  unfolding address_read_def by (rule readers | simp)+

lemma reads_ack [readers]:
  "reads N (ack_read e) (\<lambda>a. frame_ok (FAck a))" "reads N (path_ack_read e) (\<lambda>a. frame_ok (FPathAck a))"
  unfolding ack_read_def path_ack_read_def by (rule readers | simp)+

lemma reads_path [readers]: "reads N (path_read rp) (\<lambda>_. True)"
  unfolding path_read_def by (rule reads_if; (rule readers | simp)+)

lemma reads_retire_cid [readers]: "reads N (retire_connection_id_decode rp) (\<lambda>f. frame_ok (FRetireConnectionId f))"
  unfolding retire_connection_id_decode_def by (rule readers | simp)+

lemma reads_guard: "(\<not> c \<Longrightarrow> reads N g P) \<Longrightarrow> reads N (\<lambda>b. if c then Inl e else g b) P"
  by (simp add: reads_def)

lemma reads_new_cid [readers]: "reads N (new_connection_id_read rp) (\<lambda>f. frame_ok (FNewConnectionId f))"
  unfolding new_connection_id_read_def
  by (rule readers reads_guard | simp)+

lemma reads_stream [readers]: "reads N (stream_read s) (\<lambda>f. N \<le> 2 ^ 62 \<longrightarrow> frame_ok (FStream f))"
  unfolding stream_read_def by (rule reads_rest readers | simp add: is_varint_def)+

lemma reads_simple [readers]:
  "reads N close_read (\<lambda>c. frame_ok (FClose c))"
  "reads N ack_frequency_read (\<lambda>f. frame_ok (FAckFrequency f))"
  "reads N path_number_decode (\<lambda>f. is_varint (pnm_number f))"
  "reads N path_abandon_decode (\<lambda>f. frame_ok (FPathAbandon f))"
  "reads N max_stream_data_decode (\<lambda>f. frame_ok (FMaxStreamData f))"
  unfolding close_read_def ack_frequency_read_def path_number_decode_def path_abandon_decode_def max_stream_data_decode_def
  by (rule readers | simp)+

theorem reads_frame: "reads N (frame_read t) (\<lambda>f. N \<le> 2 ^ 62 \<longrightarrow> frame_ok f)"
  by (cases t; simp only: frame_read.simps; (rule reads_rest readers | simp)+)

subsection \<open>Whole payloads\<close>

lemma frame_read_shorter: "frame_read t b = Inr (f, b') \<Longrightarrow> length b' \<le> length b"
  using reads_frame [of "Suc (length b)" t] unfolding reads_def by blast

lemma try_next_shorter: "try_next it = (Inr f, it') \<Longrightarrow> length (it_bytes it') < length (it_bytes it)"
  by (auto simp: try_next_def get_def Let_def yield_def split: option.splits sum.splits maybe_frame.splits
      dest!: maybe_frame_decode_shorter frame_read_shorter)

lemma iter_next_shorter: "iter_next it = (Some x, it') \<Longrightarrow> length (it_bytes it') < length (it_bytes it)"
  by (auto simp: iter_next_def split: if_splits prod.splits sum.splits dest: try_next_shorter)

text \<open>The loop over the iterator: everything it returns until it returns nothing.\<close>

function read_frames :: "frame_iter \<Rightarrow> (invalid_frame + frame) list" where
  "read_frames it = (case iter_next it of (None, _) \<Rightarrow> [] | (Some x, it') \<Rightarrow> x # read_frames it')"
  by pat_completeness auto

termination
  by (relation "measure (\<lambda>it. length (it_bytes it))") (auto dest: iter_next_shorter [OF sym])

declare read_frames.simps [simp del]

text \<open>The payload with the given frames, the last one perhaps a stream frame without a length.\<close>

definition payload_encode :: "nat \<Rightarrow> frame list \<Rightarrow> stream_frame option \<Rightarrow> bytes option" where
  "payload_encode max_len fs tail =
     cat (map (frame_encode max_len True) fs @ (case tail of None \<Rightarrow> [] | Some s \<Rightarrow> [frame_encode max_len False (FStream s)]))"

lemma wire_type_ok: "type_ok (wire_type el f)" "f \<noteq> FPadding \<Longrightarrow> wire_type el f \<noteq> FtPadding"
  using stream_type_bits(4)
  by (cases "(el, f)" rule: wire_type.cases; simp add: type_ok_def max_streams_type_def streams_blocked_type_def retire_type_def
      ack_type_of_def path_ack_type_of_def new_cid_type_def observed_addr_type_def add_address_type_def reach_out_type_def
      split: dir.split; fail)+

lemma read_frames_end: "read_frames \<lparr>it_bytes = [], it_last_ty = t\<rparr> = []"
  by (simp add: read_frames.simps iter_next_def)

lemma read_frames_step:
  assumes "try_next \<lparr>it_bytes = b, it_last_ty = t\<rparr> = (Inr f, it')"
  shows "read_frames \<lparr>it_bytes = b, it_last_ty = t\<rparr> = Inr f # read_frames it'"
proof -
  have "b \<noteq> []" using try_next_shorter [OF assms] by auto
  then show ?thesis by (subst read_frames.simps) (simp add: iter_next_def assms)
qed

lemma padding_next:
  "try_next \<lparr>it_bytes = 0 # r, it_last_ty = t\<rparr> = (Inr FPadding, \<lparr>it_bytes = r, it_last_ty = MfNone\<rparr>)"
  by (simp add: try_next_def get_def padding_wire yield_def)

lemma carried_next:
  assumes "frame_ok f" "close_fits ml f"
  obtains b t' where "frame_encode ml True f = Some b"
    and "\<And>r t. try_next \<lparr>it_bytes = b @ r, it_last_ty = t\<rparr> = (Inr f, \<lparr>it_bytes = r, it_last_ty = t'\<rparr>)"
proof (cases "f = FPadding")
  case True
  show ?thesis by (rule that [of "[0]" MfNone]) (simp_all add: True padding_next)
next
  case False
  then obtain b where b: "frame_encode ml True f = Some (varint_bytes (frame_type_to_u64 (wire_type True f)) @ b)"
      "\<And>r. frame_read (wire_type True f) (b @ r) = Inr (f, r)"
    using frame_carried [OF assms] by (auto simp: carried_def)
  show ?thesis
    using try_next_encoded [OF b wire_type_ok(1) wire_type_ok(2) [OF False]] b(1) by (intro that [OF b(1)]) simp
qed

lemma tail_next:
  assumes "frame_ok (FStream s)"
  obtains b t' where "frame_encode ml False (FStream s) = Some b"
    and "\<And>t. try_next \<lparr>it_bytes = b, it_last_ty = t\<rparr> = (Inr (FStream s), \<lparr>it_bytes = [], it_last_ty = t'\<rparr>)"
proof -
  obtain b where b: "frame_encode ml False (FStream s) = Some (varint_bytes (frame_type_to_u64 (wire_type False (FStream s))) @ b)"
      "frame_read (wire_type False (FStream s)) (b @ []) = Inr (FStream s, [])"
    using stream_wire [OF assms, of False "[]"] by blast
  have "wire_type False (FStream s) \<noteq> FtPadding" by (rule wire_type_ok(2)) simp
  then show ?thesis using try_next_encoded [OF b wire_type_ok(1)] b(1) by (intro that [OF b(1)]) simp
qed

lemma payload_read:
  assumes "list_all (\<lambda>f. frame_ok f \<and> close_fits ml f) fs" and "\<And>s. tail = Some s \<Longrightarrow> frame_ok (FStream s)"
  shows "\<exists>p. payload_encode ml fs tail = Some p \<and>
    (\<forall>t. read_frames \<lparr>it_bytes = p, it_last_ty = t\<rparr> = map Inr (fs @ (case tail of None \<Rightarrow> [] | Some s \<Rightarrow> [FStream s])))"
  using assms(1)
proof (induction fs)
  case Nil
  show ?case
  proof (cases tail)
    case None
    then show ?thesis by (simp add: payload_encode_def read_frames_end)
  next
    case (Some s)
    obtain b t' where "frame_encode ml False (FStream s) = Some b"
      "\<And>t. try_next \<lparr>it_bytes = b, it_last_ty = t\<rparr> = (Inr (FStream s), \<lparr>it_bytes = [], it_last_ty = t'\<rparr>)"
      by (rule tail_next [OF assms(2) [OF Some]]) (rule that)
    then show ?thesis by (simp add: Some payload_encode_def read_frames_step read_frames_end)
  qed
next
  case (Cons f fs)
  then obtain p where p: "payload_encode ml fs tail = Some p"
    "\<And>t. read_frames \<lparr>it_bytes = p, it_last_ty = t\<rparr> = map Inr (fs @ (case tail of None \<Rightarrow> [] | Some s \<Rightarrow> [FStream s]))"
    by auto
  obtain b t' where b: "frame_encode ml True f = Some b"
    "\<And>r t. try_next \<lparr>it_bytes = b @ r, it_last_ty = t\<rparr> = (Inr f, \<lparr>it_bytes = r, it_last_ty = t'\<rparr>)"
    by (rule carried_next [of f ml]) (use Cons.prems in \<open>auto intro: that\<close>)
  have "payload_encode ml (f # fs) tail = Some (b @ p)" using p(1) b(1) by (simp add: payload_encode_def)
  then show ?case using p(2) by (simp add: read_frames_step [OF b(2)])
qed

lemma payload_nonempty:
  assumes "payload_encode ml fs tail = Some p" "read_frames \<lparr>it_bytes = p, it_last_ty = MfNone\<rparr> \<noteq> []"
  shows "iter_new p = Some \<lparr>it_bytes = p, it_last_ty = MfNone\<rparr>"
  using assms(2) by (auto simp: iter_new_def read_frames_end)

text \<open>
  C11. What one side writes the other reads: for any frames whose fields are in range, close frames whose reason
  fits, and perhaps a last stream frame without a length, the encoders return a payload, and the iterator over the payload
  returns exactly these frames in their order and no error. All frames of the protocol are covered:
  acknowledgements with their ranges and counters, stream and crypto data, limits, connection identifiers, closes,
  datagrams, and the path and address extensions.
\<close>

theorem payload_roundtrip:
  assumes "list_all (\<lambda>f. frame_ok f \<and> close_fits ml f) fs" and "tail = None \<or> (\<exists>s. tail = Some s \<and> frame_ok (FStream s))"
    and "fs \<noteq> [] \<or> tail \<noteq> None"
  shows "\<exists>p it. payload_encode ml fs tail = Some p \<and> iter_new p = Some it \<and>
    read_frames it = map Inr (fs @ (case tail of None \<Rightarrow> [] | Some s \<Rightarrow> [FStream s]))"
proof -
  obtain p where p: "payload_encode ml fs tail = Some p"
    "read_frames \<lparr>it_bytes = p, it_last_ty = MfNone\<rparr> = map Inr (fs @ (case tail of None \<Rightarrow> [] | Some s \<Rightarrow> [FStream s]))"
    using payload_read [OF assms(1), of tail] assms(2) by blast
  moreover have "read_frames \<lparr>it_bytes = p, it_last_ty = MfNone\<rparr> \<noteq> []" using p(2) assms(3) by (auto split: option.splits)
  ultimately show ?thesis using payload_nonempty by blast
qed

definition sample_frames :: "frame list" where
  "sample_frames =
     [FAck \<lparr>ak_largest = 9, ak_delay = 300, ak_ranges = [rng 1 4, rng 6 10], ak_ecn = None\<rparr>, FPing,
      FCrypto \<lparr>cry_offset = 16384, cry_data = [1, 2, 3]\<rparr>, FMaxStreams \<lparr>mxs_dir = Uni, mxs_count = 100\<rparr>]"

definition sample_tail :: stream_frame where
  "sample_tail = \<lparr>stf_id = 4, stf_offset = 70000, stf_fin = True, stf_data = [7, 8]\<rparr>"

theorem payload_roundtrip_witness:
  "\<exists>p it. payload_encode 1200 sample_frames (Some sample_tail) = Some p \<and> iter_new p = Some it \<and>
    read_frames it = map Inr (sample_frames @ [FStream sample_tail])"
proof -
  have "list_all (\<lambda>f. frame_ok f \<and> close_fits 1200 f) sample_frames"
    by (simp add: sample_frames_def close_fits_def ranges_ok_def ars_max_def is_varint_def ecn_ok_def data_ok_def)
  moreover have "frame_ok (FStream sample_tail)" by (simp add: sample_tail_def is_varint_def data_ok_def)
  ultimately show ?thesis using payload_roundtrip [of 1200 sample_frames "Some sample_tail"] by simp
qed

lemma try_next_sound:
  assumes "try_next it = (Inr f, it')" and "length (it_bytes it) \<le> 2 ^ 62"
  shows "frame_ok f"
proof -
  obtain t b b' where b: "length b < length (it_bytes it)" "frame_read t b = Inr (f, b')"
    using assms(1) by (auto simp: try_next_def get_def Let_def simp del: frame_read.simps split: option.splits sum.splits maybe_frame.splits
        dest!: maybe_frame_decode_shorter)
  then show ?thesis using reads_frame [of "length (it_bytes it)" t] assms(2) unfolding reads_def by blast
qed

lemma read_frames_sound:
  "length (it_bytes it) \<le> 2 ^ 62 \<Longrightarrow>
   \<exists>fs es. read_frames it = map Inr fs @ map Inl es \<and> list_all frame_ok fs \<and> length es \<le> 1 \<and> length fs + length es \<le> length (it_bytes it)"
proof (induction it rule: read_frames.induct)
  case (1 it)
  obtain res it' where n: "iter_next it = (res, it')" by (cases "iter_next it")
  show ?case
  proof (cases res)
    case None
    then show ?thesis by (subst read_frames.simps) (simp add: n)
  next
    case (Some x)
    note shorter = iter_next_shorter [OF n [unfolded Some]]
    have l: "length (it_bytes it') \<le> 2 ^ 62" using shorter 1(2) by simp
    have step: "read_frames it = x # read_frames it'" by (subst read_frames.simps) (simp add: n Some)
    obtain fs es where ih: "read_frames it' = map Inr fs @ map Inl es" "list_all frame_ok fs" "length es \<le> 1"
      "length fs + length es \<le> length (it_bytes it')"
      using 1(1) [OF n [symmetric] Some l] by blast
    show ?thesis
    proof (cases x)
      case (Inl e)
      then have "it_bytes it' = []" using n Some by (auto simp: iter_next_def split: if_splits prod.splits sum.splits)
      then have "fs = []" "es = []" using ih(4) by simp_all
      then show ?thesis using ih(1) step Inl shorter by (intro exI [of _ "[]"] exI [of _ "[e]"]) simp
    next
      case (Inr f)
      then have "try_next it = (Inr f, it')" using n Some by (auto simp: iter_next_def split: if_splits prod.splits sum.splits)
      then have "frame_ok f" using 1(2) by (rule try_next_sound)
      then show ?thesis using ih step Inr shorter by (intro exI [of _ "f # fs"] exI [of _ es]) simp
    qed
  qed
qed

text \<open>
  C12. Whatever bytes arrive in a packet, reading them ends, and what is read is in order: the iterator returns
  frames whose fields are all in range, and after them at most one error, which is the last thing it returns. Numbers fit
  variable-length integers, the ranges of an acknowledgement are ordered and apart and end at the number the frame
  calls the largest, identifiers have a legal length and retire no later identifier than their own, and there are no
  more frames than bytes.
\<close>

theorem any_payload_read_safely:
  assumes "iter_new payload = Some it" and "length payload \<le> 2 ^ 62"
  shows "\<exists>fs es. read_frames it = map Inr fs @ map Inl es \<and> list_all frame_ok fs \<and> length es \<le> 1 \<and>
    length fs + length es \<le> length payload"
proof -
  have "it_bytes it = payload" using assms(1) by (auto simp: iter_new_def split: if_splits)
  then show ?thesis using read_frames_sound [of it] assms(2) by simp
qed

theorem any_payload_read_safely_witness:
  "\<exists>fs es. read_frames \<lparr>it_bytes = [1, 0x40], it_last_ty = MfNone\<rparr> = map Inr fs @ map Inl es \<and> list_all frame_ok fs \<and>
    length es \<le> 1 \<and> length fs + length es \<le> length ([1, 0x40] :: bytes)"
proof (rule any_payload_read_safely)
  show "iter_new [1, 0x40] = Some \<lparr>it_bytes = [1, 0x40], it_last_ty = MfNone\<rparr>" by (simp add: iter_new_def)
qed simp

text \<open>
  The space reserved for a close frame counts one byte for the type and two for the error code, so a large application error
  code makes the frame longer than the space it was given.
\<close>

lemma close_may_exceed_max_len:
  "map_option length (application_close_encode 4 \<lparr>apc_error_code = 0x40000000, apc_reason = [1]\<rparr>) = Some 10"
  by (simp add: application_close_encode_def usize_sub_def varint_size_def varint_encode_def write_var_def varint_from_u64_def put_slice_def
      frame_type_encode_def put_be_def u8_encode_def u64_encode_def Let_def)

end
