(* ===== verification/Quic_FrameSize.thy ===== *)
theory Quic_FrameSize
  imports Quic_FrameSafety
begin

section \<open>QUIC: the sizes of frames\<close>

text \<open>
  The sizes and the bounds on sizes that \<^verbatim>\<open>tom-quinn-proto/src/frame.rs\<close> declares for its frames. The packet
  builder adds a frame only where the space left is at least the bound, so an encoding longer than its bound would
  overrun the packet.
\<close>

subsection \<open>Sizes\<close>

text \<open>The sizes are computed from numbers below \<open>2 ^ 62\<close>, for which the size of the encoding is defined.\<close>

definition type_len :: "frame_type \<Rightarrow> nat" where "type_len t = the (frame_type_size t)"

definition var_len :: "u64 \<Rightarrow> nat" where "var_len x = the (varint_size x)"

definition retire_size_bound :: "bool \<Rightarrow> nat" where
  "retire_size_bound multipath =
     (if multipath then type_len FtPathRetireConnectionId + var_len 0xffffffff + 8 else type_len FtRetireConnectionId + 8)"

definition new_cid_size_bound :: "bool \<Rightarrow> nat \<Rightarrow> nat" where
  "new_cid_size_bound multipath cid_len =
     (let upper_bound =
        (if multipath then type_len FtPathNewConnectionId + var_len 0xffffffff + 8 + 8 + 1 + 160 + 16
         else type_len FtNewConnectionId + 8 + 8 + 1 + 160 + 16)
      in upper_bound - 160 + cid_len)"

definition new_token_size :: "bytes \<Rightarrow> nat" where
  "new_token_size token = 1 + var_len (of_nat (length token)) + length token"

definition datagram_size :: "bool \<Rightarrow> bytes \<Rightarrow> nat" where
  "datagram_size with_length d = 1 + (if with_length then var_len (of_nat (length d)) else 0) + length d"

definition address_size :: "frame_type \<Rightarrow> address_frame \<Rightarrow> nat" where
  "address_size t f = type_len t + var_len (adf_number f) + (if is_ipv6 (adf_ip f) then 16 else 4) + 2"

definition observed_addr_size :: "address_frame \<Rightarrow> nat" where
  "observed_addr_size f = address_size (observed_addr_type f) f"

definition add_address_size :: "address_frame \<Rightarrow> nat" where
  "add_address_size f = address_size (add_address_type f) f"

definition reach_out_size :: "address_frame \<Rightarrow> nat" where
  "reach_out_size f = address_size (reach_out_type f) f"

definition remove_address_size :: "u64 \<Rightarrow> nat" where
  "remove_address_size n = type_len FtRemoveAddress + var_len n"

text \<open>
  \<open>NewConnectionId\<close> has two bounds: the functions above, which the packet builder uses, and this one of its
  \<open>FrameStruct\<close> instance, which leaves no room for a path identifier.
\<close>

definition NEW_CONNECTION_ID_SIZE_BOUND :: nat where
  "NEW_CONNECTION_ID_SIZE_BOUND = 1 + 8 + 8 + 1 + MAX_CID_SIZE + RESET_TOKEN_SIZE"

definition DATAGRAM_SIZE_BOUND :: nat where "DATAGRAM_SIZE_BOUND = 1 + 8"
definition CONNECTION_CLOSE_SIZE_BOUND :: nat where "CONNECTION_CLOSE_SIZE_BOUND = 1 + 8 + 8 + 8"
definition APPLICATION_CLOSE_SIZE_BOUND :: nat where "APPLICATION_CLOSE_SIZE_BOUND = 1 + 8 + 8"
definition STREAM_SIZE_BOUND :: nat where "STREAM_SIZE_BOUND = 1 + 8 + 8 + 8"
definition CRYPTO_SIZE_BOUND :: nat where "CRYPTO_SIZE_BOUND = 17"
definition RESET_STREAM_SIZE_BOUND :: nat where "RESET_STREAM_SIZE_BOUND = 1 + 8 + 8 + 8"
definition STOP_SENDING_SIZE_BOUND :: nat where "STOP_SENDING_SIZE_BOUND = 1 + 8 + 8"
definition PATH_CHALLENGE_SIZE_BOUND :: nat where "PATH_CHALLENGE_SIZE_BOUND = 9"
definition PATH_RESPONSE_SIZE_BOUND :: nat where "PATH_RESPONSE_SIZE_BOUND = 9"
definition MAX_PATH_ID_SIZE_BOUND :: nat where "MAX_PATH_ID_SIZE_BOUND = type_len FtMaxPathId + var_len 0xffffffff"
definition PATHS_BLOCKED_SIZE_BOUND :: nat where "PATHS_BLOCKED_SIZE_BOUND = type_len FtPathsBlocked + var_len 0xffffffff"
definition PATH_CIDS_BLOCKED_SIZE_BOUND :: nat where
  "PATH_CIDS_BLOCKED_SIZE_BOUND = type_len FtPathCidsBlocked + var_len 0xffffffff + var_len VARINT_MAX"
definition PATH_ABANDON_SIZE_BOUND :: nat where "PATH_ABANDON_SIZE_BOUND = type_len FtPathAbandon + 8 + 8"
definition PATH_STATUS_SIZE_BOUND :: nat where "PATH_STATUS_SIZE_BOUND = type_len FtPathStatusAvailable + 8 + 8"

definition ADD_ADDRESS_SIZE_BOUND :: nat where
  "ADD_ADDRESS_SIZE_BOUND =
     add_address_size \<lparr>adf_number = VARINT_MAX, adf_ip = V6 (replicate 15 0 @ [1]), adf_port = 0xffff\<rparr>"

definition REACH_OUT_SIZE_BOUND :: nat where
  "REACH_OUT_SIZE_BOUND =
     reach_out_size \<lparr>adf_number = VARINT_MAX, adf_ip = V6 (replicate 15 0 @ [1]), adf_port = 0xffff\<rparr>"

definition REMOVE_ADDRESS_SIZE_BOUND :: nat where "REMOVE_ADDRESS_SIZE_BOUND = remove_address_size VARINT_MAX"

text \<open>
  The bound for each frame that has one. The bounds of frames that carry data are for what comes before the data.
\<close>

fun size_limit :: "frame \<Rightarrow> nat option" where
  "size_limit (FPathChallenge _) = Some PATH_CHALLENGE_SIZE_BOUND"
| "size_limit (FPathResponse _) = Some PATH_RESPONSE_SIZE_BOUND"
| "size_limit (FRetireConnectionId f) = Some (retire_size_bound (rci_path_id f \<noteq> None))"
| "size_limit (FClose (CloseConnection c)) = Some (CONNECTION_CLOSE_SIZE_BOUND + length (cc_reason c))"
| "size_limit (FClose (CloseApplication c)) = Some (APPLICATION_CLOSE_SIZE_BOUND + length (apc_reason c))"
| "size_limit (FStream f) = Some (STREAM_SIZE_BOUND + length (stf_data f))"
| "size_limit (FCrypto f) = Some (CRYPTO_SIZE_BOUND + length (cry_data f))"
| "size_limit (FResetStream _) = Some RESET_STREAM_SIZE_BOUND"
| "size_limit (FStopSending _) = Some STOP_SENDING_SIZE_BOUND"
| "size_limit (FNewConnectionId f) =
     Some (if nci_path_id f = None then min (new_cid_size_bound False (length (nci_id f))) NEW_CONNECTION_ID_SIZE_BOUND
           else new_cid_size_bound True (length (nci_id f)))"
| "size_limit (FNewToken t) = Some (new_token_size t)"
| "size_limit (FDatagram d) = Some (min (datagram_size True d) (DATAGRAM_SIZE_BOUND + length d))"
| "size_limit (FMaxPathId _) = Some MAX_PATH_ID_SIZE_BOUND"
| "size_limit (FPathsBlocked _) = Some PATHS_BLOCKED_SIZE_BOUND"
| "size_limit (FPathCidsBlocked _) = Some PATH_CIDS_BLOCKED_SIZE_BOUND"
| "size_limit (FPathAbandon _) = Some PATH_ABANDON_SIZE_BOUND"
| "size_limit (FPathStatusAvailable _) = Some PATH_STATUS_SIZE_BOUND"
| "size_limit (FObservedAddr f) = Some (observed_addr_size f)"
| "size_limit (FAddAddress f) = Some (min (add_address_size f) ADD_ADDRESS_SIZE_BOUND)"
| "size_limit (FReachOut f) = Some (min (reach_out_size f) REACH_OUT_SIZE_BOUND)"
| "size_limit (FRemoveAddress n) = Some (min (remove_address_size n) REMOVE_ADDRESS_SIZE_BOUND)"
| "size_limit _ = None"

subsection \<open>The encodings keep to them\<close>

lemma length_varint_bytes: "is_varint x \<Longrightarrow> length (varint_bytes x) = var_len x"
  by (simp add: is_varint_def var_len_def)

lemma var_len_le: "is_varint x \<Longrightarrow> var_len x \<le> 8"
  by (simp add: is_varint_def var_len_def varint_size_def)

lemma type_len_code: "type_len t = var_len (frame_type_to_u64 t)"
  by (simp add: type_len_def var_len_def frame_type_size_def)

lemma plain_len:
  "type_len FtPathRetireConnectionId = 2" "type_len FtRetireConnectionId = 1" "type_len FtPathNewConnectionId = 2"
  "type_len FtNewConnectionId = 1" "type_len FtMaxPathId = 2" "type_len FtPathsBlocked = 2" "type_len FtPathCidsBlocked = 2"
  "type_len FtPathAbandon = 2" "type_len FtPathStatusAvailable = 2" "type_len FtPathStatusBackup = 2"
  "type_len FtPathChallenge = 1" "type_len FtPathResponse = 1" "type_len FtResetStream = 1" "type_len FtStopSending = 1"
  "type_len FtCrypto = 1" "type_len FtNewToken = 1" "type_len FtConnectionClose = 1" "type_len FtApplicationClose = 1"
  "type_len (FtDatagram 49) = 1"
  "var_len 0xffffffff = 8" "var_len VARINT_MAX = 8"
  by (simp_all add: type_len_def var_len_def frame_type_size_def varint_size_def VARINT_MAX_def)

lemma varint_bytes_le: "length (varint_bytes x) \<le> 8"
  by (simp add: varint_bytes_def varint_encode_def u8_encode_def u16_encode_def u32_encode_def u64_encode_def)

lemma encode_len:
  "varint_encode x = Some b \<Longrightarrow> length b \<le> 8" "write_var x = Some b \<Longrightarrow> length b \<le> 8"
  "stream_id_encode x = Some b \<Longrightarrow> length b \<le> 8" "error_code_encode x = Some b \<Longrightarrow> length b \<le> 8"
  "path_id_encode p = Some b \<Longrightarrow> length b \<le> 8" "maybe_frame_encode m = Some b \<Longrightarrow> length b \<le> 8"
proof -
  have v: "varint_encode x = Some b \<Longrightarrow> length b \<le> 8" for x b
    using varint_bytes_le [of x] by (simp add: varint_bytes_def)
  have w: "write_var x = Some b \<Longrightarrow> length b \<le> 8" for x b
    using v by (auto simp: write_var_def split: option.splits)
  show "varint_encode x = Some b \<Longrightarrow> length b \<le> 8" "write_var x = Some b \<Longrightarrow> length b \<le> 8" by (fact v, fact w)
  show "stream_id_encode x = Some b \<Longrightarrow> length b \<le> 8" using v by (auto simp: stream_id_encode_def split: option.splits)
  show "error_code_encode x = Some b \<Longrightarrow> length b \<le> 8" using w by (simp add: error_code_encode_def)
  show "path_id_encode p = Some b \<Longrightarrow> length b \<le> 8" using v by (simp add: path_id_encode_def)
  show "maybe_frame_encode m = Some b \<Longrightarrow> length b \<le> 8"
    using w varint_bytes_le by (auto simp: maybe_frame_encode_def frame_type_encode_def split: maybe_frame.splits)
qed

lemma exact_len:
  "varint_encode x = Some b \<Longrightarrow> length b = var_len x"
  "write_var x = Some b \<Longrightarrow> length b = var_len x"
  "frame_type_encode t = Some b \<Longrightarrow> length b = type_len t"
  "ip_ok i \<Longrightarrow> ip_encode i = Some b \<Longrightarrow> length b = (if is_ipv6 i then 16 else 4)"
proof -
  have v: "varint_encode x = Some b \<Longrightarrow> length b = var_len x" for x b
    by (auto simp: varint_encode_def var_len_def varint_size_def u8_encode_def u16_encode_def u32_encode_def u64_encode_def
        split: if_splits)
  have w: "write_var x = Some b \<Longrightarrow> length b = var_len x" for x b
    using v by (auto simp: write_var_def varint_from_u64_def split: option.splits if_splits)
  show "varint_encode x = Some b \<Longrightarrow> length b = var_len x" "write_var x = Some b \<Longrightarrow> length b = var_len x"
    "frame_type_encode t = Some b \<Longrightarrow> length b = type_len t"
    using v w by (simp_all add: frame_type_encode_def type_len_code)
  show "ip_ok i \<Longrightarrow> ip_encode i = Some b \<Longrightarrow> length b = (if is_ipv6 i then 16 else 4)"
    by (auto simp: ip_ok_def ip_encode_def is_ipv6_def ipv4_encode_def ipv6_encode_def split: ip_addr.splits)
qed

lemma cat_SomeE:
  assumes "cat (x # xs) = Some b"
  obtains a c where "x = Some a" "cat xs = Some c" "b = a @ c"
  using assms by (auto split: option.splits)

lemma address_len:
  assumes "ip_ok (adf_ip f)"
    and "cat [frame_type_encode t, varint_encode (adf_number f), ip_encode (adf_ip f), Some (u16_encode (adf_port f))] = Some b"
  shows "length b = address_size t f"
  using assms(2) by (auto elim!: cat_SomeE simp: address_size_def u16_encode_def exact_len(4) [OF assms(1)]
      simp del: cat.simps(2) dest!: exact_len(1,3))

lemmas frame_encoders =
  path_challenge_encode_def path_response_encode_def retire_connection_id_encode_def crypto_encode_def reset_stream_encode_def
  stop_sending_encode_def new_connection_id_encode_def new_token_encode_def datagram_encode_def max_path_id_encode_def
  paths_blocked_encode_def path_cids_blocked_encode_def path_abandon_encode_def path_status_available_encode_def
  remove_address_encode_def

lemmas frame_limits =
  PATH_CHALLENGE_SIZE_BOUND_def PATH_RESPONSE_SIZE_BOUND_def retire_size_bound_def CRYPTO_SIZE_BOUND_def
  RESET_STREAM_SIZE_BOUND_def STOP_SENDING_SIZE_BOUND_def new_cid_size_bound_def new_token_size_def datagram_size_def
  DATAGRAM_SIZE_BOUND_def MAX_PATH_ID_SIZE_BOUND_def PATHS_BLOCKED_SIZE_BOUND_def PATH_CIDS_BLOCKED_SIZE_BOUND_def
  PATH_ABANDON_SIZE_BOUND_def PATH_STATUS_SIZE_BOUND_def remove_address_size_def REMOVE_ADDRESS_SIZE_BOUND_def

definition within_limit :: "nat \<Rightarrow> frame \<Rightarrow> bool" where
  "within_limit ml f \<longleftrightarrow>
     (\<forall>b n. frame_encode ml True f = Some b \<longrightarrow> size_limit f = Some n \<longrightarrow> length b \<le> n)"

lemma fixed_frames_within:
  "within_limit ml (FPathChallenge x)" "within_limit ml (FPathResponse x)" "within_limit ml (FResetStream f1)"
  "within_limit ml (FStopSending f2)" "within_limit ml (FMaxPathId p)" "within_limit ml (FPathsBlocked p)"
  "within_limit ml (FPathCidsBlocked f3)" "within_limit ml (FPathAbandon f4)" "within_limit ml (FPathStatusAvailable f3)"
  by (auto simp: within_limit_def frame_encoders frame_limits plain_len u64_encode_def
      simp del: cat.simps(2) elim!: cat_SomeE dest!: encode_len exact_len(3))

lemma var_len_bound: "var_len (of_nat (length d)) \<le> 8" if "data_ok d"
  using that by (intro var_len_le small_varint) (simp add: data_ok_def unat_of_nat)

lemma data_frames_within:
  "within_limit ml (FCrypto f1)" "within_limit ml (FNewToken t)" "data_ok d \<Longrightarrow> within_limit ml (FDatagram d)"
proof -
  show "within_limit ml (FCrypto f1)"
    by (auto simp: within_limit_def frame_encoders frame_limits plain_len put_slice_def
        simp del: cat.simps(2) elim!: cat_SomeE dest!: exact_len(3) encode_len(2))
  show "within_limit ml (FNewToken t)"
    by (auto simp: within_limit_def frame_encoders frame_limits plain_len put_slice_def
        simp del: cat.simps(2) elim!: cat_SomeE dest!: exact_len(2,3))
  show "data_ok d \<Longrightarrow> within_limit ml (FDatagram d)"
    by (auto simp: within_limit_def frame_encoders frame_limits plain_len put_slice_def
        simp del: cat.simps(2) elim!: cat_SomeE dest!: exact_len(2,3) dest: var_len_bound)
qed

lemma cid_frames_within:
  "within_limit ml (FRetireConnectionId f1)"
  "frame_ok (FNewConnectionId f2) \<Longrightarrow> within_limit ml (FNewConnectionId f2)"
  by (auto simp: within_limit_def frame_encoders frame_limits plain_len retire_type_def new_cid_type_def put_slice_def
      u8_encode_def RESET_TOKEN_SIZE_def MAX_CID_SIZE_def NEW_CONNECTION_ID_SIZE_BOUND_def
      simp del: cat.simps(2) elim!: cat_SomeE dest!: encode_len exact_len(3) split: option.splits)

lemma address_bound:
  assumes "is_varint (adf_number f)" "type_len t \<le> 4"
  shows "address_size t f \<le> 4 + 8 + 16 + 2"
  using assms var_len_le [of "adf_number f"] by (auto simp: address_size_def)

lemma address_types_len:
  "type_len FtAddIpv4Address = 4" "type_len FtAddIpv6Address = 4" "type_len FtReachOutAtIpv4 = 4" "type_len FtReachOutAtIpv6 = 4"
  "type_len FtRemoveAddress = 4"
  by (simp_all add: type_len_def frame_type_size_def varint_size_def)

lemma address_frames_within:
  "frame_ok (FObservedAddr f) \<Longrightarrow> within_limit ml (FObservedAddr f)"
  "frame_ok (FAddAddress f) \<Longrightarrow> within_limit ml (FAddAddress f)"
  "frame_ok (FReachOut f) \<Longrightarrow> within_limit ml (FReachOut f)"
  "frame_ok (FRemoveAddress n) \<Longrightarrow> within_limit ml (FRemoveAddress n)"
proof -
  show "frame_ok (FObservedAddr f) \<Longrightarrow> within_limit ml (FObservedAddr f)"
    by (auto simp: within_limit_def observed_addr_encode_def observed_addr_size_def dest!: address_len simp del: cat.simps(2))
  have b: "ADD_ADDRESS_SIZE_BOUND = 30" "REACH_OUT_SIZE_BOUND = 30"
    by (simp_all add: ADD_ADDRESS_SIZE_BOUND_def REACH_OUT_SIZE_BOUND_def add_address_size_def reach_out_size_def address_size_def
        add_address_type_def reach_out_type_def is_ipv6_def address_types_len plain_len)
  have t: "type_len (add_address_type f) \<le> 4" "type_len (reach_out_type f) \<le> 4"
    by (simp_all add: add_address_type_def reach_out_type_def address_types_len)
  show "frame_ok (FAddAddress f) \<Longrightarrow> within_limit ml (FAddAddress f)"
    using address_bound [of f, OF _ t(1)]
    by (auto simp: within_limit_def add_address_encode_def add_address_size_def b dest!: address_len simp del: cat.simps(2))
  show "frame_ok (FReachOut f) \<Longrightarrow> within_limit ml (FReachOut f)"
    using address_bound [of f, OF _ t(2)]
    by (auto simp: within_limit_def reach_out_encode_def reach_out_size_def b dest!: address_len simp del: cat.simps(2))
  show "frame_ok (FRemoveAddress n) \<Longrightarrow> within_limit ml (FRemoveAddress n)"
    using var_len_le [of n]
    by (auto simp: within_limit_def frame_encoders frame_limits address_types_len plain_len
        simp del: cat.simps(2) elim!: cat_SomeE dest!: exact_len(1,3))
qed

lemma close_within: "within_limit ml (FClose c)"
  by (cases c) (auto simp: within_limit_def close_encode_def connection_close_encode_def application_close_encode_def
      CONNECTION_CLOSE_SIZE_BOUND_def APPLICATION_CLOSE_SIZE_BOUND_def plain_len put_slice_def Let_def
      simp del: cat.simps(2) elim!: cat_SomeE split: option.splits if_splits dest!: encode_len exact_len(3))

lemma stream_within: "within_limit ml (FStream f)"
proof -
  let ?m = "\<lparr>smt_id = stf_id f, smt_offsets = rng (stf_offset f) (stf_offset f + of_nat (length (stf_data f))), smt_fin = stf_fin f\<rparr>"
  have "stream_meta_type True ?m \<in> {8, 9, 10, 11, 12, 13, 14, 15}"
    using stream_type_bits(4) [of True ?m] by (intro stream_types) (simp_all add: type_ok_def)
  then have t: "var_len (ucast (stream_meta_type True ?m)) = 1" by (auto simp: var_len_def varint_size_def)
  show ?thesis
  proof (unfold within_limit_def, intro allI impI)
    fix b n
    assume "frame_encode ml True (FStream f) = Some b" "size_limit (FStream f) = Some n"
    then obtain h i x l where e: "write_var (ucast (stream_meta_type True ?m)) = Some h" "stream_id_encode (stf_id f) = Some i"
      "(if stf_offset f \<noteq> 0 then write_var (stf_offset f) else Some []) = Some x"
      "write_var (of_nat (length (stf_data f))) = Some l" "b = h @ i @ x @ l @ stf_data f" "n = 25 + length (stf_data f)"
      by (auto simp: stream_encode_def stream_meta_encode_def put_slice_def STREAM_SIZE_BOUND_def
          simp del: cat.simps(2) elim!: cat_SomeE cong del: if_weak_cong)
    have "length h = 1" using exact_len(2) [OF e(1)] t by simp
    moreover have "length x \<le> 8" using e(3) encode_len(2) [of "stf_offset f" x] by (auto split: if_splits)
    ultimately show "length b \<le> n" using encode_len(3) [OF e(2)] encode_len(2) [OF e(4)] e(5,6) by simp
  qed
qed

lemma every_frame_within: "frame_ok f \<Longrightarrow> within_limit ml f"
  by (cases f) (simp_all only: fixed_frames_within data_frames_within cid_frames_within address_frames_within close_within
      stream_within, simp_all add: within_limit_def data_frames_within [unfolded within_limit_def])

text \<open>
  C39. The space the packet builder asks for is enough: a frame whose fields are in range is encoded in at most as many
  bytes as its declared size or size bound, for each of the twenty-one kinds of frame that have one, the data of frames that
  carry data counted on top of the bound. The one bound left out is that of the \<open>FrameStruct\<close> instance
  of \<open>NewConnectionId\<close> for frames with a path identifier, which do not keep to it.
\<close>

theorem frames_within_bounds:
  assumes "frame_ok f" and "frame_encode max_len True f = Some b" and "size_limit f = Some n"
  shows "length b \<le> n"
  using every_frame_within [OF assms(1)] assms(2,3) by (simp add: within_limit_def)

theorem frames_within_bounds_witness:
  "\<exists>b. frame_encode 1200 True (FRetireConnectionId \<lparr>rci_path_id = Some 7, rci_sequence = 300\<rparr>) = Some b \<and> length b \<le> 18"
proof -
  let ?f = "FRetireConnectionId \<lparr>rci_path_id = Some 7, rci_sequence = 300\<rparr>"
  have ok: "frame_ok ?f" by (simp add: is_varint_def)
  obtain b where b: "frame_encode 1200 True ?f = Some b"
    using frame_carried [OF ok, of 1200] by (auto simp: carried_def close_fits_def simp del: frame_encode.simps)
  have "size_limit ?f = Some 18" by (simp add: retire_size_bound_def plain_len)
  from frames_within_bounds [OF ok b this] show ?thesis using b by blast
qed

text \<open>
  A frame with a path identifier can be two bytes longer than the bound of the \<open>FrameStruct\<close> instance; the
  bound of the packet builder for such frames is large enough.
\<close>

definition multipath_cid_frame :: new_connection_id where
  "multipath_cid_frame =
     \<lparr>nci_path_id = Some 1, nci_sequence = 0x40000000, nci_retire_prior_to = 0x40000000, nci_id = replicate 20 0,
      nci_reset_token = replicate 16 0\<rparr>"

lemma multipath_cid_exceeds:
  "frame_ok (FNewConnectionId multipath_cid_frame) \<and>
   map_option length (new_connection_id_encode multipath_cid_frame) = Some 56 \<and>
   NEW_CONNECTION_ID_SIZE_BOUND = 54 \<and> new_cid_size_bound True 20 = 63"
  by (simp add: multipath_cid_frame_def new_connection_id_encode_def new_cid_type_def frame_type_encode_def path_id_encode_def
      write_var_def varint_from_u64_def varint_encode_def u8_encode_def u16_encode_def u64_encode_def put_slice_def
      NEW_CONNECTION_ID_SIZE_BOUND_def MAX_CID_SIZE_def RESET_TOKEN_SIZE_def is_varint_def new_cid_size_bound_def plain_len)

end
