(* ===== verification/Spec2Isabelle.thy ===== *)
theory Spec2Isabelle
  imports Tom_Router Tom_Tracker Tom_Topology Tom_HubSafety Tom_HubBounds Tom_MemberSafety
    Tom_BackupSafety Tom_Election Tom_Discovery Tom_SubnetSafety Tom_Roles Tom_NodeRuns
    Quic_FrameSize
begin

text \<open>
  A verification development for the ToM protocol, a peer-to-peer messenger in Rust. A node runs the
  state machine of the crate \<^verbatim>\<open>tom-protocol\<close> over connections of the QUIC engine \<^verbatim>\<open>tom-quinn-proto\<close>;
  these two crates are the subject.

  \<^bold>\<open>The program and how its parts interact.\<close> A node is a record of components that share nothing
  (\<^verbatim>\<open>runtime/state.rs\<close>). Its event loop (\<^verbatim>\<open>runtime/loop.rs\<close>) takes one input at a time: an envelope from the
  network, a command of the application, a timer tick, news from gossip. The pure functions of the
  runtime turn the input into calls of the components and a list of effects, and the executor
  (\<^verbatim>\<open>runtime/executor.rs\<close>) performs the effects: it sends envelopes with retries and reports to the application.
  An \<^emph>\<open>envelope\<close> is signed and encrypted end to end and travels over a chain of relays; the \<^emph>\<open>router\<close> of each node decides
  whether to deliver, forward or drop it, and acknowledges; the \<^emph>\<open>tracker\<close> of the sender follows its
  status and deadlines; a message for an offline recipient waits in the \<^emph>\<open>backup store\<close>. \<^emph>\<open>Groups\<close> have a
  \<^emph>\<open>hub\<close>, a node that checks and numbers the messages and sends them to the members, and each member a
  \<^emph>\<open>manager\<close> with the keys of the senders. \<^emph>\<open>Discovery\<close> turns heartbeats into the table of peers, from which
  relays are selected, hubs elected, and subnets formed; \<^emph>\<open>roles\<close> scores peers and limits their rate.

  \<^bold>\<open>Which theory models which file\<close> (under \<^verbatim>\<open>crates/tom-protocol/src\<close> unless said otherwise).
  \<^item> \<open>Tom_Prelude\<close>: words, hash maps, clocks, and the interfaces as locales: a machine driven by events with an
    invariant (\<open>event_machine\<close>), one with a counter (\<open>counted_machine\<close>), one that refines another
    (\<open>refined_machine\<close>), and a filter against replays (\<open>replay_filter\<close>). Each is interpreted on the
    operations of the components. \<open>Tom_Float\<close>: the doubles of the scores. \<open>Tom_Countable\<close>: concrete serialisers for witnesses.
  \<^item> \<open>Tom_Types\<close> (\<^verbatim>\<open>types.rs\<close>, \<^verbatim>\<open>error.rs\<close>), \<open>Tom_Crypto\<close> (\<^verbatim>\<open>crypto.rs\<close>), \<open>Tom_Envelope\<close> (\<^verbatim>\<open>envelope.rs\<close>),
    \<open>Tom_Router\<close> (\<^verbatim>\<open>router.rs\<close>), \<open>Tom_Tracker\<close> (\<^verbatim>\<open>tracker.rs\<close>), \<open>Tom_Topology\<close> (\<^verbatim>\<open>relay.rs\<close>).
  \<^item> \<open>Tom_GroupTypes\<close>, \<open>Tom_GroupHub\<close>, \<open>Tom_GroupManager\<close>, \<open>Tom_Election\<close> (\<^verbatim>\<open>group/\<close>), with the properties in
    \<open>Tom_HubSafety\<close>, \<open>Tom_HubBounds\<close> and \<open>Tom_MemberSafety\<close>.
  \<^item> \<open>Tom_Backup\<close>, \<open>Tom_BackupSafety\<close> (\<^verbatim>\<open>backup/\<close>); \<open>Tom_Discovery\<close>, \<open>Tom_Subnet\<close>, \<open>Tom_SubnetSafety\<close>
    (\<^verbatim>\<open>discovery/\<close>); \<open>Tom_Roles\<close> (\<^verbatim>\<open>roles/\<close>); \<open>Tom_Storage\<close> (\<^verbatim>\<open>storage/\<close>).
  \<^item> \<open>Tom_RuntimeTypes\<close>, \<open>Tom_Runtime\<close> (\<^verbatim>\<open>runtime/state.rs\<close>, \<^verbatim>\<open>effect.rs\<close>, \<^verbatim>\<open>mod.rs\<close>), \<open>Tom_Executor\<close>
    (\<^verbatim>\<open>runtime/executor.rs\<close>, \<^verbatim>\<open>metrics.rs\<close>, \<^verbatim>\<open>loop.rs\<close>), with the properties in \<open>Tom_RuntimeSafety\<close>,
    \<open>Tom_RuntimeDelivery\<close> and \<open>Tom_NodeRuns\<close>.
  \<^item> From \<^verbatim>\<open>crates/tom-quinn-proto/src\<close>: \<open>Quic_Coding\<close> (\<^verbatim>\<open>coding.rs\<close>, \<^verbatim>\<open>varint.rs\<close>), \<open>Quic_RangeSet\<close>
    (\<^verbatim>\<open>range_set/array_range_set.rs\<close>), \<open>Quic_Frame\<close> (\<^verbatim>\<open>frame.rs\<close>) with the properties in \<open>Quic_FrameSafety\<close> and \<open>Quic_FrameSize\<close>.

  A struct is a record with a prefix of its own on the fields, an enum a datatype, a method a function that
  returns its result and the new state; a panic is \<open>None\<close>, an error \<open>Inl\<close>. A \<^verbatim>\<open>u64\<close>, \<^verbatim>\<open>u32\<close> or \<^verbatim>\<open>u8\<close> is a word of that width and
  wraps around as in an optimised build; a \<^verbatim>\<open>usize\<close> that counts elements in memory is a natural number.
  A hash map is an association list with distinct keys, whose order stands for the iteration order that
  the language leaves open. The clock is read once per call, and random values come from the context.

  \<^bold>\<open>What the theorems show.\<close>
  \<^item> Delivery: a chat message is kept, tracked, relayed, opened and acknowledged end to end
    (\<open>chat_end_to_end\<close>); relay chains are travelled in order and acknowledgements retrace them
    (\<open>chain_delivers\<close>, \<open>ack_retraces_chain\<close>); nothing is delivered twice within the deduplication time or
    suppressed falsely (\<open>deliver_once\<close>, \<open>new_message_delivered\<close>); forwarding ends and keeps the signature
    (\<open>forwarding_safe\<close>); without an acknowledgement there are two more attempts and then a failure
    (\<open>unacknowledged_message_fails\<close>); a status never goes back (\<open>status_never_regresses\<close>).
  \<^item> The whole node: started without a database and with timers of non-zero period, the loop does not
    panic for any inputs, and the invariants of the router, the peer table, the tracker, the hub, the group manager,
    the backup store, the heartbeat tracker, the role manager and the pending envelopes hold together, with those of
    the subnets for at most \<open>2 ^ 31\<close> calls and of the rate limiter's buckets for the default limits (\<open>node_runs\<close>); the envelopes for groups are understood by their recipients
    (\<open>group_envelopes_understood\<close>); handling what a node sends to itself ends (\<open>interception_ends\<close>).
  \<^item> Cryptography: envelopes open to their payload and the signature covers every field but itself and the hop count
    (\<open>encrypt_and_sign_opens\<close>, \<open>signing_bytes_cover\<close>), relative to the documented laws of the primitives.
  \<^item> Groups: who may change members and roles, what is broadcast and how often, growing numbers, bounded
    memory, rates, key rotation and epochs, restart, the election.
  \<^item> Backup, discovery, subnets, topology, roles, storage: a refinement of the store to a mailbox, exact
    characterisations of checks, selections and evaluations, partition into subnets, and saving and loading.
  \<^item> QUIC: a set of ranges behaves as a set of numbers (\<open>range_set_exact\<close>); every payload made of frames in
    range is read back exactly (\<open>payload_roundtrip\<close>), any bytes are read to the end into frames in range
    (\<open>any_payload_read_safely\<close>), and frames keep to their declared sizes (\<open>frames_within_bounds\<close>), with one exception
    (\<open>multipath_cid_exceeds\<close>).

  \<^bold>\<open>Bounds and fuel.\<close> No definition uses fuel. Loops are structural recursion, or recursion with a termination
  proof: a journey over relays by the falling hop count, the trimming of histories by the message counter, the
  growth of a subnet by its maximum size, the interception of a node's own group actions by a multiset ordering of its
  actions, and the reading of a payload because every frame takes at least one byte. Statements carry these bounds because the counters are
  machine words: fewer than \<open>2 ^ 64\<close> events where sequence numbers must not wrap (\<open>numbers_grow\<close>), a clock at least 330 seconds
  before the end of its 64 bits (\<open>fanout_sound\<close>), fewer than \<open>2 ^ 32 - 1\<close> messages in one second (\<open>rate_limit_exact\<close>), at most
  \<open>2 ^ 31\<close> calls of the subnet manager so that the number in the name of a subnet does not wrap (a call adds at most one edge, and an evaluation at
  most two subnets per edge), and payloads and data up to \<open>2 ^ 62\<close> bytes, the range of a
  variable-length integer. Other statements name the room they need in a bounded table, such as the tracker or the
  set of identifiers a hub has seen.

  \<^bold>\<open>Parameters.\<close> The cryptographic primitives, the serialisers, the LRU caches, the exponential function, the
  transport and the SQL engine belong to other crates. They are arguments, with the laws the code relies on as named
  predicates (such as \<open>aead_correct\<close>, \<open>codec_ok\<close>), and the witnesses instantiate them with concrete functions.

  \<^bold>\<open>Not modelled.\<close> The QUIC connection state machine, packets and their protection, streams,
  loss detection, congestion control and path discovery of \<^verbatim>\<open>tom-quinn-proto\<close> beyond the theories above; the asynchronous socket
  layers \<^verbatim>\<open>tom-quinn\<close>, \<^verbatim>\<open>tom-quinn-udp\<close>, \<^verbatim>\<open>tom-connect\<close> and \<^verbatim>\<open>tom-transport\<close>, the relay server and client
  \<^verbatim>\<open>tom-relay\<close> and the gossip crate \<^verbatim>\<open>tom-gossip\<close>, which are for the most part tasks around sockets; the DHT client, which wraps
  an external one; the gateway, the metrics exporter, the stress tool, the terminal interface and the foreign-function
  bindings, which are input and output; the applications, the TypeScript prototype and vendored crates. Within the modelled
  files, logging, formatting for display and plain accessors are left out.
\<close>

end
